(* ===== verification/Merlin_Prelude.thy ===== *)
theory Merlin_Prelude
  imports
    Complex_Main
    "HOL-Library.Char_ord"
    "HOL-Library.List_Lexorder"
    "HOL-Library.Multiset"
    "HOL-Library.Word"
begin

text \<open>
  Shared vocabulary of the development: the part of Go's \<open>strings\<close>, \<open>strconv\<close>, \<open>errors\<close>,
  \<open>time\<close> and \<open>context\<close> packages that the program uses, and the generic facts about them.

  A Go string is a sequence of bytes, and an Isabelle \<open>string\<close> is a list of 8-bit
  characters, so the two coincide. \<open>strings.ToLower\<close> and \<open>strings.TrimSpace\<close> are modelled
  on the ASCII range, which is all the program feeds them (host names, OS identifiers,
  severities, config values); bytes above 127 are left unchanged.

  An \<open>error\<close> is a value of the datatype \<open>goerr\<close>: the program's sentinels and error types,
  the error types of the packages it classifies, and the two ways of wrapping
  (\<open>fmt.Errorf\<close> with one wrapping verb, \<open>errors.Join\<close>). \<open>errors.Is\<close> and \<open>errors.As\<close> walk the
  wrapped errors in pre-order, as the standard library documents.
\<close>

named_theorems go_simps \<open>evaluation of the string and error operations\<close>

section \<open>Strings\<close>

definition has_prefix :: "string \<Rightarrow> string \<Rightarrow> bool" where
  "has_prefix s p \<longleftrightarrow> take (length p) s = p"

definition has_suffix :: "string \<Rightarrow> string \<Rightarrow> bool" where
  "has_suffix s p \<longleftrightarrow> length p \<le> length s \<and> drop (length s - length p) s = p"

definition trim_prefix :: "string \<Rightarrow> string \<Rightarrow> string" where
  "trim_prefix s p = (if has_prefix s p then drop (length p) s else s)"

definition trim_suffix :: "string \<Rightarrow> string \<Rightarrow> string" where
  "trim_suffix s p = (if has_suffix s p then take (length s - length p) s else s)"

text \<open>\<open>strings.Index\<close>: the position of the first occurrence, \<open>None\<close> for Go's -1.\<close>

fun str_index :: "string \<Rightarrow> string \<Rightarrow> nat option" where
  "str_index [] p = (if p = [] then Some 0 else None)"
| "str_index (c # cs) p =
     (if has_prefix (c # cs) p then Some 0 else map_option Suc (str_index cs p))"

definition str_contains :: "string \<Rightarrow> string \<Rightarrow> bool" where
  "str_contains s p \<longleftrightarrow> str_index s p \<noteq> None"

text \<open>\<open>strings.LastIndex\<close> for a one-byte separator.\<close>

fun last_index :: "string \<Rightarrow> char \<Rightarrow> nat option" where
  "last_index [] c = None"
| "last_index (x # xs) c =
     (case last_index xs c of
        Some i \<Rightarrow> Some (Suc i)
      | None \<Rightarrow> (if x = c then Some 0 else None))"

text \<open>\<open>strings.Cut\<close>.\<close>

definition str_cut :: "string \<Rightarrow> string \<Rightarrow> string \<times> string \<times> bool" where
  "str_cut s sep =
     (case str_index s sep of
        None \<Rightarrow> (s, [], False)
      | Some i \<Rightarrow> (take i s, drop (i + length sep) s, True))"

text \<open>\<open>strings.Split\<close> for a one-byte separator: never empty.\<close>

fun str_split :: "char \<Rightarrow> string \<Rightarrow> string list" where
  "str_split c [] = [[]]"
| "str_split c (x # xs) =
     (if x = c then [] # str_split c xs
      else (case str_split c xs of
              [] \<Rightarrow> [[x]]
            | w # ws \<Rightarrow> (x # w) # ws))"

fun str_join :: "string \<Rightarrow> string list \<Rightarrow> string" where
  "str_join sep [] = []"
| "str_join sep [x] = x"
| "str_join sep (x # y # ys) = x @ sep @ str_join sep (y # ys)"

definition lower_char :: "char \<Rightarrow> char" where
  "lower_char c = (let n = (of_char c :: nat) in
     if 65 \<le> n \<and> n \<le> 90 then char_of (n + 32) else c)"

definition upper_char :: "char \<Rightarrow> char" where
  "upper_char c = (let n = (of_char c :: nat) in
     if 97 \<le> n \<and> n \<le> 122 then char_of (n - 32) else c)"

definition to_lower :: "string \<Rightarrow> string" where
  "to_lower s = map lower_char s"

definition to_upper :: "string \<Rightarrow> string" where
  "to_upper s = map upper_char s"

definition is_space :: "char \<Rightarrow> bool" where
  "is_space c \<longleftrightarrow> (let n = (of_char c :: nat) in n = 32 \<or> 9 \<le> n \<and> n \<le> 13)"

definition trim_space :: "string \<Rightarrow> string" where
  "trim_space s = rev (dropWhile is_space (rev (dropWhile is_space s)))"

text \<open>\<open>strings.Trim\<close> with a one-byte cutset.\<close>

definition trim_char :: "char \<Rightarrow> string \<Rightarrow> string" where
  "trim_char c s = rev (dropWhile ((=) c) (rev (dropWhile ((=) c) s)))"

text \<open>Decimal rendering, as \<open>fmt\<close>'s \<open>%d\<close> does it.\<close>

fun fmt_nat :: "nat \<Rightarrow> string" where
  "fmt_nat n = (if n < 10 then [char_of (48 + n)]
                else fmt_nat (n div 10) @ [char_of (48 + n mod 10)])"

declare fmt_nat.simps [simp del]

definition fmt_int :: "int \<Rightarrow> string" where
  "fmt_int i = (if i < 0 then ''-'' @ fmt_nat (nat (- i)) else fmt_nat (nat i))"

text \<open>\<open>fmt\<close>'s \<open>%q\<close> on text without quotes, backslashes or control bytes.\<close>

definition fmt_q :: "string \<Rightarrow> string" where
  "fmt_q s = [CHR 0x22] @ s @ [CHR 0x22]"

definition newline :: string where
  "newline = [CHR 0x0A]"

subsection \<open>Facts about strings\<close>

lemma has_prefix_iff: "has_prefix s p \<longleftrightarrow> (\<exists>r. s = p @ r)"
proof
  assume "has_prefix s p"
  then have "s = p @ drop (length p) s"
    by (metis append_take_drop_id has_prefix_def)
  then show "\<exists>r. s = p @ r" ..
qed (auto simp: has_prefix_def)

lemma has_prefix_append [simp]: "has_prefix (p @ r) p"
  by (simp add: has_prefix_def)

lemma has_suffix_iff: "has_suffix s p \<longleftrightarrow> (\<exists>r. s = r @ p)"
proof
  assume "has_suffix s p"
  then have "s = take (length s - length p) s @ p"
    by (metis append_take_drop_id has_suffix_def)
  then show "\<exists>r. s = r @ p" ..
qed (auto simp: has_suffix_def)

lemma has_suffix_append [simp]: "has_suffix (r @ p) p"
  by (simp add: has_suffix_def)

lemma trim_prefix_append [simp]: "trim_prefix (p @ r) p = r"
  by (simp add: trim_prefix_def)

lemma trim_suffix_append [simp]: "trim_suffix (r @ p) p = r"
  by (simp add: trim_suffix_def)

lemma has_prefix_Nil [simp]: "has_prefix s []"
  by (simp add: has_prefix_def)

lemma has_prefix_Cons [simp]:
  "has_prefix (x # xs) (y # ys) \<longleftrightarrow> x = y \<and> has_prefix xs ys"
  by (simp add: has_prefix_def)

lemma has_prefix_empty [simp]: "has_prefix [] (y # ys) = False"
  by (simp add: has_prefix_def)

text \<open>
  \<open>str_index\<close> finds the first occurrence: the text splits there, and no earlier position
  carries the pattern.
\<close>

lemma str_index_Some:
  "str_index s p = Some i \<Longrightarrow> s = take i s @ p @ drop (i + length p) s"
proof (induction s arbitrary: i)
  case Nil
  then show ?case by (auto split: if_splits)
next
  case (Cons c cs)
  show ?case
  proof (cases "has_prefix (c # cs) p")
    case True
    with Cons.prems have "i = 0" by simp
    with True show ?thesis
      by (metis add_0 append_Nil append_take_drop_id has_prefix_def take_0)
  next
    case False
    with Cons.prems obtain j where j: "i = Suc j" "str_index cs p = Some j"
      by (auto split: option.splits)
    from Cons.IH [OF j(2)] j(1) show ?thesis by simp
  qed
qed

lemma str_index_least:
  "str_index s p = Some i \<Longrightarrow> k < i \<Longrightarrow> \<not> has_prefix (drop k s) p"
proof (induction s arbitrary: i k)
  case Nil
  then show ?case by (auto split: if_splits)
next
  case (Cons c cs)
  then show ?case by (cases k) (auto split: if_splits)
qed

lemma str_index_None:
  "str_index s p = None \<Longrightarrow> \<not> has_prefix (drop k s) p"
proof (induction s arbitrary: k)
  case Nil
  then show ?case by (cases p) (auto split: if_splits)
next
  case (Cons c cs)
  then show ?case by (cases k) (auto split: if_splits)
qed

lemma str_index_unique:
  assumes "s = a @ p @ b" and "\<And>k. k < length a \<Longrightarrow> \<not> has_prefix (drop k s) p"
  shows "str_index s p = Some (length a)"
proof (cases "str_index s p")
  case None
  from str_index_None [OF None, of "length a"] assms(1) show ?thesis by simp
next
  case (Some i)
  have "\<not> i < length a"
    using assms(2) [of i] str_index_Some [OF Some]
    by (metis append_eq_conv_conj has_prefix_append length_append length_take
          linorder_not_less min_def nat_le_linear append_take_drop_id drop_all
          append_Nil2 same_append_eq)
  moreover have "\<not> length a < i"
    using str_index_least [OF Some, of "length a"] assms(1) by auto
  ultimately show ?thesis using Some by simp
qed

lemma str_contains_iff: "str_contains s p \<longleftrightarrow> (\<exists>a b. s = a @ p @ b)"
proof
  assume "str_contains s p"
  then obtain i where "str_index s p = Some i"
    by (auto simp: str_contains_def)
  from str_index_Some [OF this] show "\<exists>a b. s = a @ p @ b" by blast
next
  assume "\<exists>a b. s = a @ p @ b"
  then obtain a b where s: "s = a @ p @ b" by blast
  show "str_contains s p"
    using str_index_None [of s p "length a"] s by (auto simp: str_contains_def)
qed

lemma str_contains_char: "str_contains s [c] \<longleftrightarrow> c \<in> set s"
  by (auto simp: str_contains_iff in_set_conv_decomp)

lemma str_index_char_None: "str_index s [c] = None \<longleftrightarrow> c \<notin> set s"
  using str_contains_char [of s c] by (auto simp: str_contains_def)

lemma str_index_char_append:
  "c \<notin> set a \<Longrightarrow> str_index (a @ c # b) [c] = Some (length a)"
  by (induction a) auto

lemma last_index_None: "last_index s c = None \<longleftrightarrow> c \<notin> set s"
  by (induction s) (auto split: option.splits)

lemma last_index_append:
  "c \<notin> set b \<Longrightarrow> last_index (a @ c # b) c = Some (length a)"
  by (induction a) (auto simp: last_index_None split: option.splits)

lemma last_index_Some:
  "last_index s c = Some i \<Longrightarrow> s = take i s @ c # drop (Suc i) s \<and> c \<notin> set (drop (Suc i) s)"
proof (induction s arbitrary: i)
  case (Cons x xs)
  then show ?case
    by (auto simp: last_index_None split: option.splits if_splits)
qed simp

lemma str_split_nonempty [simp]: "str_split c s \<noteq> []"
  by (induction s) (auto split: list.splits)

lemma str_split_no_sep: "w \<in> set (str_split c s) \<Longrightarrow> c \<notin> set w"
proof (induction s arbitrary: w)
  case (Cons x xs)
  then show ?case
    by (cases "str_split c xs") (auto split: if_splits)
qed simp

lemma str_join_split: "str_join [c] (str_split c s) = s"
proof (induction s)
  case (Cons x xs)
  then show ?case
    by (cases "str_split c xs" rule: remdups_adj.cases) (auto split: if_splits)
qed simp

lemma str_join_Cons: "xs \<noteq> [] \<Longrightarrow> str_join sep (x # xs) = x @ sep @ str_join sep xs"
  by (cases xs) simp_all

lemma str_split_single: "c \<notin> set w \<Longrightarrow> str_split c w = [w]"
  by (induction w) auto

lemma str_split_append: "c \<notin> set w \<Longrightarrow> str_split c (w @ c # r) = w # str_split c r"
  by (induction w) auto

lemma str_split_join:
  "ws \<noteq> [] \<Longrightarrow> (\<And>w. w \<in> set ws \<Longrightarrow> c \<notin> set w) \<Longrightarrow> str_split c (str_join [c] ws) = ws"
proof (induction ws)
  case (Cons w ws)
  then show ?case
    by (cases ws) (simp_all add: str_split_single str_split_append)
qed simp

subsection \<open>Case folding\<close>

lemma of_char_bound: "(of_char c :: nat) < 256"
  using range_nat_of_char by (metis atLeastLessThan_iff rangeI)

lemma lower_char_idem [simp]: "lower_char (lower_char c) = lower_char c"
  using of_char_bound [of c] by (auto simp: lower_char_def Let_def take_bit_eq_mod)

lemma upper_char_idem [simp]: "upper_char (upper_char c) = upper_char c"
  using of_char_bound [of c] by (auto simp: upper_char_def Let_def take_bit_eq_mod)

lemma to_lower_idem [simp]: "to_lower (to_lower s) = to_lower s"
  by (simp add: to_lower_def comp_def)

lemma to_upper_idem [simp]: "to_upper (to_upper s) = to_upper s"
  by (simp add: to_upper_def comp_def)

lemma to_lower_append [simp]: "to_lower (a @ b) = to_lower a @ to_lower b"
  by (simp add: to_lower_def)

lemma to_lower_Cons [simp]: "to_lower (x # xs) = lower_char x # to_lower xs"
  by (simp add: to_lower_def)

lemma to_lower_Nil [simp]: "to_lower s = [] \<longleftrightarrow> s = []"
  by (simp add: to_lower_def)

text \<open>Punctuation is not a letter: folding neither creates nor removes it.\<close>

lemma lower_char_eq_punct:
  assumes "(of_char p :: nat) < 65"
  shows "lower_char c = p \<longleftrightarrow> c = p"
proof -
  have "lower_char c = p \<Longrightarrow> c = p"
    using assms of_char_bound [of c]
    by (auto simp: lower_char_def Let_def take_bit_eq_mod split: if_splits)
  moreover have "lower_char p = p"
    using assms by (simp add: lower_char_def)
  ultimately show ?thesis by auto
qed

lemma punct_in_to_lower:
  "(of_char p :: nat) < 65 \<Longrightarrow> p \<in> set (to_lower s) \<longleftrightarrow> p \<in> set s"
  by (auto simp: to_lower_def image_iff lower_char_eq_punct
      eq_commute [of p] dest: sym)

subsection \<open>Decimal numbers\<close>

text \<open>Reading a decimal number back, as \<open>strconv\<close> and Valkey's \<open>INCR\<close> do; \<open>None\<close> is an error.\<close>

definition digit_val :: "char \<Rightarrow> nat option" where
  "digit_val c = (let n = (of_char c :: nat) in
     if 48 \<le> n \<and> n \<le> 57 then Some (n - 48) else None)"

definition add_digit :: "char \<Rightarrow> nat option \<Rightarrow> nat option" where
  "add_digit c acc = (case acc of None \<Rightarrow> None | Some a \<Rightarrow>
     (case digit_val c of None \<Rightarrow> None | Some d \<Rightarrow> Some (10 * a + d)))"

definition parse_nat :: "string \<Rightarrow> nat option" where
  "parse_nat s = (if s = [] then None else fold add_digit s (Some 0))"

definition parse_int :: "string \<Rightarrow> int option" where
  "parse_int s = (case s of
       [] \<Rightarrow> None
     | c # cs \<Rightarrow> (if c = CHR ''-'' then map_option (\<lambda>n. - int n) (parse_nat cs)
                 else if c = CHR ''+'' then map_option int (parse_nat cs)
                 else map_option int (parse_nat s)))"

lemma digit_val_char [simp]: "d < 10 \<Longrightarrow> digit_val (char_of (48 + d)) = Some d"
  by (simp add: digit_val_def Let_def take_bit_eq_mod)

lemma add_digit_Some: "add_digit c (Some a) = map_option (\<lambda>d. 10 * a + d) (digit_val c)"
  by (simp add: add_digit_def split: option.split)

lemma fold_add_digit_fmt: "fold add_digit (fmt_nat n) (Some 0) = Some n"
proof (induction n rule: less_induct)
  case (less n)
  show ?case
  proof (cases "n < 10")
    case True
    then show ?thesis by (simp add: fmt_nat.simps [of n] add_digit_def)
  next
    case False
    then have "fold add_digit (fmt_nat (n div 10)) (Some 0) = Some (n div 10)"
      by (intro less.IH) simp
    with False show ?thesis by (simp add: fmt_nat.simps [of n] add_digit_Some)
  qed
qed

lemma fmt_nat_nonempty [simp]: "fmt_nat n \<noteq> []"
  by (subst fmt_nat.simps) simp

lemma parse_fmt_nat [simp]: "parse_nat (fmt_nat n) = Some n"
  by (simp add: parse_nat_def fold_add_digit_fmt)

definition is_digit :: "char \<Rightarrow> bool" where
  "is_digit c \<longleftrightarrow> digit_val c \<noteq> None"

lemma is_digit_range: "is_digit c \<longleftrightarrow> 48 \<le> (of_char c :: nat) \<and> (of_char c :: nat) \<le> 57"
  by (simp add: is_digit_def digit_val_def Let_def)

lemma is_digit_char [simp]: "(d::nat) < 10 \<Longrightarrow> is_digit (char_of (48 + d))"
  by (simp add: is_digit_def)

lemma fmt_nat_digits: "c \<in> set (fmt_nat n) \<Longrightarrow> is_digit c"
proof (induction n rule: less_induct)
  case (less n)
  show ?case
  proof (cases "n < 10")
    case True
    with less.prems show ?thesis by (simp add: fmt_nat.simps [of n])
  next
    case False
    then have "n div 10 < n" by simp
    with False less.IH [of "n div 10"] less.prems show ?thesis
      by (auto simp: fmt_nat.simps [of n])
  qed
qed

lemma fmt_nat_lacks: "\<not> is_digit c \<Longrightarrow> c \<notin> set (fmt_nat n)"
  using fmt_nat_digits by blast

lemma lower_digit: "is_digit c \<Longrightarrow> lower_char c = c"
  by (simp add: is_digit_range lower_char_def Let_def)

lemma lower_fmt_nat [simp]: "to_lower (fmt_nat n) = fmt_nat n"
  by (simp add: to_lower_def map_idI fmt_nat_digits lower_digit)

lemma trim_space_id:
  assumes "s = [] \<or> \<not> is_space (hd s) \<and> \<not> is_space (last s)"
  shows "trim_space s = s"
proof (cases "s = []")
  case False
  with assms have "dropWhile is_space s = s" "dropWhile is_space (rev s) = rev s"
    by (simp_all add: dropWhile_eq_self_iff hd_rev)
  then show ?thesis by (simp add: trim_space_def)
qed (simp add: trim_space_def)

lemma digit_not_space: "is_digit c \<Longrightarrow> \<not> is_space c"
  by (auto simp: is_digit_range is_space_def Let_def)

lemma fmt_nat_hd_digit: "digit_val (hd (fmt_nat n)) \<noteq> None"
  using fmt_nat_digits [of "hd (fmt_nat n)" n] by (simp add: is_digit_def)

lemma parse_fmt_int [simp]: "parse_int (fmt_int i) = Some i"
proof (cases "i < 0")
  case True
  then show ?thesis by (simp add: fmt_int_def parse_int_def)
next
  case False
  obtain c cs where c: "fmt_nat (nat i) = c # cs"
    using fmt_nat_nonempty [of "nat i"] by (cases "fmt_nat (nat i)") auto
  have "digit_val c \<noteq> None" using fmt_nat_hd_digit [of "nat i"] c by simp
  then have "c \<noteq> CHR ''-''" "c \<noteq> CHR ''+''" by (auto simp: digit_val_def)
  moreover have "parse_nat (c # cs) = Some (nat i)" using parse_fmt_nat [of "nat i"] c by simp
  ultimately show ?thesis using False by (simp add: fmt_int_def parse_int_def c)
qed

lemma fmt_int_inj [simp]: "fmt_int a = fmt_int b \<longleftrightarrow> a = b"
  by (metis option.inject parse_fmt_int)

end
