(* ===== verification/Go_Errors.thy ===== *)
theory Go_Errors
  imports Merlin_Prelude
begin

text \<open>
  Go's \<open>error\<close> values. The program's own sentinels and error types are constructors; so are
  the library error types it tells apart (an HTTP status from go-containerregistry, a
  \<open>net.Error\<close>, the two context errors, \<open>redis.Nil\<close>). What a library error prints is a
  string it carries. A fallible call returns \<open>goerr + 'a\<close>, a call that returns only an error
  returns \<open>goerr option\<close>.
\<close>

datatype goerr =
    ErrMsg string                       \<comment> \<open>\<open>errors.New\<close>, \<open>fmt.Errorf\<close> without wrapping\<close>
  | ErrWrap string goerr string         \<comment> \<open>\<open>fmt.Errorf\<close> wrapping one error: text before, error, text after\<close>
  | ErrJoin string "goerr list"         \<comment> \<open>several wrapped errors and the text between them\<close>
  | CtxDeadlineExceeded                 \<comment> \<open>\<open>context.DeadlineExceeded\<close>\<close>
  | CtxCanceled                         \<comment> \<open>\<open>context.Canceled\<close>\<close>
  | ErrSaturated                        \<comment> \<open>\<open>router.ErrSaturated\<close>\<close>
  | ErrOutOfOrder                       \<comment> \<open>\<open>staging.ErrOutOfOrder\<close>\<close>
  | ErrIncompletePush                   \<comment> \<open>\<open>staging.ErrIncompletePush\<close>\<close>
  | ErrUnknownTenant                    \<comment> \<open>\<open>tenant.ErrUnknownTenant\<close>\<close>
  | ErrQueueFull                        \<comment> \<open>\<open>audit.errQueueFull\<close>\<close>
  | BlobMissingError string             \<comment> \<open>\<open>*staging.BlobMissingError\<close> with its key\<close>
  | RedisNil                            \<comment> \<open>\<open>redis.Nil\<close>: no such key\<close>
  | TransportError nat "string list" string
      \<comment> \<open>go-containerregistry's \<open>*transport.Error\<close>: status, diagnostic codes, text\<close>
  | NetError bool string "goerr list"
      \<comment> \<open>a \<open>net.Error\<close> (\<open>*url.Error\<close>, \<open>*net.OpError\<close>, \<dots>): \<open>Timeout()\<close>, text, wrapped errors\<close>
  | NetErrClosed                        \<comment> \<open>\<open>net.ErrClosed\<close>, itself a \<open>net.Error\<close>\<close>
  | ForeignClosed string
      \<comment> \<open>an error that reports \<open>Is(net.ErrClosed)\<close> without being a \<open>net.Error\<close>\<close>

type_synonym 'a res = "goerr + 'a"

fun err_text :: "goerr \<Rightarrow> string" where
  "err_text (ErrMsg m) = m"
| "err_text (ErrWrap a e b) = a @ err_text e @ b"
| "err_text (ErrJoin sep es) = str_join sep (map err_text es)"
| "err_text CtxDeadlineExceeded = ''context deadline exceeded''"
| "err_text CtxCanceled = ''context canceled''"
| "err_text ErrSaturated = ''router: scan pool saturated''"
| "err_text ErrOutOfOrder = ''staging: out-of-order chunk''"
| "err_text ErrIncompletePush = ''staging: not all blobs complete''"
| "err_text ErrUnknownTenant = ''tenant: unknown registry prefix''"
| "err_text ErrQueueFull = ''audit: queue full, decision dropped''"
| "err_text (BlobMissingError k) = ''blob '' @ fmt_q k @ '' not found in staging store''"
| "err_text RedisNil = ''redis: nil''"
| "err_text (TransportError st cs m) = m"
| "err_text (NetError t m es) = m"
| "err_text NetErrClosed = ''use of closed network connection''"
| "err_text (ForeignClosed m) = m"

text \<open>The pre-order walk of \<open>errors.Is\<close> and \<open>errors.As\<close>.\<close>

fun err_chain :: "goerr \<Rightarrow> goerr list" where
  "err_chain (ErrWrap a e b) = ErrWrap a e b # err_chain e"
| "err_chain (ErrJoin sep es) = ErrJoin sep es # concat (map err_chain es)"
| "err_chain (NetError t m es) = NetError t m es # concat (map err_chain es)"
| "err_chain e = [e]"

definition errors_is :: "goerr \<Rightarrow> goerr \<Rightarrow> bool" where
  "errors_is e target \<longleftrightarrow> target \<in> set (err_chain e)"

text \<open>\<open>errors.As\<close>: the first error of the walk that has the wanted shape.\<close>

fun first_some :: "('a \<Rightarrow> 'b option) \<Rightarrow> 'a list \<Rightarrow> 'b option" where
  "first_some f [] = None"
| "first_some f (x # xs) = (case f x of Some y \<Rightarrow> Some y | None \<Rightarrow> first_some f xs)"

definition errors_as :: "(goerr \<Rightarrow> 'b option) \<Rightarrow> goerr \<Rightarrow> 'b option" where
  "errors_as f e = first_some f (err_chain e)"

lemma err_chain_self [simp]: "e \<in> set (err_chain e)"
  by (cases e) auto

lemma errors_is_refl [simp]: "errors_is e e"
  by (simp add: errors_is_def)

lemma errors_is_wrap [simp]:
  "errors_is (ErrWrap a e b) t \<longleftrightarrow> t = ErrWrap a e b \<or> errors_is e t"
  by (auto simp: errors_is_def)

lemma first_some_None: "first_some f xs = None \<longleftrightarrow> (\<forall>x\<in>set xs. f x = None)"
  by (induction xs) (auto split: option.splits)

lemma first_some_Some:
  "first_some f xs = Some y \<Longrightarrow> \<exists>x\<in>set xs. f x = Some y"
  by (induction xs) (auto split: option.splits)

lemma errors_as_wrap [simp]:
  "f (ErrWrap a e b) = None \<Longrightarrow> errors_as f (ErrWrap a e b) = errors_as f e"
  by (simp add: errors_as_def)

text \<open>
  Wrapping never hides a cause: what \<open>errors.Is\<close> finds in an error it still finds after the
  error has been wrapped with more text.
\<close>

fun wrap_all :: "(string \<times> string) list \<Rightarrow> goerr \<Rightarrow> goerr" where
  "wrap_all [] e = e"
| "wrap_all ((a, b) # ws) e = ErrWrap a (wrap_all ws e) b"

lemma errors_is_wrap_all: "errors_is e t \<Longrightarrow> errors_is (wrap_all ws e) t"
  by (induction ws e rule: wrap_all.induct) auto

lemma errors_as_wrap_all:
  "(\<And>a e b. f (ErrWrap a e b) = None) \<Longrightarrow> errors_as f (wrap_all ws e) = errors_as f e"
  by (induction ws e rule: wrap_all.induct) auto

section \<open>Results of fallible calls\<close>

definition is_ok :: "'a res \<Rightarrow> bool" where
  "is_ok r = (case r of Inl _ \<Rightarrow> False | Inr _ \<Rightarrow> True)"

lemma is_ok_simps [simp]: "is_ok (Inr x)" "\<not> is_ok (Inl e)"
  by (simp_all add: is_ok_def)

section \<open>Time\<close>

text \<open>
  A \<open>time.Time\<close> is the number of nanoseconds since Go's zero time (so \<open>IsZero\<close> is \<open>= 0\<close>),
  a \<open>time.Duration\<close> a number of nanoseconds in the int64 range. \<open>Time.Sub\<close> saturates at the
  ends of that range.
\<close>

type_synonym gotime = int
type_synonym duration = int

definition max_duration :: duration where
  "max_duration = 2 ^ 63 - 1"

definition min_duration :: duration where
  "min_duration = - (2 ^ 63)"

definition time_sub :: "gotime \<Rightarrow> gotime \<Rightarrow> duration" where
  "time_sub t u = max min_duration (min max_duration (t - u))"

definition is_zero_time :: "gotime \<Rightarrow> bool" where
  "is_zero_time t \<longleftrightarrow> t = 0"

definition nanosecond :: duration where "nanosecond = 1"
definition second :: duration where "second = 1000000000"
definition minute :: duration where "minute = 60 * second"
definition hour :: duration where "hour = 60 * minute"

lemmas duration_units = nanosecond_def second_def minute_def hour_def

lemma time_sub_exact:
  "min_duration \<le> t - u \<Longrightarrow> t - u \<le> max_duration \<Longrightarrow> time_sub t u = t - u"
  by (simp add: time_sub_def)

lemma time_sub_less_iff:
  "min_duration < d \<Longrightarrow> d \<le> max_duration \<Longrightarrow> time_sub t u < d \<longleftrightarrow> t - u < d"
  by (auto simp: time_sub_def min_duration_def max_duration_def)

end
