(* ===== verification/Acr_Classify.thy ===== *)
theory Acr_Classify
  imports Go_Errors
begin

text \<open>
  \<open>internal/acr\<close>: the classification of push errors (\<open>classify.go\<close>), the recogniser of a
  missing reference (\<open>missingref.go\<close>) and the interface of a pusher (\<open>acr.go\<close>), which is a
  parameter of the components that call it.
\<close>

section \<open>Classes of push errors\<close>

datatype push_error_class =
    PushErrNone | PushErrAuth | PushErrNotFound | PushErrTimeout | PushErrNetwork | PushErrOther

fun push_error_label :: "push_error_class \<Rightarrow> string" where
  "push_error_label PushErrNone = ''ok''"
| "push_error_label PushErrAuth = ''auth''"
| "push_error_label PushErrNotFound = ''not_found''"
| "push_error_label PushErrTimeout = ''timeout''"
| "push_error_label PushErrNetwork = ''network''"
| "push_error_label PushErrOther = ''other''"

definition classify_status :: "nat \<Rightarrow> push_error_class" where
  "classify_status code =
     (if code = 401 \<or> code = 403 then PushErrAuth
      else if code = 404 then PushErrNotFound
      else if code = 408 \<or> code = 429 \<or> code = 504 then PushErrTimeout
      else PushErrOther)"

definition classify_net_error :: "bool \<Rightarrow> push_error_class" where
  "classify_net_error timeout = (if timeout then PushErrTimeout else PushErrNetwork)"

text \<open>\<open>errors.As\<close> targets: a \<open>*transport.Error\<close>, and anything that is a \<open>net.Error\<close>.\<close>

fun as_transport :: "goerr \<Rightarrow> (nat \<times> string list) option" where
  "as_transport (TransportError st cs m) = Some (st, cs)"
| "as_transport _ = None"

fun as_net :: "goerr \<Rightarrow> bool option" where
  "as_net (NetError t m es) = Some t"
| "as_net CtxDeadlineExceeded = Some True"
| "as_net NetErrClosed = Some False"
| "as_net _ = None"

text \<open>\<open>errors.Is(err, net.ErrClosed)\<close>, including errors with an \<open>Is\<close> method of their own.\<close>

definition is_closed_err :: "goerr \<Rightarrow> bool" where
  "is_closed_err e \<longleftrightarrow>
     (\<exists>x\<in>set (err_chain e). case x of NetErrClosed \<Rightarrow> True | ForeignClosed _ \<Rightarrow> True | _ \<Rightarrow> False)"

definition is_cancellation :: "goerr \<Rightarrow> bool" where
  "is_cancellation e \<longleftrightarrow> errors_is e CtxDeadlineExceeded \<or> errors_is e CtxCanceled"

definition classify_push_error :: "goerr option \<Rightarrow> push_error_class" where
  "classify_push_error err =
     (case err of
        None \<Rightarrow> PushErrNone
      | Some e \<Rightarrow>
          (if is_cancellation e then PushErrTimeout
           else case errors_as as_transport e of
             Some (st, _) \<Rightarrow> classify_status st
           | None \<Rightarrow>
               (case errors_as as_net e of
                  Some timeout \<Rightarrow> classify_net_error timeout
                | None \<Rightarrow> (if is_closed_err e then PushErrNetwork else PushErrOther))))"

definition registry_from_target :: "string \<Rightarrow> string" where
  "registry_from_target target =
     (if target = [] then ''unknown''
      else case str_cut target ''/'' of
        (host, _, ok) \<Rightarrow> (if ok then host else target))"

definition manifest_blob_unknown :: string where
  "manifest_blob_unknown = ''MANIFEST_BLOB_UNKNOWN''"

definition blob_unknown :: string where
  "blob_unknown = ''BLOB_UNKNOWN''"

definition is_missing_reference :: "goerr \<Rightarrow> bool" where
  "is_missing_reference e =
     (case errors_as as_transport e of
        None \<Rightarrow> False
      | Some (_, codes) \<Rightarrow>
          (\<exists>c\<in>set codes. c = manifest_blob_unknown \<or> c = blob_unknown))"

section \<open>The pusher\<close>

text \<open>
  The interface \<open>acr.Pusher\<close>; \<open>'w\<close> is the state its calls act on. Arguments in the order of the
  Go methods: local layout and target; bytes, media type and target; bytes, media type and
  repository.
\<close>

record 'w pusher =
  ps_push :: "string \<Rightarrow> string \<Rightarrow> 'w \<Rightarrow> goerr option \<times> 'w"
  ps_push_manifest :: "string \<Rightarrow> string \<Rightarrow> string \<Rightarrow> 'w \<Rightarrow> goerr option \<times> 'w"
  ps_push_blob :: "string \<Rightarrow> string \<Rightarrow> string \<Rightarrow> 'w \<Rightarrow> goerr option \<times> 'w"

subsection \<open>Facts about the classification\<close>

lemma classify_status_not_none [simp]:
  "classify_status c \<noteq> PushErrNone" "classify_status c \<noteq> PushErrNetwork"
  by (simp_all add: classify_status_def)

lemma classify_net_error_cases [simp]:
  "classify_net_error t \<noteq> PushErrNone" "classify_net_error t \<noteq> PushErrAuth"
  "classify_net_error t \<noteq> PushErrNotFound" "classify_net_error t \<noteq> PushErrOther"
  by (simp_all add: classify_net_error_def)

lemma as_transport_wrap [simp]: "as_transport (ErrWrap a e b) = None"
  by simp

lemma is_cancellation_wrap [simp]:
  "is_cancellation (ErrWrap a e b) = is_cancellation e"
  by (simp add: is_cancellation_def)

lemma is_closed_err_wrap [simp]:
  "is_closed_err (ErrWrap a e b) = is_closed_err e"
  by (simp add: is_closed_err_def)

lemma classify_push_error_wrap [simp]:
  "classify_push_error (Some (ErrWrap a e b)) = classify_push_error (Some e)"
  by (simp add: classify_push_error_def split: option.splits)

lemma classify_push_error_wrap_all [simp]:
  "classify_push_error (Some (wrap_all ws e)) = classify_push_error (Some e)"
  by (induction ws e rule: wrap_all.induct) auto

section \<open>Property\<close>

text \<open>
  The cause of a failed push survives any number of layers of wrapping: the class, and whether
  the registry was missing a reference, depend on the innermost error only. A cancellation is a
  timeout even when an HTTP status or a network error is wrapped beside it, a status is classified
  by its code, and no error at all is the only way to be classified as success.
\<close>

theorem push_error_classification:
  "classify_push_error (Some (wrap_all ws e)) = classify_push_error (Some e)
   \<and> is_missing_reference (wrap_all ws e) = is_missing_reference e
   \<and> (is_cancellation e \<longrightarrow> classify_push_error (Some e) = PushErrTimeout)
   \<and> classify_push_error (Some (wrap_all ws (TransportError st cs m))) = classify_status st
   \<and> (classify_push_error err = PushErrNone) = (err = None)"
proof (intro conjI impI)
  show "is_missing_reference (wrap_all ws e) = is_missing_reference e"
    by (simp add: is_missing_reference_def errors_as_wrap_all)
  show "classify_push_error (Some (wrap_all ws (TransportError st cs m))) = classify_status st"
    by (subst classify_push_error_wrap_all)
       (simp add: classify_push_error_def is_cancellation_def errors_is_def errors_as_def)
  show "(classify_push_error err = PushErrNone) = (err = None)"
    by (auto simp: classify_push_error_def split: option.splits)
  show "classify_push_error (Some e) = PushErrTimeout" if "is_cancellation e"
    using that by (simp add: classify_push_error_def)
qed (rule classify_push_error_wrap_all)

lemma push_error_classification_witness:
  "classify_push_error (Some (wrap_all [(''acr push: '', [])] CtxCanceled)) = PushErrTimeout
   \<and> classify_push_error (Some (wrap_all [(''acr push: '', [])] (TransportError 401 [] []))) = PushErrAuth"
  using push_error_classification [of "[(''acr push: '', [])]" CtxCanceled 401 "[]" "[]" None]
  by (simp add: is_cancellation_def classify_status_def)

end
