(* ===== verification/Policy_Engine.thy ===== *)
theory Policy_Engine
  imports Go_Errors "HOL-Library.AList"
begin

text \<open>
  \<open>internal/policy\<close>: the data a policy works on (\<open>policy.go\<close>) and the engine that runs every
  policy and aggregates the verdicts (\<open>engine.go\<close>).

  A policy may have effects (the scan policy reads and writes a shared cache and sets a
  gauge), so \<open>Evaluate\<close> threads a state of type \<open>'w\<close>. A Go map is an association list: its
  order is the order in which a \<open>range\<close> loop happens to visit it, and what must not depend on
  that order is proved not to.
\<close>

section \<open>Data\<close>

record age_info =
  ai_known :: bool
  ai_created :: gotime
  ai_age_days :: int
  ai_threshold_days :: int
  ai_compliant :: bool

record staged_image =
  si_repo :: string
  si_tag :: string
  si_digest :: string
  si_fs_path :: string
  si_oci_path :: string
  si_created :: gotime
  si_prefix :: string

record finding =
  f_cve :: string
  f_severity :: string
  f_pkg :: string
  f_version :: string
  f_fixed_version :: string

record verdict =
  v_passed :: bool
  v_reasons :: "string list"
  v_findings :: "finding list"
  v_scanner_db_version :: string
  v_age :: "age_info option"

text \<open>The zero value of \<open>Verdict\<close> is a fail.\<close>

definition zero_verdict :: verdict where
  "zero_verdict = \<lparr>v_passed = False, v_reasons = [], v_findings = [],
     v_scanner_db_version = [], v_age = None\<rparr>"

record result =
  r_passed :: bool
  r_verdicts :: "(string \<times> verdict) list"
  r_findings :: "finding list"
  r_scanner_db_version :: string
  r_age :: "age_info option"
  r_unenforced :: "string list"

definition zero_result :: result where
  "zero_result = \<lparr>r_passed = False, r_verdicts = [], r_findings = [],
     r_scanner_db_version = [], r_age = None, r_unenforced = []\<rparr>"

record 'w gate_policy =
  p_name :: string
  p_evaluate :: "staged_image \<Rightarrow> 'w \<Rightarrow> verdict res \<times> 'w"

section \<open>The engine\<close>

text \<open>What one verdict adds to the result.\<close>

definition add_verdict :: "string \<Rightarrow> verdict \<Rightarrow> result \<Rightarrow> result" where
  "add_verdict name v res =
     (let res1 = res\<lparr>r_verdicts := AList.update name v (r_verdicts res)\<rparr>;
          res2 = (if \<not> v_passed v then res1\<lparr>r_passed := False\<rparr>
                  else if v_reasons v \<noteq> []
                       then res1\<lparr>r_unenforced := r_unenforced res1 @ v_reasons v\<rparr>
                       else res1);
          res3 = res2\<lparr>r_findings := r_findings res2 @ v_findings v\<rparr>;
          res4 = (if v_scanner_db_version v \<noteq> []
                  then res3\<lparr>r_scanner_db_version := v_scanner_db_version v\<rparr> else res3)
      in (case v_age v of None \<Rightarrow> res4 | Some a \<Rightarrow> res4\<lparr>r_age := Some a\<rparr>))"

definition policy_error :: "string \<Rightarrow> goerr \<Rightarrow> goerr" where
  "policy_error name e = ErrWrap (''policy '' @ fmt_q name @ '' could not run: '') e []"

fun engine_loop ::
  "'w gate_policy list \<Rightarrow> staged_image \<Rightarrow> result \<Rightarrow> goerr list \<Rightarrow> 'w \<Rightarrow> (result \<times> goerr list) \<times> 'w"
where
  "engine_loop [] img res errs w = ((res, errs), w)"
| "engine_loop (p # ps) img res errs w =
     (case p_evaluate p img w of
        (Inl e, w') \<Rightarrow>
          engine_loop ps img (res\<lparr>r_passed := False\<rparr>) (errs @ [policy_error (p_name p) e]) w'
      | (Inr v, w') \<Rightarrow> engine_loop ps img (add_verdict (p_name p) v res) errs w')"

definition engine_run ::
  "'w gate_policy list \<Rightarrow> staged_image \<Rightarrow> 'w \<Rightarrow> (result \<times> goerr option) \<times> 'w" where
  "engine_run ps img w =
     (case engine_loop ps img (zero_result\<lparr>r_passed := True\<rparr>) [] w of
        ((res, errs), w') \<Rightarrow>
          (if errs \<noteq> [] then ((res\<lparr>r_passed := False\<rparr>, Some (ErrJoin newline errs)), w')
           else ((res, None), w')))"

section \<open>What the engine computes\<close>

text \<open>
  The specification: every policy is evaluated once, in order, whatever the others answered;
  the result is read off the list of answers.
\<close>

fun eval_all :: "'w gate_policy list \<Rightarrow> staged_image \<Rightarrow> 'w \<Rightarrow> (string \<times> verdict res) list \<times> 'w" where
  "eval_all [] img w = ([], w)"
| "eval_all (p # ps) img w =
     (case p_evaluate p img w of (r, w') \<Rightarrow>
        (case eval_all ps img w' of (rs, w'') \<Rightarrow> ((p_name p, r) # rs, w'')))"

definition answer_passes :: "string \<times> verdict res \<Rightarrow> bool" where
  "answer_passes a = (case snd a of Inl _ \<Rightarrow> False | Inr v \<Rightarrow> v_passed v)"

definition answer_findings :: "string \<times> verdict res \<Rightarrow> finding list" where
  "answer_findings a = (case snd a of Inl _ \<Rightarrow> [] | Inr v \<Rightarrow> v_findings v)"

definition answer_unenforced :: "string \<times> verdict res \<Rightarrow> string list" where
  "answer_unenforced a = (case snd a of Inl _ \<Rightarrow> [] | Inr v \<Rightarrow> if v_passed v then v_reasons v else [])"

definition answer_error :: "string \<times> verdict res \<Rightarrow> goerr list" where
  "answer_error a = (case snd a of Inl e \<Rightarrow> [policy_error (fst a) e] | Inr _ \<Rightarrow> [])"

lemmas answer_defs =
  answer_passes_def answer_findings_def answer_unenforced_def answer_error_def

lemma add_verdict_sel [simp]:
  "r_passed (add_verdict n v res) = (r_passed res \<and> v_passed v)"
  "r_findings (add_verdict n v res) = r_findings res @ v_findings v"
  "r_verdicts (add_verdict n v res) = AList.update n v (r_verdicts res)"
  "r_unenforced (add_verdict n v res) =
     r_unenforced res @ (if v_passed v then v_reasons v else [])"
  by (auto simp: add_verdict_def Let_def split: option.splits)

lemma engine_loop_spec:
  "engine_loop ps img res errs w =
     ((case eval_all ps img w of (rs, w') \<Rightarrow>
        ((fst (fst (engine_loop ps img res errs w)),
          errs @ concat (map answer_error rs)), w')))
   \<and> r_passed (fst (fst (engine_loop ps img res errs w))) =
       (r_passed res \<and> list_all answer_passes (fst (eval_all ps img w)))
   \<and> r_findings (fst (fst (engine_loop ps img res errs w))) =
       r_findings res @ concat (map answer_findings (fst (eval_all ps img w)))
   \<and> r_unenforced (fst (fst (engine_loop ps img res errs w))) =
       r_unenforced res @ concat (map answer_unenforced (fst (eval_all ps img w)))"
proof (induction ps arbitrary: res errs w)
  case Nil
  then show ?case by simp
next
  case (Cons p ps)
  obtain r w' where ev: "p_evaluate p img w = (r, w')" by fastforce
  obtain rs w'' where all: "eval_all ps img w' = (rs, w'')" by fastforce
  show ?case
  proof (cases r)
    case (Inl e)
    with ev all Cons.IH [of "res\<lparr>r_passed := False\<rparr>" "errs @ [policy_error (p_name p) e]" w']
    show ?thesis by (auto simp: answer_defs split: prod.splits)
  next
    case (Inr v)
    with ev all Cons.IH [of "add_verdict (p_name p) v res" errs w']
    show ?thesis by (auto simp: answer_defs split: prod.splits)
  qed
qed

lemma engine_run_cases:
  fixes ps :: "'w gate_policy list"
  assumes "eval_all ps img w = (rs, w')" and "engine_run ps img w = ((res, err), w'')"
  shows "w'' = w'"
    and "err = (if \<exists>a\<in>set rs. \<not> is_ok (snd a)
                then Some (ErrJoin newline (concat (map answer_error rs))) else None)"
    and "r_passed res = list_all answer_passes rs"
    and "r_findings res = concat (map answer_findings rs)"
    and "r_unenforced res = concat (map answer_unenforced rs)"
proof -
  let ?z = "zero_result\<lparr>r_passed := True\<rparr>"
  obtain res0 errs w0 where loop: "engine_loop ps img ?z [] w = ((res0, errs), w0)"
    by (metis surj_pair)
  note spec = engine_loop_spec [of ps img ?z "[]" w, unfolded loop assms(1)]
  have errs: "errs = concat (map answer_error rs)" and w0: "w0 = w'"
    and p0: "r_passed res0 = list_all answer_passes rs"
    and f0: "r_findings res0 = concat (map answer_findings rs)"
    and u0: "r_unenforced res0 = concat (map answer_unenforced rs)"
    using spec by (auto simp: zero_result_def)
  have no_err: "errs = [] \<longleftrightarrow> \<not> (\<exists>a\<in>set rs. \<not> is_ok (snd a))"
    unfolding errs by (auto simp: answer_error_def is_ok_def split: sum.splits)
  have fails: "errs \<noteq> [] \<Longrightarrow> \<not> list_all answer_passes rs"
    unfolding no_err by (auto simp: answer_passes_def is_ok_def list_all_iff split: sum.splits)
  show "w'' = w'" "r_passed res = list_all answer_passes rs"
    "r_findings res = concat (map answer_findings rs)"
    "r_unenforced res = concat (map answer_unenforced rs)"
    using assms(2) p0 f0 u0 w0 fails
    by (auto simp: engine_run_def loop split: if_splits)
  show "err = (if \<exists>a\<in>set rs. \<not> is_ok (snd a)
                then Some (ErrJoin newline (concat (map answer_error rs))) else None)"
    using assms(2) no_err errs by (auto simp: engine_run_def loop split: if_splits)
qed

lemma engine_run_state: "snd (engine_run ps img w) = snd (eval_all ps img w)"
  using engine_run_cases(1) [of ps img w] by (metis prod.collapse)

lemma length_eval_all: "length (fst (eval_all ps img w)) = length ps"
  by (induction ps arbitrary: w) (auto simp: split_beta)

lemma names_eval_all: "map fst (fst (eval_all ps img w)) = map p_name ps"
  by (induction ps arbitrary: w) (auto simp: split_beta)

lemma engine_verdicts_distinct:
  "distinct (map fst (r_verdicts res)) \<Longrightarrow>
   distinct (map fst (r_verdicts (fst (fst (engine_loop ps img res errs w)))))"
proof (induction ps arbitrary: res errs w)
  case (Cons p ps)
  then show ?case
    by (cases "p_evaluate p img w" rule: prod.exhaust)
       (auto split: sum.splits intro!: Cons.IH distinct_update)
qed simp

lemma engine_run_verdicts_distinct:
  "distinct (map fst (r_verdicts (fst (fst (engine_run ps img w)))))"
  using engine_verdicts_distinct [of "zero_result\<lparr>r_passed := True\<rparr>" ps img "[]" w]
  by (auto simp: engine_run_def zero_result_def split: prod.splits)

section \<open>Property\<close>

text \<open>
  C5: the gate fails closed. Every policy is evaluated exactly once, in order, whatever the others
  answered; the image passes iff every policy ran and passed, an error is reported iff some policy
  could not run, and findings and unenforced reasons are the concatenation of what the policies
  reported.
\<close>

theorem engine_fails_closed:
  "let ((res, err), w') = engine_run ps img w; (answers, w1) = eval_all ps img w
   in w' = w1 \<and> map fst answers = map p_name ps
      \<and> r_passed res = list_all answer_passes answers
      \<and> (err = None) = list_all (\<lambda>a. is_ok (snd a)) answers
      \<and> r_findings res = concat (map answer_findings answers)
      \<and> r_unenforced res = concat (map answer_unenforced answers)"
proof -
  obtain answers w1 where all: "eval_all ps img w = (answers, w1)" by fastforce
  obtain res err w' where run: "engine_run ps img w = ((res, err), w')" by (metis surj_pair)
  note c = engine_run_cases [OF all run]
  have "(err = None) = list_all (\<lambda>a. is_ok (snd a)) answers"
    using c(2) by (auto simp: list_all_iff)
  then show ?thesis
    using c(1,3,4,5) names_eval_all [of ps img w] by (simp add: all run)
qed

end
