(* ===== verification/Go_Path.thy ===== *)
theory Go_Path
  imports Go_Errors
begin

text \<open>
  The lexical path operations of Go's \<open>path/filepath\<close> on Unix: \<open>Clean\<close> and \<open>Join\<close>. A path is
  split at its slashes; empty and \<open>.\<close> components vanish, \<open>..\<close> removes the component before it,
  and above the root it vanishes too.
\<close>

definition slash :: char where
  "slash = CHR ''/''"

text \<open>The stack of kept components, innermost first.\<close>

definition clean_step :: "bool \<Rightarrow> string \<Rightarrow> string list \<Rightarrow> string list" where
  "clean_step rooted c st =
     (if c = [] \<or> c = ''.'' then st
      else if c = ''..'' then
        (case st of
           [] \<Rightarrow> (if rooted then [] else [''..''])
         | x # xs \<Rightarrow> (if x = ''..'' then ''..'' # st else xs))
      else c # st)"

definition path_rooted :: "string \<Rightarrow> bool" where
  "path_rooted s \<longleftrightarrow> has_prefix s [slash]"

definition path_comps :: "string \<Rightarrow> string list" where
  "path_comps s = rev (fold (clean_step (path_rooted s)) (str_split slash s) [])"

definition path_render :: "bool \<Rightarrow> string list \<Rightarrow> string" where
  "path_render rooted cs =
     (if cs = [] then (if rooted then [slash] else ''.'')
      else (if rooted then [slash] else []) @ str_join [slash] cs)"

definition path_clean :: "string \<Rightarrow> string" where
  "path_clean s = path_render (path_rooted s) (path_comps s)"

definition path_join :: "string list \<Rightarrow> string" where
  "path_join es =
     (let es' = dropWhile (\<lambda>e. e = []) es in
      if es' = [] then [] else path_clean (str_join [slash] es'))"

section \<open>Normal components\<close>

definition normal_comp :: "string \<Rightarrow> bool" where
  "normal_comp c \<longleftrightarrow> c \<noteq> [] \<and> c \<noteq> ''.'' \<and> c \<noteq> ''..'' \<and> slash \<notin> set c"

lemma clean_step_normal [simp]: "normal_comp c \<Longrightarrow> clean_step r c st = c # st"
  by (simp add: clean_step_def normal_comp_def)

lemma clean_steps_normal:
  "list_all normal_comp cs \<Longrightarrow> fold (clean_step r) cs st = rev cs @ st"
  by (induction cs arbitrary: st) auto

lemma clean_step_rooted_keeps:
  "list_all normal_comp st \<Longrightarrow> slash \<notin> set c \<Longrightarrow> list_all normal_comp (clean_step True c st)"
  by (auto simp: clean_step_def normal_comp_def split: list.splits)

lemma clean_steps_rooted:
  "list_all normal_comp st \<Longrightarrow> (\<And>c. c \<in> set cs \<Longrightarrow> slash \<notin> set c) \<Longrightarrow>
   list_all normal_comp (fold (clean_step True) cs st)"
  by (induction cs arbitrary: st) (auto intro!: clean_step_rooted_keeps)

text \<open>Below the root every component of a cleaned path is a plain name: no \<open>..\<close> survives.\<close>

lemma path_comps_rooted:
  assumes "path_rooted s"
  shows "list_all normal_comp (path_comps s)"
proof -
  have "list_all normal_comp (fold (clean_step True) (str_split slash s) [])"
    by (rule clean_steps_rooted) (auto dest: str_split_no_sep)
  with assms show ?thesis by (simp add: path_comps_def list_all_rev)
qed

lemma str_split_append_sep:
  "str_split c (a @ c # b) = str_split c a @ str_split c b"
  by (induction a) (auto split: list.splits)

lemma path_comps_normal:
  assumes "list_all normal_comp cs" "cs \<noteq> []"
  shows "fold (clean_step r) (str_split slash (str_join [slash] cs)) st = rev cs @ st"
proof -
  have "str_split slash (str_join [slash] cs) = cs"
    using assms by (intro str_split_join) (auto simp: list_all_iff normal_comp_def)
  then show ?thesis using assms(1) by (simp add: clean_steps_normal)
qed

lemma clean_steps_render:
  assumes "list_all normal_comp cs"
  shows "fold (clean_step r) (str_split slash (path_render True cs)) st = rev cs @ st"
proof (cases "cs = []")
  case True
  then show ?thesis by (simp add: path_render_def clean_step_def)
next
  case False
  with assms have "fold (clean_step r) (str_split slash (str_join [slash] cs)) st = rev cs @ st"
    by (intro path_comps_normal)
  with False show ?thesis by (simp add: path_render_def clean_step_def)
qed

text \<open>Joining a directory and a cleaned rooted path appends the components.\<close>

lemma path_comps_join_rooted:
  assumes "list_all normal_comp cs" "dest \<noteq> []"
  shows "path_comps (dest @ slash # path_render True cs) = path_comps dest @ cs"
    and "path_rooted (dest @ slash # path_render True cs) = path_rooted dest"
proof -
  show r: "path_rooted (dest @ slash # path_render True cs) = path_rooted dest"
    using assms(2) by (cases dest) (simp_all add: path_rooted_def)
  show "path_comps (dest @ slash # path_render True cs) = path_comps dest @ cs"
    by (simp add: path_comps_def r str_split_append_sep clean_steps_render assms(1))
qed

lemma path_join_two:
  "dest \<noteq> [] \<Longrightarrow> path_join [dest, p] = path_clean (dest @ slash # p)"
  by (simp add: path_join_def)

lemma str_join_append:
  "as \<noteq> [] \<Longrightarrow> bs \<noteq> [] \<Longrightarrow> str_join sep (as @ bs) = str_join sep as @ sep @ str_join sep bs"
proof (induction as)
  case (Cons a as)
  then show ?case by (cases as; cases bs) auto
qed simp

lemma path_render_append:
  "cs \<noteq> [] \<Longrightarrow> ds \<noteq> [] \<Longrightarrow> path_render r (cs @ ds) = path_render r cs @ slash # str_join [slash] ds"
  by (simp add: path_render_def str_join_append)

text \<open>
  The extraction target of an archive entry: whatever the entry is called, it is the
  destination itself or lies below it.
\<close>

lemma path_join_contained:
  assumes "path_comps dest \<noteq> []"
  shows "path_join [dest, path_clean (slash # name)] = path_clean dest
       \<or> has_prefix (path_join [dest, path_clean (slash # name)]) (path_clean dest @ [slash])"
proof -
  let ?n = "path_comps (slash # name)"
  have rooted: "path_rooted (slash # name)" by (simp add: path_rooted_def)
  have normal: "list_all normal_comp ?n" by (rule path_comps_rooted [OF rooted])
  have dest: "dest \<noteq> []"
    using assms by (auto simp: path_comps_def path_rooted_def clean_step_def)
  have "path_join [dest, path_clean (slash # name)]
      = path_render (path_rooted dest) (path_comps dest @ ?n)"
    by (simp add: path_join_two dest path_clean_def rooted path_comps_join_rooted normal)
  then show ?thesis
    by (cases "?n = []") (auto simp: path_clean_def path_render_append assms has_prefix_iff)
qed

section \<open>Cleaning is idempotent\<close>

text \<open>What a cleaned path is made of: parent references in front, if it is relative, then names.\<close>

definition clean_stack :: "bool \<Rightarrow> string list \<Rightarrow> bool" where
  "clean_stack r st \<longleftrightarrow>
     (\<exists>ns k. st = ns @ replicate k ''..'' \<and> list_all normal_comp ns \<and> (r \<longrightarrow> k = 0))"

lemma clean_stack_step:
  assumes "clean_stack r st" "slash \<notin> set c"
  shows "clean_stack r (clean_step r c st)"
proof -
  from assms(1) obtain ns k where st: "st = ns @ replicate k ''..''" "list_all normal_comp ns" "r \<longrightarrow> k = 0"
    by (auto simp: clean_stack_def)
  consider "c = [] \<or> c = ''.''" | "c = ''..''" | "normal_comp c" using assms(2) by (auto simp: normal_comp_def)
  then show ?thesis
  proof cases
    case 1
    then show ?thesis using assms(1) by (simp add: clean_step_def)
  next
    case 2
    show ?thesis
    proof (cases ns)
      case Nil
      show ?thesis
      proof (cases k)
        case 0
        then have "clean_step r c st = (if r then [] else replicate 1 ''..'')"
          using 2 Nil st by (simp add: clean_step_def)
        then show ?thesis unfolding clean_stack_def
          by (intro exI [of _ "[]"] exI [of _ "if r then 0 else 1"]) simp
      next
        case (Suc k')
        then have "clean_step r c st = replicate (Suc k) ''..''" using 2 Nil st by (simp add: clean_step_def)
        then show ?thesis using Suc st(3) unfolding clean_stack_def
          by (intro exI [of _ "[]"] exI [of _ "Suc k"]) simp
      qed
    next
      case (Cons n ns')
      then have "n \<noteq> ''..''" using st(2) by (simp add: normal_comp_def)
      then have "clean_step r c st = ns' @ replicate k ''..''" using 2 Cons st by (simp add: clean_step_def)
      then show ?thesis using Cons st unfolding clean_stack_def
        by (intro exI [of _ ns'] exI [of _ k]) simp
    qed
  next
    case 3
    then show ?thesis using st unfolding clean_stack_def
      by (intro exI [of _ "c # ns"] exI [of _ k]) simp
  qed
qed

lemma clean_stack_fold:
  "clean_stack r st \<Longrightarrow> (\<And>c. c \<in> set cs \<Longrightarrow> slash \<notin> set c) \<Longrightarrow> clean_stack r (fold (clean_step r) cs st)"
  by (induction cs arbitrary: st) (auto intro: clean_stack_step)

definition clean_comps :: "bool \<Rightarrow> string list \<Rightarrow> bool" where
  "clean_comps r cs \<longleftrightarrow>
     (\<exists>k ns. cs = replicate k ''..'' @ ns \<and> list_all normal_comp ns \<and> (r \<longrightarrow> k = 0))"

lemma path_comps_shape: "clean_comps (path_rooted s) (path_comps s)"
proof -
  have "clean_stack (path_rooted s) (fold (clean_step (path_rooted s)) (str_split slash s) [])"
    by (rule clean_stack_fold) (auto simp: clean_stack_def dest: str_split_no_sep)
  then obtain ns k where "fold (clean_step (path_rooted s)) (str_split slash s) [] = ns @ replicate k ''..''"
    "list_all normal_comp ns" "path_rooted s \<longrightarrow> k = 0"
    by (auto simp: clean_stack_def)
  then show ?thesis unfolding clean_comps_def
    by (intro exI [of _ k] exI [of _ "rev ns"]) (simp add: path_comps_def list_all_rev)
qed

lemma clean_comps_butlast:
  assumes "clean_comps r cs" shows "clean_comps r (butlast cs)"
proof -
  from assms obtain k ns where cs: "cs = replicate k ''..'' @ ns" "list_all normal_comp ns" "r \<longrightarrow> k = 0"
    by (auto simp: clean_comps_def)
  show ?thesis
  proof (cases "ns = []")
    case True
    then show ?thesis using cs unfolding clean_comps_def
      by (intro exI [of _ "k - 1"] exI [of _ "[]"]) (simp add: butlast_conv_take)
  next
    case False
    then show ?thesis using cs unfolding clean_comps_def
      by (intro exI [of _ k] exI [of _ "butlast ns"])
        (auto simp: butlast_append list_all_iff dest: in_set_butlastD)
  qed
qed

lemma clean_comps_noslash:
  assumes "clean_comps r cs" "c \<in> set cs" shows "slash \<notin> set c \<and> c \<noteq> []"
proof -
  from assms(1) obtain k ns where cs: "cs = replicate k ''..'' @ ns" "list_all normal_comp ns"
    by (auto simp: clean_comps_def)
  have "c \<in> set (replicate k ''..'') \<union> set ns" using assms(2) unfolding cs(1) by simp
  then have "c = ''..'' \<or> normal_comp c" using cs(2) by (auto simp: list_all_iff)
  then show ?thesis by (auto simp: normal_comp_def slash_def)
qed

lemma clean_steps_dotdot: "fold (clean_step False) (replicate k ''..'') [] = replicate k ''..''"
proof -
  have "fold (clean_step False) (replicate k ''..'') (replicate m ''..'') = replicate (k + m) ''..''" for m
  proof (induction k arbitrary: m)
    case (Suc k)
    have "clean_step False ''..'' (replicate m ''..'') = replicate (Suc m) ''..''"
      by (cases m) (simp_all add: clean_step_def)
    then show ?case using Suc.IH [of "Suc m"] by simp
  qed simp
  from this [of 0] show ?thesis by simp
qed

lemma clean_comps_fold:
  assumes "clean_comps r cs" shows "fold (clean_step r) cs [] = rev cs"
proof -
  from assms obtain k ns where cs: "cs = replicate k ''..'' @ ns" "list_all normal_comp ns" "r \<longrightarrow> k = 0"
    by (auto simp: clean_comps_def)
  show ?thesis
  proof (cases r)
    case True
    then show ?thesis using cs by (simp add: clean_steps_normal)
  next
    case False
    then show ?thesis using cs clean_steps_dotdot [of k] by (simp add: clean_steps_normal)
  qed
qed

lemma str_split_render:
  assumes "clean_comps r cs" "cs \<noteq> []"
  shows "str_split slash (str_join [slash] cs) = cs"
  using assms clean_comps_noslash [OF assms(1)] by (intro str_split_join) auto

lemma rooted_render:
  assumes "clean_comps r cs" shows "path_rooted (path_render r cs) = r"
proof (cases cs)
  case Nil
  then show ?thesis by (simp add: path_render_def path_rooted_def slash_def)
next
  case (Cons c ds)
  obtain x xs where "c = x # xs" "x \<noteq> slash"
    using clean_comps_noslash [OF assms, of c] Cons by (cases c) auto
  then show ?thesis unfolding Cons by (cases ds) (auto simp: path_render_def path_rooted_def)
qed

lemma comps_render:
  assumes "clean_comps r cs"
  shows "path_comps (path_render r cs) = cs" and "path_comps (path_render r cs @ [slash]) = cs"
proof -
  note root = rooted_render [OF assms]
  show "path_comps (path_render r cs) = cs"
  proof (cases "cs = []")
    case True
    then show ?thesis by (simp add: path_render_def path_comps_def clean_step_def slash_def)
  next
    case False
    have "fold (clean_step r) (str_split slash (path_render r cs)) [] = fold (clean_step r) cs []"
      using False str_split_render [OF assms] by (simp add: path_render_def clean_step_def [of _ "[]"])
    then show ?thesis
      unfolding path_comps_def [of "path_render r cs"] root using clean_comps_fold [OF assms] by simp
  qed
  then show "path_comps (path_render r cs @ [slash]) = cs"
  proof -
    assume c: "path_comps (path_render r cs) = cs"
    have ne: "path_render r cs \<noteq> []"
      using clean_comps_noslash [OF assms] by (cases cs rule: remdups_adj.cases) (auto simp: path_render_def)
    then have "path_rooted (path_render r cs @ [slash]) = r"
      using root by (cases "path_render r cs") (simp_all add: path_rooted_def)
    then show ?thesis
      using c by (simp add: path_comps_def root str_split_append_sep clean_step_def [of _ "[]"])
  qed
qed

lemma path_rooted_clean [simp]: "path_rooted (path_clean s) = path_rooted s"
  by (simp add: path_clean_def rooted_render path_comps_shape)

lemma path_comps_clean [simp]: "path_comps (path_clean s) = path_comps s"
  by (simp add: path_clean_def comps_render path_comps_shape)

text \<open>\<open>filepath.Dir\<close>.\<close>

definition path_dir :: "string \<Rightarrow> string" where
  "path_dir p = path_clean (case last_index p slash of None \<Rightarrow> [] | Some i \<Rightarrow> take (Suc i) p)"

lemma comps_path_dir:
  "path_comps (path_dir (path_clean s)) = butlast (path_comps s)
   \<and> path_rooted (path_dir (path_clean s)) = path_rooted s"
proof (cases "path_comps s" rule: rev_cases)
  case Nil
  have "path_comps [slash] = []" "path_comps [] = []" "path_rooted [slash]" "\<not> path_rooted []"
    by (simp_all add: path_comps_def clean_step_def path_rooted_def slash_def)
  moreover have "last_index ''.'' slash = None" by (simp add: slash_def)
  ultimately show ?thesis
    using Nil by (cases "path_rooted s") (simp_all add: path_dir_def path_clean_def [of s] path_render_def)
next
  case (snoc cs c)
  let ?r = "path_rooted s"
  have shape: "clean_comps ?r (cs @ [c])" using path_comps_shape [of s] snoc by simp
  then have cs: "clean_comps ?r cs" using clean_comps_butlast by fastforce
  have c: "slash \<notin> set c" using clean_comps_noslash [OF shape, of c] by simp
  show ?thesis
  proof (cases "cs = []")
    case True
    have li: "last_index c slash = None" using c by (simp add: last_index_None)
    have "path_comps [slash] = []" "path_comps [] = []" "path_rooted [slash]" "\<not> path_rooted []"
      by (simp_all add: path_comps_def clean_step_def path_rooted_def slash_def)
    then show ?thesis
      using True snoc li by (cases ?r) (simp_all add: path_dir_def path_clean_def [of s] path_render_def)
  next
    case False
    have clean: "path_clean s = path_render ?r cs @ slash # c"
      using False by (simp add: path_clean_def snoc path_render_append)
    have "last_index (path_clean s) slash = Some (length (path_render ?r cs))"
      unfolding clean by (rule last_index_append [OF c])
    then have dir: "path_dir (path_clean s) = path_clean (path_render ?r cs @ [slash])"
      by (simp add: path_dir_def clean)
    have "path_render ?r cs \<noteq> []" using False clean_comps_noslash [OF cs]
      by (cases cs rule: remdups_adj.cases) (auto simp: path_render_def)
    then have "path_rooted (path_render ?r cs @ [slash]) = ?r"
      using rooted_render [OF cs] by (cases "path_render ?r cs") (simp_all add: path_rooted_def)
    then show ?thesis using comps_render(2) [OF cs] by (simp add: dir snoc)
  qed
qed

text \<open>Where a path leads: from the root or from the working directory, along its components.\<close>

definition loc_of :: "string \<Rightarrow> bool \<times> string list" where
  "loc_of p = (path_rooted p, path_comps p)"

lemma loc_of_entry:
  assumes "dest \<noteq> []"
  shows "loc_of (path_join [dest, path_clean (slash # name)])
    = (path_rooted dest, path_comps dest @ path_comps (slash # name))"
proof -
  have r: "path_rooted (slash # name)" by (simp add: path_rooted_def)
  have "path_clean (slash # name) = path_render True (path_comps (slash # name))"
    by (simp add: path_clean_def r)
  then show ?thesis
    using path_comps_join_rooted [OF path_comps_rooted [OF r] assms]
    by (simp add: loc_of_def path_join_two [OF assms])
qed

end
