(* ===== verification/Base_Image.thy ===== *)
theory Base_Image
  imports Policy_Engine Go_Path
begin

text \<open>
  \<open>internal/policies/baseimage\<close>: the base operating system named by \<open>os-release\<close> must be on
  the allow-list. The extracted root filesystem is a parameter: \<open>readfile\<close> is \<open>os.ReadFile\<close>.
\<close>

record os_release =
  osr_id :: string
  osr_fields :: "(string \<times> string) list"

definition empty_os_release :: os_release where
  "empty_os_release = \<lparr>osr_id = [], osr_fields = []\<rparr>"

definition parse_os_line :: "string \<Rightarrow> os_release \<Rightarrow> os_release" where
  "parse_os_line raw osr =
     (let line = trim_space raw in
      if line = [] \<or> has_prefix line ''#'' then osr
      else case str_cut line ''='' of
        (k, v, ok) \<Rightarrow>
          (if \<not> ok then osr
           else
             (let v' = trim_char (CHR 0x22) v;
                  osr' = osr\<lparr>osr_fields := AList.update k v' (osr_fields osr)\<rparr>
              in if k = ''ID'' then osr'\<lparr>osr_id := to_lower v'\<rparr> else osr')))"

definition parse_os_release :: "string \<Rightarrow> os_release" where
  "parse_os_release contents =
     fold parse_os_line (str_split (CHR 0x0A) contents) empty_os_release"

record base_policy =
  bp_allowed :: "string list"
  bp_list :: "string list"

definition new_base_policy :: "string list \<Rightarrow> base_policy" where
  "new_base_policy ids = \<lparr>bp_allowed = map to_lower ids, bp_list = ids\<rparr>"

definition os_release_paths :: "string list" where
  "os_release_paths =
     [path_join [''etc'', ''os-release''], path_join [''usr'', ''lib'', ''os-release'']]"

text \<open>The first readable candidate wins; the error of the last one is kept otherwise.\<close>

fun read_first :: "(string \<Rightarrow> string res) \<Rightarrow> string \<Rightarrow> string list \<Rightarrow> string res \<Rightarrow> string res" where
  "read_first readfile fs [] prev = prev"
| "read_first readfile fs (rel # rels) prev =
     (case readfile (path_join [fs, rel]) of
        Inr raw \<Rightarrow> Inr raw
      | Inl e \<Rightarrow> read_first readfile fs rels (Inl e))"

definition no_os_release_reason :: string where
  "no_os_release_reason =
     ''base image not permitted: os-release not found (checked /etc/os-release and /usr/lib/os-release)''"

definition base_reject_reason :: "string \<Rightarrow> string list \<Rightarrow> string" where
  "base_reject_reason osid allowed =
     ''base image not permitted: detected '' @ fmt_q osid @ '', allowed: '' @ str_join '', '' allowed"

definition base_evaluate :: "base_policy \<Rightarrow> (string \<Rightarrow> string res) \<Rightarrow> staged_image \<Rightarrow> verdict res" where
  "base_evaluate p readfile img =
     (case read_first readfile (si_fs_path img) os_release_paths (Inr []) of
        Inl e \<Rightarrow> Inr (zero_verdict\<lparr>v_passed := False, v_reasons := [no_os_release_reason]\<rparr>)
      | Inr raw \<Rightarrow>
          (let osr = parse_os_release raw in
           if osr_id osr = [] \<or> osr_id osr \<notin> set (bp_allowed p) then
             Inr (zero_verdict\<lparr>v_passed := False,
                    v_reasons := [base_reject_reason (osr_id osr) (bp_list p)]\<rparr>)
           else Inr (zero_verdict\<lparr>v_passed := True\<rparr>)))"

section \<open>What the parser keeps\<close>

text \<open>The key and value a line contributes, if it contributes one.\<close>

definition os_line_entry :: "string \<Rightarrow> (string \<times> string) option" where
  "os_line_entry raw =
     (let line = trim_space raw in
      if line = [] \<or> has_prefix line ''#'' then None
      else case str_cut line ''='' of
        (k, v, ok) \<Rightarrow> if ok then Some (k, trim_char (CHR 0x22) v) else None)"

fun last_entry :: "string \<Rightarrow> string list \<Rightarrow> string option" where
  "last_entry k [] = None"
| "last_entry k (l # ls) =
     (case last_entry k ls of
        Some v \<Rightarrow> Some v
      | None \<Rightarrow> (case os_line_entry l of
                  Some (k', v) \<Rightarrow> (if k' = k then Some v else None)
                | None \<Rightarrow> None))"

lemma parse_os_line_id:
  "osr_id (parse_os_line l osr) =
     (case os_line_entry l of
        Some (k, v) \<Rightarrow> (if k = ''ID'' then to_lower v else osr_id osr)
      | None \<Rightarrow> osr_id osr)"
  by (auto simp: parse_os_line_def os_line_entry_def Let_def split: prod.splits)

lemma parse_os_line_fields:
  "map_of (osr_fields (parse_os_line l osr)) =
     (case os_line_entry l of
        Some (k, v) \<Rightarrow> (map_of (osr_fields osr))(k \<mapsto> v)
      | None \<Rightarrow> map_of (osr_fields osr))"
  by (auto simp: parse_os_line_def os_line_entry_def Let_def update_conv' split: prod.splits)

lemma parse_os_lines_id:
  "osr_id (fold parse_os_line ls osr) =
     (case last_entry ''ID'' ls of Some v \<Rightarrow> to_lower v | None \<Rightarrow> osr_id osr)"
  by (induction ls arbitrary: osr) (auto simp: parse_os_line_id split: option.splits)

lemma parse_os_release_id:
  "osr_id (parse_os_release s) =
     (case last_entry ''ID'' (str_split (CHR 0x0A) s) of Some v \<Rightarrow> to_lower v | None \<Rightarrow> [])"
  by (simp add: parse_os_release_def parse_os_lines_id empty_os_release_def split: option.split)

lemma parse_os_lines_fields:
  "map_of (osr_fields (fold parse_os_line ls osr)) k =
     (case last_entry k ls of Some v \<Rightarrow> Some v | None \<Rightarrow> map_of (osr_fields osr) k)"
  by (induction ls arbitrary: osr) (auto simp: parse_os_line_fields split: option.splits)

lemma read_first_Inr:
  "read_first readfile fs rels (Inl e) = Inr raw \<Longrightarrow>
   \<exists>rel\<in>set rels. readfile (path_join [fs, rel]) = Inr raw"
  by (induction rels arbitrary: e) (auto split: sum.splits)

section \<open>Property\<close>

text \<open>
  The base-image gate never reports an infrastructure error, and passes an image iff a readable
  \<open>os-release\<close> file exists at one of the two candidate paths, the first readable one's last \<open>ID\<close>
  line names a non-empty identifier, and that identifier, case-folded, is on the allow-list.
\<close>

theorem base_gate_allow_list:
  "\<exists>v. base_evaluate (new_base_policy ids) readfile img = Inr v
     \<and> v_passed v =
        (case read_first readfile (si_fs_path img) os_release_paths (Inr []) of
           Inl e \<Rightarrow> False
         | Inr raw \<Rightarrow>
             (case last_entry ''ID'' (str_split (CHR 0x0A) raw) of
                None \<Rightarrow> False
              | Some v \<Rightarrow> v \<noteq> [] \<and> to_lower v \<in> to_lower ` set ids))"
  by (auto simp: base_evaluate_def new_base_policy_def Let_def parse_os_release_id zero_verdict_def
      split: sum.split option.split)

end
