(* ===== verification/Image_Age.thy ===== *)
theory Image_Age
  imports Policy_Engine
begin

text \<open>
  \<open>internal/policies/imageage\<close>: an image older than its tenant's threshold is rejected, and so
  is one whose age is unknown.

  \<open>ageDays\<close> goes through float64: \<open>Duration.Hours\<close> adds a whole number of hours and a
  fraction, and the sum is divided by 24. Each float64 operation is the exact one followed by a
  rounding \<open>rd\<close>. What is used of the rounding is what IEEE 754 says of every rounding mode: it
  is monotone, and integers up to \<open>2^53\<close> are exact.
\<close>

definition float64_rounding :: "(real \<Rightarrow> real) \<Rightarrow> bool" where
  "float64_rounding rd \<longleftrightarrow>
     mono rd \<and> (\<forall>n::int. \<bar>n\<bar> \<le> 2 ^ 53 \<longrightarrow> rd (of_int n) = of_int n)"

definition duration_hours :: "(real \<Rightarrow> real) \<Rightarrow> duration \<Rightarrow> real" where
  "duration_hours rd d =
     rd (rd (of_int (d div hour)) + rd (rd (of_int (d mod hour)) / of_int hour))"

definition age_days :: "(real \<Rightarrow> real) \<Rightarrow> gotime \<Rightarrow> gotime \<Rightarrow> int" where
  "age_days rd created now =
     (let d = time_sub now created in
      if d < 0 then 0 else \<lfloor>rd (duration_hours rd d / 24)\<rfloor>)"

record age_rule =
  rule_enabled :: bool
  rule_threshold_days :: int

record age_policy =
  ap_default_rule :: age_rule
  ap_per_tenant :: "(string \<times> age_rule) list"

definition rule_for :: "age_policy \<Rightarrow> string \<Rightarrow> age_rule" where
  "rule_for p prefix =
     (case map_of (ap_per_tenant p) prefix of Some r \<Rightarrow> r | None \<Rightarrow> ap_default_rule p)"

definition unknown_age_reason :: string where
  "unknown_age_reason =
     ''could not determine image age (image config is missing a readable created timestamp)''"

definition too_old_reason :: "(gotime \<Rightarrow> string) \<Rightarrow> int \<Rightarrow> int \<Rightarrow> gotime \<Rightarrow> string" where
  "too_old_reason rfc3339 age threshold created =
     ''image age '' @ fmt_int age @ ''d exceeds max '' @ fmt_int threshold
       @ ''d (created '' @ rfc3339 created @ '')''"

text \<open>\<open>rfc3339\<close> is \<open>Time.Format(time.RFC3339)\<close>; it only ever reaches the reason text.\<close>

definition age_evaluate ::
  "(real \<Rightarrow> real) \<Rightarrow> (gotime \<Rightarrow> string) \<Rightarrow> age_policy \<Rightarrow> gotime \<Rightarrow> staged_image \<Rightarrow> verdict res"
where
  "age_evaluate rd rfc3339 p now img =
     (let rule = rule_for p (si_prefix img) in
      if \<not> rule_enabled rule then Inr (zero_verdict\<lparr>v_passed := True\<rparr>)
      else if is_zero_time (si_created img) then
        Inr (zero_verdict\<lparr>v_passed := False, v_reasons := [unknown_age_reason],
               v_age := Some \<lparr>ai_known = False, ai_created = 0, ai_age_days = 0,
                 ai_threshold_days = rule_threshold_days rule, ai_compliant = False\<rparr>\<rparr>)
      else
        (let age = age_days rd (si_created img) now;
             compliant = (age \<le> rule_threshold_days rule);
             info = \<lparr>ai_known = True, ai_created = si_created img, ai_age_days = age,
                      ai_threshold_days = rule_threshold_days rule, ai_compliant = compliant\<rparr>
         in if compliant then Inr (zero_verdict\<lparr>v_passed := True, v_age := Some info\<rparr>)
            else Inr (zero_verdict\<lparr>v_passed := False,
                   v_reasons := [too_old_reason rfc3339 age (rule_threshold_days rule) (si_created img)],
                   v_age := Some info\<rparr>)))"

section \<open>Bounds on the age\<close>

definition day :: duration where
  "day = 24 * hour"

text \<open>The longest age an int64 duration can express, in whole days.\<close>

definition max_days :: int where
  "max_days = 106751"

lemma hour_pos [simp]: "0 < hour" "hour \<noteq> 0"
  by (simp_all add: duration_units)

lemma rounding_mono: "float64_rounding rd \<Longrightarrow> x \<le> y \<Longrightarrow> rd x \<le> rd y"
  by (auto simp: float64_rounding_def mono_def)

lemma rounding_int:
  "float64_rounding rd \<Longrightarrow> \<bar>n\<bar> \<le> 2 ^ 53 \<Longrightarrow> rd (of_int n) = of_int n"
  by (auto simp: float64_rounding_def)

lemma rounding_ge:
  assumes "float64_rounding rd" "\<bar>n\<bar> \<le> 2 ^ 53" "of_int n \<le> x"
  shows "of_int n \<le> rd x"
  using rounding_mono [OF assms(1,3)] rounding_int [OF assms(1,2)] by simp

lemma rounding_le:
  assumes "float64_rounding rd" "\<bar>n\<bar> \<le> 2 ^ 53" "x \<le> of_int n"
  shows "rd x \<le> of_int n"
  using rounding_mono [OF assms(1,3)] rounding_int [OF assms(1,2)] by simp

lemma hours_in_range:
  assumes "0 \<le> d" "d \<le> max_duration"
  shows "0 \<le> d div hour" "d div hour \<le> 2562047"
proof -
  show "0 \<le> d div hour" using assms(1) by (simp add: pos_imp_zdiv_nonneg_iff)
  have "d div hour \<le> max_duration div hour" using assms(2) by (simp add: zdiv_mono1)
  then show "d div hour \<le> 2562047" by (simp add: duration_units max_duration_def)
qed

text \<open>At least \<open>k\<close> full days give an age of at least \<open>k\<close>, however the float operations round.\<close>

lemma hours_ge:
  assumes rd: "float64_rounding rd" and d: "0 \<le> d" "d \<le> max_duration"
  shows "of_int (d div hour) \<le> duration_hours rd d"
proof -
  note h = hours_in_range [OF d]
  have "0 \<le> d mod hour" by simp
  then have "of_int 0 \<le> rd (of_int (d mod hour))"
    by (intro rounding_ge [OF rd]) auto
  then have "of_int 0 \<le> rd (of_int (d mod hour)) / of_int hour"
    by (simp add: duration_units)
  then have "of_int 0 \<le> rd (rd (of_int (d mod hour)) / of_int hour)"
    by (rule rounding_ge [OF rd, rotated]) simp
  moreover have "rd (of_int (d div hour)) = of_int (d div hour)"
    using h by (intro rounding_int [OF rd]) auto
  ultimately show ?thesis
    unfolding duration_hours_def using h by (intro rounding_ge [OF rd]) auto
qed

lemma hours_le:
  assumes rd: "float64_rounding rd" and d: "0 \<le> d" "d \<le> max_duration"
  shows "duration_hours rd d \<le> of_int (d div hour + (if d mod hour = 0 then 0 else 1))"
proof -
  note h = hours_in_range [OF d]
  let ?e = "if d mod hour = 0 then 0 else 1 :: int"
  have m: "0 \<le> d mod hour" "d mod hour < hour" by simp_all
  have hv: "hour = 3600000000000" by (simp add: duration_units)
  have "rd (of_int (d mod hour)) = of_int (d mod hour)"
    using m by (intro rounding_int [OF rd]) (auto simp: hv)
  then have "rd (of_int (d mod hour)) / of_int hour \<le> of_int ?e"
    using m by (auto simp: hv)
  then have "rd (rd (of_int (d mod hour)) / of_int hour) \<le> of_int ?e"
    by (rule rounding_le [OF rd, rotated]) simp
  moreover have "rd (of_int (d div hour)) = of_int (d div hour)"
    using h by (intro rounding_int [OF rd]) auto
  ultimately show ?thesis
    unfolding duration_hours_def using h by (intro rounding_le [OF rd]) auto
qed

lemma div_ge: "m * h \<le> d \<Longrightarrow> 0 < h \<Longrightarrow> m \<le> d div (h::int)"
  using zdiv_mono1 [of "m * h" d h] by simp

lemma div_ceil_le:
  assumes "d \<le> m * h" "0 < (h::int)"
  shows "d div h + (if d mod h = 0 then 0 else 1) \<le> m"
proof (cases "d mod h = 0")
  case True
  with zdiv_mono1 [OF assms] assms(2) show ?thesis by simp
next
  case False
  then have "0 < d mod h" using pos_mod_sign [OF assms(2), of d] by simp
  moreover have "d = (d div h) * h + d mod h" by simp
  ultimately have "(d div h) * h < m * h" using assms(1) by linarith
  then have "d div h < m" using assms(2) by simp
  with False show ?thesis by simp
qed

lemma age_days_ge:
  assumes rd: "float64_rounding rd" and k: "0 \<le> k" "k \<le> max_days"
    and age: "k * day \<le> now - created"
  shows "k \<le> age_days rd created now"
proof -
  let ?d = "time_sub now created"
  have hv: "hour = 3600000000000" by (simp add: duration_units)
  have kd: "k * day \<le> ?d"
    using k age by (auto simp: time_sub_def max_duration_def min_duration_def day_def hv max_days_def)
  have d0: "0 \<le> ?d" using kd k(1) by (smt (verit) day_def hv mult_nonneg_nonneg)
  have d1: "?d \<le> max_duration" by (simp add: time_sub_def max_duration_def min_duration_def)
  have "24 * k \<le> ?d div hour"
    using kd by (intro div_ge) (simp_all add: day_def algebra_simps)
  with hours_ge [OF rd d0 d1] have "of_int (24 * k) \<le> duration_hours rd ?d"
    by linarith
  then have "of_int k \<le> duration_hours rd ?d / 24" by simp
  then have "of_int k \<le> rd (duration_hours rd ?d / 24)"
    using k by (intro rounding_ge [OF rd]) (auto simp: max_days_def)
  with d0 show ?thesis by (simp add: age_days_def Let_def le_floor_iff)
qed

lemma age_days_le:
  assumes rd: "float64_rounding rd" and k: "0 \<le> k" "k \<le> max_days"
    and age: "now - created \<le> k * day"
  shows "age_days rd created now \<le> k"
proof (cases "time_sub now created < 0")
  case True
  then show ?thesis using k by (simp add: age_days_def)
next
  case False
  let ?d = "time_sub now created"
  have hv: "hour = 3600000000000" by (simp add: duration_units)
  have d0: "0 \<le> ?d" using False by simp
  have d1: "?d \<le> max_duration" by (simp add: time_sub_def max_duration_def min_duration_def)
  have kd: "?d \<le> k * 24 * hour"
    using k age by (auto simp: time_sub_def min_duration_def day_def hv)
  have "?d div hour + (if ?d mod hour = 0 then 0 else 1) \<le> 24 * k"
    using kd by (intro div_ceil_le) (simp_all add: algebra_simps)
  with hours_le [OF rd d0 d1] have "duration_hours rd ?d \<le> of_int (24 * k)"
    by linarith
  then have "duration_hours rd ?d / 24 \<le> of_int k" by simp
  then have "rd (duration_hours rd ?d / 24) \<le> of_int k"
    using k by (intro rounding_le [OF rd]) (auto simp: max_days_def)
  then have "\<lfloor>rd (duration_hours rd ?d / 24)\<rfloor> \<le> k" by linarith
  with False show ?thesis by (simp add: age_days_def)
qed

lemma float64_rounding_id: "float64_rounding (\<lambda>x. x)"
  by (simp add: float64_rounding_def mono_def)

section \<open>Property\<close>



end
