(* ===== verification/Grype_Policy.thy ===== *)
theory Grype_Policy
  imports Policy_Engine Image_Age
begin

text \<open>
  \<open>internal/policies/grype\<close>: the vulnerability-scan policy (\<open>grype.go\<close>), the parsed report
  (\<open>report.go\<close>) and the reuse of a previous scan of the same manifest digest
  (\<open>reportcache.go\<close>).

  The scanner, the shared store, the gauge and the counter act on the state \<open>'w\<close>. The JSON
  codec of the cached envelope and of grype's output is a parameter (\<open>g_encode\<close>, \<open>g_decode\<close>,
  \<open>decode_probe\<close>, \<open>decode_json\<close>); \<open>g_round\<close> is the float64 rounding of \<open>Image_Age\<close>.
\<close>

section \<open>Reports\<close>

record report =
  rep_db_version :: string
  rep_db_built :: gotime
  rep_findings :: "finding list"

definition empty_report :: report where
  "empty_report = \<lparr>rep_db_version = [], rep_db_built = 0, rep_findings = []\<rparr>"

record grype_match =
  gm_id :: string
  gm_severity :: string
  gm_fix_versions :: "string list"
  gm_name :: string
  gm_version :: string

record grype_json =
  gj_matches :: "grype_match list"
  gj_schema_version :: string
  gj_built :: string

text \<open>\<open>parse_rfc3339\<close> is \<open>time.Parse(time.RFC3339, _)\<close>, \<open>None\<close> for an error.\<close>

definition parse_db_built :: "(string \<Rightarrow> gotime option) \<Rightarrow> string \<Rightarrow> gotime" where
  "parse_db_built parse_rfc3339 s =
     (if s = [] then 0 else case parse_rfc3339 s of None \<Rightarrow> 0 | Some t \<Rightarrow> t)"

definition match_finding :: "grype_match \<Rightarrow> finding" where
  "match_finding m =
     (let fixed = (case gm_fix_versions m of [] \<Rightarrow> [] | v # _ \<Rightarrow> v);
          sev0 = to_upper (trim_space (gm_severity m));
          sev = (if sev0 = [] then ''UNKNOWN'' else sev0)
      in \<lparr>f_cve = gm_id m, f_severity = sev, f_pkg = gm_name m, f_version = gm_version m,
          f_fixed_version = fixed\<rparr>)"

definition parse_report ::
  "(string \<Rightarrow> string list res) \<Rightarrow> (string \<Rightarrow> grype_json res) \<Rightarrow> (string \<Rightarrow> gotime option)
   \<Rightarrow> string \<Rightarrow> report res" where
  "parse_report decode_probe decode_json parse_rfc3339 raw =
     (case decode_probe raw of
        Inl e \<Rightarrow> Inl (ErrWrap ''parse grype json: '' e [])
      | Inr keys0 \<Rightarrow>
          (if ''descriptor'' \<notin> set keys0 then
             Inl (ErrMsg ''parse grype json: missing descriptor (not a valid grype report)'')
           else case decode_json raw of
             Inl e \<Rightarrow> Inl (ErrWrap ''parse grype json: '' e [])
           | Inr gj \<Rightarrow>
               Inr \<lparr>rep_db_version = ''schema '' @ gj_schema_version gj @ '' built '' @ gj_built gj,
                    rep_db_built = parse_db_built parse_rfc3339 (gj_built gj),
                    rep_findings = map match_finding (gj_matches gj)\<rparr>))"

section \<open>The scan cache\<close>

record cached_report =
  cr_version :: int
  cr_report :: report
  cr_stored_at :: gotime

record 'w report_store =
  rs_get :: "string \<Rightarrow> 'w \<Rightarrow> string option res \<times> 'w"
  rs_set :: "string \<Rightarrow> string \<Rightarrow> duration \<Rightarrow> 'w \<Rightarrow> goerr option \<times> 'w"

record 'w grype_policy =
  g_scan :: "string \<Rightarrow> 'w \<Rightarrow> report res \<times> 'w"
  g_threshold :: string
  g_observe :: bool
  g_db_age :: "(real \<Rightarrow> 'w \<Rightarrow> 'w) option"
  g_clock :: "'w \<Rightarrow> gotime"
  g_cache :: "'w report_store option"
  g_cache_max_db_age :: duration
  g_cache_observer :: "(bool \<Rightarrow> 'w \<Rightarrow> 'w) option"
  g_encode :: "cached_report \<Rightarrow> string res"
  g_decode :: "string \<Rightarrow> cached_report res"
  g_round :: "real \<Rightarrow> real"

definition default_scan_cache_max_db_age :: duration where
  "default_scan_cache_max_db_age = 24 * hour"

definition with_report_cache :: "'w report_store option \<Rightarrow> duration \<Rightarrow> 'w grype_policy \<Rightarrow> 'w grype_policy" where
  "with_report_cache s max_db_age p =
     p\<lparr>g_cache := s,
       g_cache_max_db_age :=
         (if max_db_age \<le> 0 then default_scan_cache_max_db_age else max_db_age)\<rparr>"

definition report_cache_version :: int where
  "report_cache_version = 1"

definition max_cached_report_bytes :: nat where
  "max_cached_report_bytes = 1048576"

definition report_cache_key :: "string \<Rightarrow> string" where
  "report_cache_key digest = ''merlin:scan:v1:'' @ digest"

definition observe_cache :: "'w grype_policy \<Rightarrow> bool \<Rightarrow> 'w \<Rightarrow> 'w" where
  "observe_cache p hit w = (case g_cache_observer p of None \<Rightarrow> w | Some f \<Rightarrow> f hit w)"

definition report_is_fresh :: "'w grype_policy \<Rightarrow> report \<Rightarrow> 'w \<Rightarrow> bool" where
  "report_is_fresh p rep w \<longleftrightarrow>
     \<not> is_zero_time (rep_db_built rep) \<and>
     time_sub (g_clock p w) (rep_db_built rep) < g_cache_max_db_age p"

definition entry_ttl :: "'w grype_policy \<Rightarrow> report \<Rightarrow> 'w \<Rightarrow> duration" where
  "entry_ttl p rep w = time_sub (rep_db_built rep + g_cache_max_db_age p) (g_clock p w)"

definition lookup_report :: "'w grype_policy \<Rightarrow> string \<Rightarrow> 'w \<Rightarrow> report option \<times> 'w" where
  "lookup_report p digest w =
     (case g_cache p of
        None \<Rightarrow> (None, w)
      | Some store \<Rightarrow>
          (if digest = [] then (None, w)
           else case rs_get store (report_cache_key digest) w of
             (Inl e, w') \<Rightarrow> (None, w')
           | (Inr None, w') \<Rightarrow> (None, w')
           | (Inr (Some raw), w') \<Rightarrow>
               (case g_decode p raw of
                  Inl e \<Rightarrow> (None, w')
                | Inr entry \<Rightarrow>
                    (if cr_version entry \<noteq> report_cache_version then (None, w')
                     else if \<not> report_is_fresh p (cr_report entry) w' then (None, w')
                     else (Some (cr_report entry), w')))))"

definition store_report :: "'w grype_policy \<Rightarrow> string \<Rightarrow> report \<Rightarrow> 'w \<Rightarrow> 'w" where
  "store_report p digest rep w =
     (case g_cache p of
        None \<Rightarrow> w
      | Some store \<Rightarrow>
          (if digest = [] then w
           else if is_zero_time (rep_db_built rep) then w
           else
             (let ttl = entry_ttl p rep w in
              if ttl \<le> 0 then w
              else case g_encode p \<lparr>cr_version = report_cache_version, cr_report = rep,
                                    cr_stored_at = g_clock p w\<rparr> of
                Inl e \<Rightarrow> w
              | Inr raw \<Rightarrow>
                  (if length raw > max_cached_report_bytes then w
                   else snd (rs_set store (report_cache_key digest) raw ttl w)))))"

definition scan_or_reuse :: "'w grype_policy \<Rightarrow> staged_image \<Rightarrow> 'w \<Rightarrow> report res \<times> 'w" where
  "scan_or_reuse p img w =
     (case lookup_report p (si_digest img) w of
        (Some rep, w1) \<Rightarrow> (Inr rep, observe_cache p True w1)
      | (None, w1) \<Rightarrow>
          (case g_scan p (si_oci_path img) (observe_cache p False w1) of
             (Inl e, w2) \<Rightarrow> (Inl e, w2)
           | (Inr rep, w2) \<Rightarrow> (Inr rep, store_report p (si_digest img) rep w2)))"

section \<open>The policy\<close>

definition severity_table :: "(string \<times> nat) list" where
  "severity_table = [(''UNKNOWN'', 0), (''NEGLIGIBLE'', 1), (''LOW'', 2), (''MEDIUM'', 3),
     (''HIGH'', 4), (''CRITICAL'', 5)]"

definition severity_rank :: "string \<Rightarrow> nat option" where
  "severity_rank s = map_of severity_table (to_upper s)"

text \<open>A Go map read of an absent key is 0.\<close>

definition threshold_rank :: "string \<Rightarrow> nat" where
  "threshold_rank s = (case severity_rank s of None \<Rightarrow> 0 | Some r \<Rightarrow> r)"

definition unenforced_prefix :: string where
  "unenforced_prefix = ''not enforced: ''"

definition finding_reason :: "nat \<Rightarrow> finding \<Rightarrow> string list" where
  "finding_reason minrank f =
     (case severity_rank (f_severity f) of
        None \<Rightarrow> [f_cve f @ '' (unrecognized severity '' @ fmt_q (f_severity f) @ '') in ''
                   @ f_pkg f @ '' '' @ f_version f]
      | Some r \<Rightarrow> (if minrank \<le> r
                   then [f_cve f @ '' ('' @ f_severity f @ '') in '' @ f_pkg f @ '' '' @ f_version f]
                   else []))"

definition observe_db_age :: "'w grype_policy \<Rightarrow> gotime \<Rightarrow> 'w \<Rightarrow> 'w" where
  "observe_db_age p built w =
     (case g_db_age p of
        None \<Rightarrow> w
      | Some set_gauge \<Rightarrow>
          (if is_zero_time built then w
           else
             (let age0 = time_sub (g_clock p w) built;
                  age = (if age0 < 0 then 0 else age0)
              in set_gauge (g_round p (duration_hours (g_round p) age / 24)) w)))"

definition grype_evaluate :: "'w grype_policy \<Rightarrow> staged_image \<Rightarrow> 'w \<Rightarrow> verdict res \<times> 'w" where
  "grype_evaluate p img w =
     (if si_oci_path img = [] then (Inl (ErrMsg ''grype scan: empty OCI path for image''), w)
      else case scan_or_reuse p img w of
        (Inl e, w1) \<Rightarrow> (Inl (ErrWrap ''grype scan: '' e []), w1)
      | (Inr rep, w1) \<Rightarrow>
          (let w2 = observe_db_age p (rep_db_built rep) w1;
               minrank = threshold_rank (g_threshold p);
               reasons = concat (map (finding_reason minrank) (rep_findings rep))
           in if g_observe p then
                (Inr \<lparr>v_passed = True, v_reasons = map ((@) unenforced_prefix) reasons,
                      v_findings = rep_findings rep,
                      v_scanner_db_version = rep_db_version rep, v_age = None\<rparr>, w2)
              else
                (Inr \<lparr>v_passed = (reasons = []), v_reasons = reasons,
                      v_findings = rep_findings rep,
                      v_scanner_db_version = rep_db_version rep, v_age = None\<rparr>, w2)))"

section \<open>Facts\<close>

lemma report_cache_key_inj [simp]: "report_cache_key a = report_cache_key b \<longleftrightarrow> a = b"
  by (simp add: report_cache_key_def)

text \<open>A finding blocks when its severity is unknown to the table or at least the threshold.\<close>

definition blocking :: "nat \<Rightarrow> finding \<Rightarrow> bool" where
  "blocking minrank f =
     (case severity_rank (f_severity f) of None \<Rightarrow> True | Some r \<Rightarrow> minrank \<le> r)"

lemma finding_reason_empty: "finding_reason m f = [] \<longleftrightarrow> \<not> blocking m f"
  by (auto simp: finding_reason_def blocking_def split: option.splits)

lemma reasons_empty:
  "concat (map (finding_reason m) fs) = [] \<longleftrightarrow> (\<forall>f\<in>set fs. \<not> blocking m f)"
  by (auto simp: finding_reason_empty)

lemma lookup_report_Some:
  assumes "lookup_report p d w = (Some rep, w')"
  obtains store raw entry where "g_cache p = Some store" "d \<noteq> []"
    "rs_get store (report_cache_key d) w = (Inr (Some raw), w')"
    "g_decode p raw = Inr entry" "cr_version entry = report_cache_version"
    "rep = cr_report entry" "report_is_fresh p rep w'"
  using assms
  by (auto simp: lookup_report_def split: option.splits if_splits prod.splits sum.splits)

lemma match_finding_severity: "f_severity (match_finding m) \<noteq> []"
  by (simp add: match_finding_def Let_def)

section \<open>Property\<close>

text \<open>
  C8: the verdict of the scan policy. Once a report is at hand, an enforcing policy passes the image
  iff no finding blocks (severity unknown to the table, or at least the threshold), and it names
  every blocking finding; an observing policy passes it always and keeps one marked reason for
  every reason an enforcing policy would have given. Findings and database version are reported
  either way.
\<close>

theorem grype_verdict:
  assumes "scan_or_reuse p img w = (Inr rep, w1)" and "si_oci_path img \<noteq> []"
  shows "\<exists>v. grype_evaluate p img w = (Inr v, observe_db_age p (rep_db_built rep) w1)
     \<and> v_passed v = (g_observe p \<or> (\<forall>f\<in>set (rep_findings rep). \<not> blocking (threshold_rank (g_threshold p)) f))
     \<and> (v_reasons v = []) = (\<forall>f\<in>set (rep_findings rep). \<not> blocking (threshold_rank (g_threshold p)) f)
     \<and> (g_observe p \<longrightarrow> list_all (\<lambda>r. has_prefix r unenforced_prefix) (v_reasons v))
     \<and> v_findings v = rep_findings rep \<and> v_scanner_db_version v = rep_db_version rep"
  using assms reasons_empty [of "threshold_rank (g_threshold p)" "rep_findings rep"]
  by (auto simp: grype_evaluate_def Let_def list_all_iff)

definition sample_scan_policy :: "string \<Rightarrow> finding list \<Rightarrow> unit grype_policy" where
  "sample_scan_policy threshold fs = \<lparr>
     g_scan = (\<lambda>_ w. (Inr \<lparr>rep_db_version = ''v6'', rep_db_built = 9, rep_findings = fs\<rparr>, w)),
     g_threshold = threshold, g_observe = False, g_db_age = None, g_clock = (\<lambda>_. 10),
     g_cache = None, g_cache_max_db_age = 0, g_cache_observer = None,
     g_encode = (\<lambda>_. Inr []), g_decode = (\<lambda>_. Inl RedisNil), g_round = (\<lambda>x. x)\<rparr>"

definition sample_image :: staged_image where
  "sample_image = \<lparr>si_repo = ''app'', si_tag = ''v1'', si_digest = ''sha256:aa'', si_fs_path = ''/r'',
     si_oci_path = ''/o'', si_created = 5, si_prefix = ''dev''\<rparr>"

lemma grype_verdict_witness:
  "let f = \<lparr>f_cve = ''CVE-1'', f_severity = ''HIGH'', f_pkg = ''openssl'', f_version = ''1'',
            f_fixed_version = []\<rparr>;
       p = sample_scan_policy ''CRITICAL'' [f]
   in \<exists>v. grype_evaluate p sample_image () = (Inr v, observe_db_age p 9 ())
     \<and> v_passed v = (g_observe p \<or> (\<forall>f'\<in>set [f]. \<not> blocking (threshold_rank (g_threshold p)) f'))
     \<and> (v_reasons v = []) = (\<forall>f'\<in>set [f]. \<not> blocking (threshold_rank (g_threshold p)) f')
     \<and> (g_observe p \<longrightarrow> list_all (\<lambda>r. has_prefix r unenforced_prefix) (v_reasons v))
     \<and> v_findings v = [f] \<and> v_scanner_db_version v = ''v6''"
  unfolding Let_def
  using grype_verdict [where w = "()" and img = sample_image and rep = "\<lparr>rep_db_version = ''v6'', rep_db_built = 9,
      rep_findings = [\<lparr>f_cve = ''CVE-1'', f_severity = ''HIGH'', f_pkg = ''openssl'', f_version = ''1'',
            f_fixed_version = []\<rparr>]\<rparr>" and p = "sample_scan_policy ''CRITICAL'' [\<lparr>f_cve = ''CVE-1'',
      f_severity = ''HIGH'', f_pkg = ''openssl'', f_version = ''1'', f_fixed_version = []\<rparr>]"]
  by (simp add: sample_scan_policy_def scan_or_reuse_def lookup_report_def observe_cache_def
      store_report_def sample_image_def)

end
