(* ===== verification/Gate_Router.thy ===== *)
theory Gate_Router
  imports Policy_Engine
begin

text \<open>
  \<open>internal/router\<close>: the gate core behind a bounded scan pool (\<open>router.go\<close>, \<open>pool.go\<close>) and
  the one-line summary a client reads (\<open>summary.go\<close>).

  The pool is a buffered channel used as a semaphore. Its state is the channel's capacity and
  the holders of the slots. Which case of the \<open>select\<close> in \<open>Acquire\<close> fires is decided by the
  scheduler, so it is an argument (\<open>pool_event\<close>); a slot case can fire only while the
  channel has room, and \<open>None\<close> is the caller still blocked.
\<close>

section \<open>The gate and its pool\<close>

record gate_request =
  gr_source :: string
  gr_identity :: string
  gr_image :: staged_image
  gr_target :: string

definition router_gate ::
  "'w gate_policy list \<Rightarrow> gate_request \<Rightarrow> 'w \<Rightarrow> (result \<times> goerr option) \<times> 'w" where
  "router_gate engine req w = engine_run engine (gr_image req) w"

record pool =
  pl_cap :: nat
  pl_held :: "nat multiset"

datatype pool_event = SlotReady | CtxDone goerr

definition new_pool :: "int \<Rightarrow> pool" where
  "new_pool n = \<lparr>pl_cap = nat (if n < 1 then 1 else n), pl_held = {#}\<rparr>"

definition pool_acquire :: "nat \<Rightarrow> pool_event \<Rightarrow> pool \<Rightarrow> (unit res \<times> pool) option" where
  "pool_acquire who ev p =
     (case ev of
        SlotReady \<Rightarrow>
          (if size (pl_held p) < pl_cap p
           then Some (Inr (), p\<lparr>pl_held := add_mset who (pl_held p)\<rparr>) else None)
      | CtxDone e \<Rightarrow>
          (if errors_is e CtxDeadlineExceeded then Some (Inl ErrSaturated, p)
           else Some (Inl e, p)))"

definition pool_release :: "nat \<Rightarrow> pool \<Rightarrow> pool" where
  "pool_release who p = p\<lparr>pl_held := pl_held p - {#who#}\<rparr>"

text \<open>\<open>Pool.Gate\<close>: the deferred release runs after the engine, whatever it returned.\<close>

definition pool_gate ::
  "'w gate_policy list \<Rightarrow> nat \<Rightarrow> pool_event \<Rightarrow> gate_request \<Rightarrow> pool \<times> 'w
   \<Rightarrow> ((result \<times> goerr option) \<times> (pool \<times> 'w)) option" where
  "pool_gate engine who ev req pw =
     (case pw of (p, w) \<Rightarrow>
        (case pool_acquire who ev p of
           None \<Rightarrow> None
         | Some (Inl e, p') \<Rightarrow> Some ((zero_result, Some e), (p', w))
         | Some (Inr _, p') \<Rightarrow>
             (case router_gate engine req w of
                (r, w') \<Rightarrow> Some (r, (pool_release who p', w')))))"

text \<open>Interleavings of any number of callers.\<close>

inductive pool_step :: "pool \<Rightarrow> pool \<Rightarrow> bool" where
  acquire: "pool_acquire who ev p = Some (r, p') \<Longrightarrow> pool_step p p'"
| release: "who \<in># pl_held p \<Longrightarrow> pool_step p (pool_release who p)"

inductive_cases pool_stepE: "pool_step p p'"

inductive pool_reaches :: "int \<Rightarrow> pool \<Rightarrow> bool" for n where
  start: "pool_reaches n (new_pool n)"
| more: "pool_reaches n p \<Longrightarrow> pool_step p p' \<Longrightarrow> pool_reaches n p'"

section \<open>The summary line\<close>

definition count_severity :: "string \<Rightarrow> finding list \<Rightarrow> nat" where
  "count_severity s fs = length (filter (\<lambda>f. f_severity f = s) fs)"

definition failing_reasons :: "(string \<times> verdict) list \<Rightarrow> string list" where
  "failing_reasons vs = concat (map (\<lambda>(_, v). if v_passed v then [] else v_reasons v) vs)"

definition summarize_result :: "result \<Rightarrow> string" where
  "summarize_result res =
     (let crit = count_severity ''CRITICAL'' (r_findings res);
          high = count_severity ''HIGH'' (r_findings res);
          counts = fmt_nat crit @ '' CRITICAL, '' @ fmt_nat high @ '' HIGH''
      in if \<not> r_passed res then
           (let reasons = sort (failing_reasons (r_verdicts res)) in
            if reasons \<noteq> [] then ''rejected: '' @ str_join ''; '' reasons
            else ''rejected: image failed policy gate'')
         else if r_unenforced res \<noteq> [] then
           ''published, gate not enforcing: '' @ counts @ ''; ''
             @ str_join ''; '' (sort (r_unenforced res))
         else ''scan clean: '' @ counts)"

section \<open>Facts\<close>

lemma pool_acquire_cap:
  "pool_acquire who ev p = Some (r, p') \<Longrightarrow> pl_cap p' = pl_cap p"
  by (auto simp: pool_acquire_def split: pool_event.splits if_splits)

lemma pool_acquire_held:
  "pool_acquire who ev p = Some (r, p') \<Longrightarrow> size (pl_held p) \<le> pl_cap p \<Longrightarrow>
   size (pl_held p') \<le> pl_cap p'"
  by (auto simp: pool_acquire_def split: pool_event.splits if_splits)

lemma pool_release_held:
  "size (pl_held (pool_release who p)) \<le> size (pl_held p)"
  by (simp add: pool_release_def size_Diff_submset size_mset_mono)

lemma pool_step_bounded:
  "pool_step p p' \<Longrightarrow> size (pl_held p) \<le> pl_cap p \<Longrightarrow>
   size (pl_held p') \<le> pl_cap p' \<and> pl_cap p' = pl_cap p"
  by (elim pool_stepE)
     (auto dest: pool_acquire_held pool_acquire_cap simp: pool_release_def
           intro: order_trans [OF size_mset_mono [OF diff_subset_eq_self]])

lemma failing_reasons_mset:
  "mset vs = mset vs' \<Longrightarrow> mset (failing_reasons vs) = mset (failing_reasons vs')"
  unfolding failing_reasons_def mset_concat
  by (metis (no_types, lifting) mset_map sum_mset_sum_list)

lemma summary_order_independent:
  "mset vs = mset vs' \<Longrightarrow>
   summarize_result (res\<lparr>r_verdicts := vs\<rparr>) = summarize_result (res\<lparr>r_verdicts := vs'\<rparr>)"
proof -
  assume "mset vs = mset vs'"
  then have "sort (failing_reasons vs) = sort (failing_reasons vs')"
    by (metis failing_reasons_mset mset_sort properties_for_sort sorted_sort)
  then show ?thesis by (simp add: summarize_result_def Let_def)
qed

lemma summary_prefix:
  "has_prefix (summarize_result res) ''scan clean: '' \<longleftrightarrow> r_passed res \<and> r_unenforced res = []"
  "has_prefix (summarize_result res) ''rejected: '' \<longleftrightarrow> \<not> r_passed res"
  by (auto simp: summarize_result_def Let_def)

section \<open>Properties\<close>

text \<open>
  However many callers acquire and release scan slots in whatever order, at most
  \<open>max 1 size\<close> of them hold a slot at a time.
\<close>

theorem pool_bounded:
  assumes "pool_reaches n p"
  shows "size (pl_held p) \<le> pl_cap p \<and> pl_cap p = nat (max 1 n)"
  using assms
proof induction
  case start
  then show ?case by (auto simp: new_pool_def)
next
  case (more p p')
  then show ?case using pool_step_bounded [of p p'] by simp
qed

lemma pool_bounded_witness:
  "let p = pool_release 7 (snd (the (pool_acquire 7 SlotReady (new_pool 0)))) in
   size (pl_held p) \<le> pl_cap p \<and> pl_cap p = nat (max 1 0)"
  unfolding Let_def
proof (rule pool_bounded)
  have a: "pool_acquire 7 SlotReady (new_pool 0) = Some (Inr (), \<lparr>pl_cap = 1, pl_held = {#7#}\<rparr>)"
    by (simp add: pool_acquire_def new_pool_def)
  have "pool_reaches 0 \<lparr>pl_cap = 1, pl_held = {#7#}\<rparr>"
    by (rule pool_reaches.more [OF pool_reaches.start pool_step.acquire [OF a]])
  then show "pool_reaches 0 (pool_release 7 (snd (the (pool_acquire 7 SlotReady (new_pool 0)))))"
    unfolding a by (rule pool_reaches.more) (simp add: pool_step.release)
qed

text \<open>
  A gate run gives its slot back on every path. Whatever the engine returns, the pool is
  afterwards as it was before, and a caller that got no slot gets the saturation error on a
  deadline and its own error on a cancellation.
\<close>

theorem pool_gate_returns_slot:
  "pool_gate engine who ev req (p, w) = None \<or>
   (\<exists>r w'. pool_gate engine who ev req (p, w) = Some (r, (p, w'))
      \<and> (case ev of
           SlotReady \<Rightarrow> (r, w') = router_gate engine req w
         | CtxDone e \<Rightarrow> w' = w \<and> r = (zero_result,
             Some (if errors_is e CtxDeadlineExceeded then ErrSaturated else e))))"
  by (cases ev)
     (auto simp: pool_gate_def pool_acquire_def pool_release_def split: prod.split)

text \<open>
  The summary line does not depend on the order in which the verdict map is visited, says
  ``scan clean'' only for an image that passed with nothing left unenforced, and says
  ``rejected'' exactly for an image that did not pass.
\<close>

theorem summary_truthful:
  "(mset vs = mset vs' \<longrightarrow>
      summarize_result (res\<lparr>r_verdicts := vs\<rparr>) = summarize_result (res\<lparr>r_verdicts := vs'\<rparr>))
   \<and> has_prefix (summarize_result res) ''scan clean: '' = (r_passed res \<and> r_unenforced res = [])
   \<and> has_prefix (summarize_result res) ''rejected: '' = (\<not> r_passed res)"
  using summary_order_independent summary_prefix by blast

lemma summary_truthful_witness:
  "let v = zero_verdict\<lparr>v_reasons := [''b'']\<rparr>; u = zero_verdict\<lparr>v_reasons := [''a'']\<rparr> in
   summarize_result (zero_result\<lparr>r_verdicts := [(''x'', v), (''y'', u)]\<rparr>)
     = summarize_result (zero_result\<lparr>r_verdicts := [(''y'', u), (''x'', v)]\<rparr>)"
  unfolding Let_def
  by (rule summary_truthful [THEN conjunct1, THEN mp]) simp

end
