(* ===== verification/Tenants.thy ===== *)
theory Tenants
  imports Go_Errors
begin

text \<open>
  \<open>internal/tenant\<close>: from a request's host to the tenant that serves it. What a tenant bundles
  (registry, pusher, authenticator) is the type parameter \<open>'t\<close>; the prefix-keyed Go map is an
  Isabelle map.
\<close>

definition prefix_from_host :: "string \<Rightarrow> string \<Rightarrow> string" where
  "prefix_from_host host0 base_domain0 =
     (let host1 = to_lower host0;
          base_domain = to_lower base_domain0;
          host = (case str_index host1 '':'' of Some i \<Rightarrow> take i host1 | None \<Rightarrow> host1);
          suffix = ''.'' @ base_domain
      in if \<not> has_suffix host suffix then []
         else (let label = trim_suffix host suffix in
               if label = [] \<or> str_contains label ''.'' then [] else label))"

record 't static_resolver =
  sr_base_domain :: string
  sr_by_prefix :: "string \<Rightarrow> 't option"

definition new_static_resolver :: "string \<Rightarrow> (string \<Rightarrow> 't option) \<Rightarrow> 't static_resolver" where
  "new_static_resolver base tenants = \<lparr>sr_base_domain = to_lower base, sr_by_prefix = tenants\<rparr>"

definition for_host :: "'t static_resolver \<Rightarrow> string \<Rightarrow> 't res" where
  "for_host s host =
     (let pre = prefix_from_host host (sr_base_domain s) in
      if pre = [] then Inl ErrUnknownTenant
      else case sr_by_prefix s pre of
        None \<Rightarrow> Inl ErrUnknownTenant
      | Some t \<Rightarrow> Inr t)"

section \<open>The host name a prefix is read from\<close>

text \<open>The part of a Host header before the port, case-folded.\<close>

definition host_name :: "string \<Rightarrow> string" where
  "host_name h = to_lower (takeWhile (\<lambda>c. c \<noteq> CHR '':'') h)"

lemma takeWhile_index:
  "(case str_index s [c] of Some i \<Rightarrow> take i s | None \<Rightarrow> s) = takeWhile (\<lambda>x. x \<noteq> c) s"
proof (cases "str_index s [c]")
  case None
  then have "c \<notin> set s" by (simp add: str_index_char_None)
  then have "takeWhile (\<lambda>x. x \<noteq> c) s = s" by (auto simp: takeWhile_eq_all_conv)
  then show ?thesis using None by (metis option.simps(4))
next
  case (Some i)
  have s: "s = take i s @ c # drop (Suc i) s" using str_index_Some [OF Some] by simp
  have "c \<notin> set (take i s)"
  proof
    assume "c \<in> set (take i s)"
    then obtain k where "k < i" "k < length s" "s ! k = c" by (auto simp: in_set_conv_nth)
    then have "has_prefix (drop k s) [c]"
      by (metis Cons_nth_drop_Suc has_prefix_Cons has_prefix_Nil)
    with str_index_least [OF Some \<open>k < i\<close>] show False by simp
  qed
  then have "takeWhile (\<lambda>x. x \<noteq> c) s = take i s"
    by (subst s, subst takeWhile_append2) auto
  with Some show ?thesis by simp
qed

lemma takeWhile_to_lower:
  "(of_char p :: nat) < 65 \<Longrightarrow>
   takeWhile (\<lambda>x. x \<noteq> p) (to_lower s) = to_lower (takeWhile (\<lambda>x. x \<noteq> p) s)"
  by (simp add: to_lower_def takeWhile_map comp_def lower_char_eq_punct)

lemma prefix_from_host_iff:
  "prefix_from_host h b = p \<and> p \<noteq> [] \<longleftrightarrow>
   p \<noteq> [] \<and> CHR ''.'' \<notin> set p \<and> host_name h = p @ ''.'' @ to_lower b"
proof -
  let ?h = "takeWhile (\<lambda>x. x \<noteq> CHR '':'') (to_lower h)"
  have host: "(case str_index (to_lower h) '':'' of Some i \<Rightarrow> take i (to_lower h)
       | None \<Rightarrow> to_lower h) = ?h"
    by (rule takeWhile_index)
  have hn: "host_name h = ?h"
    by (simp add: host_name_def takeWhile_to_lower)
  show ?thesis
  proof (cases "has_suffix ?h (''.'' @ to_lower b)")
    case False
    then show ?thesis
      unfolding hn by (auto simp: prefix_from_host_def host Let_def has_suffix_iff)
  next
    case True
    then obtain r where r: "?h = r @ ''.'' @ to_lower b" by (auto simp: has_suffix_iff)
    have trim: "trim_suffix ?h (''.'' @ to_lower b) = r" unfolding r by (rule trim_suffix_append)
    have "prefix_from_host h b = (if r = [] \<or> CHR ''.'' \<in> set r then [] else r)"
      using True by (simp only: prefix_from_host_def host Let_def trim str_contains_char)
        simp
    then show ?thesis unfolding hn r by auto
  qed
qed

lemma for_host_iff:
  "for_host (new_static_resolver b m) h = Inr t \<longleftrightarrow>
   (\<exists>p. p \<noteq> [] \<and> CHR ''.'' \<notin> set p \<and> host_name h = p @ ''.'' @ to_lower b \<and> m p = Some t)"
  (is "?l \<longleftrightarrow> ?r")
proof
  assume ?l
  then have "prefix_from_host h (to_lower b) \<noteq> [] \<and> m (prefix_from_host h (to_lower b)) = Some t"
    by (auto simp: for_host_def new_static_resolver_def Let_def split: if_splits option.splits)
  then show ?r using prefix_from_host_iff [of h "to_lower b"] by auto
next
  assume ?r
  then obtain p where p: "p \<noteq> []" "CHR ''.'' \<notin> set p" "host_name h = p @ ''.'' @ to_lower b"
    "m p = Some t" by blast
  then have "prefix_from_host h (to_lower b) = p"
    using prefix_from_host_iff [of h "to_lower b" p] by auto
  then show ?l using p by (simp add: for_host_def new_static_resolver_def)
qed

section \<open>Properties\<close>

text \<open>
  A request reaches a tenant iff its host name, without the port and case-folded, is one
  non-empty dot-free label followed by the base domain, and that label is a configured prefix.
  Two hosts that reach tenants under different prefixes therefore differ in their host names.
\<close>

theorem tenant_resolution:
  "for_host (new_static_resolver base m) h = Inr t \<longleftrightarrow>
   (\<exists>p. p \<noteq> [] \<and> CHR ''.'' \<notin> set p \<and> host_name h = p @ ''.'' @ to_lower base \<and> m p = Some t)"
  by (rule for_host_iff)

text \<open>
  A tenant configured under a prefix with an upper-case letter can never be reached: host names
  are case-folded before the lookup and configured prefixes are not.
\<close>

theorem uppercase_prefix_unreachable:
  assumes "to_lower pre \<noteq> pre" and "for_host (new_static_resolver base [pre \<mapsto> t]) h = r"
  shows "r = Inl ErrUnknownTenant"
proof (cases r)
  case (Inr u)
  with assms(2) obtain p where "host_name h = p @ ''.'' @ to_lower base" "[pre \<mapsto> t] p = Some u"
    by (auto simp: for_host_iff)
  then have "host_name h = pre @ ''.'' @ to_lower base" by (auto split: if_splits)
  moreover have "to_lower (host_name h) = host_name h" by (simp add: host_name_def)
  ultimately have "to_lower pre @ to_lower ''.'' @ to_lower base = pre @ ''.'' @ to_lower base"
    by (metis to_lower_append to_lower_idem)
  then have "to_lower pre = pre"
    by (metis append_eq_append_conv length_map to_lower_def)
  with assms(1) show ?thesis by simp
next
  case (Inl e)
  with assms(2) show ?thesis by (auto simp: for_host_def Let_def split: if_splits option.splits)
qed

lemma uppercase_prefix_unreachable_witness:
  "for_host (new_static_resolver ''c3.cloud'' [''Dev'' \<mapsto> ()]) ''Dev.c3.cloud'' = Inl ErrUnknownTenant"
  by (rule uppercase_prefix_unreachable [OF _ refl]) code_simp

end
