(* ===== verification/Promote_Queue.thy ===== *)
theory Promote_Queue
  imports Go_Errors "HOL-Library.AList"
begin

text \<open>
  \<open>internal/promote/queue.go\<close> and \<open>memory.go\<close>: the promotion job, the queue interface, the
  in-process queue, and \<open>QueuePromoter\<close> of \<open>promote.go\<close>.

  The Go interface \<open>Queue\<close> is the record \<open>promote_queue\<close> of state-passing functions; what a
  queue promises its users is the locale \<open>promote_queue_spec\<close>, over three views of its state:
  the pending jobs, the outstanding claims with their times, and the clock. An operation that
  reports an error may or may not have taken effect, which is what a lost reply means.
\<close>

section \<open>Jobs and queues\<close>

record job =
  jb_push_id :: string
  jb_tenant :: string
  jb_repo :: string
  jb_tag :: string
  jb_digest :: string
  jb_ref :: string
  jb_target :: string
  jb_oci_path :: string
  jb_scratch_dir :: string
  jb_layers :: "string list"
  jb_config_dig :: string
  jb_manifest :: string
  jb_identity :: string
  jb_attempts :: "8 word"

record 'w promote_queue =
  q_enqueue :: "job \<Rightarrow> 'w \<Rightarrow> goerr option \<times> 'w"
  q_claim :: "'w \<Rightarrow> job option res \<times> 'w"
  q_ack :: "string \<Rightarrow> 'w \<Rightarrow> goerr option \<times> 'w"
  q_recover :: "duration \<Rightarrow> 'w \<Rightarrow> (job list \<times> goerr option) \<times> 'w"
  q_depth :: "'w \<Rightarrow> int res \<times> 'w"

text \<open>\<open>QueuePromoter\<close>: the request path only enqueues.\<close>

definition queue_promote :: "'w promote_queue \<Rightarrow> job \<Rightarrow> 'w \<Rightarrow> goerr option \<times> 'w" where
  "queue_promote q j w = q_enqueue q j w"

definition queue_pending :: "'w promote_queue \<Rightarrow> 'w \<Rightarrow> int res \<times> 'w" where
  "queue_pending q w = q_depth q w"

section \<open>The in-process queue\<close>

record mem_claim =
  mc_job :: job
  mc_at :: gotime

record mem_queue =
  mq_pending :: "job list"
  mq_claimed :: "(string \<times> mem_claim) list"
  mq_now :: gotime

definition new_mem_queue :: "gotime \<Rightarrow> mem_queue" where
  "new_mem_queue t = \<lparr>mq_pending = [], mq_claimed = [], mq_now = t\<rparr>"

definition mem_enqueue :: "job \<Rightarrow> mem_queue \<Rightarrow> goerr option \<times> mem_queue" where
  "mem_enqueue j q = (None, q\<lparr>mq_pending := mq_pending q @ [j]\<rparr>)"

definition mem_claim_next :: "mem_queue \<Rightarrow> job option res \<times> mem_queue" where
  "mem_claim_next q =
     (case mq_pending q of
        [] \<Rightarrow> (Inr None, q)
      | j # js \<Rightarrow>
          (Inr (Some j),
           q\<lparr>mq_pending := js,
             mq_claimed := AList.update (jb_push_id j) \<lparr>mc_job = j, mc_at = mq_now q\<rparr> (mq_claimed q)\<rparr>))"

definition mem_ack :: "string \<Rightarrow> mem_queue \<Rightarrow> goerr option \<times> mem_queue" where
  "mem_ack k q = (None, q\<lparr>mq_claimed := AList.delete k (mq_claimed q)\<rparr>)"

definition mem_depth :: "mem_queue \<Rightarrow> int res \<times> mem_queue" where
  "mem_depth q = (Inr (int (length (mq_pending q))), q)"

fun mem_recover_loop ::
  "gotime \<Rightarrow> (string \<times> mem_claim) list \<Rightarrow> mem_queue \<Rightarrow> job list \<Rightarrow> job list \<times> mem_queue" where
  "mem_recover_loop cutoff [] q out = (out, q)"
| "mem_recover_loop cutoff ((k, c) # cs) q out =
     (if cutoff < mc_at c then mem_recover_loop cutoff cs q out
      else mem_recover_loop cutoff cs
             (q\<lparr>mq_claimed := AList.delete k (mq_claimed q),
                mq_pending := mc_job c # mq_pending q\<rparr>)
             (out @ [mc_job c]))"

definition mem_recover :: "duration \<Rightarrow> mem_queue \<Rightarrow> (job list \<times> goerr option) \<times> mem_queue" where
  "mem_recover older_than q =
     (case mem_recover_loop (mq_now q - older_than) (mq_claimed q) q [] of
        (out, q') \<Rightarrow> ((out, None), q'))"

definition mem_promote_queue :: "mem_queue promote_queue" where
  "mem_promote_queue = \<lparr>q_enqueue = mem_enqueue, q_claim = mem_claim_next, q_ack = mem_ack,
     q_recover = mem_recover, q_depth = mem_depth\<rparr>"

section \<open>What a queue promises\<close>

text \<open>The claims of a queue: the job a worker took and when it took it.\<close>

type_synonym claims = "string \<Rightarrow> (job \<times> gotime) option"

text \<open>
  A recovery sweep with cutoff \<open>t\<close> may only move claims that are no younger than \<open>t\<close>, and every
  job it takes off the claims is pending afterwards.
\<close>

definition swept :: "gotime \<Rightarrow> job list \<times> claims \<Rightarrow> job list \<times> claims \<Rightarrow> bool" where
  "swept t before after =
     (case (before, after) of ((ps, cl), (ps', cl')) \<Rightarrow>
        (\<exists>js. ps' = js @ ps
           \<and> (\<forall>j\<in>set js. \<exists>k u. cl k = Some (j, u) \<and> u \<le> t \<and> cl' k = None)
           \<and> (\<forall>k. cl' k = cl k \<or> cl' k = None \<and> (\<exists>j u. cl k = Some (j, u) \<and> j \<in> set js))))"

lemma sweptI:
  "(\<And>j. j \<in> set js \<Longrightarrow> \<exists>k u. cl k = Some (j, u) \<and> u \<le> t \<and> cl' k = None) \<Longrightarrow>
   (\<And>k. cl' k = cl k \<or> cl' k = None \<and> (\<exists>j u. cl k = Some (j, u) \<and> j \<in> set js)) \<Longrightarrow>
   swept t (ps, cl) (js @ ps, cl')"
  by (auto simp: swept_def)

lemma sweptE:
  assumes "swept t (ps, cl) (ps', cl')"
  obtains js where "ps' = js @ ps"
    "\<And>j. j \<in> set js \<Longrightarrow> \<exists>k u. cl k = Some (j, u) \<and> u \<le> t \<and> cl' k = None"
    "\<And>k. cl' k = cl k \<or> cl' k = None \<and> (\<exists>j u. cl k = Some (j, u) \<and> j \<in> set js)"
  using assms by (auto simp: swept_def)

lemma swept_refl [simp]: "swept t s s"
  by (cases s) (simp add: swept_def)

text \<open>One more claim reclaimed at the front.\<close>

lemma swept_step:
  assumes "swept t (ps, cl) (ps', cl')" and "cl' k = Some (j, u)" and "u \<le> t"
  shows "swept t (ps, cl) (j # ps', cl'(k := None))"
proof -
  from assms(1) obtain js where js: "ps' = js @ ps"
    "\<And>i. i \<in> set js \<Longrightarrow> \<exists>k u. cl k = Some (i, u) \<and> u \<le> t \<and> cl' k = None"
    "\<And>k. cl' k = cl k \<or> cl' k = None \<and> (\<exists>j u. cl k = Some (j, u) \<and> j \<in> set js)"
    by (rule sweptE) blast
  have k: "cl k = Some (j, u)" using js(3) [of k] assms(2) by auto
  have "swept t (ps, cl) ((j # js) @ ps, cl'(k := None))"
  proof (rule sweptI)
    fix i assume "i \<in> set (j # js)"
    then show "\<exists>k' u. cl k' = Some (i, u) \<and> u \<le> t \<and> (cl'(k := None)) k' = None"
    proof (cases "i = j")
      case True
      then show ?thesis using k assms(3) by (intro exI [of _ k] exI [of _ u]) simp
    next
      case False
      with \<open>i \<in> set (j # js)\<close> obtain k' u' where "cl k' = Some (i, u')" "u' \<le> t" "cl' k' = None"
        using js(2) [of i] by auto
      then show ?thesis by (intro exI [of _ k'] exI [of _ u']) simp
    qed
  next
    fix k'
    show "(cl'(k := None)) k' = cl k' \<or>
        (cl'(k := None)) k' = None \<and> (\<exists>i u. cl k' = Some (i, u) \<and> i \<in> set (j # js))"
      using js(3) [of k'] k by auto
  qed
  then show ?thesis by (simp add: js(1))
qed

locale promote_queue_spec =
  fixes q :: "'w promote_queue"
    and wf :: "'w \<Rightarrow> bool"
    and pending :: "'w \<Rightarrow> job list"
    and claimed :: "'w \<Rightarrow> claims"
    and clock :: "'w \<Rightarrow> gotime"
  assumes enqueue: "wf w \<Longrightarrow> jb_push_id j \<noteq> [] \<Longrightarrow> q_enqueue q j w = (e, w') \<Longrightarrow>
      wf w' \<and> claimed w' = claimed w \<and> clock w' = clock w
      \<and> (pending w' = pending w @ [j] \<or> e \<noteq> None \<and> pending w' = pending w)"
    and claim: "wf w \<Longrightarrow> q_claim q w = (r, w') \<Longrightarrow>
      wf w' \<and> clock w' = clock w
      \<and> (pending w' = pending w \<and> claimed w' = claimed w
           \<and> (case r of Inl _ \<Rightarrow> True | Inr x \<Rightarrow> x = None \<and> pending w = [])
         \<or> (\<exists>j. pending w = j # pending w'
              \<and> claimed w' = (claimed w)(jb_push_id j \<mapsto> (j, clock w))
              \<and> (case r of Inl _ \<Rightarrow> True | Inr x \<Rightarrow> x = Some j)))"
    and ack: "wf w \<Longrightarrow> q_ack q k w = (e, w') \<Longrightarrow>
      wf w' \<and> pending w' = pending w \<and> clock w' = clock w
      \<and> (claimed w' = (claimed w)(k := None) \<or> e \<noteq> None \<and> claimed w' = claimed w)"
    and sweep: "wf w \<Longrightarrow> q_recover q d w = ((js, e), w') \<Longrightarrow>
      wf w' \<and> clock w' = clock w
      \<and> swept (clock w - d) (pending w, claimed w) (pending w', claimed w')"
    and depth: "wf w \<Longrightarrow> q_depth q w = (n, w') \<Longrightarrow>
      wf w' \<and> pending w' = pending w \<and> claimed w' = claimed w \<and> clock w' = clock w
      \<and> (case n of Inl _ \<Rightarrow> True | Inr i \<Rightarrow> i = int (length (pending w)))"
    and ids: "wf w \<Longrightarrow> j \<in> set (pending w) \<Longrightarrow> jb_push_id j \<noteq> []"
      "wf w \<Longrightarrow> claimed w k = Some (j, t) \<Longrightarrow> jb_push_id j = k \<and> k \<noteq> []"

text \<open>
  A job is held by the queue when some copy of it is pending or claimed. No operation but
  \<open>Ack\<close> makes the queue let go of a job, and \<open>Ack\<close> lets go of the acknowledged one only.
\<close>

definition holds :: "job list \<Rightarrow> claims \<Rightarrow> string \<Rightarrow> bool" where
  "holds ps cl k \<longleftrightarrow> k \<in> jb_push_id ` set ps \<or> cl k \<noteq> None"

text \<open>Every copy of a job the queue has.\<close>

definition queue_jobs :: "job list \<Rightarrow> claims \<Rightarrow> job set" where
  "queue_jobs ps cl = set ps \<union> {j. \<exists>k t. cl k = Some (j, t)}"

context promote_queue_spec
begin

definition held :: "'w \<Rightarrow> string \<Rightarrow> bool" where
  "held w k = holds (pending w) (claimed w) k"

lemma held_enqueue:
  assumes "wf w" "jb_push_id j \<noteq> []" "q_enqueue q j w = (e, w')"
  shows "held w k \<Longrightarrow> held w' k" and "e = None \<Longrightarrow> held w' (jb_push_id j)"
    and "e = None \<Longrightarrow> j \<in> set (pending w')"
  using enqueue [OF assms] by (auto simp: held_def holds_def)

lemma held_claim:
  "wf w \<Longrightarrow> q_claim q w = (r, w') \<Longrightarrow> held w k \<Longrightarrow> held w' k"
  using claim [of w r w'] by (auto simp: held_def holds_def split: if_splits)

lemma held_ack:
  "wf w \<Longrightarrow> q_ack q i w = (e, w') \<Longrightarrow> held w k \<Longrightarrow> k \<noteq> i \<or> k \<in> jb_push_id ` set (pending w) \<Longrightarrow>
   held w' k"
  using ack [of w i e w'] by (cases "k = i") (auto simp: held_def holds_def)

lemma held_sweep:
  assumes "wf w" "q_recover q d w = ((js, e), w')" "held w k"
  shows "held w' k"
proof -
  have "swept (clock w - d) (pending w, claimed w) (pending w', claimed w')"
    using sweep [OF assms(1,2)] by simp
  then obtain new where new: "pending w' = new @ pending w"
    "\<And>k. claimed w' k = claimed w k \<or>
       claimed w' k = None \<and> (\<exists>j u. claimed w k = Some (j, u) \<and> j \<in> set new)"
    by (rule sweptE) blast
  show ?thesis
  proof (cases "k \<in> jb_push_id ` set (pending w)")
    case True
    then show ?thesis by (auto simp: held_def holds_def new(1))
  next
    case False
    then obtain j t where kj: "claimed w k = Some (j, t)"
      using assms(3) by (auto simp: held_def holds_def)
    then have "jb_push_id j = k" using ids(2) [OF assms(1)] by blast
    then show ?thesis using new(2) [of k] kj by (auto simp: held_def holds_def new(1))
  qed
qed

lemma young_claim_kept:
  assumes "wf w" "q_recover q d w = (r, w')"
    and "claimed w k = Some (j, t)" and "clock w - d < t"
  shows "claimed w' k = Some (j, t)"
proof -
  have "swept (clock w - d) (pending w, claimed w) (pending w', claimed w')"
    using sweep [OF assms(1), of d "fst r" "snd r" w'] assms(2) by simp
  then obtain new where new:
    "\<And>i. i \<in> set new \<Longrightarrow> \<exists>k u. claimed w k = Some (i, u) \<and> u \<le> clock w - d \<and> claimed w' k = None"
    "\<And>k. claimed w' k = claimed w k \<or>
       claimed w' k = None \<and> (\<exists>j u. claimed w k = Some (j, u) \<and> j \<in> set new)"
    by (rule sweptE) blast
  show ?thesis
  proof (rule ccontr)
    assume "claimed w' k \<noteq> Some (j, t)"
    with new(2) [of k] assms(3) have "j \<in> set new" by auto
    then obtain k' u where "claimed w k' = Some (j, u)" "u \<le> clock w - d" using new(1) by blast
    moreover from this have "k' = k" using ids(2) [OF assms(1)] assms(3) by blast
    ultimately show False using assms(3,4) by auto
  qed
qed

end

section \<open>The in-process queue keeps the promise\<close>

definition mem_wf :: "mem_queue \<Rightarrow> bool" where
  "mem_wf q \<longleftrightarrow> distinct (map fst (mq_claimed q))
     \<and> (\<forall>j\<in>set (mq_pending q). jb_push_id j \<noteq> [])
     \<and> (\<forall>(k, c)\<in>set (mq_claimed q). jb_push_id (mc_job c) = k \<and> k \<noteq> [])"

definition mem_claims :: "mem_queue \<Rightarrow> claims" where
  "mem_claims q k = map_option (\<lambda>c. (mc_job c, mc_at c)) (map_of (mq_claimed q) k)"

lemma set_alist_delete: "set (AList.delete k al) = {x\<in>set al. fst x \<noteq> k}"
  by (induction al) auto

lemma set_alist_update:
  "distinct (map fst al) \<Longrightarrow> set (AList.update k v al) = insert (k, v) {x\<in>set al. fst x \<noteq> k}"
proof (induction al)
  case (Cons p al)
  then show ?case by (cases p) (force dest: map_of_SomeD)
qed simp

lemma mem_recover_loop_spec:
  assumes "mem_wf q" "distinct (map fst cs)" "set cs \<subseteq> set (mq_claimed q)"
    and "swept t (ps, cl) (mq_pending q, mem_claims q)"
    and "mem_recover_loop t cs q out = (out', q')"
  shows "mem_wf q' \<and> mq_now q' = mq_now q \<and> swept t (ps, cl) (mq_pending q', mem_claims q')"
  using assms
proof (induction t cs q out rule: mem_recover_loop.induct)
  case (2 cutoff k c cs q out)
  show ?case
  proof (cases "cutoff < mc_at c")
    case True
    with 2 show ?thesis by auto
  next
    case False
    let ?q = "q\<lparr>mq_claimed := AList.delete k (mq_claimed q), mq_pending := mc_job c # mq_pending q\<rparr>"
    have kc: "(k, c) \<in> set (mq_claimed q)" and d: "distinct (map fst (mq_claimed q))"
      using "2.prems" by (auto simp: mem_wf_def)
    then have mk: "map_of (mq_claimed q) k = Some c" by simp
    have wf: "mem_wf ?q"
      using "2.prems"(1) kc d
      by (auto simp: mem_wf_def set_alist_delete distinct_delete)
    have cl: "mem_claims ?q = (mem_claims q)(k := None)"
      by (auto simp: mem_claims_def fun_eq_iff delete_conv')
    have sw: "swept cutoff (ps, cl) (mq_pending ?q, mem_claims ?q)"
      unfolding cl using False mk
      by (auto simp: mem_claims_def intro!: swept_step [OF "2.prems"(4)])
    have sub: "set cs \<subseteq> set (mq_claimed ?q)"
      using "2.prems"(2,3) by (force simp: set_alist_delete)
    have "mem_recover_loop cutoff cs ?q (out @ [mc_job c]) = (out', q')"
      using "2.prems"(5) False by simp
    from "2.IH"(2) [OF False wf _ sub sw this] "2.prems"(2) show ?thesis by simp
  qed
qed auto

lemmas mem_queue_simps =
  mem_promote_queue_def mem_enqueue_def mem_claim_next_def mem_ack_def mem_depth_def

lemma mem_claims_update:
  "mem_claims (q\<lparr>mq_claimed := AList.update k c (mq_claimed q)\<rparr>)
     = (mem_claims q)(k \<mapsto> (mc_job c, mc_at c))"
  by (auto simp: mem_claims_def fun_eq_iff update_conv')

lemma mem_claims_delete:
  "mem_claims (q\<lparr>mq_claimed := AList.delete k (mq_claimed q)\<rparr>) = (mem_claims q)(k := None)"
  by (auto simp: mem_claims_def fun_eq_iff delete_conv')

lemma mem_claims_pending [simp]: "mem_claims (q\<lparr>mq_pending := ps\<rparr>) = mem_claims q"
  by (simp add: mem_claims_def fun_eq_iff)

lemma mem_wf_delete: "mem_wf q \<Longrightarrow> mem_wf (q\<lparr>mq_claimed := AList.delete k (mq_claimed q)\<rparr>)"
  by (auto simp: mem_wf_def set_alist_delete distinct_delete)

lemma mem_claim_law:
  assumes "mem_wf w" "mem_claim_next w = (r, w')"
  shows "mem_wf w' \<and> mq_now w' = mq_now w
      \<and> (mq_pending w' = mq_pending w \<and> mem_claims w' = mem_claims w
           \<and> (case r of Inl _ \<Rightarrow> True | Inr x \<Rightarrow> x = None \<and> mq_pending w = [])
         \<or> (\<exists>j. mq_pending w = j # mq_pending w'
              \<and> mem_claims w' = (mem_claims w)(jb_push_id j \<mapsto> (j, mq_now w))
              \<and> (case r of Inl _ \<Rightarrow> True | Inr x \<Rightarrow> x = Some j)))"
proof (cases "mq_pending w")
  case Nil
  with assms show ?thesis by (auto simp: mem_claim_next_def)
next
  case (Cons j js)
  let ?c = "\<lparr>mc_job = j, mc_at = mq_now w\<rparr>"
  have r: "r = Inr (Some j)" and w':
    "w' = w\<lparr>mq_claimed := AList.update (jb_push_id j) ?c (mq_claimed w)\<rparr>\<lparr>mq_pending := js\<rparr>"
    using assms(2) Cons by (auto simp: mem_claim_next_def)
  have "mem_wf w'"
    using assms(1) Cons unfolding w'
    by (auto simp: mem_wf_def set_alist_update distinct_update)
  moreover have "mem_claims w' = (mem_claims w)(jb_push_id j \<mapsto> (j, mq_now w))"
    unfolding w' mem_claims_pending mem_claims_update by simp
  ultimately show ?thesis using Cons r w' by simp
qed

lemma mem_recover_law:
  assumes "mem_wf w" "q_recover mem_promote_queue d w = ((js, e), w')"
  shows "mem_wf w' \<and> mq_now w' = mq_now w
      \<and> swept (mq_now w - d) (mq_pending w, mem_claims w) (mq_pending w', mem_claims w')"
proof -
  have loop: "mem_recover_loop (mq_now w - d) (mq_claimed w) w [] = (js, w')"
    using assms(2) by (simp add: mem_promote_queue_def mem_recover_def split: prod.splits)
  have d: "distinct (map fst (mq_claimed w))" using assms(1) by (simp add: mem_wf_def)
  show ?thesis by (rule mem_recover_loop_spec [OF assms(1) d _ _ loop]) simp_all
qed

interpretation memq: promote_queue_spec mem_promote_queue mem_wf mq_pending mem_claims mq_now
proof
  fix w w' :: mem_queue and d js e
  assume "mem_wf w" "q_recover mem_promote_queue d w = ((js, e), w')"
  then show "mem_wf w' \<and> mq_now w' = mq_now w
      \<and> swept (mq_now w - d) (mq_pending w, mem_claims w) (mq_pending w', mem_claims w')"
    by (rule mem_recover_law)
next
  fix w w' :: mem_queue and r
  assume "mem_wf w" "q_claim mem_promote_queue w = (r, w')"
  then show "mem_wf w' \<and> mq_now w' = mq_now w
      \<and> (mq_pending w' = mq_pending w \<and> mem_claims w' = mem_claims w
           \<and> (case r of Inl _ \<Rightarrow> True | Inr x \<Rightarrow> x = None \<and> mq_pending w = [])
         \<or> (\<exists>j. mq_pending w = j # mq_pending w'
              \<and> mem_claims w' = (mem_claims w)(jb_push_id j \<mapsto> (j, mq_now w))
              \<and> (case r of Inl _ \<Rightarrow> True | Inr x \<Rightarrow> x = Some j)))"
    by (intro mem_claim_law) (simp_all add: mem_promote_queue_def)
next
  fix w w' :: mem_queue and k e
  assume "mem_wf w" "q_ack mem_promote_queue k w = (e, w')"
  then show "mem_wf w' \<and> mq_pending w' = mq_pending w \<and> mq_now w' = mq_now w
      \<and> (mem_claims w' = (mem_claims w)(k := None) \<or> e \<noteq> None \<and> mem_claims w' = mem_claims w)"
    by (auto simp: mem_queue_simps mem_wf_delete mem_claims_delete)
next
  fix w :: mem_queue and k j t
  assume "mem_wf w" "mem_claims w k = Some (j, t)"
  then show "jb_push_id j = k \<and> k \<noteq> []"
    by (auto simp: mem_wf_def mem_claims_def dest!: map_of_SomeD)
qed (auto simp: mem_queue_simps mem_wf_def)

end
