(* ===== verification/Valkey.thy ===== *)
theory Valkey
  imports Go_Errors "HOL-Library.AList"
begin

text \<open>
  The Valkey server the program keeps its shared state in, and its client connection.

  The server is not code of the repository: its commands are a record \<open>valkey_cmds\<close> of
  functions on a keyspace \<open>'k\<close> that every definition using Valkey takes as an argument, and
  what the program relies on is stated as locales (\<open>valkey_queues\<close>, \<open>valkey_strings\<close>,
  \<open>valkey_ttl\<close>) in the words of the command reference. \<open>keyspace\<close> and \<open>std_cmds\<close> are a
  concrete server on which the locales are interpreted.

  A connection may fail before a command reaches the server, or lose the reply after the
  command took effect; a fault schedule decides for every round trip. A Lua script is one round
  trip.
\<close>

section \<open>Connections\<close>

datatype fault = NoFault | FailBefore bool string | FailAfter bool string

record 'k conn =
  cn_db :: 'k
  cn_now :: gotime
  cn_faults :: "fault list"

definition next_fault :: "'k conn \<Rightarrow> fault" where
  "next_fault c = (case cn_faults c of [] \<Rightarrow> NoFault | f # _ \<Rightarrow> f)"

definition vk_call :: "('k \<Rightarrow> 'a res \<times> 'k) \<Rightarrow> 'k conn \<Rightarrow> 'a res \<times> 'k conn" where
  "vk_call f c =
     (let c1 = c\<lparr>cn_faults := tl (cn_faults c)\<rparr> in
      case next_fault c of
        NoFault \<Rightarrow> (case f (cn_db c) of (r, db) \<Rightarrow> (r, c1\<lparr>cn_db := db\<rparr>))
      | FailBefore tmo m \<Rightarrow> (Inl (NetError tmo m []), c1)
      | FailAfter tmo m \<Rightarrow> (case f (cn_db c) of (_, db) \<Rightarrow> (Inl (NetError tmo m []), c1\<lparr>cn_db := db\<rparr>)))"

text \<open>A command with no result of interest, and one that always answers.\<close>

definition vk_do :: "('k \<Rightarrow> 'k) \<Rightarrow> 'k \<Rightarrow> unit res \<times> 'k" where
  "vk_do f db = (Inr (), f db)"

definition vk_ask :: "('k \<Rightarrow> 'a) \<Rightarrow> 'k \<Rightarrow> 'a res \<times> 'k" where
  "vk_ask f db = (Inr (f db), db)"

text \<open>A call of which only the error is kept.\<close>

definition call_err :: "('k \<Rightarrow> 'a res \<times> 'k) \<Rightarrow> 'k conn \<Rightarrow> goerr option \<times> 'k conn" where
  "call_err f w = (case vk_call f w of (Inl e, w') \<Rightarrow> (Some e, w') | (Inr _, w') \<Rightarrow> (None, w'))"

text \<open>A nil reply is the error \<open>redis.Nil\<close>.\<close>

definition nil_reply :: "'a option \<Rightarrow> 'a res" where
  "nil_reply x = (case x of None \<Rightarrow> Inl RedisNil | Some a \<Rightarrow> Inr a)"

lemma vk_call_cases:
  assumes "vk_call f c = (r, c')"
  obtains (run) r0 db where "f (cn_db c) = (r0, db)" "cn_db c' = db" "r = r0"
    | (lost) r0 db tmo m where "f (cn_db c) = (r0, db)" "cn_db c' = db" "r = Inl (NetError tmo m [])"
    | (unsent) tmo m where "cn_db c' = cn_db c" "r = Inl (NetError tmo m [])"
  using assms
  by (auto simp: vk_call_def Let_def split: fault.splits prod.splits)

lemma vk_call_now [simp]: "cn_now (snd (vk_call f c)) = cn_now c"
  by (auto simp: vk_call_def Let_def split: fault.splits prod.splits)

lemma vk_call_calm:
  "cn_faults c = [] \<Longrightarrow> f (cn_db c) = (r, db) \<Longrightarrow> vk_call f c = (r, c\<lparr>cn_db := db\<rparr>)"
  by (simp add: vk_call_def next_fault_def)

lemma nil_reply_simps [simp]: "nil_reply None = Inl RedisNil" "nil_reply (Some a) = Inr a"
  by (simp_all add: nil_reply_def)

section \<open>Commands and what the program relies on\<close>

record 'k valkey_cmds =
  vc_lpop :: "string \<Rightarrow> 'k \<Rightarrow> string option \<times> 'k"
  vc_rpush :: "string \<Rightarrow> string \<Rightarrow> 'k \<Rightarrow> 'k"
  vc_lpush :: "string \<Rightarrow> string \<Rightarrow> 'k \<Rightarrow> 'k"
  vc_llen :: "string \<Rightarrow> 'k \<Rightarrow> nat"
  vc_hset :: "string \<Rightarrow> string \<Rightarrow> string \<Rightarrow> 'k \<Rightarrow> 'k"
  vc_hget :: "string \<Rightarrow> string \<Rightarrow> 'k \<Rightarrow> string option"
  vc_hdel :: "string \<Rightarrow> string \<Rightarrow> 'k \<Rightarrow> 'k"
  vc_hgetall :: "string \<Rightarrow> 'k \<Rightarrow> (string \<times> string) list"
  vc_get :: "string \<Rightarrow> 'k \<Rightarrow> string option"
  vc_set :: "string \<Rightarrow> string \<Rightarrow> duration \<Rightarrow> 'k \<Rightarrow> 'k"
  vc_set_keepttl :: "string \<Rightarrow> string \<Rightarrow> 'k \<Rightarrow> 'k"
  vc_del :: "string \<Rightarrow> 'k \<Rightarrow> 'k"
  vc_exists :: "string \<Rightarrow> 'k \<Rightarrow> bool"
  vc_incrby :: "int \<Rightarrow> string \<Rightarrow> 'k \<Rightarrow> int res \<times> 'k"
  vc_expire :: "string \<Rightarrow> duration \<Rightarrow> 'k \<Rightarrow> 'k"

text \<open>Lists and hashes: \<open>lists\<close> and \<open>hashes\<close> read a keyspace.\<close>

locale valkey_queues =
  fixes cmds :: "'k valkey_cmds"
    and lists :: "'k \<Rightarrow> string \<Rightarrow> string list"
    and hashes :: "'k \<Rightarrow> string \<Rightarrow> string \<Rightarrow> string option"
  assumes lpop_nil: "lists db k = [] \<Longrightarrow> vc_lpop cmds k db = (None, db)"
    and lpop_cons: "lists db k = x # xs \<Longrightarrow>
      fst (vc_lpop cmds k db) = Some x \<and> lists (snd (vc_lpop cmds k db)) = (lists db)(k := xs)
      \<and> hashes (snd (vc_lpop cmds k db)) = hashes db"
    and rpush: "lists (vc_rpush cmds k x db) = (lists db)(k := lists db k @ [x])"
      "hashes (vc_rpush cmds k x db) = hashes db"
    and lpush: "lists (vc_lpush cmds k x db) = (lists db)(k := x # lists db k)"
      "hashes (vc_lpush cmds k x db) = hashes db"
    and llen: "vc_llen cmds k db = length (lists db k)"
    and hset: "lists (vc_hset cmds k f v db) = lists db"
      "hashes (vc_hset cmds k f v db) = (hashes db)(k := (hashes db k)(f \<mapsto> v))"
    and hget: "vc_hget cmds k f db = hashes db k f"
    and hdel: "lists (vc_hdel cmds k f db) = lists db"
      "hashes (vc_hdel cmds k f db) = (hashes db)(k := (hashes db k)(f := None))"
    and hgetall: "map_of (vc_hgetall cmds k db) = hashes db k"
      "distinct (map fst (vc_hgetall cmds k db))"

text \<open>String keys: \<open>strs\<close> is what a key holds now, \<open>None\<close> once it expired.\<close>

locale valkey_strings =
  fixes cmds :: "'k valkey_cmds"
    and strs :: "'k \<Rightarrow> string \<Rightarrow> string option"
  assumes get: "vc_get cmds k db = strs db k"
    and set_ttl: "0 < ttl \<Longrightarrow> strs (vc_set cmds k v ttl db) = (strs db)(k \<mapsto> v)"
    and set_keepttl: "strs (vc_set_keepttl cmds k v db) = (strs db)(k \<mapsto> v)"
    and del: "strs (vc_del cmds k db) = (strs db)(k := None)"
    and exists: "vc_exists cmds k db \<longleftrightarrow> strs db k \<noteq> None"
    and incr_none: "strs db k = None \<Longrightarrow>
      fst (vc_incrby cmds d k db) = Inr d \<and> strs (snd (vc_incrby cmds d k db)) = (strs db)(k \<mapsto> fmt_int d)"
    and incr_some: "strs db k = Some (fmt_int n) \<Longrightarrow>
      fst (vc_incrby cmds d k db) = Inr (n + d)
      \<and> strs (snd (vc_incrby cmds d k db)) = (strs db)(k \<mapsto> fmt_int (n + d))"
    and expire: "0 < ttl \<Longrightarrow> strs (vc_expire cmds k ttl db) = strs db"

text \<open>Expiry: \<open>mortal db k\<close> says that \<open>k\<close> is absent or will expire.\<close>

locale valkey_ttl = valkey_strings +
  fixes mortal :: "'k \<Rightarrow> string \<Rightarrow> bool"
  assumes mortal_set: "0 < ttl \<Longrightarrow> mortal db k' \<or> k' = k \<Longrightarrow> mortal (vc_set cmds k v ttl db) k'"
    and mortal_keepttl: "mortal db k' \<Longrightarrow> strs db k \<noteq> None \<Longrightarrow> mortal (vc_set_keepttl cmds k v db) k'"
    and mortal_del: "mortal db k' \<Longrightarrow> mortal (vc_del cmds k db) k'"
    and mortal_incr: "mortal db k' \<Longrightarrow> k' \<noteq> k \<or> strs db k \<noteq> None \<Longrightarrow>
      mortal (snd (vc_incrby cmds d k db)) k'"
    and mortal_expire: "0 < ttl \<Longrightarrow> mortal db k' \<or> k' = k \<Longrightarrow> mortal (vc_expire cmds k ttl db) k'"

section \<open>A concrete server\<close>

record keyspace =
  ks_strs :: "string \<Rightarrow> (string \<times> gotime option) option"
  ks_lists :: "string \<Rightarrow> string list"
  ks_hashes :: "string \<Rightarrow> (string \<times> string) list"
  ks_clock :: gotime

definition empty_keyspace :: keyspace where
  "empty_keyspace = \<lparr>ks_strs = (\<lambda>_. None), ks_lists = (\<lambda>_. []), ks_hashes = (\<lambda>_. []), ks_clock = 0\<rparr>"

definition ks_entry :: "keyspace \<Rightarrow> string \<Rightarrow> (string \<times> gotime option) option" where
  "ks_entry db k =
     (case ks_strs db k of
        None \<Rightarrow> None
      | Some (v, None) \<Rightarrow> Some (v, None)
      | Some (v, Some t) \<Rightarrow> (if ks_clock db < t then Some (v, Some t) else None))"

definition ks_live :: "keyspace \<Rightarrow> string \<Rightarrow> string option" where
  "ks_live db k = map_option fst (ks_entry db k)"

definition ks_mortal :: "keyspace \<Rightarrow> string \<Rightarrow> bool" where
  "ks_mortal db k \<longleftrightarrow> (case ks_entry db k of Some (v, None) \<Rightarrow> False | _ \<Rightarrow> True)"

definition ks_put :: "string \<Rightarrow> (string \<times> gotime option) option \<Rightarrow> keyspace \<Rightarrow> keyspace" where
  "ks_put k e db = db\<lparr>ks_strs := (ks_strs db)(k := e)\<rparr>"

definition ks_hash :: "keyspace \<Rightarrow> string \<Rightarrow> string \<Rightarrow> string option" where
  "ks_hash db k = map_of (AList.clearjunk (ks_hashes db k))"

definition std_cmds :: "keyspace valkey_cmds" where
  "std_cmds = \<lparr>
     vc_lpop = (\<lambda>k db. case ks_lists db k of
        [] \<Rightarrow> (None, db) | x # xs \<Rightarrow> (Some x, db\<lparr>ks_lists := (ks_lists db)(k := xs)\<rparr>)),
     vc_rpush = (\<lambda>k x db. db\<lparr>ks_lists := (ks_lists db)(k := ks_lists db k @ [x])\<rparr>),
     vc_lpush = (\<lambda>k x db. db\<lparr>ks_lists := (ks_lists db)(k := x # ks_lists db k)\<rparr>),
     vc_llen = (\<lambda>k db. length (ks_lists db k)),
     vc_hset = (\<lambda>k f v db. db\<lparr>ks_hashes := (ks_hashes db)(k := AList.update f v (ks_hashes db k))\<rparr>),
     vc_hget = (\<lambda>k f db. ks_hash db k f),
     vc_hdel = (\<lambda>k f db. db\<lparr>ks_hashes := (ks_hashes db)(k := AList.delete f (ks_hashes db k))\<rparr>),
     vc_hgetall = (\<lambda>k db. AList.clearjunk (ks_hashes db k)),
     vc_get = (\<lambda>k db. ks_live db k),
     vc_set = (\<lambda>k v ttl db. ks_put k (Some (v, if 0 < ttl then Some (ks_clock db + ttl) else None)) db),
     vc_set_keepttl = (\<lambda>k v db. ks_put k (Some (v, case ks_entry db k of Some (_, t) \<Rightarrow> t | None \<Rightarrow> None)) db),
     vc_del = (\<lambda>k db. ks_put k None db),
     vc_exists = (\<lambda>k db. ks_live db k \<noteq> None),
     vc_incrby = (\<lambda>d k db. case ks_entry db k of
        None \<Rightarrow> (Inr d, ks_put k (Some (fmt_int d, None)) db)
      | Some (v, t) \<Rightarrow> (case parse_int v of
          None \<Rightarrow> (Inl (ErrMsg ''ERR value is not an integer or out of range''), db)
        | Some n \<Rightarrow> (Inr (n + d), ks_put k (Some (fmt_int (n + d), t)) db))),
     vc_expire = (\<lambda>k ttl db. case ks_entry db k of
        None \<Rightarrow> db
      | Some (v, _) \<Rightarrow> ks_put k (Some (v, Some (ks_clock db + ttl))) db) \<rparr>"

lemma ks_put_entry:
  "ks_entry (ks_put k e db) k' =
     (if k' = k then (case e of Some (v, Some t) \<Rightarrow> if ks_clock db < t then e else None | _ \<Rightarrow> e)
      else ks_entry db k')"
  by (auto simp: ks_entry_def ks_put_def split: option.splits prod.splits)

lemma ks_entry_expiry: "ks_entry db k = Some (v, Some t) \<Longrightarrow> ks_clock db < t"
  by (auto simp: ks_entry_def split: option.splits prod.splits if_splits)

lemma ks_live_entry: "ks_live db k = Some v \<longleftrightarrow> (\<exists>t. ks_entry db k = Some (v, t))"
  "ks_live db k = None \<longleftrightarrow> ks_entry db k = None"
  by (auto simp: ks_live_def)

interpretation ks_q: valkey_queues std_cmds ks_lists ks_hash
  by unfold_locales
     (auto simp: std_cmds_def ks_hash_def map_of_clearjunk update_conv' delete_conv'
        distinct_clearjunk fun_eq_iff)

lemmas ks_string_simps = std_cmds_def ks_live_def ks_mortal_def ks_put_entry

interpretation ks_s: valkey_strings std_cmds ks_live
  by unfold_locales
     (auto simp: ks_string_simps fun_eq_iff dest: ks_entry_expiry split: option.splits)

interpretation ks_t: valkey_ttl std_cmds ks_live ks_mortal
  by unfold_locales
     (auto simp: ks_string_simps dest: ks_entry_expiry split: option.splits prod.splits)

end
