(* ===== verification/Promote_Valkey.thy ===== *)
theory Promote_Valkey
  imports Promote_Queue Valkey
begin

text \<open>
  \<open>internal/promote/valkey.go\<close>: the durable queue. Its two Lua scripts are functions on the
  keyspace, run in one round trip; a script that raises leaves the commands it already ran
  applied. \<open>encoding/json\<close>, \<open>cjson\<close> and the RFC3339Nano layout are the codec fields of the queue
  record; \<open>promote_codec\<close> states that they round-trip.
\<close>

section \<open>The queue\<close>

record 'k valkey_queue =
  vq_cmds :: "'k valkey_cmds"
  vq_prefix :: string
  vq_marshal :: "job \<Rightarrow> string res"
  vq_unmarshal :: "string \<Rightarrow> job res"
  vq_lua_push_id :: "string \<Rightarrow> string option res"
  vq_fmt_time :: "gotime \<Rightarrow> string"
  vq_parse_time :: "string \<Rightarrow> gotime option"

definition default_key_prefix :: string where
  "default_key_prefix = ''merlin:promote''"

definition new_valkey_queue :: "string \<Rightarrow> 'k valkey_queue \<Rightarrow> 'k valkey_queue" where
  "new_valkey_queue pre q = q\<lparr>vq_prefix := (if pre = [] then default_key_prefix else pre)\<rparr>"

definition queue_key :: "string \<Rightarrow> string \<Rightarrow> string" where
  "queue_key pre role = ''{'' @ pre @ ''}:'' @ role"

definition pending_key :: "'k valkey_queue \<Rightarrow> string" where
  "pending_key q = queue_key (vq_prefix q) ''pending''"

definition claimed_key :: "'k valkey_queue \<Rightarrow> string" where
  "claimed_key q = queue_key (vq_prefix q) ''claimed''"

definition stamp_key :: "'k valkey_queue \<Rightarrow> string" where
  "stamp_key q = queue_key (vq_prefix q) ''stamps''"

definition dead_key :: "'k valkey_queue \<Rightarrow> string" where
  "dead_key q = queue_key (vq_prefix q) ''dead''"

definition valkey_enqueue :: "'k valkey_queue \<Rightarrow> job \<Rightarrow> 'k conn \<Rightarrow> goerr option \<times> 'k conn" where
  "valkey_enqueue q j w =
     (case vq_marshal q j of
        Inl e \<Rightarrow> (Some (ErrWrap (''marshal promote job '' @ jb_push_id j @ '': '') e []), w)
      | Inr b \<Rightarrow>
          (case vk_call (vk_do (vc_rpush (vq_cmds q) (pending_key q) b)) w of
             (Inl e, w') \<Rightarrow> (Some (ErrWrap (''enqueue promote job '' @ jb_push_id j @ '': '') e []), w')
           | (Inr _, w') \<Rightarrow> (None, w')))"

definition claim_script :: "'k valkey_queue \<Rightarrow> string \<Rightarrow> 'k \<Rightarrow> string res \<times> 'k" where
  "claim_script q stamp db =
     (case vc_lpop (vq_cmds q) (pending_key q) db of
        (None, db1) \<Rightarrow> (nil_reply None, db1)
      | (Some job, db1) \<Rightarrow>
          (case vq_lua_push_id q job of
             Inl e \<Rightarrow> (Inl e, db1)
           | Inr None \<Rightarrow> (Inr job, db1)
           | Inr (Some i) \<Rightarrow>
               (let db2 = vc_hset (vq_cmds q) (claimed_key q) i job db1;
                    db3 = vc_hset (vq_cmds q) (stamp_key q) i stamp db2
                in (Inr job, db3))))"

definition park_dead :: "'k valkey_queue \<Rightarrow> string \<Rightarrow> 'k conn \<Rightarrow> 'k conn" where
  "park_dead q b w = snd (vk_call (vk_do (vc_rpush (vq_cmds q) (dead_key q) b)) w)"

definition valkey_claim :: "'k valkey_queue \<Rightarrow> 'k conn \<Rightarrow> job option res \<times> 'k conn" where
  "valkey_claim q w =
     (case vk_call (claim_script q (vq_fmt_time q (cn_now w))) w of
        (Inl e, w1) \<Rightarrow>
          (if errors_is e RedisNil then (Inr None, w1)
           else (Inl (ErrWrap ''claim promote job: '' e []), w1))
      | (Inr payload, w1) \<Rightarrow>
          (case vq_unmarshal q payload of
             Inl e \<Rightarrow> (Inl (ErrWrap ''claim promote job: corrupt payload parked: '' e []),
                       park_dead q payload w1)
           | Inr j \<Rightarrow>
               (if jb_push_id j = []
                then (Inl (ErrMsg ''claim promote job: payload has no push_id, parked''),
                      park_dead q payload w1)
                else (Inr (Some j), w1))))"

definition valkey_ack :: "'k valkey_queue \<Rightarrow> string \<Rightarrow> 'k conn \<Rightarrow> goerr option \<times> 'k conn" where
  "valkey_ack q i w =
     (case vk_call (vk_do (vc_hdel (vq_cmds q) (claimed_key q) i)) w of
        (Inl e, w1) \<Rightarrow> (Some (ErrWrap (''ack promote job '' @ i @ '': '') e []), w1)
      | (Inr _, w1) \<Rightarrow>
          (case vk_call (vk_do (vc_hdel (vq_cmds q) (stamp_key q) i)) w1 of
             (Inl e, w2) \<Rightarrow> (Some (ErrWrap (''ack promote job '' @ i @ '' stamp: '') e []), w2)
           | (Inr _, w2) \<Rightarrow> (None, w2)))"

definition valkey_depth :: "'k valkey_queue \<Rightarrow> 'k conn \<Rightarrow> int res \<times> 'k conn" where
  "valkey_depth q w =
     (case vk_call (vk_ask (vc_llen (vq_cmds q) (pending_key q))) w of
        (Inl e, w1) \<Rightarrow> (Inl (ErrWrap ''promote queue depth: '' e []), w1)
      | (Inr n, w1) \<Rightarrow> (Inr (int n), w1))"

definition requeue_script :: "'k valkey_queue \<Rightarrow> string \<Rightarrow> 'k \<Rightarrow> string res \<times> 'k" where
  "requeue_script q i db =
     (let job = vc_hget (vq_cmds q) (claimed_key q) i db;
          db1 = vc_hdel (vq_cmds q) (claimed_key q) i db;
          db2 = vc_hdel (vq_cmds q) (stamp_key q) i db1
      in case job of
           None \<Rightarrow> (nil_reply None, db2)
         | Some p \<Rightarrow> (Inr p, vc_lpush (vq_cmds q) (pending_key q) p db2))"

fun valkey_recover_loop ::
  "'k valkey_queue \<Rightarrow> gotime \<Rightarrow> (string \<times> string) list \<Rightarrow> job list \<Rightarrow> 'k conn
   \<Rightarrow> (job list \<times> goerr option) \<times> 'k conn" where
  "valkey_recover_loop q cutoff [] out w = ((out, None), w)"
| "valkey_recover_loop q cutoff ((i, ts) # ss) out w =
     (if (case vq_parse_time q ts of Some t \<Rightarrow> cutoff < t | None \<Rightarrow> False)
      then valkey_recover_loop q cutoff ss out w
      else case vk_call (requeue_script q i) w of
        (Inl e, w1) \<Rightarrow>
          (if errors_is e RedisNil then valkey_recover_loop q cutoff ss out w1
           else ((out, Some (ErrWrap (''recover promote job '' @ i @ '': '') e [])), w1))
      | (Inr payload, w1) \<Rightarrow>
          (case vq_unmarshal q payload of
             Inl e \<Rightarrow> ((out, Some (ErrWrap (''recover promote job '' @ i @ '': unmarshal: '') e [])), w1)
           | Inr j \<Rightarrow> valkey_recover_loop q cutoff ss (out @ [j]) w1))"

definition valkey_recover ::
  "'k valkey_queue \<Rightarrow> duration \<Rightarrow> 'k conn \<Rightarrow> (job list \<times> goerr option) \<times> 'k conn" where
  "valkey_recover q older_than w =
     (case vk_call (vk_ask (vc_hgetall (vq_cmds q) (stamp_key q))) w of
        (Inl e, w1) \<Rightarrow> (([], Some (ErrWrap ''recover promote claims: '' e [])), w1)
      | (Inr stamps, w1) \<Rightarrow> valkey_recover_loop q (cn_now w1 - older_than) stamps [] w1)"

definition valkey_promote_queue :: "'k valkey_queue \<Rightarrow> 'k conn promote_queue" where
  "valkey_promote_queue q = \<lparr>q_enqueue = valkey_enqueue q, q_claim = valkey_claim q,
     q_ack = valkey_ack q, q_recover = valkey_recover q, q_depth = valkey_depth q\<rparr>"

lemma queue_key_inj [simp]: "queue_key p a = queue_key p b \<longleftrightarrow> a = b"
  by (simp add: queue_key_def)

lemmas queue_key_defs = pending_key_def claimed_key_def stamp_key_def dead_key_def

section \<open>The durable queue keeps the promise\<close>

text \<open>
  What the queue needs of the server and of the codecs. The views: a pending payload is read with
  \<open>json.Unmarshal\<close>, a claim's time with \<open>time.Parse\<close>.
\<close>

definition vq_job :: "'k valkey_queue \<Rightarrow> string \<Rightarrow> job" where
  "vq_job q p = (case vq_unmarshal q p of Inr j \<Rightarrow> j | Inl _ \<Rightarrow> undefined)"

definition vq_time :: "'k valkey_queue \<Rightarrow> string \<Rightarrow> gotime" where
  "vq_time q s = (case vq_parse_time q s of Some t \<Rightarrow> t | None \<Rightarrow> 0)"

text \<open>A payload that \<open>Enqueue\<close> wrote for a job with an id.\<close>

definition good_payload :: "'k valkey_queue \<Rightarrow> string \<Rightarrow> bool" where
  "good_payload q p \<longleftrightarrow> (\<exists>j. vq_marshal q j = Inr p \<and> jb_push_id j \<noteq> [])"

locale promote_codec = valkey_queues cmds lists hashes
  for cmds :: "'k valkey_cmds" and lists :: "'k \<Rightarrow> string \<Rightarrow> string list"
    and hashes :: "'k \<Rightarrow> string \<Rightarrow> string \<Rightarrow> string option" +
  fixes q :: "'k valkey_queue"
  assumes cmds: "vq_cmds q = cmds"
    and json: "vq_marshal q j = Inr p \<Longrightarrow> vq_unmarshal q p = Inr j"
    and lua: "vq_marshal q j = Inr p \<Longrightarrow> vq_lua_push_id q p = Inr (Some (jb_push_id j))"
    and rfc3339: "vq_parse_time q (vq_fmt_time q t) = Some t"
begin

definition vpending :: "'k conn \<Rightarrow> job list" where
  "vpending w = map (vq_job q) (lists (cn_db w) (pending_key q))"

definition vclaims :: "'k conn \<Rightarrow> claims" where
  "vclaims w k = map_option
     (\<lambda>p. (vq_job q p, case hashes (cn_db w) (stamp_key q) k of Some s \<Rightarrow> vq_time q s | None \<Rightarrow> 0))
     (hashes (cn_db w) (claimed_key q) k)"

definition db_ok :: "'k \<Rightarrow> bool" where
  "db_ok db \<longleftrightarrow>
     (\<forall>p\<in>set (lists db (pending_key q)). good_payload q p)
     \<and> (\<forall>k p. hashes db (claimed_key q) k = Some p \<longrightarrow>
           good_payload q p \<and> jb_push_id (vq_job q p) = k \<and> hashes db (stamp_key q) k \<noteq> None)
     \<and> (\<forall>k s. hashes db (stamp_key q) k = Some s \<longrightarrow> (\<exists>t. s = vq_fmt_time q t))"

definition vwf :: "'k conn \<Rightarrow> bool" where
  "vwf w \<longleftrightarrow> db_ok (cn_db w)"

lemma db_okI:
  assumes "\<And>p. p \<in> set (lists db (pending_key q)) \<Longrightarrow> good_payload q p"
    and "\<And>k p. hashes db (claimed_key q) k = Some p \<Longrightarrow>
           good_payload q p \<and> jb_push_id (vq_job q p) = k \<and> (\<exists>s. hashes db (stamp_key q) k = Some s)"
    and "\<And>k s. hashes db (stamp_key q) k = Some s \<Longrightarrow> \<exists>t. s = vq_fmt_time q t"
  shows "db_ok db"
  using assms by (auto simp: db_ok_def)

lemma db_okD:
  assumes "db_ok db"
  shows "p \<in> set (lists db (pending_key q)) \<Longrightarrow> good_payload q p"
    and "hashes db (claimed_key q) k = Some p \<Longrightarrow>
           good_payload q p \<and> jb_push_id (vq_job q p) = k \<and> (\<exists>s. hashes db (stamp_key q) k = Some s)"
    and "hashes db (stamp_key q) k = Some s \<Longrightarrow> \<exists>t. s = vq_fmt_time q t"
  using assms by (auto simp: db_ok_def)

lemma keys_distinct [simp]:
  "pending_key q \<noteq> claimed_key q" "pending_key q \<noteq> stamp_key q" "claimed_key q \<noteq> stamp_key q"
  "pending_key q \<noteq> dead_key q" "claimed_key q \<noteq> pending_key q" "stamp_key q \<noteq> pending_key q"
  "stamp_key q \<noteq> claimed_key q" "dead_key q \<noteq> pending_key q"
  by (simp_all add: queue_key_defs)

lemma vq_job_marshal [simp]: "vq_marshal q j = Inr p \<Longrightarrow> vq_job q p = j"
  by (simp add: vq_job_def json)

lemma good_payloadE:
  assumes "good_payload q p"
  obtains j where "vq_marshal q j = Inr p" "vq_unmarshal q p = Inr j" "vq_job q p = j"
    "vq_lua_push_id q p = Inr (Some (jb_push_id j))" "jb_push_id j \<noteq> []"
  using assms json lua by (auto simp: good_payload_def)

lemma vq_time_fmt [simp]: "vq_time q (vq_fmt_time q t) = t"
  by (simp add: vq_time_def rfc3339)

lemma view_cong:
  assumes "lists (cn_db w') = lists (cn_db w)" "hashes (cn_db w') = hashes (cn_db w)"
  shows "vpending w' = vpending w" "vclaims w' = vclaims w" "vwf w' = vwf w"
  using assms by (simp_all add: vpending_def vclaims_def vwf_def db_ok_def fun_eq_iff)

text \<open>One round trip of a script or command, fault or not.\<close>

lemma vk_call_run:
  assumes "vk_call f w = (r, w')"
  shows "cn_now w' = cn_now w"
    and "cn_db w' = cn_db w \<and> (\<exists>tmo m. r = Inl (NetError tmo m []))
       \<or> cn_db w' = snd (f (cn_db w)) \<and> (r = fst (f (cn_db w)) \<or> (\<exists>tmo m. r = Inl (NetError tmo m [])))"
proof -
  show "cn_now w' = cn_now w" using vk_call_now [of f w] assms by simp
  show "cn_db w' = cn_db w \<and> (\<exists>tmo m. r = Inl (NetError tmo m []))
       \<or> cn_db w' = snd (f (cn_db w)) \<and> (r = fst (f (cn_db w)) \<or> (\<exists>tmo m. r = Inl (NetError tmo m [])))"
    using assms by (elim vk_call_cases) auto
qed

text \<open>The two scripts on a good keyspace.\<close>

lemma claim_script_nil: "lists db (pending_key q) = [] \<Longrightarrow> claim_script q s db = (Inl RedisNil, db)"
  by (simp add: claim_script_def cmds lpop_nil)

lemma claim_script_cons:
  assumes "lists db (pending_key q) = p # ps" and "good_payload q p"
  shows "fst (claim_script q s db) = Inr p"
    and "lists (snd (claim_script q s db)) = (lists db)(pending_key q := ps)"
    and "hashes (snd (claim_script q s db)) =
      (hashes db)(claimed_key q := (hashes db (claimed_key q))(jb_push_id (vq_job q p) \<mapsto> p),
                  stamp_key q := (hashes db (stamp_key q))(jb_push_id (vq_job q p) \<mapsto> s))"
proof -
  from assms(2) obtain j where j: "vq_job q p = j" "vq_lua_push_id q p = Inr (Some (jb_push_id j))"
    by (rule good_payloadE)
  obtain db1 where pop: "vc_lpop cmds (pending_key q) db = (Some p, db1)"
    "lists db1 = (lists db)(pending_key q := ps)" "hashes db1 = hashes db"
    using lpop_cons [OF assms(1)] by (cases "vc_lpop cmds (pending_key q) db") auto
  show "fst (claim_script q s db) = Inr p"
    "lists (snd (claim_script q s db)) = (lists db)(pending_key q := ps)"
    "hashes (snd (claim_script q s db)) =
      (hashes db)(claimed_key q := (hashes db (claimed_key q))(jb_push_id (vq_job q p) \<mapsto> p),
                  stamp_key q := (hashes db (stamp_key q))(jb_push_id (vq_job q p) \<mapsto> s))"
    by (simp_all add: claim_script_def cmds pop j hset Let_def fun_upd_twist)
qed

lemma requeue_script_effect:
  "fst (requeue_script q i db) = nil_reply (hashes db (claimed_key q) i)"
  "lists (snd (requeue_script q i db)) =
     (case hashes db (claimed_key q) i of None \<Rightarrow> lists db
      | Some p \<Rightarrow> (lists db)(pending_key q := p # lists db (pending_key q)))"
  "hashes (snd (requeue_script q i db)) =
     (hashes db)(claimed_key q := (hashes db (claimed_key q))(i := None),
                 stamp_key q := (hashes db (stamp_key q))(i := None))"
  by (auto simp: requeue_script_def cmds hget hdel lpush Let_def fun_eq_iff split: option.splits)

lemma requeue_script_ok: "db_ok db \<Longrightarrow> db_ok (snd (requeue_script q i db))"
  by (auto simp: db_ok_def requeue_script_effect split: option.splits)

lemma claim_script_ok:
  assumes "db_ok db" shows "db_ok (snd (claim_script q (vq_fmt_time q t) db))"
proof (cases "lists db (pending_key q)")
  case Nil
  with assms show ?thesis by (simp add: claim_script_nil)
next
  case (Cons p ps)
  then have g: "good_payload q p" using assms by (auto simp: db_ok_def)
  show ?thesis
    using assms g
    unfolding db_ok_def claim_script_cons [OF Cons g]
    by (auto simp: Cons)
qed

lemma enqueue_law:
  assumes "vwf w" "jb_push_id j \<noteq> []" "valkey_enqueue q j w = (e, w')"
  shows "vwf w' \<and> vclaims w' = vclaims w \<and> cn_now w' = cn_now w
      \<and> (vpending w' = vpending w @ [j] \<or> e \<noteq> None \<and> vpending w' = vpending w)"
proof (cases "vq_marshal q j")
  case (Inl m)
  with assms show ?thesis by (auto simp: valkey_enqueue_def)
next
  case (Inr b)
  obtain r w1 where c: "vk_call (vk_do (vc_rpush cmds (pending_key q) b)) w = (r, w1)" by fastforce
  have w': "w' = w1" "e = None \<longleftrightarrow> is_ok r"
    using assms(3) Inr c by (auto simp: valkey_enqueue_def cmds split: sum.splits)
  from vk_call_run [OF c] show ?thesis
  proof (elim disjE)
    assume a: "cn_now w1 = cn_now w" "cn_db w1 = cn_db w \<and> (\<exists>tmo m. r = Inl (NetError tmo m []))"
    then show ?thesis using assms(1) w' view_cong [of w1 w] by auto
  next
    assume a: "cn_now w1 = cn_now w"
      "cn_db w1 = snd (vk_do (vc_rpush cmds (pending_key q) b) (cn_db w)) \<and>
       (r = fst (vk_do (vc_rpush cmds (pending_key q) b) (cn_db w)) \<or> (\<exists>tmo m. r = Inl (NetError tmo m [])))"
    then have db: "lists (cn_db w1) = (lists (cn_db w))(pending_key q := lists (cn_db w) (pending_key q) @ [b])"
      "hashes (cn_db w1) = hashes (cn_db w)"
      by (auto simp: vk_do_def rpush)
    have "good_payload q b" using Inr assms(2) by (auto simp: good_payload_def)
    then show ?thesis
      using assms(1) a(1) db w'(1) Inr
      by (auto simp: vwf_def db_ok_def vpending_def vclaims_def fun_eq_iff)
  qed
qed

lemma claim_law:
  assumes "vwf w" "valkey_claim q w = (r, w')"
  shows "vwf w' \<and> cn_now w' = cn_now w
      \<and> (vpending w' = vpending w \<and> vclaims w' = vclaims w
           \<and> (case r of Inl _ \<Rightarrow> True | Inr x \<Rightarrow> x = None \<and> vpending w = [])
         \<or> (\<exists>j. vpending w = j # vpending w'
              \<and> vclaims w' = (vclaims w)(jb_push_id j \<mapsto> (j, cn_now w))
              \<and> (case r of Inl _ \<Rightarrow> True | Inr x \<Rightarrow> x = Some j)))"
proof -
  let ?f = "claim_script q (vq_fmt_time q (cn_now w))"
  obtain r1 w1 where c: "vk_call ?f w = (r1, w1)" by fastforce
  note run = vk_call_run [OF c]
  have ok: "vwf w1"
    using run(2) assms(1) claim_script_ok by (auto simp: vwf_def)
  show ?thesis
  proof (cases "cn_db w1 = cn_db w \<and> (\<exists>tmo m. r1 = Inl (NetError tmo m []))")
    case True
    then show ?thesis
      using assms(2) c run(1) ok view_cong [of w1 w]
      by (auto simp: valkey_claim_def errors_is_def)
  next
    case False
    then have db: "cn_db w1 = snd (?f (cn_db w))"
      and r1: "r1 = fst (?f (cn_db w)) \<or> (\<exists>tmo m. r1 = Inl (NetError tmo m []))"
      using run(2) by auto
    show ?thesis
    proof (cases "lists (cn_db w) (pending_key q)")
      case Nil
      then have "cn_db w1 = cn_db w" "r1 = Inl RedisNil \<or> (\<exists>tmo m. r1 = Inl (NetError tmo m []))"
        using db r1 by (simp_all add: claim_script_nil)
      then show ?thesis
        using assms(2) c run(1) ok view_cong [of w1 w] Nil
        by (auto simp: valkey_claim_def errors_is_def vpending_def)
    next
      case (Cons p ps)
      then have g: "good_payload q p" using assms(1) by (auto simp: vwf_def db_ok_def)
      from g obtain j where j: "vq_job q p = j" "vq_unmarshal q p = Inr j" "jb_push_id j \<noteq> []"
        by (rule good_payloadE)
      note eff = claim_script_cons [OF Cons g]
      have pend: "vpending w = j # vpending w1"
        by (simp add: vpending_def Cons db eff j)
      have cl: "vclaims w1 = (vclaims w)(jb_push_id j \<mapsto> (j, cn_now w))"
        by (auto simp: vclaims_def db eff j fun_eq_iff)
      have "r1 = Inr p \<or> (\<exists>tmo m. r1 = Inl (NetError tmo m []))"
        using r1 by (simp add: eff)
      then have "w' = w1 \<and> (case r of Inl _ \<Rightarrow> True | Inr x \<Rightarrow> x = Some j)"
        using assms(2) c j by (auto simp: valkey_claim_def errors_is_def)
      then show ?thesis using ok run(1) pend cl by auto
    qed
  qed
qed

lemma hdel_run:
  assumes "vk_call (vk_do (vc_hdel cmds k i)) w = (r, w')"
  shows "cn_now w' = cn_now w" "lists (cn_db w') = lists (cn_db w)"
    and "hashes (cn_db w') = (hashes (cn_db w))(k := (hashes (cn_db w) k)(i := None))
       \<or> \<not> is_ok r \<and> hashes (cn_db w') = hashes (cn_db w)"
  using vk_call_run [OF assms] by (auto simp: vk_do_def hdel)

lemma ack_law:
  assumes "vwf w" "valkey_ack q k w = (e, w')"
  shows "vwf w' \<and> vpending w' = vpending w \<and> cn_now w' = cn_now w
      \<and> (vclaims w' = (vclaims w)(k := None) \<or> e \<noteq> None \<and> vclaims w' = vclaims w)"
proof -
  obtain r1 w1 where c1: "vk_call (vk_do (vc_hdel cmds (claimed_key q) k)) w = (r1, w1)" by fastforce
  note h1 = hdel_run [OF c1]
  note ok = db_okD [OF assms(1) [unfolded vwf_def]]
  have wf1: "vwf w1" unfolding vwf_def
    using h1(2,3) ok by (intro db_okI) (auto split: if_splits)
  have p1: "vpending w1 = vpending w" using h1(2) by (simp add: vpending_def)
  show ?thesis
  proof (cases "is_ok r1")
    case False
    then have w': "w' = w1" "e \<noteq> None"
      using assms(2) c1 by (auto simp: valkey_ack_def cmds is_ok_def split: sum.splits)
    have "vclaims w1 = (vclaims w)(k := None) \<or> vclaims w1 = vclaims w"
      using h1(3) by (auto simp: vclaims_def fun_eq_iff)
    with w' wf1 p1 h1(1) show ?thesis by auto
  next
    case True
    obtain r2 w2 where c2: "vk_call (vk_do (vc_hdel cmds (stamp_key q) k)) w1 = (r2, w2)" by fastforce
    note h2 = hdel_run [OF c2]
    have w': "w' = w2"
      using assms(2) True c1 c2 by (auto simp: valkey_ack_def cmds is_ok_def split: sum.splits)
    have gone: "hashes (cn_db w1) = (hashes (cn_db w))(claimed_key q := (hashes (cn_db w) (claimed_key q))(k := None))"
      using h1(3) True by auto
    have "vclaims w2 = (vclaims w)(k := None)"
      using h2(3) by (auto simp: vclaims_def fun_eq_iff gone)
    moreover have "vwf w2"
      unfolding vwf_def using h1(2) h2(2,3) ok by (intro db_okI) (auto simp: gone split: if_splits)
    moreover have "vpending w2 = vpending w1" using h2(2) by (simp add: vpending_def)
    ultimately show ?thesis using w' p1 h1(1) h2(1) by simp
  qed
qed

lemma ask_run:
  assumes "vk_call (vk_ask f) w = (r, w')"
  shows "cn_now w' = cn_now w" "cn_db w' = cn_db w"
    and "r = Inr (f (cn_db w)) \<or> \<not> is_ok r"
  using vk_call_run [OF assms] by (auto simp: vk_ask_def)

lemma depth_law:
  assumes "vwf w" "valkey_depth q w = (r, w')"
  shows "vwf w' \<and> vpending w' = vpending w \<and> vclaims w' = vclaims w \<and> cn_now w' = cn_now w
      \<and> (case r of Inl _ \<Rightarrow> True | Inr i \<Rightarrow> i = int (length (vpending w)))"
proof -
  obtain r1 w1 where c: "vk_call (vk_ask (vc_llen cmds (pending_key q))) w = (r1, w1)" by fastforce
  note a = ask_run [OF c]
  have "w' = w1" using assms(2) c by (auto simp: valkey_depth_def cmds split: sum.splits)
  moreover have "case r of Inl _ \<Rightarrow> True | Inr i \<Rightarrow> i = int (length (vpending w))"
    using assms(2) c a(3) by (auto simp: valkey_depth_def cmds llen vpending_def split: sum.splits)
  ultimately show ?thesis using view_cong [of w1 w] a(1,2) assms(1) by simp
qed

text \<open>Requeueing one claim whose stamp is old enough.\<close>

lemma requeue_swept:
  assumes "vwf w" and "vk_call (requeue_script q i) w = (r, w')"
    and stamp: "\<And>s. hashes (cn_db w) (stamp_key q) i = Some s \<Longrightarrow> vq_time q s \<le> t"
    and sw: "swept t (ps, cl) (vpending w, vclaims w)"
  shows "vwf w' \<and> cn_now w' = cn_now w \<and> swept t (ps, cl) (vpending w', vclaims w')"
    and "k \<noteq> i \<Longrightarrow> hashes (cn_db w') (stamp_key q) k = hashes (cn_db w) (stamp_key q) k"
    and "r = Inr p \<Longrightarrow> \<exists>j. vq_unmarshal q p = Inr j"
proof -
  note run = vk_call_run [OF assms(2)]
  show "k \<noteq> i \<Longrightarrow> hashes (cn_db w') (stamp_key q) k = hashes (cn_db w) (stamp_key q) k"
    using run(2) by (auto simp: requeue_script_effect)
  show "\<exists>j. vq_unmarshal q p = Inr j" if "r = Inr p"
  proof -
    have "hashes (cn_db w) (claimed_key q) i = Some p"
      using run(2) that by (auto simp: requeue_script_effect nil_reply_def split: option.splits)
    then have "good_payload q p" using assms(1) by (auto simp: vwf_def db_ok_def)
    then show ?thesis by (rule good_payloadE) blast
  qed
  have wf: "vwf w'" using run(2) assms(1) requeue_script_ok by (auto simp: vwf_def)
  have "swept t (ps, cl) (vpending w', vclaims w')"
  proof (cases "cn_db w' = cn_db w")
    case True
    then show ?thesis using view_cong [of w' w] sw by simp
  next
    case False
    then have db: "cn_db w' = snd (requeue_script q i (cn_db w))" using run(2) by auto
    have cl': "vclaims w' = (vclaims w)(i := None)"
      by (auto simp: vclaims_def db requeue_script_effect fun_eq_iff)
    show ?thesis
    proof (cases "hashes (cn_db w) (claimed_key q) i")
      case None
      then have "vclaims w i = None" by (simp add: vclaims_def)
      then have "vclaims w' = vclaims w" unfolding cl' by (simp add: fun_eq_iff)
      moreover have "vpending w' = vpending w"
        by (simp add: vpending_def db requeue_script_effect None)
      ultimately show ?thesis using sw by simp
    next
      case (Some p)
      obtain s where s: "hashes (cn_db w) (stamp_key q) i = Some s"
        using db_okD(2) [OF assms(1) [unfolded vwf_def] Some] by blast
      have "vclaims w i = Some (vq_job q p, vq_time q s)" by (simp add: vclaims_def Some s)
      moreover have "vpending w' = vq_job q p # vpending w"
        by (simp add: vpending_def db requeue_script_effect Some)
      ultimately show ?thesis
        unfolding cl' using swept_step [OF sw] stamp [OF s] by metis
    qed
  qed
  with wf run(1) show "vwf w' \<and> cn_now w' = cn_now w \<and> swept t (ps, cl) (vpending w', vclaims w')"
    by simp
qed

lemma recover_loop_law:
  assumes "vwf w" "distinct (map fst ss)"
    and "\<And>i s. (i, s) \<in> set ss \<Longrightarrow> hashes (cn_db w) (stamp_key q) i = Some s"
    and "swept t (ps, cl) (vpending w, vclaims w)"
    and "valkey_recover_loop q t ss out w = (r, w')"
  shows "vwf w' \<and> cn_now w' = cn_now w \<and> swept t (ps, cl) (vpending w', vclaims w')"
  using assms
proof (induction ss arbitrary: out w)
  case (Cons x ss)
  obtain i ts where x: "x = (i, ts)" by fastforce
  note prems = Cons.prems [unfolded x]
  have live: "hashes (cn_db w) (stamp_key q) i = Some ts" using prems(3) by simp
  then obtain u where u: "ts = vq_fmt_time q u"
    using db_okD(3) [OF prems(1) [unfolded vwf_def]] by blast
  show ?case
  proof (cases "t < u")
    case True
    then have "valkey_recover_loop q t ss out w = (r, w')"
      using prems(5) by (simp add: u rfc3339)
    then show ?thesis using prems by (intro Cons.IH [of w]) auto
  next
    case False
    obtain r1 w1 where c: "vk_call (requeue_script q i) w = (r1, w1)" by fastforce
    have stamp: "\<And>s. hashes (cn_db w) (stamp_key q) i = Some s \<Longrightarrow> vq_time q s \<le> t"
      using live False u by simp
    note step = requeue_swept [OF prems(1) c stamp prems(4)]
    have rest: "\<And>k s. (k, s) \<in> set ss \<Longrightarrow> hashes (cn_db w1) (stamp_key q) k = Some s"
    proof -
      fix k s assume ks: "(k, s) \<in> set ss"
      then have "k \<noteq> i" using prems(2) by force
      then show "hashes (cn_db w1) (stamp_key q) k = Some s"
        using step(2) [of k] prems(3) [of k s] ks by simp
    qed
    have d: "distinct (map fst ss)" using prems(2) by simp
    show ?thesis
    proof (cases r1)
      case (Inl e)
      then consider "errors_is e RedisNil" "valkey_recover_loop q t ss out w1 = (r, w')" | "w' = w1"
        using prems(5) False c by (auto simp: u rfc3339 split: if_splits)
      then show ?thesis
      proof cases
        case 1
        with step(1) rest d show ?thesis using Cons.IH [of w1 out] by auto
      qed (use step(1) in simp)
    next
      case (Inr p)
      with step(3) obtain j where "vq_unmarshal q p = Inr j" by blast
      then have "valkey_recover_loop q t ss (out @ [j]) w1 = (r, w')"
        using prems(5) False c Inr by (simp add: u rfc3339)
      with step(1) rest d show ?thesis using Cons.IH [of w1 "out @ [j]"] by auto
    qed
  qed
qed auto

lemma recover_law:
  assumes "vwf w" "valkey_recover q d w = ((js, e), w')"
  shows "vwf w' \<and> cn_now w' = cn_now w
      \<and> swept (cn_now w - d) (vpending w, vclaims w) (vpending w', vclaims w')"
proof -
  obtain r1 w1 where c: "vk_call (vk_ask (vc_hgetall cmds (stamp_key q))) w = (r1, w1)" by fastforce
  note a = ask_run [OF c]
  note same = view_cong [of w1 w, unfolded a(2), OF refl refl]
  show ?thesis
  proof (cases r1)
    case (Inl e1)
    then have "w' = w1" using assms(2) c by (simp add: valkey_recover_def cmds)
    then show ?thesis using same a(1) assms(1) by simp
  next
    case (Inr stamps)
    with a(3) have st: "stamps = vc_hgetall cmds (stamp_key q) (cn_db w)" by auto
    have loop: "valkey_recover_loop q (cn_now w - d) stamps [] w1 = ((js, e), w')"
      using assms(2) c Inr a(1) by (simp add: valkey_recover_def cmds)
    have "vwf w' \<and> cn_now w' = cn_now w1
        \<and> swept (cn_now w - d) (vpending w1, vclaims w1) (vpending w', vclaims w')"
    proof (rule recover_loop_law [OF _ _ _ _ loop])
      show "vwf w1" using same assms(1) by simp
      show "distinct (map fst stamps)" by (simp add: st hgetall)
      show "hashes (cn_db w1) (stamp_key q) i = Some s" if "(i, s) \<in> set stamps" for i s
        using that hgetall [of "stamp_key q" "cn_db w"] by (simp add: st a(2) flip: hgetall(1))
    qed simp
    then show ?thesis using same a(1) by simp
  qed
qed

sublocale vq: promote_queue_spec "valkey_promote_queue q" vwf vpending vclaims cn_now
proof (unfold_locales, goal_cases)
  case (1 w j e w')
  then have "valkey_enqueue q j w = (e, w')" by (simp add: valkey_promote_queue_def)
  with 1(1,2) show ?case by (rule enqueue_law)
next
  case (2 w r w')
  then have "valkey_claim q w = (r, w')" by (simp add: valkey_promote_queue_def)
  with 2(1) show ?case by (rule claim_law)
next
  case (3 w k e w')
  then have "valkey_ack q k w = (e, w')" by (simp add: valkey_promote_queue_def)
  with 3(1) show ?case by (rule ack_law)
next
  case (4 w d js e w')
  then have "valkey_recover q d w = ((js, e), w')" by (simp add: valkey_promote_queue_def)
  with 4(1) show ?case by (rule recover_law)
next
  case (5 w n w')
  then have "valkey_depth q w = (n, w')" by (simp add: valkey_promote_queue_def)
  with 5(1) show ?case by (rule depth_law)
next
  case (6 w j)
  then obtain p where "j = vq_job q p" "good_payload q p"
    by (auto simp: vwf_def vpending_def dest: db_okD(1))
  then show ?case by (auto elim: good_payloadE)
next
  case (7 w k j t)
  then obtain p where "j = vq_job q p" "good_payload q p \<and> jb_push_id (vq_job q p) = k"
    by (auto simp: vwf_def vclaims_def dest: db_okD(2))
  then show ?case by (auto elim: good_payloadE)
qed

end

section \<open>A concrete wire format\<close>

text \<open>
  Length-prefixed fields stand in for the JSON text, a decimal number for the RFC3339Nano stamp:
  the codec hypotheses hold, so the durable queue's lemmas apply to a queue on the concrete
  server.
\<close>

definition enc_field :: "string \<Rightarrow> string" where
  "enc_field s = fmt_nat (length s) @ '':'' @ s"

definition dec_field :: "string \<Rightarrow> (string \<times> string) option" where
  "dec_field s =
     (case str_cut s '':'' of
        (n, rest, ok) \<Rightarrow>
          (if \<not> ok then None
           else case parse_nat n of
             None \<Rightarrow> None
           | Some k \<Rightarrow> (if k \<le> length rest then Some (take k rest, drop k rest) else None)))"

fun dec_fields :: "nat \<Rightarrow> string \<Rightarrow> string list option" where
  "dec_fields 0 s = (if s = [] then Some [] else None)"
| "dec_fields (Suc n) s =
     (if s = [] then Some []
      else case dec_field s of
        None \<Rightarrow> None
      | Some (f, r) \<Rightarrow> map_option ((#) f) (dec_fields n r))"

definition job_strings :: "job \<Rightarrow> string list" where
  "job_strings j = [jb_push_id j, jb_tenant j, jb_repo j, jb_tag j, jb_digest j, jb_ref j,
     jb_target j, jb_oci_path j, jb_scratch_dir j, jb_config_dig j, jb_manifest j, jb_identity j,
     fmt_nat (unat (jb_attempts j))] @ jb_layers j"

fun strings_job :: "string list \<Rightarrow> job option" where
  "strings_job (a # b # c # d # e # f # g # h # i # k # l # m # n # ls) =
     map_option (\<lambda>t. \<lparr>jb_push_id = a, jb_tenant = b, jb_repo = c, jb_tag = d, jb_digest = e,
        jb_ref = f, jb_target = g, jb_oci_path = h, jb_scratch_dir = i, jb_layers = ls,
        jb_config_dig = k, jb_manifest = l, jb_identity = m, jb_attempts = of_nat t\<rparr>) (parse_nat n)"
| "strings_job _ = None"

definition enc_job :: "job \<Rightarrow> string res" where
  "enc_job j = Inr (concat (map enc_field (job_strings j)))"

definition dec_job :: "string \<Rightarrow> job res" where
  "dec_job s =
     (case dec_fields (length s) s of
        None \<Rightarrow> Inl (ErrMsg ''invalid job'')
      | Some fs \<Rightarrow> (case strings_job fs of None \<Rightarrow> Inl (ErrMsg ''invalid job'') | Some j \<Rightarrow> Inr j))"

definition std_valkey_queue :: "string \<Rightarrow> keyspace valkey_queue" where
  "std_valkey_queue pre = new_valkey_queue pre
     \<lparr>vq_cmds = std_cmds, vq_prefix = [], vq_marshal = enc_job, vq_unmarshal = dec_job,
      vq_lua_push_id = (\<lambda>p. case dec_job p of Inl e \<Rightarrow> Inl e | Inr j \<Rightarrow> Inr (Some (jb_push_id j))),
      vq_fmt_time = fmt_int, vq_parse_time = parse_int\<rparr>"

lemma fmt_nat_colon: "CHR '':'' \<notin> set (fmt_nat n)"
  by (rule fmt_nat_lacks) (simp add: is_digit_range)

lemma dec_enc_field [simp]: "dec_field (enc_field s @ r) = Some (s, r)"
  by (simp add: dec_field_def enc_field_def str_cut_def str_index_char_append fmt_nat_colon)

lemma enc_field_nonempty [simp]: "enc_field s \<noteq> []"
  by (simp add: enc_field_def)

lemma dec_enc_fields: "length fs \<le> n \<Longrightarrow> dec_fields n (concat (map enc_field fs)) = Some fs"
proof (induction fs arbitrary: n)
  case Nil
  then show ?case by (cases n) auto
next
  case (Cons f fs)
  then show ?case by (cases n) auto
qed

lemma length_enc_fields: "length fs \<le> length (concat (map enc_field fs))"
proof (induction fs)
  case (Cons f fs)
  have "1 \<le> length (enc_field f)" by (simp add: enc_field_def)
  with Cons show ?case by simp
qed simp

lemma dec_enc_job: "enc_job j = Inr p \<Longrightarrow> dec_job p = Inr j"
proof -
  assume "enc_job j = Inr p"
  then have p: "p = concat (map enc_field (job_strings j))" by (simp add: enc_job_def)
  have "dec_fields (length p) p = Some (job_strings j)"
    unfolding p by (rule dec_enc_fields [OF length_enc_fields])
  moreover have "strings_job (job_strings j) = Some j" by (simp add: job_strings_def)
  ultimately show ?thesis by (simp add: dec_job_def)
qed

interpretation stdq: promote_codec std_cmds ks_lists ks_hash "std_valkey_queue pre" for pre
  by unfold_locales (auto simp: std_valkey_queue_def new_valkey_queue_def dec_enc_job)

end
