(* ===== verification/Audit_Decision.thy ===== *)
theory Audit_Decision
  imports Policy_Engine
begin

text \<open>
  \<open>internal/audit\<close>: the row of a gate decision (\<open>audit.go\<close>), which references may fall back to the
  latest push of their repository (\<open>fallback.go\<close>) and the retention statements (\<open>retention.go\<close>).
  The writers and the dashboard queries are database calls; what they store is this row.
\<close>

record decision =
  ad_push_id :: string
  ad_repo :: string
  ad_tag :: string
  ad_digest :: string
  ad_identity :: string
  ad_passed :: bool
  ad_failed_policies :: "string list"
  ad_reasons :: "string list"
  ad_base_image_id :: string
  ad_scanner_db_version :: string
  ad_duration_ms :: "32 word"
  ad_image_created :: gotime
  ad_image_age_days :: "16 word"
  ad_image_age_threshold_days :: "16 word"
  ad_image_age_known :: bool
  ad_infra_error :: bool
  ad_error_detail :: string

definition zero_decision :: decision where
  "zero_decision = \<lparr>ad_push_id = [], ad_repo = [], ad_tag = [], ad_digest = [], ad_identity = [],
     ad_passed = False, ad_failed_policies = [], ad_reasons = [], ad_base_image_id = [],
     ad_scanner_db_version = [], ad_duration_ms = 0, ad_image_created = 0, ad_image_age_days = 0,
     ad_image_age_threshold_days = 0, ad_image_age_known = False, ad_infra_error = False,
     ad_error_detail = []\<rparr>"

text \<open>The header of a report, read back from a row.\<close>

record decision_header =
  dh_found :: bool
  dh_push_id :: string
  dh_repo :: string
  dh_tag :: string
  dh_digest :: string
  dh_identity :: string
  dh_passed :: bool
  dh_failed_policies :: "string list"
  dh_reasons :: "string list"
  dh_base_image_id :: string
  dh_scanner_db_version :: string
  dh_ts :: gotime
  dh_image_created :: gotime
  dh_image_age_days :: "16 word"
  dh_image_age_threshold_days :: "16 word"
  dh_image_age_known :: bool
  dh_infra_error :: bool
  dh_error_detail :: string

definition no_header :: decision_header where
  "no_header = \<lparr>dh_found = False, dh_push_id = [], dh_repo = [], dh_tag = [], dh_digest = [], dh_identity = [],
     dh_passed = False, dh_failed_policies = [], dh_reasons = [], dh_base_image_id = [], dh_scanner_db_version = [],
     dh_ts = 0, dh_image_created = 0, dh_image_age_days = 0, dh_image_age_threshold_days = 0,
     dh_image_age_known = False, dh_infra_error = False, dh_error_detail = []\<rparr>"

definition header_of :: "gotime \<times> decision \<Rightarrow> decision_header" where
  "header_of r =
     (case r of (t, d) \<Rightarrow>
        \<lparr>dh_found = True, dh_push_id = ad_push_id d, dh_repo = ad_repo d, dh_tag = ad_tag d, dh_digest = ad_digest d,
         dh_identity = ad_identity d, dh_passed = ad_passed d, dh_failed_policies = ad_failed_policies d,
         dh_reasons = ad_reasons d, dh_base_image_id = ad_base_image_id d,
         dh_scanner_db_version = ad_scanner_db_version d, dh_ts = t, dh_image_created = ad_image_created d,
         dh_image_age_days = ad_image_age_days d, dh_image_age_threshold_days = ad_image_age_threshold_days d,
         dh_image_age_known = ad_image_age_known d, dh_infra_error = ad_infra_error d,
         dh_error_detail = ad_error_detail d\<rparr>)"

record tag_alias =
  ta_repo :: string
  ta_tag :: string
  ta_digest :: string

text \<open>The recorder both the request path and the promotion worker write through.\<close>

type_synonym 'w recorder = "decision \<Rightarrow> finding list \<Rightarrow> 'w \<Rightarrow> 'w"

definition ref_allows_repo_fallback :: "string \<Rightarrow> bool" where
  "ref_allows_repo_fallback ref = has_prefix ref ''sha256:''"

definition ttl_statements :: "int \<Rightarrow> string list" where
  "ttl_statements retention_days0 =
     (let retention_days = (if retention_days0 \<le> 0 then 30 else retention_days0) in
      map (\<lambda>tbl. ''ALTER TABLE '' @ tbl @ '' MODIFY TTL ts + INTERVAL '' @ fmt_int retention_days @ '' DAY'')
        [''gate_decisions'', ''vulnerability_findings'', ''tag_aliases''])"

end
