(* ===== verification/Promote_Worker.thy ===== *)
theory Promote_Worker
  imports Promote_Valkey Acr_Classify Audit_Decision
begin

text \<open>
  \<open>internal/promote/worker.go\<close> and the audit finalizer of \<open>promote.go\<close>: the worker that drains the
  promotion queue.

  Every collaborator of the worker (queue, pushers, recorder, localizer, cleanup, metrics, clock)
  is a field of the record \<open>worker\<close>, as in the Go struct, and acts on a state \<open>'w\<close>; a nil
  collaborator is \<open>None\<close>. Log lines are left out.
\<close>

section \<open>The worker\<close>

record 'w promote_metrics =
  pm_duration :: "real \<Rightarrow> 'w \<Rightarrow> 'w"
  pm_acr_push :: "(string \<Rightarrow> string \<Rightarrow> 'w \<Rightarrow> 'w) option"

record 'w worker =
  wk_queue :: "'w promote_queue"
  wk_pushers :: "string \<Rightarrow> 'w \<Rightarrow> 'w pusher res \<times> 'w"
  wk_recorder :: "(job \<Rightarrow> bool \<Rightarrow> string \<Rightarrow> 'w \<Rightarrow> 'w) option"
  wk_localize :: "(job \<Rightarrow> 'w \<Rightarrow> (string \<times> string) res \<times> 'w) option"
  wk_stat_ok :: "string \<Rightarrow> 'w \<Rightarrow> bool"
  wk_cleanup :: "(job \<Rightarrow> 'w \<Rightarrow> goerr option \<times> 'w) option"
  wk_metrics :: "'w promote_metrics option"
  wk_max_attempts :: "8 word"
  wk_poll_interval :: duration
  wk_recover_after :: duration
  wk_clock :: "'w \<Rightarrow> gotime"
  wk_ctx_done :: "'w \<Rightarrow> bool"
  wk_sleep :: "duration \<Rightarrow> 'w \<Rightarrow> bool \<times> 'w"

definition default_max_attempts :: "8 word" where
  "default_max_attempts = 3"

definition default_poll_interval :: duration where
  "default_poll_interval = 200 * 1000000"

definition default_recover_after :: duration where
  "default_recover_after = 15 * minute"

definition claim_error_backoff :: duration where
  "claim_error_backoff = second"

definition recover_error_interval :: duration where
  "recover_error_interval = minute"

definition max_attempts :: "'w worker \<Rightarrow> 8 word" where
  "max_attempts wk = (if wk_max_attempts wk = 0 then default_max_attempts else wk_max_attempts wk)"

definition poll_interval :: "'w worker \<Rightarrow> duration" where
  "poll_interval wk = (if wk_poll_interval wk = 0 then default_poll_interval else wk_poll_interval wk)"

definition recover_after :: "'w worker \<Rightarrow> duration" where
  "recover_after wk = (if wk_recover_after wk \<le> 0 then default_recover_after else wk_recover_after wk)"

definition sweep_every :: "'w worker \<Rightarrow> duration" where
  "sweep_every wk = (if wk_recover_after wk \<le> 0 then recover_error_interval else wk_recover_after wk)"

definition worker_recover :: "'w worker \<Rightarrow> 'w \<Rightarrow> 'w" where
  "worker_recover wk w = snd (q_recover (wk_queue wk) (recover_after wk) w)"

definition worker_finalize :: "'w worker \<Rightarrow> job \<Rightarrow> bool \<Rightarrow> string \<Rightarrow> 'w \<Rightarrow> 'w" where
  "worker_finalize wk j ok detail w =
     (case wk_recorder wk of None \<Rightarrow> w | Some f \<Rightarrow> f j ok detail w)"

definition worker_cleanup :: "'w worker \<Rightarrow> job \<Rightarrow> 'w \<Rightarrow> 'w" where
  "worker_cleanup wk j w = (case wk_cleanup wk of None \<Rightarrow> w | Some f \<Rightarrow> snd (f j w))"

definition worker_retire :: "'w worker \<Rightarrow> job \<Rightarrow> goerr \<Rightarrow> 'w \<Rightarrow> 'w" where
  "worker_retire wk j cause w =
     (let w1 = worker_finalize wk j False (err_text cause) w;
          w2 = snd (q_ack (wk_queue wk) (jb_push_id j) w1)
      in worker_cleanup wk j w2)"

text \<open>The errors with a \<open>Terminal\<close> method.\<close>

fun as_terminal :: "goerr \<Rightarrow> bool option" where
  "as_terminal (BlobMissingError k) = Some True"
| "as_terminal _ = None"

definition worker_fail :: "'w worker \<Rightarrow> job \<Rightarrow> goerr \<Rightarrow> 'w \<Rightarrow> 'w" where
  "worker_fail wk j cause w =
     (if errors_as as_terminal cause = Some True then worker_retire wk j cause w
      else if max_attempts wk \<le> jb_attempts j then worker_retire wk j cause w
      else case q_enqueue (wk_queue wk) j w of
        (Some e, w1) \<Rightarrow> w1
      | (None, w1) \<Rightarrow> snd (q_ack (wk_queue wk) (jb_push_id j) w1))"

definition worker_localize :: "'w worker \<Rightarrow> job \<Rightarrow> 'w \<Rightarrow> job option \<times> 'w" where
  "worker_localize wk j w =
     (case wk_localize wk of
        None \<Rightarrow> (Some j, w)
      | Some localize \<Rightarrow>
          (if wk_stat_ok wk (jb_oci_path j) w then (Some j, w)
           else case localize j w of
             (Inl e, w1) \<Rightarrow>
               (None, worker_fail wk j
                  (ErrWrap (''rebuild oci layout for '' @ jb_target j @ '': '') e []) w1)
           | (Inr (oci, scratch), w1) \<Rightarrow>
               (Some (j\<lparr>jb_oci_path := oci, jb_scratch_dir := scratch\<rparr>), w1)))"

definition duration_seconds :: "duration \<Rightarrow> real" where
  "duration_seconds d = real_of_int d / 1000000000"

definition worker_observe_duration :: "'w worker \<Rightarrow> duration \<Rightarrow> 'w \<Rightarrow> 'w" where
  "worker_observe_duration wk d w =
     (case wk_metrics wk of None \<Rightarrow> w | Some m \<Rightarrow> pm_duration m (duration_seconds d) w)"

definition worker_observe_acr_push :: "'w worker \<Rightarrow> string \<Rightarrow> string \<Rightarrow> 'w \<Rightarrow> 'w" where
  "worker_observe_acr_push wk registry res w =
     (case wk_metrics wk of
        None \<Rightarrow> w
      | Some m \<Rightarrow> (case pm_acr_push m of None \<Rightarrow> w | Some f \<Rightarrow> f registry res w))"

definition worker_handle :: "'w worker \<Rightarrow> job \<Rightarrow> 'w \<Rightarrow> 'w" where
  "worker_handle wk j w =
     (case wk_pushers wk (jb_tenant j) w of
        (Inl e, w1) \<Rightarrow>
          worker_retire wk j (ErrWrap (''resolve pusher for tenant '' @ fmt_q (jb_tenant j) @ '': '') e []) w1
      | (Inr pusher, w1) \<Rightarrow>
          (let j1 = j\<lparr>jb_attempts := jb_attempts j + 1\<rparr> in
           case worker_localize wk j1 w1 of
             (None, w2) \<Rightarrow> w2
           | (Some j2, w2) \<Rightarrow>
               (case ps_push pusher (jb_oci_path j2) (jb_target j2) w2 of
                  (err, w3) \<Rightarrow>
                    (let w4 = worker_observe_duration wk (time_sub (wk_clock wk w3) (wk_clock wk w2)) w3;
                         w5 = worker_observe_acr_push wk (registry_from_target (jb_target j2))
                                (push_error_label (classify_push_error err)) w4
                     in case err of
                          Some e \<Rightarrow> worker_fail wk j2 (ErrWrap ''acr push: '' e []) w5
                        | None \<Rightarrow>
                            (let w6 = worker_finalize wk j2 True [] w5;
                                 w7 = snd (q_ack (wk_queue wk) (jb_push_id j2) w6)
                             in worker_cleanup wk j2 w7)))))"

text \<open>
  One round of the loop of \<open>Run\<close>: \<open>None\<close> when the context is done, otherwise the next time a
  recovery sweep is due. The loop itself runs until the context ends, so it takes fuel.
\<close>

definition worker_round :: "'w worker \<Rightarrow> gotime \<Rightarrow> 'w \<Rightarrow> gotime option \<times> 'w" where
  "worker_round wk next_recover w =
     (if wk_ctx_done wk w then (None, w)
      else
        (let due = \<not> wk_clock wk w < next_recover;
             w1 = (if due then worker_recover wk w else w);
             next1 = (if due then wk_clock wk w1 + sweep_every wk else next_recover)
         in case q_claim (wk_queue wk) w1 of
              (Inl e, w2) \<Rightarrow>
                (case wk_sleep wk claim_error_backoff w2 of
                   (ok, w3) \<Rightarrow> (if ok then Some next1 else None, w3))
            | (Inr None, w2) \<Rightarrow>
                (case wk_sleep wk (poll_interval wk) w2 of
                   (ok, w3) \<Rightarrow> (if ok then Some next1 else None, w3))
            | (Inr (Some j), w2) \<Rightarrow> (Some next1, worker_handle wk j w2)))"

fun worker_rounds :: "nat \<Rightarrow> 'w worker \<Rightarrow> gotime \<Rightarrow> 'w \<Rightarrow> 'w" where
  "worker_rounds 0 wk next w = w"
| "worker_rounds (Suc n) wk next w =
     (case worker_round wk next w of
        (None, w') \<Rightarrow> w'
      | (Some next', w') \<Rightarrow> worker_rounds n wk next' w')"

definition worker_run :: "nat \<Rightarrow> 'w worker \<Rightarrow> 'w \<Rightarrow> 'w" where
  "worker_run n wk w = worker_rounds n wk (wk_clock wk w) w"

text \<open>\<open>AuditFinalizer\<close>: only terminal failures are written.\<close>

definition finalize_promotion :: "'w recorder option \<Rightarrow> job \<Rightarrow> bool \<Rightarrow> string \<Rightarrow> 'w \<Rightarrow> 'w" where
  "finalize_promotion rec j ok detail w =
     (case rec of
        None \<Rightarrow> w
      | Some record_row \<Rightarrow>
          (if ok then w
           else record_row
             (zero_decision\<lparr>ad_push_id := jb_push_id j, ad_repo := jb_repo j, ad_tag := jb_tag j,
                ad_digest := jb_digest j, ad_identity := jb_identity j, ad_passed := False,
                ad_infra_error := True,
                ad_error_detail := ''acr promotion abandoned after '' @ fmt_nat (unat (jb_attempts j))
                  @ '' attempts: '' @ detail\<rparr>) [] w))"

end
