(* ===== verification/Promote_Safety.thy ===== *)
theory Promote_Safety
  imports Promote_Worker
begin

text \<open>
  What the promotion worker guarantees whatever its collaborators answer and wherever the process
  dies. \<open>promotion_env\<close> is the contract of the collaborators: they leave the queue alone, report
  what they did in a log, and do nothing once the process is dead (\<open>alive\<close>). The guarantees are
  proved once in that locale. \<open>plant\<close> is a process with a finite number of effects left before it
  dies, over any queue that meets \<open>promote_queue_spec\<close>; the locale is interpreted on it with the
  in-process queue and with the Valkey queue.
\<close>

section \<open>The contract\<close>

datatype pevent =
    Pushed string            \<comment> \<open>a push to this target succeeded\<close>
  | Finalized string bool    \<comment> \<open>the outcome of this push id was recorded\<close>
  | Cleaned string           \<comment> \<open>scratch and references of this push id were released\<close>

record 'w pview =
  pv_wf :: "'w \<Rightarrow> bool"
  pv_pending :: "'w \<Rightarrow> job list"
  pv_claimed :: "'w \<Rightarrow> claims"
  pv_log :: "'w \<Rightarrow> pevent list"
  pv_alive :: "'w \<Rightarrow> bool"

text \<open>A step that may log events of \<open>E\<close>, not even those once the process is dead.\<close>

definition logs :: "'w pview \<Rightarrow> pevent set \<Rightarrow> 'w \<Rightarrow> 'w \<Rightarrow> bool" where
  "logs v E w w' \<longleftrightarrow>
     (pv_alive v w' \<longrightarrow> pv_alive v w)
     \<and> (\<exists>l. pv_log v w' = pv_log v w @ l \<and> set l \<subseteq> E \<and> (\<not> pv_alive v w \<longrightarrow> l = []))"

text \<open>A step that leaves the queue alone as well.\<close>

definition quiet :: "'w pview \<Rightarrow> pevent set \<Rightarrow> 'w \<Rightarrow> 'w \<Rightarrow> bool" where
  "quiet v E w w' \<longleftrightarrow> logs v E w w' \<and> pv_wf v w' = pv_wf v w
     \<and> pv_pending v w' = pv_pending v w \<and> pv_claimed v w' = pv_claimed v w"

lemma logs_refl [simp]: "logs v E w w"
  by (simp add: logs_def)

lemma quiet_refl [simp]: "quiet v E w w"
  by (simp add: quiet_def)

lemma logs_trans: "logs v E w w' \<Longrightarrow> logs v F w' w'' \<Longrightarrow> E \<union> F \<subseteq> G \<Longrightarrow> logs v G w w''"
  by (fastforce simp: logs_def)

lemma quiet_trans: "quiet v E w w' \<Longrightarrow> quiet v F w' w'' \<Longrightarrow> E \<union> F \<subseteq> G \<Longrightarrow> quiet v G w w''"
  by (auto simp: quiet_def elim: logs_trans)

lemma logs_mono: "logs v E w w' \<Longrightarrow> E \<subseteq> F \<Longrightarrow> logs v F w w'"
  by (fastforce simp: logs_def)

lemma logs_keeps: "logs v E w w' \<Longrightarrow> x \<in> set (pv_log v w) \<Longrightarrow> x \<in> set (pv_log v w')"
  by (auto simp: logs_def)

lemma logs_new: "logs v E w w' \<Longrightarrow> x \<in> set (pv_log v w') \<Longrightarrow> x \<in> set (pv_log v w) \<or> x \<in> E \<and> pv_alive v w"
  by (auto simp: logs_def)

lemma logs_alive: "logs v E w w' \<Longrightarrow> pv_alive v w' \<Longrightarrow> pv_alive v w"
  by (simp add: logs_def)

locale promotion_env =
  promote_queue_spec "wk_queue wk" "pv_wf v" "pv_pending v" "pv_claimed v" clock
  for wk :: "'w worker" and v :: "'w pview" and clock :: "'w \<Rightarrow> gotime" +
  assumes pushers: "quiet v {} w (snd (wk_pushers wk t w))"
    and push: "fst (wk_pushers wk t w0) = Inr p \<Longrightarrow> ps_push p oci tgt w = (e, w') \<Longrightarrow>
      quiet v {Pushed tgt} w w' \<and> (e = None \<longrightarrow> Pushed tgt \<in> set (pv_log v w'))"
    and recorder: "\<exists>f. wk_recorder wk = Some f \<and> (\<forall>j ok d w.
      quiet v {Finalized (jb_push_id j) ok} w (f j ok d w)
      \<and> (pv_alive v (f j ok d w) \<longrightarrow> Finalized (jb_push_id j) ok \<in> set (pv_log v (f j ok d w))))"
    and localize: "wk_localize wk = Some f \<Longrightarrow> quiet v {} w (snd (f j w))"
    and cleanup: "wk_cleanup wk = Some g \<Longrightarrow> quiet v {Cleaned (jb_push_id j)} w (snd (g j w))"
    and metrics: "wk_metrics wk = Some m \<Longrightarrow> quiet v {} w (pm_duration m s w)"
      "wk_metrics wk = Some m \<Longrightarrow> pm_acr_push m = Some h \<Longrightarrow> quiet v {} w (h reg lab w)"
    and sleeping: "quiet v {} w (snd (wk_sleep wk d w))"
    and queue_logs: "logs v {} w (snd (q_enqueue (wk_queue wk) j w))"
      "logs v {} w (snd (q_claim (wk_queue wk) w))"
      "logs v {} w (snd (q_ack (wk_queue wk) k w))"
      "logs v {} w (snd (q_recover (wk_queue wk) d w))"
    and dead_ack: "\<not> pv_alive v w \<Longrightarrow> pv_claimed v (snd (q_ack (wk_queue wk) k w)) = pv_claimed v w"
begin

abbreviation (input) "pwf \<equiv> pv_wf v"

lemma finalize_quiet: "quiet v {Finalized (jb_push_id j) ok} w (worker_finalize wk j ok d w)"
  and finalize_done: "pv_alive v (worker_finalize wk j ok d w) \<Longrightarrow>
    Finalized (jb_push_id j) ok \<in> set (pv_log v (worker_finalize wk j ok d w))"
  using recorder by (auto simp: worker_finalize_def)

lemma cleanup_quiet: "quiet v {Cleaned (jb_push_id j)} w (worker_cleanup wk j w)"
  using cleanup by (auto simp: worker_cleanup_def split: option.splits)

lemma observe_quiet: "quiet v {} w (worker_observe_duration wk d w)"
  "quiet v {} w (worker_observe_acr_push wk r l w)"
  using metrics by (auto simp: worker_observe_duration_def worker_observe_acr_push_def split: option.splits)

text \<open>Acknowledging: the claim of the acknowledged id goes at most, and nothing happens when dead.\<close>

lemma ack_step:
  assumes "pwf w"
  shows "pwf (snd (q_ack (wk_queue wk) k w))"
    and "pv_pending v (snd (q_ack (wk_queue wk) k w)) = pv_pending v w"
    and "\<forall>i. i \<noteq> k \<longrightarrow> pv_claimed v (snd (q_ack (wk_queue wk) k w)) i = pv_claimed v w i"
    and "pv_claimed v (snd (q_ack (wk_queue wk) k w)) k = pv_claimed v w k
       \<or> pv_claimed v (snd (q_ack (wk_queue wk) k w)) k = None \<and> pv_alive v w"
proof -
  obtain e w' where a: "q_ack (wk_queue wk) k w = (e, w')" by fastforce
  from ack [OF assms a] show "pwf (snd (q_ack (wk_queue wk) k w))"
    "pv_pending v (snd (q_ack (wk_queue wk) k w)) = pv_pending v w"
    "\<forall>i. i \<noteq> k \<longrightarrow> pv_claimed v (snd (q_ack (wk_queue wk) k w)) i = pv_claimed v w i"
    by (auto simp: a)
  show "pv_claimed v (snd (q_ack (wk_queue wk) k w)) k = pv_claimed v w k
       \<or> pv_claimed v (snd (q_ack (wk_queue wk) k w)) k = None \<and> pv_alive v w"
    using dead_ack [of w k] ack [OF assms a] by (cases "pv_alive v w") (auto simp: a)
qed

text \<open>
  What one job's handling may do to the state: other claims are untouched, pending only grows by
  retries of this job, and its own claim goes only once the job is settled or pending again.
\<close>

definition settled :: "job \<Rightarrow> 'w \<Rightarrow> bool" where
  "settled j w \<longleftrightarrow> Pushed (jb_target j) \<in> set (pv_log v w)
     \<or> Finalized (jb_push_id j) False \<in> set (pv_log v w)"

definition retry_of :: "job \<Rightarrow> job \<Rightarrow> bool" where
  "retry_of j j' \<longleftrightarrow> jb_push_id j' = jb_push_id j \<and> jb_target j' = jb_target j
     \<and> jb_attempts j' < max_attempts wk"

definition handled :: "job \<Rightarrow> 'w \<Rightarrow> 'w \<Rightarrow> bool" where
  "handled j w w' \<longleftrightarrow> pwf w'
     \<and> (\<exists>js. pv_pending v w' = pv_pending v w @ js \<and> (\<forall>j'\<in>set js. retry_of j j')
          \<and> (Cleaned (jb_push_id j) \<in> set (pv_log v w') \<longrightarrow>
               Cleaned (jb_push_id j) \<in> set (pv_log v w) \<or> js = [] \<and> settled j w'))
     \<and> (\<forall>k. k \<noteq> jb_push_id j \<longrightarrow> pv_claimed v w' k = pv_claimed v w k)
     \<and> (pv_claimed v w' (jb_push_id j) = pv_claimed v w (jb_push_id j)
        \<or> pv_claimed v w' (jb_push_id j) = None
          \<and> (settled j w' \<or> jb_push_id j \<in> jb_push_id ` set (pv_pending v w')))
     \<and> logs v UNIV w w'"

lemma handledI:
  assumes "pwf w'" "pv_pending v w' = pv_pending v w @ js" "\<And>j'. j' \<in> set js \<Longrightarrow> retry_of j j'"
    and "Cleaned (jb_push_id j) \<in> set (pv_log v w') \<Longrightarrow>
      Cleaned (jb_push_id j) \<in> set (pv_log v w) \<or> js = [] \<and> settled j w'"
    and "\<And>k. k \<noteq> jb_push_id j \<Longrightarrow> pv_claimed v w' k = pv_claimed v w k"
    and "pv_claimed v w' (jb_push_id j) = pv_claimed v w (jb_push_id j)
        \<or> pv_claimed v w' (jb_push_id j) = None
          \<and> (settled j w' \<or> jb_push_id j \<in> jb_push_id ` set (pv_pending v w'))"
    and "logs v UNIV w w'"
  shows "handled j w w'"
  using assms unfolding handled_def by blast

text \<open>Acknowledge and clean up a job that is settled unless the process died.\<close>

lemma ack_and_clean:
  assumes "pwf w" and "pv_alive v w \<Longrightarrow> settled j w"
  shows "handled j w (worker_cleanup wk j (snd (q_ack (wk_queue wk) (jb_push_id j) w)))"
proof -
  let ?w1 = "snd (q_ack (wk_queue wk) (jb_push_id j) w)"
  let ?w2 = "worker_cleanup wk j ?w1"
  note a = ack_step [OF assms(1), of "jb_push_id j"]
  note c = cleanup_quiet [of j ?w1]
  have l01: "logs v {} w ?w1" by (rule queue_logs(3))
  have l12: "logs v {Cleaned (jb_push_id j)} ?w1 ?w2" using c by (simp add: quiet_def)
  have l02: "logs v UNIV w ?w2" by (rule logs_trans [OF l01 l12]) simp
  have keep: "pv_alive v w \<Longrightarrow> settled j ?w2"
    using assms(2) logs_keeps [OF l02] by (auto simp: settled_def)
  have cl: "Cleaned (jb_push_id j) \<in> set (pv_log v ?w2) \<Longrightarrow>
      Cleaned (jb_push_id j) \<in> set (pv_log v w) \<or> settled j ?w2"
    using logs_new [OF l12] logs_new [OF l01] logs_alive [OF l01] keep by blast
  show ?thesis
    unfolding handled_def
    using a c l02 keep cl
    by (auto simp: quiet_def)
qed

text \<open>A quiet step before the handling changes nothing about it.\<close>

lemma quiet_then_handled:
  assumes "quiet v E w w1" and "handled j w1 w2" and "Cleaned (jb_push_id j) \<notin> E"
  shows "handled j w w2"
proof -
  have l: "logs v E w w1" using assms(1) by (simp add: quiet_def)
  have "Cleaned (jb_push_id j) \<in> set (pv_log v w1) \<Longrightarrow> Cleaned (jb_push_id j) \<in> set (pv_log v w)"
    using logs_new [OF l] assms(3) by blast
  moreover have "logs v UNIV w1 w2 \<Longrightarrow> logs v UNIV w w2"
    by (rule logs_trans [OF l]) auto
  ultimately show ?thesis
    using assms(1,2) unfolding handled_def quiet_def by auto
qed

lemma retire_handled:
  assumes "pwf w"
  shows "handled j w (worker_retire wk j cause w)"
proof (rule quiet_then_handled [OF finalize_quiet])
  let ?w1 = "worker_finalize wk j False (err_text cause) w"
  have "quiet v {Finalized (jb_push_id j) False} w ?w1" by (rule finalize_quiet)
  then show "handled j ?w1 (worker_retire wk j cause w)"
    unfolding worker_retire_def Let_def
    using assms finalize_done [of j False "err_text cause" w]
    by (intro ack_and_clean) (auto simp: quiet_def settled_def)
qed simp

lemma requeue_handled:
  assumes "pwf w" "jb_push_id j \<noteq> []" "jb_attempts j < max_attempts wk"
    and "q_enqueue (wk_queue wk) j w = (e, w1)"
  shows "e \<noteq> None \<Longrightarrow> handled j w w1"
    and "e = None \<Longrightarrow> handled j w (snd (q_ack (wk_queue wk) (jb_push_id j) w1))"
proof -
  note q = enqueue [OF assms(1,2,4)]
  have l1: "logs v {} w w1" using queue_logs(1) [of w j] assms(4) by simp
  have retry: "retry_of j j" using assms(3) by (simp add: retry_of_def)
  have old: "Cleaned (jb_push_id j) \<in> set (pv_log v w1) \<Longrightarrow> Cleaned (jb_push_id j) \<in> set (pv_log v w)"
    using logs_new [OF l1] by blast
  show "handled j w w1" if "e \<noteq> None"
  proof (cases "pv_pending v w1 = pv_pending v w")
    case True
    show ?thesis
      by (rule handledI [where js = "[]"]) (use q True old logs_mono [OF l1] in auto)
  next
    case False
    then have p: "pv_pending v w1 = pv_pending v w @ [j]" using q by auto
    show ?thesis
      by (rule handledI [OF _ p]) (use q retry old logs_mono [OF l1] in auto)
  qed
  show "handled j w (snd (q_ack (wk_queue wk) (jb_push_id j) w1))" (is "handled j w ?w2") if "e = None"
  proof -
    have wf1: "pwf w1" using q by simp
    note a = ack_step [OF wf1, of "jb_push_id j"]
    have l2: "logs v {} w1 ?w2" by (rule queue_logs(3))
    have old2: "Cleaned (jb_push_id j) \<in> set (pv_log v ?w2) \<Longrightarrow> Cleaned (jb_push_id j) \<in> set (pv_log v w)"
      using logs_new [OF l2] old by blast
    have l: "logs v UNIV w ?w2" by (rule logs_trans [OF l1 l2]) simp
    have p: "pv_pending v ?w2 = pv_pending v w @ [j]" using q a(2) that by auto
    have inp: "jb_push_id j \<in> jb_push_id ` set (pv_pending v ?w2)" unfolding p by simp
    show ?thesis
      by (rule handledI [OF a(1) p]) (use q a(3,4) l inp old2 retry in auto)
  qed
qed

lemma fail_handled:
  assumes "pwf w" "jb_push_id j \<noteq> []"
  shows "handled j w (worker_fail wk j cause w)"
proof (cases "errors_as as_terminal cause = Some True \<or> max_attempts wk \<le> jb_attempts j")
  case True
  then show ?thesis using retire_handled [OF assms(1)] by (auto simp: worker_fail_def)
next
  case False
  obtain e w1 where q: "q_enqueue (wk_queue wk) j w = (e, w1)" by fastforce
  have "jb_attempts j < max_attempts wk" using False by (simp add: not_le)
  note rq = requeue_handled [OF assms this q]
  show ?thesis
    using False rq by (cases e) (auto simp: worker_fail_def q)
qed

text \<open>The identity that matters: two jobs with the same id and target are handled alike.\<close>

lemma handled_cong:
  "jb_push_id j' = jb_push_id j \<Longrightarrow> jb_target j' = jb_target j \<Longrightarrow> handled j' = handled j"
  by (auto simp: fun_eq_iff handled_def settled_def retry_of_def)

lemma localize_cases:
  assumes "pwf w" "jb_push_id j \<noteq> []" "worker_localize wk j w = (r, w')"
  shows "case r of None \<Rightarrow> handled j w w'
    | Some j' \<Rightarrow> quiet v {} w w' \<and> jb_push_id j' = jb_push_id j \<and> jb_target j' = jb_target j
        \<and> jb_attempts j' = jb_attempts j"
proof (cases "wk_localize wk")
  case None
  then show ?thesis using assms(3) by (auto simp: worker_localize_def)
next
  case (Some f)
  note quiet = localize [OF Some, of w j]
  show ?thesis
  proof (cases "fst (f j w)")
    case (Inl e)
    then obtain w1 where w1: "f j w = (Inl e, w1)" by (cases "f j w") auto
    show ?thesis
    proof (cases "wk_stat_ok wk (jb_oci_path j) w")
      case False
      then have r: "r = None"
        "w' = worker_fail wk j (ErrWrap (''rebuild oci layout for '' @ jb_target j @ '': '') e []) w1"
        using assms(3) by (simp_all add: worker_localize_def Some w1)
      have q1: "quiet v {} w w1" using quiet by (simp add: w1)
      then have "pwf w1" using assms(1) by (simp add: quiet_def)
      then have "handled j w1 w'" unfolding r(2) by (rule fail_handled [OF _ assms(2)])
      from quiet_then_handled [OF q1 this] show ?thesis by (simp add: r(1))
    qed (use assms(3) Some in \<open>auto simp: worker_localize_def\<close>)
  next
    case (Inr p)
    then show ?thesis
      using assms(3) quiet
      by (cases "f j w") (auto simp: worker_localize_def Some split: if_splits prod.splits)
  qed
qed

lemma push_handled:
  assumes "pwf w" "jb_push_id j \<noteq> []" "fst (wk_pushers wk t w0) = Inr p"
    and "ps_push p oci (jb_target j) w = (err, w3)" and "quiet v {} w3 w5"
  shows "handled j w
    (case err of
       Some e \<Rightarrow> worker_fail wk j (ErrWrap ''acr push: '' e []) w5
     | None \<Rightarrow> worker_cleanup wk j (snd (q_ack (wk_queue wk) (jb_push_id j) (worker_finalize wk j True [] w5))))"
proof -
  note ps = push [OF assms(3,4)]
  have q5: "quiet v {Pushed (jb_target j)} w w5"
    by (rule quiet_trans [OF conjunct1 [OF ps] assms(5)]) simp
  have wf5: "pwf w5" using q5 assms(1) by (simp add: quiet_def)
  show ?thesis
  proof (rule quiet_then_handled [OF q5])
    show "handled j w5 (case err of
         Some e \<Rightarrow> worker_fail wk j (ErrWrap ''acr push: '' e []) w5
       | None \<Rightarrow> worker_cleanup wk j (snd (q_ack (wk_queue wk) (jb_push_id j) (worker_finalize wk j True [] w5))))"
    proof (cases err)
      case (Some e)
      then show ?thesis using fail_handled [OF wf5 assms(2)] by simp
    next
      case None
      let ?w6 = "worker_finalize wk j True [] w5"
      have q6: "quiet v {Finalized (jb_push_id j) True} w5 ?w6" by (rule finalize_quiet)
      have l: "logs v {Finalized (jb_push_id j) True} w5 ?w6" using q6 by (simp add: quiet_def)
      have "Pushed (jb_target j) \<in> set (pv_log v w5)"
        using ps None logs_keeps [of v "{}" w3 w5] assms(5) by (simp add: quiet_def)
      then have "settled j ?w6" using logs_keeps [OF l] by (simp add: settled_def)
      moreover have "pwf ?w6" using q6 wf5 by (simp add: quiet_def)
      ultimately have "handled j ?w6 (worker_cleanup wk j (snd (q_ack (wk_queue wk) (jb_push_id j) ?w6)))"
        by (intro ack_and_clean)
      from quiet_then_handled [OF q6 this] show ?thesis by (simp add: None)
    qed
  qed simp
qed

lemma handle_handled:
  assumes "pwf w" "jb_push_id j \<noteq> []"
  shows "handled j w (worker_handle wk j w)"
proof -
  obtain r w1 where pu: "wk_pushers wk (jb_tenant j) w = (r, w1)" by fastforce
  have q1: "quiet v {} w w1" using pushers [of w "jb_tenant j"] by (simp add: pu)
  have wf1: "pwf w1" using q1 assms(1) by (simp add: quiet_def)
  have "handled j w1 (worker_handle wk j w)"
  proof (cases r)
    case (Inl e)
    then show ?thesis using retire_handled [OF wf1] by (simp add: worker_handle_def pu)
  next
    case (Inr p)
    let ?j1 = "j\<lparr>jb_attempts := jb_attempts j + 1\<rparr>"
    obtain r2 w2 where lo: "worker_localize wk ?j1 w1 = (r2, w2)" by fastforce
    note lc = localize_cases [OF wf1 _ lo]
    show ?thesis
    proof (cases r2)
      case None
      then show ?thesis
        using lc assms(2) handled_cong [of ?j1 j] by (simp add: worker_handle_def pu Inr lo)
    next
      case (Some j2)
      have j2: "jb_push_id j2 = jb_push_id j" "jb_target j2 = jb_target j" and q2: "quiet v {} w1 w2"
        using lc assms(2) Some by auto
      have wf2: "pwf w2" using q2 wf1 by (simp add: quiet_def)
      obtain err w3 where ps: "ps_push p (jb_oci_path j2) (jb_target j2) w2 = (err, w3)" by fastforce
      have pf: "fst (wk_pushers wk (jb_tenant j) w) = Inr p" by (simp add: pu Inr)
      let ?w4 = "worker_observe_duration wk (time_sub (wk_clock wk w3) (wk_clock wk w2)) w3"
      let ?w5 = "worker_observe_acr_push wk (registry_from_target (jb_target j2))
                   (push_error_label (classify_push_error err)) ?w4"
      have q5: "quiet v {} w3 ?w5" by (rule quiet_trans [OF observe_quiet]) simp
      have hd: "worker_handle wk j w = (case err of
          Some e \<Rightarrow> worker_fail wk j2 (ErrWrap ''acr push: '' e []) ?w5
        | None \<Rightarrow> worker_cleanup wk j2
            (snd (q_ack (wk_queue wk) (jb_push_id j2) (worker_finalize wk j2 True [] ?w5))))"
        by (cases err) (simp_all add: worker_handle_def pu Inr lo Some ps Let_def)
      have id2: "jb_push_id j2 \<noteq> []" using j2 assms(2) by simp
      have "handled j2 w2 (worker_handle wk j w)"
        unfolding hd by (rule push_handled [OF wf2 id2 pf ps q5])
      then have "handled j w2 (worker_handle wk j w)" using handled_cong j2 by metis
      then show ?thesis using quiet_then_handled [OF q2] by simp
    qed
  qed
  then show ?thesis using quiet_then_handled [OF q1] by simp
qed

subsection \<open>The loop\<close>

text \<open>Every copy of a job the queue has, pending or claimed, satisfies \<open>P\<close>.\<close>

definition copies :: "(job \<Rightarrow> bool) \<Rightarrow> 'w \<Rightarrow> bool" where
  "copies P w \<longleftrightarrow> (\<forall>j\<in>set (pv_pending v w). P j) \<and> (\<forall>k j t. pv_claimed v w k = Some (j, t) \<longrightarrow> P j)"

lemma copiesD:
  "copies P w \<Longrightarrow> pv_claimed v w k = Some (j, t) \<Longrightarrow> P j"
  "copies P w \<Longrightarrow> j \<in> set (pv_pending v w) \<Longrightarrow> P j"
  unfolding copies_def by blast+

lemma copiesI:
  "(\<And>j. j \<in> set (pv_pending v w) \<Longrightarrow> P j) \<Longrightarrow>
   (\<And>k j t. pv_claimed v w k = Some (j, t) \<Longrightarrow> P j) \<Longrightarrow> copies P w"
  unfolding copies_def by blast

lemma copies_quiet: "quiet v E w w' \<Longrightarrow> copies P w' = copies P w"
  by (simp add: copies_def quiet_def)

lemma copies_claim:
  assumes "pwf w" "q_claim (wk_queue wk) w = (r, w')" "copies P w"
  shows "copies P w'" and "r = Inr (Some j) \<Longrightarrow> P j" and "r = Inr (Some j) \<Longrightarrow> jb_push_id j \<noteq> []"
proof -
  note D = copiesD [OF assms(3)]
  note c = claim [OF assms(1,2)]
  show "copies P w'"
  proof (cases "pv_claimed v w' = pv_claimed v w \<and> pv_pending v w' = pv_pending v w")
    case True
    then show ?thesis using assms(3) by (simp add: copies_def)
  next
    case False
    then obtain i where i: "pv_pending v w = i # pv_pending v w'"
      "pv_claimed v w' = (pv_claimed v w)(jb_push_id i \<mapsto> (i, clock w))"
      using c by blast
    then have "P i" using D(2) [of i] by simp
    then show ?thesis using i D by (intro copiesI) (auto split: if_splits)
  qed
  show "P j" "jb_push_id j \<noteq> []" if "r = Inr (Some j)"
    using c that D(2) [of j] ids(1) [OF assms(1), of j] by auto
qed

lemma copies_sweep:
  assumes "pwf w" "copies P w"
  shows "copies P (worker_recover wk w)"
proof -
  obtain js e w' where s: "q_recover (wk_queue wk) (recover_after wk) w = ((js, e), w')"
    by (metis surj_pair)
  have "swept (clock w - recover_after wk) (pv_pending v w, pv_claimed v w) (pv_pending v w', pv_claimed v w')"
    using sweep [OF assms(1) s] by simp
  then obtain new where new: "pv_pending v w' = new @ pv_pending v w"
    "\<And>j. j \<in> set new \<Longrightarrow> \<exists>k u. pv_claimed v w k = Some (j, u) \<and> u \<le> clock w - recover_after wk \<and> pv_claimed v w' k = None"
    "\<And>k. pv_claimed v w' k = pv_claimed v w k \<or>
       pv_claimed v w' k = None \<and> (\<exists>j u. pv_claimed v w k = Some (j, u) \<and> j \<in> set new)"
    by (rule sweptE) blast
  note D = copiesD [OF assms(2)]
  have n: "P j" if "j \<in> set new" for j using new(2) [OF that] D(1) by blast
  have "copies P w'"
  proof (rule copiesI)
    show "P j" if "j \<in> set (pv_pending v w')" for j using that n D(2) by (auto simp: new(1))
    show "P j" if "pv_claimed v w' k = Some (j, t)" for k j t
      using new(3) [of k] that D(1) [of k j t] by (elim disjE) simp_all
  qed
  then show ?thesis by (simp add: worker_recover_def s)
qed

lemma copies_handle:
  assumes "pwf w" "jb_push_id j \<noteq> []" "copies P w" "\<And>j'. retry_of j j' \<Longrightarrow> P j'"
  shows "copies P (worker_handle wk j w)"
proof -
  let ?w = "worker_handle wk j w"
  from handle_handled [OF assms(1,2)] obtain js where
    p: "pv_pending v ?w = pv_pending v w @ js" "\<And>j'. j' \<in> set js \<Longrightarrow> retry_of j j'"
    and c: "\<And>k. k \<noteq> jb_push_id j \<Longrightarrow> pv_claimed v ?w k = pv_claimed v w k"
    "pv_claimed v ?w (jb_push_id j) = pv_claimed v w (jb_push_id j) \<or> pv_claimed v ?w (jb_push_id j) = None"
    unfolding handled_def by blast
  note D = copiesD [OF assms(3)]
  show ?thesis
  proof (rule copiesI)
    show "P i" if "i \<in> set (pv_pending v ?w)" for i
      using that D(2) p assms(4) by (auto simp: p(1))
    show "P i" if "pv_claimed v ?w k = Some (i, t)" for k i t
    proof (cases "k = jb_push_id j")
      case True
      then show ?thesis using c(2) that D(1) [of k i t] by (elim disjE) simp_all
    next
      case False
      then show ?thesis using c(1) [of k] that D(1) [of k i t] by simp
    qed
  qed
qed

text \<open>
  The invariant of the loop for one push id \<open>k\<close> promised to target \<open>T\<close>: the queue holds a copy, or
  the push to \<open>T\<close> happened, or the failure was recorded.
\<close>

definition kept :: "string \<Rightarrow> string \<Rightarrow> 'w \<Rightarrow> bool" where
  "kept k T w \<longleftrightarrow> held w k \<or> Pushed T \<in> set (pv_log v w) \<or> Finalized k False \<in> set (pv_log v w)"

definition for_target :: "string \<Rightarrow> string \<Rightarrow> job \<Rightarrow> bool" where
  "for_target k T j \<longleftrightarrow> (jb_push_id j = k \<longrightarrow> jb_target j = T)"

definition loop_inv :: "string \<Rightarrow> string \<Rightarrow> 'w \<Rightarrow> bool" where
  "loop_inv k T w \<longleftrightarrow> pwf w \<and> copies (for_target k T) w
     \<and> copies (\<lambda>j. jb_attempts j < max_attempts wk) w \<and> kept k T w"

lemma kept_logs: "kept k T w \<Longrightarrow> logs v E w w' \<Longrightarrow> (held w k \<Longrightarrow> held w' k) \<Longrightarrow> kept k T w'"
  by (auto simp: kept_def dest: logs_keeps)

lemma quiet_inv: "quiet v E w w' \<Longrightarrow> loop_inv k T w \<Longrightarrow> loop_inv k T w'"
  by (auto simp: loop_inv_def copies_quiet held_def quiet_def elim!: kept_logs)

lemma sweep_inv: "loop_inv k T w \<Longrightarrow> loop_inv k T (worker_recover wk w)"
proof -
  assume inv: "loop_inv k T w"
  obtain js e w' where s: "q_recover (wk_queue wk) (recover_after wk) w = ((js, e), w')"
    by (metis surj_pair)
  have w': "worker_recover wk w = w'" by (simp add: worker_recover_def s)
  have wf: "pwf w" using inv by (simp add: loop_inv_def)
  have "logs v {} w w'" using queue_logs(4) [of w "recover_after wk"] by (simp add: s)
  then have "kept k T w'"
    using inv held_sweep [OF wf s] by (auto simp: loop_inv_def elim: kept_logs)
  moreover have "pwf w'" using sweep [OF wf s] by simp
  ultimately show ?thesis
    using inv copies_sweep [OF wf] by (simp add: loop_inv_def w')
qed

lemma claim_inv:
  assumes "loop_inv k T w" "q_claim (wk_queue wk) w = (r, w')"
  shows "loop_inv k T w'"
proof -
  have wf: "pwf w" using assms(1) by (simp add: loop_inv_def)
  have "logs v {} w w'" using queue_logs(2) [of w] by (simp add: assms(2))
  then have "kept k T w'"
    using assms(1) held_claim [OF wf assms(2)] by (auto simp: loop_inv_def elim: kept_logs)
  moreover have "pwf w'" using claim [OF wf assms(2)] by simp
  ultimately show ?thesis
    using assms copies_claim(1) [OF wf assms(2)] by (simp add: loop_inv_def)
qed

lemma handle_inv:
  assumes "loop_inv k T w" "jb_push_id j \<noteq> []" "for_target k T j"
  shows "loop_inv k T (worker_handle wk j w)"
proof -
  let ?w = "worker_handle wk j w"
  have wf: "pwf w" using assms(1) by (simp add: loop_inv_def)
  note h = handle_handled [OF wf assms(2)]
  have l: "logs v UNIV w ?w" using h by (simp add: handled_def)
  have "kept k T ?w"
  proof (cases "k = jb_push_id j")
    case True
    then have "jb_target j = T" using assms(3) by (simp add: for_target_def)
    then show ?thesis
      using h assms(1) True l
      unfolding loop_inv_def kept_def handled_def settled_def held_def holds_def
      by (auto dest: logs_keeps)
  next
    case False
    then have "held w k \<Longrightarrow> held ?w k" using h by (auto simp: handled_def held_def holds_def)
    then show ?thesis using assms(1) l by (auto simp: loop_inv_def elim: kept_logs)
  qed
  moreover have "copies (for_target k T) ?w"
    using assms by (intro copies_handle wf) (auto simp: loop_inv_def for_target_def retry_of_def)
  moreover have "copies (\<lambda>j. jb_attempts j < max_attempts wk) ?w"
    using assms by (intro copies_handle wf) (auto simp: loop_inv_def retry_of_def)
  ultimately show ?thesis using h by (simp add: loop_inv_def handled_def)
qed

lemma round_inv:
  assumes "loop_inv k T w" "worker_round wk nxt w = (r, w')"
  shows "loop_inv k T w'"
proof (cases "wk_ctx_done wk w")
  case True
  then show ?thesis using assms by (simp add: worker_round_def)
next
  case False
  define w1 where "w1 = (if \<not> wk_clock wk w < nxt then worker_recover wk w else w)"
  have inv1: "loop_inv k T w1" using assms(1) sweep_inv by (simp add: w1_def)
  then have wf1: "pwf w1" by (simp add: loop_inv_def)
  obtain c w2 where c: "q_claim (wk_queue wk) w1 = (c, w2)" by fastforce
  have inv2: "loop_inv k T w2" by (rule claim_inv [OF inv1 c])
  have sleep: "loop_inv k T (snd (wk_sleep wk d w2))" for d
    by (rule quiet_inv [OF sleeping inv2])
  show ?thesis
  proof (cases "\<exists>j. c = Inr (Some j)")
    case True
    then obtain j where j: "c = Inr (Some j)" ..
    have "w' = worker_handle wk j w2"
      using assms(2) False c unfolding worker_round_def Let_def w1_def [symmetric] by (simp add: j)
    moreover have "for_target k T j" "jb_push_id j \<noteq> []"
      using copies_claim(2,3) [OF wf1 c] inv1 j by (auto simp: loop_inv_def)
    ultimately show ?thesis using handle_inv [OF inv2] by simp
  next
    case not: False
    have "w' = snd (wk_sleep wk claim_error_backoff w2) \<or> w' = snd (wk_sleep wk (poll_interval wk) w2)"
      using assms(2) False c not unfolding worker_round_def Let_def w1_def [symmetric]
      by (auto split: sum.splits option.splits prod.splits)
    then show ?thesis using sleep by auto
  qed
qed

lemma rounds_inv: "loop_inv k T w \<Longrightarrow> loop_inv k T (worker_rounds n wk nxt w)"
proof (induction n arbitrary: nxt w)
  case (Suc n)
  then show ?case
    by (cases "worker_round wk nxt w") (auto split: option.splits dest: round_inv)
qed simp

lemma run_inv: "loop_inv k T w \<Longrightarrow> loop_inv k T (worker_run n wk w)"
  by (simp add: worker_run_def rounds_inv)

end

end
