(* ===== verification/Promote_Crash.thy ===== *)
theory Promote_Crash
  imports Promote_Safety
begin

text \<open>
  A process that can die between any two effects of the promotion worker, over any queue. The
  collaborators of the worker answer as the configuration says; once \<open>pt_fuel\<close> effects have
  happened, nothing has an effect any more. The guarantees of \<open>Promote_Safety\<close> hold on it for the
  in-process queue and for the Valkey queue.
\<close>

record 'q plant =
  pt_queue :: 'q
  pt_log :: "pevent list"
  pt_fuel :: nat
  pt_clock :: gotime

record 'q plant_cfg =
  pc_tenant_known :: "string \<Rightarrow> bool"
  pc_push :: "string \<Rightarrow> string \<Rightarrow> 'q plant \<Rightarrow> goerr option"
  pc_stat_ok :: "string \<Rightarrow> 'q plant \<Rightarrow> bool"
  pc_rebuild :: "job \<Rightarrow> 'q plant \<Rightarrow> (string \<times> string) res"
  pc_max_attempts :: "8 word"
  pc_recover_after :: duration
  pc_ctx_done :: "'q plant \<Rightarrow> bool"

definition crashed :: goerr where
  "crashed = ErrMsg ''process is dead''"

definition lift_op :: "('q \<Rightarrow> 'a \<times> 'q) \<Rightarrow> 'a \<Rightarrow> 'q plant \<Rightarrow> 'a \<times> 'q plant" where
  "lift_op f dead w =
     (if pt_fuel w = 0 then (dead, w)
      else case f (pt_queue w) of
        (r, s) \<Rightarrow> (r, w\<lparr>pt_queue := s, pt_fuel := pt_fuel w - 1\<rparr>))"

definition lift_queue :: "'q promote_queue \<Rightarrow> 'q plant promote_queue" where
  "lift_queue q = \<lparr>
     q_enqueue = (\<lambda>j. lift_op (q_enqueue q j) (Some crashed)),
     q_claim = lift_op (q_claim q) (Inl crashed),
     q_ack = (\<lambda>k. lift_op (q_ack q k) (Some crashed)),
     q_recover = (\<lambda>d. lift_op (q_recover q d) ([], Some crashed)),
     q_depth = lift_op (q_depth q) (Inl crashed)\<rparr>"

definition emit :: "pevent \<Rightarrow> 'q plant \<Rightarrow> 'q plant" where
  "emit ev w = (if pt_fuel w = 0 then w
                else w\<lparr>pt_log := pt_log w @ [ev], pt_fuel := pt_fuel w - 1\<rparr>)"

definition plant_push :: "'q plant_cfg \<Rightarrow> string \<Rightarrow> string \<Rightarrow> 'q plant \<Rightarrow> goerr option \<times> 'q plant" where
  "plant_push c oci tgt w =
     (if pt_fuel w = 0 then (Some crashed, w)
      else case pc_push c oci tgt w of
        None \<Rightarrow> (None, emit (Pushed tgt) w)
      | Some e \<Rightarrow> (Some e, w))"

definition plant_pusher :: "'q plant_cfg \<Rightarrow> 'q plant pusher" where
  "plant_pusher c = \<lparr>ps_push = plant_push c,
     ps_push_manifest = (\<lambda>_ _ _ w. (None, w)), ps_push_blob = (\<lambda>_ _ _ w. (None, w))\<rparr>"

definition plant_worker :: "'q promote_queue \<Rightarrow> 'q plant_cfg \<Rightarrow> 'q plant worker" where
  "plant_worker q c = \<lparr>
     wk_queue = lift_queue q,
     wk_pushers = (\<lambda>t w. (if pc_tenant_known c t then Inr (plant_pusher c) else Inl ErrUnknownTenant, w)),
     wk_recorder = Some (\<lambda>j ok d. emit (Finalized (jb_push_id j) ok)),
     wk_localize = Some (\<lambda>j w. (pc_rebuild c j w, w)),
     wk_stat_ok = pc_stat_ok c,
     wk_cleanup = Some (\<lambda>j w. (None, emit (Cleaned (jb_push_id j)) w)),
     wk_metrics = None,
     wk_max_attempts = pc_max_attempts c,
     wk_poll_interval = 0,
     wk_recover_after = pc_recover_after c,
     wk_clock = pt_clock,
     wk_ctx_done = pc_ctx_done c,
     wk_sleep = (\<lambda>d w. (True, w\<lparr>pt_clock := pt_clock w + d\<rparr>))\<rparr>"

definition plant_view :: "('q \<Rightarrow> bool) \<Rightarrow> ('q \<Rightarrow> job list) \<Rightarrow> ('q \<Rightarrow> claims) \<Rightarrow> 'q plant pview" where
  "plant_view ok pending claimed = \<lparr>pv_wf = ok \<circ> pt_queue, pv_pending = pending \<circ> pt_queue,
     pv_claimed = claimed \<circ> pt_queue, pv_log = pt_log, pv_alive = (\<lambda>w. pt_fuel w \<noteq> 0)\<rparr>"

lemma plant_view_simps [simp]:
  "pv_wf (plant_view f p c) w = f (pt_queue w)" "pv_pending (plant_view f p c) w = p (pt_queue w)"
  "pv_claimed (plant_view f p c) w = c (pt_queue w)" "pv_log (plant_view f p c) w = pt_log w"
  "pv_alive (plant_view f p c) w = (pt_fuel w \<noteq> 0)"
  by (simp_all add: plant_view_def)

lemma plant_worker_simps [simp]:
  "wk_queue (plant_worker q c) = lift_queue q"
  "wk_recorder (plant_worker q c) = Some (\<lambda>j ok d. emit (Finalized (jb_push_id j) ok))"
  "wk_localize (plant_worker q c) = Some (\<lambda>j w. (pc_rebuild c j w, w))"
  "wk_cleanup (plant_worker q c) = Some (\<lambda>j w. (None, emit (Cleaned (jb_push_id j)) w))"
  "wk_metrics (plant_worker q c) = None"
  "wk_max_attempts (plant_worker q c) = pc_max_attempts c"
  by (simp_all add: plant_worker_def)

lemma lift_queue_simps [simp]:
  "q_enqueue (lift_queue q) j = lift_op (q_enqueue q j) (Some crashed)"
  "q_claim (lift_queue q) = lift_op (q_claim q) (Inl crashed)"
  "q_ack (lift_queue q) k = lift_op (q_ack q k) (Some crashed)"
  "q_recover (lift_queue q) d = lift_op (q_recover q d) ([], Some crashed)"
  "q_depth (lift_queue q) = lift_op (q_depth q) (Inl crashed)"
  by (simp_all add: lift_queue_def)

lemma lift_op_cases:
  assumes "lift_op f dead w = (r, w')"
  obtains (dead) "pt_fuel w = 0" "r = dead" "w' = w"
    | (live) "pt_fuel w \<noteq> 0" "f (pt_queue w) = (r, pt_queue w')"
  using assms by (auto simp: lift_op_def split: if_splits prod.splits)

lemma lift_op_logs: "logs (plant_view f p c) {} w (snd (lift_op g dead w))"
  by (auto simp: logs_def lift_op_def split: prod.splits)

lemma lift_op_dead: "pt_fuel w = 0 \<Longrightarrow> snd (lift_op g dead w) = w"
  by (simp add: lift_op_def)

lemma emit_quiet: "quiet (plant_view f p c) {ev} w (emit ev w)"
  by (auto simp: quiet_def logs_def emit_def)

lemma emit_done: "pt_fuel (emit ev w) \<noteq> 0 \<Longrightarrow> ev \<in> set (pt_log (emit ev w))"
  by (auto simp: emit_def split: if_splits)

lemma plant_push_quiet:
  assumes "plant_push cfg oci tgt w = (e, w')"
  shows "quiet (plant_view f p c) {Pushed tgt} w w' \<and> (e = None \<longrightarrow> Pushed tgt \<in> set (pt_log w'))"
  using assms emit_quiet [of f p c "Pushed tgt" w]
  by (auto simp: plant_push_def emit_def split: if_splits option.splits)

context promote_queue_spec
begin

lemma lift_spec:
  "promote_queue_spec (lift_queue q) (wf \<circ> pt_queue) (pending \<circ> pt_queue) (claimed \<circ> pt_queue)
     (clock \<circ> pt_queue)"
proof (unfold_locales, goal_cases)
  case (1 w j e w')
  from 1(3) show ?case
    unfolding lift_queue_simps
    by (cases rule: lift_op_cases) (use 1 enqueue [of "pt_queue w" j e "pt_queue w'"] in auto)
next
  case (2 w r w')
  from 2(2) show ?case
    unfolding lift_queue_simps
  proof (cases rule: lift_op_cases)
    case live
    with 2(1) show ?thesis unfolding comp_def by (intro claim) auto
  qed (use 2 in auto)
next
  case (3 w k e w')
  from 3(2) show ?case
    unfolding lift_queue_simps
    by (cases rule: lift_op_cases) (use 3 ack [of "pt_queue w" k e "pt_queue w'"] in auto)
next
  case (4 w d js e w')
  from 4(2) show ?case
    unfolding lift_queue_simps
    by (cases rule: lift_op_cases) (use 4 sweep [of "pt_queue w" d js e "pt_queue w'"] in auto)
next
  case (5 w n w')
  from 5(2) show ?case
    unfolding lift_queue_simps
  proof (cases rule: lift_op_cases)
    case live
    with 5(1) show ?thesis unfolding comp_def by (intro depth) auto
  qed (use 5 in auto)
qed (use ids in auto)

lemma plant_env:
  "promotion_env (plant_worker q c) (plant_view wf pending claimed) (clock \<circ> pt_queue)"
proof -
  have eq: "pv_wf (plant_view wf pending claimed) = wf \<circ> pt_queue"
    "pv_pending (plant_view wf pending claimed) = pending \<circ> pt_queue"
    "pv_claimed (plant_view wf pending claimed) = claimed \<circ> pt_queue"
    by (auto simp: plant_view_def)
  have spec: "promote_queue_spec (wk_queue (plant_worker q c)) (pv_wf (plant_view wf pending claimed))
      (pv_pending (plant_view wf pending claimed)) (pv_claimed (plant_view wf pending claimed))
      (clock \<circ> pt_queue)"
    unfolding plant_worker_simps eq by (rule lift_spec)
  let ?v = "plant_view wf pending claimed"
  have "promotion_env_axioms (plant_worker q c) ?v"
  proof (unfold_locales, goal_cases)
    case (1 w t)
    show ?case by (simp add: plant_worker_def)
  next
    case (2 t w0 p oci tgt w e w')
    then have "p = plant_pusher c" by (simp add: plant_worker_def split: if_splits)
    with 2(2) have "plant_push c oci tgt w = (e, w')" by (simp add: plant_pusher_def)
    from plant_push_quiet [OF this] show ?case by simp
  next
    case 3
    show ?case by (simp add: emit_quiet emit_done)
  next
    case (4 f w j)
    then show ?case by auto
  next
    case (5 g j w)
    then show ?case by (auto simp: emit_quiet)
  qed (auto simp: lift_op_def plant_worker_def quiet_def logs_def split: prod.splits)
  with spec show ?thesis by (rule promotion_env.intro)
qed

end

interpretation mem_plant: promotion_env "plant_worker mem_promote_queue c"
  "plant_view mem_wf mq_pending mem_claims" "mq_now \<circ> pt_queue" for c
  by (rule memq.plant_env)

interpretation vk_plant: promotion_env "plant_worker (valkey_promote_queue (std_valkey_queue pre)) c"
  "plant_view (stdq.vwf pre) (stdq.vpending pre) (stdq.vclaims pre)" "cn_now \<circ> pt_queue" for pre c
  by (rule stdq.vq.plant_env)

section \<open>Properties of the promotion path\<close>

text \<open>The process that starts draining a queue, with \<open>n\<close> effects left before it dies.\<close>

definition start_plant :: "'q \<Rightarrow> nat \<Rightarrow> gotime \<Rightarrow> 'q plant" where
  "start_plant s n t = \<lparr>pt_queue = s, pt_log = [], pt_fuel = n, pt_clock = t\<rparr>"

lemma start_plant_simps [simp]:
  "pt_queue (start_plant s n t) = s" "pt_log (start_plant s n t) = []"
  by (simp_all add: start_plant_def)

text \<open>One enqueued job, nothing else known under its id: the invariant of the loop holds.\<close>

context promote_queue_spec
begin

lemma enqueued_inv:
  assumes env: "promotion_env (plant_worker q c) (plant_view wf pending claimed) (clock \<circ> pt_queue)"
    and "wf s" "jb_push_id j \<noteq> []" "jb_attempts j < max_attempts (plant_worker q c)"
    and old: "\<And>i. i \<in> queue_jobs (pending s) (claimed s) \<Longrightarrow>
        jb_push_id i \<noteq> jb_push_id j \<and> jb_attempts i < max_attempts (plant_worker q c)"
    and "q_enqueue q j s = (None, s')"
  shows "promotion_env.loop_inv (plant_worker q c) (plant_view wf pending claimed)
           (jb_push_id j) (jb_target j) (start_plant s' n t)"
proof -
  note e = enqueue [OF assms(2,3,6)]
  have copies: "promotion_env.copies (plant_view wf pending claimed) P (start_plant s' n t)"
    if "P j" "\<And>i. i \<in> queue_jobs (pending s) (claimed s) \<Longrightarrow> P i" for P
    unfolding promotion_env.copies_def [OF env]
    using e that by (auto simp: queue_jobs_def)
  have "held s' (jb_push_id j)" using held_enqueue(2) [OF assms(2,3,6)] by simp
  then have "promotion_env.kept (plant_view wf pending claimed) (jb_push_id j) (jb_target j)
      (start_plant s' n t)"
    unfolding promotion_env.kept_def [OF env]
    using promote_queue_spec.held_def [OF lift_spec]
    by (simp add: held_def promote_queue_spec.held_def [OF promotion_env.axioms(1) [OF env]])
  then show ?thesis
    unfolding promotion_env.loop_inv_def [OF env]
    using e old assms(4)
    by (auto intro!: copies simp: promotion_env.for_target_def [OF env])
qed

end

text \<open>The queue's copy of a job, or the record of what became of it.\<close>

definition accounted :: "job list \<Rightarrow> claims \<Rightarrow> pevent list \<Rightarrow> job \<Rightarrow> bool" where
  "accounted ps cl evs j \<longleftrightarrow> holds ps cl (jb_push_id j)
     \<or> Pushed (jb_target j) \<in> set evs \<or> Finalized (jb_push_id j) False \<in> set evs"

text \<open>The durable queue on the concrete server.\<close>

abbreviation durable_queue :: "string \<Rightarrow> keyspace conn promote_queue" where
  "durable_queue pre \<equiv> valkey_promote_queue (std_valkey_queue pre)"

abbreviation durable_jobs :: "string \<Rightarrow> keyspace conn \<Rightarrow> job set" where
  "durable_jobs pre c \<equiv> queue_jobs (stdq.vpending pre c) (stdq.vclaims pre c)"


text \<open>A concrete job, server state and configuration.\<close>

definition sample_job :: job where
  "sample_job = \<lparr>jb_push_id = ''p1'', jb_tenant = ''dev'', jb_repo = ''app'', jb_tag = ''v1'',
     jb_digest = ''sha256:aa'', jb_ref = ''v1'', jb_target = ''acr.io/app:v1'',
     jb_oci_path = ''/s/oci'', jb_scratch_dir = ''/s'', jb_layers = [''sha256:bb''],
     jb_config_dig = ''sha256:cc'', jb_manifest = ''{}'', jb_identity = ''ci'', jb_attempts = 0\<rparr>"

definition sample_conn :: "keyspace conn" where
  "sample_conn = \<lparr>cn_db = empty_keyspace, cn_now = 0, cn_faults = []\<rparr>"

definition sample_cfg :: "'q plant_cfg" where
  "sample_cfg = \<lparr>pc_tenant_known = (\<lambda>_. True), pc_push = (\<lambda>_ _ _. Some (ErrMsg ''refused'')),
     pc_stat_ok = (\<lambda>_ _. True), pc_rebuild = (\<lambda>_ _. Inl (ErrMsg ''no'')),
     pc_max_attempts = 0, pc_recover_after = 0, pc_ctx_done = (\<lambda>_. False)\<rparr>"

lemma sample_conn_wf: "stdq.vwf pre sample_conn"
  by (simp add: stdq.vwf_def stdq.db_ok_def sample_conn_def empty_keyspace_def ks_hash_def)

lemma sample_conn_jobs: "durable_jobs pre sample_conn = {}"
  by (simp add: queue_jobs_def stdq.vpending_def stdq.vclaims_def sample_conn_def
      empty_keyspace_def ks_hash_def)

lemma sample_enqueue:
  "fst (queue_promote (durable_queue pre) sample_job sample_conn) = None"
  by (simp add: queue_promote_def valkey_promote_queue_def valkey_enqueue_def std_valkey_queue_def
      new_valkey_queue_def enc_job_def sample_conn_def vk_call_def next_fault_def vk_do_def)




text \<open>
  A recovery sweep never takes a claim younger than the recovery window, and the window is
  positive whatever \<open>RecoverAfter\<close> is set to: zero and negative settings mean 15 minutes, so a
  sweep cannot steal what a sibling worker is pushing now.
\<close>

theorem sweep_spares_live_claims:
  fixes wk :: "keyspace conn worker"
  assumes "wk_queue wk = durable_queue pre" "stdq.vwf pre c"
    and "stdq.vclaims pre c k = Some (j, t)" and "cn_now c - recover_after wk < t"
  shows "0 < recover_after wk \<and> stdq.vclaims pre (worker_recover wk c) k = Some (j, t)"
proof
  show "0 < recover_after wk" by (simp add: recover_after_def default_recover_after_def duration_units)
  obtain r c' where "q_recover (durable_queue pre) (recover_after wk) c = (r, c')" by fastforce
  with stdq.vq.young_claim_kept [OF assms(2) this assms(3)] assms(1,4)
  show "stdq.vclaims pre (worker_recover wk c) k = Some (j, t)" by (simp add: worker_recover_def)
qed

definition idle_worker :: "'w promote_queue \<Rightarrow> ('w \<Rightarrow> gotime) \<Rightarrow> 'w worker" where
  "idle_worker q clock = \<lparr>wk_queue = q, wk_pushers = (\<lambda>_ w. (Inl ErrUnknownTenant, w)),
     wk_recorder = None, wk_localize = None, wk_stat_ok = (\<lambda>_ _. True), wk_cleanup = None,
     wk_metrics = None, wk_max_attempts = 0, wk_poll_interval = 0, wk_recover_after = 0,
     wk_clock = clock, wk_ctx_done = (\<lambda>_. False), wk_sleep = (\<lambda>_ w. (True, w))\<rparr>"

definition claimed_conn :: "keyspace conn" where
  "claimed_conn =
     (let k = claimed_key (std_valkey_queue []); s = stamp_key (std_valkey_queue []) in
      \<lparr>cn_db = vc_hset std_cmds s ''p1'' (fmt_int 0)
        (vc_hset std_cmds k ''p1'' (case enc_job sample_job of Inr p \<Rightarrow> p | Inl _ \<Rightarrow> []) empty_keyspace),
       cn_now = 0, cn_faults = []\<rparr>)"

lemma sweep_spares_live_claims_witness:
  "0 < recover_after (idle_worker (durable_queue []) cn_now)
   \<and> stdq.vclaims [] (worker_recover (idle_worker (durable_queue []) cn_now) claimed_conn) ''p1''
       = Some (sample_job, 0)"
proof (rule sweep_spares_live_claims)
  let ?Q = "std_valkey_queue []"
  obtain p where p: "enc_job sample_job = Inr p" by (simp add: enc_job_def)
  have dec: "vq_job ?Q p = sample_job" using stdq.json p
    by (intro stdq.vq_job_marshal) (simp add: std_valkey_queue_def new_valkey_queue_def)
  have ft: "vq_fmt_time ?Q 0 = fmt_int 0" by (simp add: std_valkey_queue_def new_valkey_queue_def)
  have keys: "claimed_key ?Q \<noteq> stamp_key ?Q" "stamp_key ?Q \<noteq> claimed_key ?Q" by simp_all
  have hs: "ks_hash (cn_db claimed_conn) = (\<lambda>k. if k = stamp_key ?Q then [''p1'' \<mapsto> fmt_int 0]
      else if k = claimed_key ?Q then [''p1'' \<mapsto> p] else Map.empty)"
    using keys
    by (auto simp: claimed_conn_def p Let_def ks_q.hset fun_eq_iff empty_keyspace_def ks_hash_def
        std_cmds_def)
  have ls: "ks_lists (cn_db claimed_conn) = (\<lambda>_. [])"
    by (simp add: claimed_conn_def Let_def ks_q.hset empty_keyspace_def)
  have good: "good_payload ?Q p"
    unfolding good_payload_def
  proof (intro exI conjI)
    show "vq_marshal ?Q sample_job = Inr p" by (simp add: std_valkey_queue_def new_valkey_queue_def p)
    show "jb_push_id sample_job \<noteq> []" by (simp add: sample_job_def)
  qed
  show "stdq.vwf [] claimed_conn"
    unfolding stdq.vwf_def using keys dec good
    by (intro stdq.db_okI)
      (auto simp: hs ls sample_job_def std_valkey_queue_def new_valkey_queue_def split: if_splits)
  show "stdq.vclaims [] claimed_conn ''p1'' = Some (sample_job, 0)"
    using keys stdq.vq_time_fmt [of "[]" 0, unfolded ft] by (simp add: stdq.vclaims_def hs dec)
qed (simp_all add: idle_worker_def recover_after_def default_recover_after_def duration_units
      claimed_conn_def Let_def)

text \<open>
  A retry and its acknowledgement can lose a job when two workers share the queue. The failing
  worker re-enqueues and then acknowledges by push id; if a sibling claims the retry in between,
  the acknowledgement deletes the sibling's claim, and the queue holds no copy of a job that is
  still only in the sibling's memory.
\<close>

theorem requeue_then_ack_drops_sibling_claim:
  "let retry = j\<lparr>jb_attempts := jb_attempts j + 1\<rparr>;
      q1 = snd (mem_enqueue j (new_mem_queue t));
      (first_claim, q2) = mem_claim_next q1;
      q3 = snd (mem_enqueue retry q2);
      (second_claim, q4) = mem_claim_next q3;
      q5 = snd (mem_ack (jb_push_id j) q4)
  in first_claim = Inr (Some j) \<and> second_claim = Inr (Some retry)
     \<and> \<not> holds (mq_pending q5) (mem_claims q5) (jb_push_id j)"
  by (simp add: mem_queue_simps new_mem_queue_def holds_def mem_claims_def
      delete_conv' update_conv' Let_def)

end
