(* ===== verification/Staging_Store.thy ===== *)
theory Staging_Store
  imports Go_Errors
begin

text \<open>
  \<open>internal/staging\<close>: the store that buffers an in-flight push (\<open>staging.go\<close>), its two backend
  interfaces (\<open>store.go\<close>), digest verification (\<open>digest.go\<close>) and the release of a finished push's
  references (\<open>Cleanup\<close> of \<open>assemble.go\<close>, without the directory removal, which is in
  \<open>Staging_Assemble\<close>).

  The Go interfaces \<open>BlobStore\<close> and \<open>SessionStore\<close> are records of state-passing functions. An
  \<open>io.Reader\<close> is what \<open>io.ReadAll\<close> makes of it: all bytes, or a read error. \<open>sha\<close> is the hex
  SHA-256 of \<open>crypto/sha256\<close>. Offsets are int64, so their addition wraps.
\<close>

section \<open>Interfaces\<close>

type_synonym bytes = string
type_synonym reader = "bytes res"
type_synonym int64 = "64 word"

record 'w blob_store =
  bs_put :: "string \<Rightarrow> reader \<Rightarrow> 'w \<Rightarrow> goerr option \<times> 'w"
  bs_get :: "string \<Rightarrow> 'w \<Rightarrow> reader res \<times> 'w"
  bs_delete :: "string \<Rightarrow> 'w \<Rightarrow> goerr option \<times> 'w"

record 'w session_store =
  ss_begin :: "string \<Rightarrow> 'w \<Rightarrow> goerr option \<times> 'w"
  ss_cas_offset :: "string \<Rightarrow> int64 \<Rightarrow> int64 \<Rightarrow> 'w \<Rightarrow> bool res \<times> 'w"
  ss_mark_complete :: "string \<Rightarrow> string \<Rightarrow> 'w \<Rightarrow> goerr option \<times> 'w"
  ss_all_complete :: "string list \<Rightarrow> 'w \<Rightarrow> bool res \<times> 'w"
  ss_clear :: "string \<Rightarrow> 'w \<Rightarrow> goerr option \<times> 'w"
  ss_inc_ref :: "string \<Rightarrow> 'w \<Rightarrow> int res \<times> 'w"
  ss_dec_ref :: "string \<Rightarrow> 'w \<Rightarrow> int res \<times> 'w"

record manifest_ref =
  mr_repo :: string
  mr_ref :: string
  mr_manifest :: bytes
  mr_config_digest :: string
  mr_layer_digests :: "string list"

record 'w staging =
  st_blobs :: "'w blob_store"
  st_sessions :: "'w session_store"
  st_idgen :: "'w \<Rightarrow> string \<times> 'w"
  st_sha :: "bytes \<Rightarrow> string"

section \<open>Digests\<close>

definition verify_digest :: "(bytes \<Rightarrow> string) \<Rightarrow> reader \<Rightarrow> string \<Rightarrow> goerr option" where
  "verify_digest sha r claimed =
     (case str_cut claimed '':'' of
        (algo, want0, ok) \<Rightarrow>
          (if \<not> ok \<or> algo \<noteq> ''sha256''
           then Some (ErrMsg (''unsupported digest '' @ fmt_q claimed @ '' (want sha256:...)''))
           else
             (let want = to_lower want0 in
              case r of
                Inl e \<Rightarrow> Some (ErrWrap ''hash blob: '' e [])
              | Inr b \<Rightarrow>
                  (if sha b \<noteq> want
                   then Some (ErrMsg (''digest mismatch: got sha256:'' @ sha b @ '', want '' @ claimed))
                   else None))))"

definition sha256_digest :: "(bytes \<Rightarrow> string) \<Rightarrow> bytes \<Rightarrow> string" where
  "sha256_digest sha b = ''sha256:'' @ sha b"

section \<open>The store\<close>

definition upload_key :: "string \<Rightarrow> string" where
  "upload_key upload = ''upload/'' @ upload"

definition blob_key :: "string \<Rightarrow> string" where
  "blob_key digest = ''blob/'' @ digest"

definition begin_upload :: "'w staging \<Rightarrow> 'w \<Rightarrow> string res \<times> 'w" where
  "begin_upload s w =
     (case st_idgen s w of
        (upload, w1) \<Rightarrow>
          (case ss_begin (st_sessions s) upload w1 of
             (Some e, w2) \<Rightarrow> (Inl (ErrWrap ''begin upload: '' e []), w2)
           | (None, w2) \<Rightarrow> (Inr upload, w2)))"

definition read_if_exists :: "'w staging \<Rightarrow> string \<Rightarrow> 'w \<Rightarrow> bytes res \<times> 'w" where
  "read_if_exists s key w =
     (case bs_get (st_blobs s) key w of
        (Inl e, w1) \<Rightarrow> (Inr [], w1)
      | (Inr rc, w1) \<Rightarrow> (rc, w1))"

definition write_chunk :: "'w staging \<Rightarrow> string \<Rightarrow> int64 \<Rightarrow> reader \<Rightarrow> 'w \<Rightarrow> int64 res \<times> 'w" where
  "write_chunk s upload offset r w =
     (case r of
        Inl e \<Rightarrow> (Inl (ErrWrap ''read chunk: '' e []), w)
      | Inr buf \<Rightarrow>
          (let nxt = offset + of_nat (length buf) in
           case ss_cas_offset (st_sessions s) upload offset nxt w of
             (Inl e, w1) \<Rightarrow> (Inl (ErrWrap ''offset cas: '' e []), w1)
           | (Inr False, w1) \<Rightarrow> (Inl ErrOutOfOrder, w1)
           | (Inr True, w1) \<Rightarrow>
               (case read_if_exists s (upload_key upload) w1 of
                  (Inl e, w2) \<Rightarrow> (Inl e, w2)
                | (Inr existing, w2) \<Rightarrow>
                    (case bs_put (st_blobs s) (upload_key upload) (Inr (existing @ buf)) w2 of
                       (Some e, w3) \<Rightarrow> (Inl (ErrWrap ''store chunk: '' e []), w3)
                     | (None, w3) \<Rightarrow> (Inr nxt, w3)))))"

text \<open>Steps 4 to 7 of \<open>CompleteBlob\<close>, once the accumulated bytes are verified.\<close>

definition publish_blob :: "'w staging \<Rightarrow> string \<Rightarrow> string \<Rightarrow> bytes \<Rightarrow> 'w \<Rightarrow> goerr option \<times> 'w" where
  "publish_blob s upload digest accumulated w =
     (case bs_put (st_blobs s) (blob_key digest) (Inr accumulated) w of
        (Some e, w1) \<Rightarrow> (Some (ErrWrap ''store blob: '' e []), w1)
      | (None, w1) \<Rightarrow>
          (case ss_mark_complete (st_sessions s) upload digest w1 of
             (Some e, w2) \<Rightarrow> (Some (ErrWrap ''mark complete: '' e []), w2)
           | (None, w2) \<Rightarrow>
               (case ss_inc_ref (st_sessions s) digest w2 of
                  (Inl e, w3) \<Rightarrow> (Some (ErrWrap ''inc blob ref: '' e []), w3)
                | (Inr _, w3) \<Rightarrow>
                    (let w4 = snd (bs_delete (st_blobs s) (upload_key upload) w3);
                         w5 = snd (ss_clear (st_sessions s) upload w4)
                     in (None, w5)))))"

definition complete_blob :: "'w staging \<Rightarrow> string \<Rightarrow> string \<Rightarrow> reader \<Rightarrow> 'w \<Rightarrow> goerr option \<times> 'w" where
  "complete_blob s upload digest r w =
     (case r of
        Inl e \<Rightarrow> (Some (ErrWrap ''read final chunk: '' e []), w)
      | Inr final_chunk \<Rightarrow>
          (case read_if_exists s (upload_key upload) w of
             (Inl e, w1) \<Rightarrow> (Some e, w1)
           | (Inr existing, w1) \<Rightarrow>
               (let accumulated = existing @ final_chunk in
                case verify_digest (st_sha s) (Inr accumulated) digest of
                  Some e \<Rightarrow> (Some e, w1)
                | None \<Rightarrow> publish_blob s upload digest accumulated w1)))"

definition abandon_upload :: "'w staging \<Rightarrow> string \<Rightarrow> 'w \<Rightarrow> goerr option \<times> 'w" where
  "abandon_upload s upload w =
     (let w1 = snd (bs_delete (st_blobs s) (upload_key upload) w) in
      case ss_clear (st_sessions s) upload w1 of
        (Some e, w2) \<Rightarrow> (Some (ErrWrap ''clear upload session: '' e []), w2)
      | (None, w2) \<Rightarrow> (None, w2))"

definition fetch_verified :: "'w staging \<Rightarrow> string \<Rightarrow> 'w \<Rightarrow> bytes res \<times> 'w" where
  "fetch_verified s digest w =
     (case bs_get (st_blobs s) (blob_key digest) w of
        (Inl e, w1) \<Rightarrow> (Inl (ErrWrap (''get blob '' @ digest @ '': '') e []), w1)
      | (Inr rc, w1) \<Rightarrow>
          (case rc of
             Inl e \<Rightarrow> (Inl (ErrWrap (''read blob '' @ digest @ '': '') e []), w1)
           | Inr raw \<Rightarrow>
               (case verify_digest (st_sha s) (Inr raw) digest of
                  Some e \<Rightarrow>
                    (Inl (ErrWrap (''assemble: blob '' @ digest @ '' failed digest re-verification: '') e []), w1)
                | None \<Rightarrow> (Inr raw, w1))))"

definition get_staged_blob :: "'w staging \<Rightarrow> string \<Rightarrow> 'w \<Rightarrow> bytes res \<times> 'w" where
  "get_staged_blob s digest w = fetch_verified s digest w"

definition put_manifest ::
  "'w staging \<Rightarrow> string \<Rightarrow> string \<Rightarrow> bytes \<Rightarrow> string \<Rightarrow> string list \<Rightarrow> 'w \<Rightarrow> manifest_ref res \<times> 'w" where
  "put_manifest s repo ref manifest config_digest layer_digests w =
     (let required = (if config_digest \<noteq> [] then config_digest # layer_digests else layer_digests) in
      case ss_all_complete (st_sessions s) required w of
        (Inl e, w1) \<Rightarrow> (Inl (ErrWrap ''check completeness: '' e []), w1)
      | (Inr False, w1) \<Rightarrow> (Inl ErrIncompletePush, w1)
      | (Inr True, w1) \<Rightarrow>
          (Inr \<lparr>mr_repo = repo, mr_ref = ref, mr_manifest = manifest,
                mr_config_digest = config_digest, mr_layer_digests = layer_digests\<rparr>, w1))"

text \<open>The loop of \<open>Cleanup\<close> over the digests of a finished push.\<close>

fun release_refs :: "'w staging \<Rightarrow> string list \<Rightarrow> 'w \<Rightarrow> 'w" where
  "release_refs s [] w = w"
| "release_refs s (dg # dgs) w =
     (case ss_dec_ref (st_sessions s) dg w of
        (Inl e, w1) \<Rightarrow> release_refs s dgs w1
      | (Inr remaining, w1) \<Rightarrow>
          (if remaining \<le> 0
           then release_refs s dgs (snd (bs_delete (st_blobs s) (blob_key dg) w1))
           else release_refs s dgs w1))"

definition cleanup_digests :: "manifest_ref \<Rightarrow> string list" where
  "cleanup_digests mr =
     mr_layer_digests mr @ (if mr_config_digest mr \<noteq> [] then [mr_config_digest mr] else [])"

section \<open>Facts about digests\<close>

lemma verify_digest_ok:
  "verify_digest sha (Inr b) d = None \<longleftrightarrow>
   (\<exists>h. d = ''sha256:'' @ h \<and> sha b = to_lower h)"
proof
  assume v: "verify_digest sha (Inr b) d = None"
  obtain a h ok where cut: "str_cut d '':'' = (a, h, ok)" by (metis surj_pair)
  with v have "ok" "a = ''sha256''" "sha b = to_lower h"
    by (auto simp: verify_digest_def Let_def split: if_splits)
  moreover from this cut have "d = a @ '':'' @ h"
    by (auto simp: str_cut_def split: option.splits dest: str_index_Some)
  ultimately show "\<exists>h. d = ''sha256:'' @ h \<and> sha b = to_lower h" by auto
next
  assume "\<exists>h. d = ''sha256:'' @ h \<and> sha b = to_lower h"
  then obtain h where h: "d = ''sha256'' @ CHR '':'' # h" "sha b = to_lower h" by auto
  have "str_index d '':'' = Some 6"
    unfolding h(1) by (subst str_index_char_append) auto
  then have "str_cut d '':'' = (''sha256'', h, True)"
    by (simp add: str_cut_def h(1))
  then show "verify_digest sha (Inr b) d = None" by (simp add: verify_digest_def h(2))
qed

lemma verify_own_digest:
  "to_lower (sha b) = sha b \<Longrightarrow> verify_digest sha (Inr b) (sha256_digest sha b) = None"
  by (auto simp: verify_digest_ok sha256_digest_def)

lemma key_inj [simp]:
  "blob_key a = blob_key b \<longleftrightarrow> a = b" "upload_key a = upload_key b \<longleftrightarrow> a = b"
  "blob_key a \<noteq> upload_key b" "upload_key b \<noteq> blob_key a"
  by (simp_all add: blob_key_def upload_key_def)

lemma fetch_verified_Inr:
  "fetch_verified s d w = (Inr raw, w') \<Longrightarrow>
   verify_digest (st_sha s) (Inr raw) d = None \<and> bs_get (st_blobs s) (blob_key d) w = (Inr (Inr raw), w')"
  by (auto simp: fetch_verified_def split: prod.splits sum.splits option.splits)

end
