(* ===== verification/Staging_Backends.thy ===== *)
theory Staging_Backends
  imports Staging_Store Valkey
begin

text \<open>
  The backends of \<open>internal/staging\<close>: the in-memory stores (\<open>memory.go\<close>), the Valkey session store
  (\<open>valkey.go\<close>) and the error classification of the Azure blob store (\<open>azureblob.go\<close>, whose calls
  are SDK calls and a parameter).
\<close>

section \<open>In-memory stores\<close>

record mem_staging =
  ms_blobs :: "string \<Rightarrow> bytes option"
  ms_sessions :: "string \<Rightarrow> int64 option"
  ms_complete :: "string \<Rightarrow> bool"
  ms_refs :: "string \<Rightarrow> int option"

definition empty_mem_staging :: mem_staging where
  "empty_mem_staging = \<lparr>ms_blobs = Map.empty, ms_sessions = Map.empty, ms_complete = (\<lambda>_. False),
     ms_refs = Map.empty\<rparr>"

definition mem_put :: "string \<Rightarrow> reader \<Rightarrow> mem_staging \<Rightarrow> goerr option \<times> mem_staging" where
  "mem_put key r m =
     (case r of Inl e \<Rightarrow> (Some e, m) | Inr b \<Rightarrow> (None, m\<lparr>ms_blobs := (ms_blobs m)(key \<mapsto> b)\<rparr>))"

definition mem_get :: "string \<Rightarrow> mem_staging \<Rightarrow> reader res \<times> mem_staging" where
  "mem_get key m =
     (case ms_blobs m key of
        None \<Rightarrow> (Inl (BlobMissingError key), m)
      | Some b \<Rightarrow> (Inr (Inr b), m))"

definition mem_delete :: "string \<Rightarrow> mem_staging \<Rightarrow> goerr option \<times> mem_staging" where
  "mem_delete key m = (None, m\<lparr>ms_blobs := (ms_blobs m)(key := None)\<rparr>)"

definition mem_blob_store :: "mem_staging blob_store" where
  "mem_blob_store = \<lparr>bs_put = mem_put, bs_get = mem_get, bs_delete = mem_delete\<rparr>"

definition mem_begin :: "string \<Rightarrow> mem_staging \<Rightarrow> goerr option \<times> mem_staging" where
  "mem_begin upload m = (None, m\<lparr>ms_sessions := (ms_sessions m)(upload \<mapsto> 0)\<rparr>)"

definition mem_cas_offset :: "string \<Rightarrow> int64 \<Rightarrow> int64 \<Rightarrow> mem_staging \<Rightarrow> bool res \<times> mem_staging" where
  "mem_cas_offset upload expected nxt m =
     (case ms_sessions m upload of
        None \<Rightarrow> (Inl (ErrMsg (''upload '' @ fmt_q upload @ '' not found'')), m)
      | Some offset \<Rightarrow>
          (if offset \<noteq> expected then (Inr False, m)
           else (Inr True, m\<lparr>ms_sessions := (ms_sessions m)(upload \<mapsto> nxt)\<rparr>)))"

definition mem_mark_complete :: "string \<Rightarrow> string \<Rightarrow> mem_staging \<Rightarrow> goerr option \<times> mem_staging" where
  "mem_mark_complete upload digest m = (None, m\<lparr>ms_complete := (ms_complete m)(digest := True)\<rparr>)"

definition mem_all_complete :: "string list \<Rightarrow> mem_staging \<Rightarrow> bool res \<times> mem_staging" where
  "mem_all_complete digests m = (Inr (list_all (ms_complete m) digests), m)"

definition mem_clear :: "string \<Rightarrow> mem_staging \<Rightarrow> goerr option \<times> mem_staging" where
  "mem_clear upload m = (None, m\<lparr>ms_sessions := (ms_sessions m)(upload := None)\<rparr>)"

definition mem_inc_ref :: "string \<Rightarrow> mem_staging \<Rightarrow> int res \<times> mem_staging" where
  "mem_inc_ref digest m =
     (let n = (case ms_refs m digest of None \<Rightarrow> 0 | Some k \<Rightarrow> k) + 1 in
      (Inr n, m\<lparr>ms_refs := (ms_refs m)(digest \<mapsto> n)\<rparr>))"

definition mem_dec_ref :: "string \<Rightarrow> mem_staging \<Rightarrow> int res \<times> mem_staging" where
  "mem_dec_ref digest m =
     (case ms_refs m digest of
        None \<Rightarrow> (Inl (ErrMsg (''reference count for '' @ digest @ '' missing (expired or never set)'')), m)
      | Some k \<Rightarrow>
          (let n = k - 1 in
           if n \<le> 0 then (Inr 0, m\<lparr>ms_refs := (ms_refs m)(digest := None)\<rparr>)
           else (Inr n, m\<lparr>ms_refs := (ms_refs m)(digest \<mapsto> n)\<rparr>)))"

definition mem_session_store :: "mem_staging session_store" where
  "mem_session_store = \<lparr>ss_begin = mem_begin, ss_cas_offset = mem_cas_offset,
     ss_mark_complete = mem_mark_complete, ss_all_complete = mem_all_complete, ss_clear = mem_clear,
     ss_inc_ref = mem_inc_ref, ss_dec_ref = mem_dec_ref\<rparr>"

section \<open>The Valkey session store\<close>

record 'k valkey_sessions =
  vs_cmds :: "'k valkey_cmds"
  vs_ttl :: duration

definition default_session_ttl :: duration where
  "default_session_ttl = 24 * hour"

definition new_valkey_sessions :: "'k valkey_cmds \<Rightarrow> duration \<Rightarrow> 'k valkey_sessions" where
  "new_valkey_sessions cmds ttl =
     \<lparr>vs_cmds = cmds, vs_ttl = (if ttl \<le> 0 then default_session_ttl else ttl)\<rparr>"

definition offset_key :: "string \<Rightarrow> string" where
  "offset_key u = ''merlin:upload:'' @ u @ '':offset''"

definition complete_key :: "string \<Rightarrow> string" where
  "complete_key d = ''merlin:blob:'' @ d @ '':complete''"

definition ref_key :: "string \<Rightarrow> string" where
  "ref_key d = ''merlin:blob:'' @ d @ '':refs''"

definition vk_begin :: "'k valkey_sessions \<Rightarrow> string \<Rightarrow> 'k conn \<Rightarrow> goerr option \<times> 'k conn" where
  "vk_begin v upload w =
     call_err (vk_do (vc_set (vs_cmds v) (offset_key upload) (fmt_int 0) (vs_ttl v))) w"

definition cas_script :: "'k valkey_sessions \<Rightarrow> string \<Rightarrow> string \<Rightarrow> string \<Rightarrow> 'k \<Rightarrow> int res \<times> 'k" where
  "cas_script v key expected nxt db =
     (if vc_get (vs_cmds v) key db = Some expected
      then (Inr 1, vc_set_keepttl (vs_cmds v) key nxt db)
      else (Inr 0, db))"

definition vk_cas_offset ::
  "'k valkey_sessions \<Rightarrow> string \<Rightarrow> int64 \<Rightarrow> int64 \<Rightarrow> 'k conn \<Rightarrow> bool res \<times> 'k conn" where
  "vk_cas_offset v upload expected nxt w =
     (case vk_call (cas_script v (offset_key upload) (fmt_int (sint expected)) (fmt_int (sint nxt))) w of
        (Inl e, w') \<Rightarrow> (Inl (ErrWrap ''valkey cas: '' e []), w')
      | (Inr n, w') \<Rightarrow> (Inr (n = 1), w'))"

definition vk_mark_complete ::
  "'k valkey_sessions \<Rightarrow> string \<Rightarrow> string \<Rightarrow> 'k conn \<Rightarrow> goerr option \<times> 'k conn" where
  "vk_mark_complete v upload digest w =
     call_err (vk_do (vc_set (vs_cmds v) (complete_key digest) (fmt_int 1) (vs_ttl v))) w"

fun vk_all_complete :: "'k valkey_sessions \<Rightarrow> string list \<Rightarrow> 'k conn \<Rightarrow> bool res \<times> 'k conn" where
  "vk_all_complete v [] w = (Inr True, w)"
| "vk_all_complete v (d # ds) w =
     (case vk_call (vk_ask (vc_exists (vs_cmds v) (complete_key d))) w of
        (Inl e, w') \<Rightarrow> (Inl (ErrWrap ''valkey exists: '' e []), w')
      | (Inr there, w') \<Rightarrow> (if there then vk_all_complete v ds w' else (Inr False, w')))"

definition vk_clear :: "'k valkey_sessions \<Rightarrow> string \<Rightarrow> 'k conn \<Rightarrow> goerr option \<times> 'k conn" where
  "vk_clear v upload w = call_err (vk_do (vc_del (vs_cmds v) (offset_key upload))) w"

definition vk_inc_ref :: "'k valkey_sessions \<Rightarrow> string \<Rightarrow> 'k conn \<Rightarrow> int res \<times> 'k conn" where
  "vk_inc_ref v digest w =
     (case vk_call (vc_incrby (vs_cmds v) 1 (ref_key digest)) w of
        (Inl e, w1) \<Rightarrow> (Inl (ErrWrap ''valkey incr ref: '' e []), w1)
      | (Inr n, w1) \<Rightarrow>
          (Inr n, snd (call_err (vk_do (vc_expire (vs_cmds v) (ref_key digest) (vs_ttl v))) w1)))"

definition decr_script :: "'k valkey_sessions \<Rightarrow> string \<Rightarrow> 'k \<Rightarrow> int res \<times> 'k" where
  "decr_script v key db =
     (if \<not> vc_exists (vs_cmds v) key db then (Inr (- 1), db)
      else case vc_incrby (vs_cmds v) (- 1) key db of
        (Inl e, db1) \<Rightarrow> (Inl e, db1)
      | (Inr n, db1) \<Rightarrow> (if n \<le> 0 then (Inr 0, vc_del (vs_cmds v) key db1) else (Inr n, db1)))"

definition vk_dec_ref :: "'k valkey_sessions \<Rightarrow> string \<Rightarrow> 'k conn \<Rightarrow> int res \<times> 'k conn" where
  "vk_dec_ref v digest w =
     (case vk_call (decr_script v (ref_key digest)) w of
        (Inl e, w1) \<Rightarrow> (Inl (ErrWrap ''valkey decr ref: '' e []), w1)
      | (Inr n, w1) \<Rightarrow>
          (if n < 0
           then (Inl (ErrMsg (''valkey decr ref '' @ digest
                   @ '': reference count missing (expired or never set)'')), w1)
           else (Inr n, w1)))"

definition valkey_session_store :: "'k valkey_sessions \<Rightarrow> 'k conn session_store" where
  "valkey_session_store v = \<lparr>ss_begin = vk_begin v, ss_cas_offset = vk_cas_offset v,
     ss_mark_complete = vk_mark_complete v, ss_all_complete = vk_all_complete v, ss_clear = vk_clear v,
     ss_inc_ref = vk_inc_ref v, ss_dec_ref = vk_dec_ref v\<rparr>"

section \<open>The Azure blob store\<close>

text \<open>
  The SDK's three calls are the fields; \<open>az_not_found\<close> is \<open>bloberror.HasCode(err, BlobNotFound)\<close>.
\<close>

record 'w azure_client =
  az_upload :: "string \<Rightarrow> bytes \<Rightarrow> 'w \<Rightarrow> goerr option \<times> 'w"
  az_download :: "string \<Rightarrow> 'w \<Rightarrow> reader res \<times> 'w"
  az_remove :: "string \<Rightarrow> 'w \<Rightarrow> goerr option \<times> 'w"
  az_not_found :: "goerr \<Rightarrow> bool"

definition azure_put :: "'w azure_client \<Rightarrow> string \<Rightarrow> reader \<Rightarrow> 'w \<Rightarrow> goerr option \<times> 'w" where
  "azure_put a key r w = (case r of Inl e \<Rightarrow> (Some e, w) | Inr b \<Rightarrow> az_upload a key b w)"

definition classify_blob_get_error :: "'w azure_client \<Rightarrow> string \<Rightarrow> goerr \<Rightarrow> goerr" where
  "classify_blob_get_error a key e =
     (if az_not_found a e then ErrJoin '': '' [BlobMissingError key, e] else e)"

definition azure_get :: "'w azure_client \<Rightarrow> string \<Rightarrow> 'w \<Rightarrow> reader res \<times> 'w" where
  "azure_get a key w =
     (case az_download a key w of
        (Inl e, w') \<Rightarrow> (Inl (classify_blob_get_error a key e), w')
      | (Inr r, w') \<Rightarrow> (Inr r, w'))"

definition azure_delete :: "'w azure_client \<Rightarrow> string \<Rightarrow> 'w \<Rightarrow> goerr option \<times> 'w" where
  "azure_delete a key w = az_remove a key w"

definition azure_blob_store :: "'w azure_client \<Rightarrow> 'w blob_store" where
  "azure_blob_store a = \<lparr>bs_put = azure_put a, bs_get = azure_get a, bs_delete = azure_delete a\<rparr>"

section \<open>Facts\<close>

lemma session_keys [simp]:
  "offset_key a = offset_key b \<longleftrightarrow> a = b" "ref_key a = ref_key b \<longleftrightarrow> a = b"
  "complete_key a = complete_key b \<longleftrightarrow> a = b"
  "offset_key a \<noteq> ref_key b" "ref_key a \<noteq> offset_key b"
  "offset_key a \<noteq> complete_key b" "complete_key a \<noteq> offset_key b"
  by (simp_all add: offset_key_def ref_key_def complete_key_def)

lemma complete_ref_keys [simp]: "complete_key a \<noteq> ref_key b" "ref_key b \<noteq> complete_key a"
proof -
  have "last (complete_key a) = CHR ''e''" "last (ref_key b) = CHR ''s''"
    by (simp_all add: complete_key_def ref_key_def)
  then show "complete_key a \<noteq> ref_key b" "ref_key b \<noteq> complete_key a" by auto
qed

end
