(* ===== verification/Staging_Refs.thy ===== *)
theory Staging_Refs
  imports Staging_Backends
begin

text \<open>
  Reference counting of staged blobs across pushes. \<open>staging_backend\<close> is what the store relies on,
  over two views of the state: the bytes stored under a key and the count of a digest. A backend
  call that reports an error may have taken effect. \<open>push_step\<close> is any interleaving of any number
  of pushes; a push releases at its end references it took. The invariant, proved in the locale:
  a digest is counted at least as often as unfinished pushes hold it, and while it is held its
  verified bytes are in the store. The locale is interpreted on the in-memory stores and on the
  Valkey session store.
\<close>

section \<open>The contract\<close>

definition count_of :: "(string \<Rightarrow> int option) \<Rightarrow> string \<Rightarrow> int" where
  "count_of refs d = (case refs d of None \<Rightarrow> 0 | Some n \<Rightarrow> n)"

definition inc_count :: "string \<Rightarrow> (string \<Rightarrow> int option) \<Rightarrow> string \<Rightarrow> int option" where
  "inc_count d refs = refs(d \<mapsto> count_of refs d + 1)"

definition dec_count :: "string \<Rightarrow> (string \<Rightarrow> int option) \<Rightarrow> string \<Rightarrow> int option" where
  "dec_count d refs =
     (case refs d of
        None \<Rightarrow> refs
      | Some n \<Rightarrow> (if n \<le> 1 then refs(d := None) else refs(d \<mapsto> n - 1)))"

locale staging_backend =
  fixes s :: "'w staging"
    and ok :: "'w \<Rightarrow> bool"
    and blobs :: "'w \<Rightarrow> string \<Rightarrow> bytes option"
    and refs :: "'w \<Rightarrow> string \<Rightarrow> int option"
  assumes put: "ok w \<Longrightarrow> bs_put (st_blobs s) key (Inr b) w = (e, w') \<Longrightarrow>
      ok w' \<and> refs w' = refs w
      \<and> (blobs w' = (blobs w)(key \<mapsto> b) \<or> e \<noteq> None \<and> blobs w' = blobs w)"
    and get: "ok w \<Longrightarrow> bs_get (st_blobs s) key w = (r, w') \<Longrightarrow>
      ok w' \<and> refs w' = refs w \<and> blobs w' = blobs w
      \<and> (\<forall>b. r = Inr (Inr b) \<longrightarrow> blobs w key = Some b)"
    and delete: "ok w \<Longrightarrow> bs_delete (st_blobs s) key w = (e, w') \<Longrightarrow>
      ok w' \<and> refs w' = refs w
      \<and> (blobs w' = (blobs w)(key := None) \<or> e \<noteq> None \<and> blobs w' = blobs w)"
    and sessions: "ok w \<Longrightarrow> ss_begin (st_sessions s) u w = (e, w') \<Longrightarrow>
        ok w' \<and> refs w' = refs w \<and> blobs w' = blobs w"
      "ok w \<Longrightarrow> ss_cas_offset (st_sessions s) u x y w = (r', w') \<Longrightarrow>
        ok w' \<and> refs w' = refs w \<and> blobs w' = blobs w"
      "ok w \<Longrightarrow> ss_mark_complete (st_sessions s) u d w = (e, w') \<Longrightarrow>
        ok w' \<and> refs w' = refs w \<and> blobs w' = blobs w"
      "ok w \<Longrightarrow> ss_all_complete (st_sessions s) ds w = (r', w') \<Longrightarrow>
        ok w' \<and> refs w' = refs w \<and> blobs w' = blobs w"
      "ok w \<Longrightarrow> ss_clear (st_sessions s) u w = (e, w') \<Longrightarrow>
        ok w' \<and> refs w' = refs w \<and> blobs w' = blobs w"
    and idgen: "ok w \<Longrightarrow> st_idgen s w = (i, w') \<Longrightarrow>
        ok w' \<and> refs w' = refs w \<and> blobs w' = blobs w"
    and inc: "ok w \<Longrightarrow> ss_inc_ref (st_sessions s) d w = (n, w') \<Longrightarrow>
      ok w' \<and> blobs w' = blobs w
      \<and> (refs w' = inc_count d (refs w) \<or> \<not> is_ok n \<and> refs w' = refs w)"
    and dec: "ok w \<Longrightarrow> ss_dec_ref (st_sessions s) d w = (n, w') \<Longrightarrow>
      ok w' \<and> blobs w' = blobs w
      \<and> (refs w' = dec_count d (refs w) \<or> \<not> is_ok n \<and> refs w' = refs w)
      \<and> (\<forall>k. n = Inr k \<longrightarrow> refs w d \<noteq> None \<and> k = max 0 (count_of (refs w) d - 1))"
    and positive: "ok w \<Longrightarrow> refs w d = Some m \<Longrightarrow> 0 < m"

text \<open>
  The steps of the pushes in flight, with the multiset of references they hold. A push may be at
  any point of its life; only the steps that touch the store matter.
\<close>

inductive push_step :: "'w staging \<Rightarrow> string multiset \<times> 'w \<Rightarrow> string multiset \<times> 'w \<Rightarrow> bool"
  for s :: "'w staging" where
  begin_push: "begin_upload s w = (r, w') \<Longrightarrow> push_step s (h, w) (h, w')"
| chunk: "write_chunk s u off r w = (x, w') \<Longrightarrow> push_step s (h, w) (h, w')"
| complete: "complete_blob s u d r w = (None, w') \<Longrightarrow> push_step s (h, w) (add_mset d h, w')"
| complete_failed: "complete_blob s u d r w = (Some e, w') \<Longrightarrow> push_step s (h, w) (h, w')"
| abandon: "abandon_upload s u w = (e, w') \<Longrightarrow> push_step s (h, w) (h, w')"
| manifest: "put_manifest s repo ref m c ls w = (x, w') \<Longrightarrow> push_step s (h, w) (h, w')"
| fetch: "get_staged_blob s d w = (x, w') \<Longrightarrow> push_step s (h, w) (h, w')"
| finish: "mset ds \<subseteq># h \<Longrightarrow> push_step s (h, w) (h - mset ds, release_refs s ds w)"

inductive_cases push_stepE: "push_step s (h, w) (h', w')"

inductive push_run :: "'w staging \<Rightarrow> string multiset \<times> 'w \<Rightarrow> string multiset \<times> 'w \<Rightarrow> bool"
  for s :: "'w staging" where
  refl: "push_run s c c"
| step: "push_run s c c' \<Longrightarrow> push_step s c' c'' \<Longrightarrow> push_run s c c''"

context staging_backend
begin

definition safe :: "string multiset \<Rightarrow> 'w \<Rightarrow> bool" where
  "safe h w \<longleftrightarrow> ok w
     \<and> (\<forall>d. int (count h d) \<le> count_of (refs w) d)
     \<and> (\<forall>d\<in>#h. \<exists>b. blobs w (blob_key d) = Some b \<and> verify_digest (st_sha s) (Inr b) d = None)"

text \<open>A step that keeps the counts and every blob under a digest key keeps the invariant.\<close>

definition harmless :: "'w \<Rightarrow> 'w \<Rightarrow> bool" where
  "harmless w w' \<longleftrightarrow> (ok w \<longrightarrow> ok w') \<and> refs w' = refs w
     \<and> (\<forall>d. blobs w' (blob_key d) = blobs w (blob_key d))"

lemma harmless_refl: "harmless w w"
  by (simp add: harmless_def)

lemma harmless_trans: "harmless w w' \<Longrightarrow> harmless w' w'' \<Longrightarrow> harmless w w''"
  by (simp add: harmless_def)

lemma harmless_safe: "harmless w w' \<Longrightarrow> safe h w \<Longrightarrow> safe h w'"
  by (simp add: harmless_def safe_def)

lemma harmless_calls:
  assumes "ok w"
  shows "ss_begin (st_sessions s) u w = (e, w') \<Longrightarrow> harmless w w'"
    and "ss_cas_offset (st_sessions s) u x y w = (b, w') \<Longrightarrow> harmless w w'"
    and "ss_mark_complete (st_sessions s) u d w = (e, w') \<Longrightarrow> harmless w w'"
    and "ss_all_complete (st_sessions s) ds w = (b, w') \<Longrightarrow> harmless w w'"
    and "ss_clear (st_sessions s) u w = (e, w') \<Longrightarrow> harmless w w'"
    and "st_idgen s w = (i, w') \<Longrightarrow> harmless w w'"
    and "bs_get (st_blobs s) key w = (r, w') \<Longrightarrow> harmless w w'"
    and "bs_delete (st_blobs s) (upload_key u) w = (e, w') \<Longrightarrow> harmless w w'"
    and "bs_put (st_blobs s) (upload_key u) (Inr buf) w = (e, w') \<Longrightarrow> harmless w w'"
  using sessions [OF assms] idgen [OF assms] get [OF assms] delete [OF assms] put [OF assms]
  unfolding harmless_def by (metis fun_upd_other key_inj(3))+

lemma harmless_ok: "harmless w w' \<Longrightarrow> ok w \<Longrightarrow> ok w'"
  by (simp add: harmless_def)

lemma begin_harmless:
  assumes "ok w" "begin_upload s w = (r, w')"
  shows "harmless w w'"
proof -
  obtain u w1 where 1: "st_idgen s w = (u, w1)" by fastforce
  obtain e w2 where 2: "ss_begin (st_sessions s) u w1 = (e, w2)" by fastforce
  have h1: "harmless w w1" by (rule harmless_calls(6) [OF assms(1) 1])
  have h2: "harmless w1 w2" by (rule harmless_calls(1) [OF harmless_ok [OF h1 assms(1)] 2])
  have "w' = w2" using assms(2) 1 2 by (auto simp: begin_upload_def split: option.splits)
  with h1 h2 harmless_trans show ?thesis by blast
qed

lemma read_harmless:
  assumes "ok w" "read_if_exists s key w = (r, w')"
  shows "harmless w w'"
  using assms(2) harmless_calls(7) [OF assms(1), of key]
  by (auto simp: read_if_exists_def split: prod.splits sum.splits)

lemma chunk_harmless:
  assumes "ok w" "write_chunk s u off r w = (x, w')"
  shows "harmless w w'"
proof (cases r)
  case (Inl e)
  then show ?thesis using assms by (auto simp: write_chunk_def harmless_refl)
next
  case (Inr buf)
  let ?n = "off + of_nat (length buf)"
  obtain b w1 where 1: "ss_cas_offset (st_sessions s) u off ?n w = (b, w1)" by fastforce
  have h1: "harmless w w1" by (rule harmless_calls(2) [OF assms(1) 1])
  note ok1 = harmless_ok [OF h1 assms(1)]
  show ?thesis
  proof (cases "b = Inr True")
    case False
    then have "w' = w1"
      using assms(2) Inr 1 by (auto simp: write_chunk_def Let_def split: sum.splits bool.splits)
    with h1 show ?thesis by simp
  next
    case True
    obtain ex w2 where 2: "read_if_exists s (upload_key u) w1 = (ex, w2)" by fastforce
    have h2: "harmless w w2" using read_harmless [OF ok1 2] h1 harmless_trans by blast
    note ok2 = harmless_ok [OF h2 assms(1)]
    show ?thesis
    proof (cases ex)
      case (Inl e)
      then have "w' = w2" using assms(2) Inr 1 2 True by (simp add: write_chunk_def)
      with h2 show ?thesis by simp
    next
      case inr: (Inr old)
      obtain e w3 where 3: "bs_put (st_blobs s) (upload_key u) (Inr (old @ buf)) w2 = (e, w3)" by fastforce
      have "harmless w2 w3" by (rule harmless_calls(9) [OF ok2 3])
      moreover have "w' = w3"
        using assms(2) Inr 1 2 3 True inr by (auto simp: write_chunk_def split: option.splits)
      ultimately show ?thesis using h2 harmless_trans by blast
    qed
  qed
qed

lemma abandon_harmless:
  assumes "ok w" "abandon_upload s u w = (e, w')"
  shows "harmless w w'"
proof -
  obtain e1 w1 where 1: "bs_delete (st_blobs s) (upload_key u) w = (e1, w1)" by fastforce
  obtain e2 w2 where 2: "ss_clear (st_sessions s) u w1 = (e2, w2)" by fastforce
  have h1: "harmless w w1" by (rule harmless_calls(8) [OF assms(1) 1])
  have h2: "harmless w1 w2" by (rule harmless_calls(5) [OF harmless_ok [OF h1 assms(1)] 2])
  have "w' = w2" using assms(2) 1 2 by (auto simp: abandon_upload_def Let_def split: option.splits)
  with h1 h2 harmless_trans show ?thesis by blast
qed

lemma manifest_harmless:
  assumes "ok w" "put_manifest s repo ref m c ls w = (x, w')"
  shows "harmless w w'"
  using assms(2) harmless_calls(4) [OF assms(1)]
  by (auto simp: put_manifest_def Let_def split: prod.splits sum.splits bool.splits if_splits)

lemma fetch_harmless:
  assumes "ok w" "get_staged_blob s d w = (x, w')"
  shows "harmless w w'"
  using assms(2) harmless_calls(7) [OF assms(1), of "blob_key d"]
  by (auto simp: get_staged_blob_def fetch_verified_def split: prod.splits sum.splits option.splits)

lemma count_of_inc [simp]:
  "count_of (inc_count d f) d' = (if d' = d then count_of f d + 1 else count_of f d')"
  by (simp add: inc_count_def count_of_def)

lemma count_of_dec:
  assumes "\<And>m. f d = Some m \<Longrightarrow> 0 < m"
  shows "count_of (dec_count d f) d' = (if d' = d then max 0 (count_of f d - 1) else count_of f d')"
proof (cases "f d")
  case (Some m)
  then show ?thesis using assms by (auto simp: dec_count_def count_of_def)
qed (simp add: dec_count_def count_of_def)

lemma safe_put:
  assumes "safe h w" "bs_put (st_blobs s) (blob_key d) (Inr b) w = (e, w')"
    and "verify_digest (st_sha s) (Inr b) d = None"
  shows "safe h w'" and "e = None \<Longrightarrow> blobs w' (blob_key d) = Some b"
  using assms put [of w "blob_key d" b e w'] by (auto simp: safe_def)

lemma safe_inc:
  assumes "safe h w" "ss_inc_ref (st_sessions s) d w = (n, w')"
    and "blobs w (blob_key d) = Some b" "verify_digest (st_sha s) (Inr b) d = None"
  shows "safe (if is_ok n then add_mset d h else h) w'"
proof -
  have ok: "ok w" using assms(1) by (simp add: safe_def)
  note i = inc [OF ok assms(2)]
  have le: "int (count h d') \<le> count_of (refs w) d'" for d' using assms(1) by (simp add: safe_def)
  have "int (count (if is_ok n then add_mset d h else h) d') \<le> count_of (refs w') d'" for d'
  proof (cases "refs w' = inc_count d (refs w)")
    case True
    then show ?thesis using le [of d'] by auto
  next
    case False
    then show ?thesis using i le [of d'] by auto
  qed
  then show ?thesis
    using assms i by (auto simp: safe_def)
qed

lemma publish_safe:
  assumes "safe h w" "publish_blob s u d b w = (e, w')"
    and "verify_digest (st_sha s) (Inr b) d = None"
  shows "safe (if e = None then add_mset d h else h) w'"
proof -
  obtain e1 w1 where 1: "bs_put (st_blobs s) (blob_key d) (Inr b) w = (e1, w1)" by fastforce
  note s1 = safe_put [OF assms(1) 1 assms(3)]
  obtain e2 w2 where 2: "ss_mark_complete (st_sessions s) u d w1 = (e2, w2)" by fastforce
  have h2: "harmless w1 w2" using harmless_calls(3) [OF _ 2] s1(1) by (simp add: safe_def)
  have s2: "safe h w2" by (rule harmless_safe [OF h2 s1(1)])
  obtain n w3 where 3: "ss_inc_ref (st_sessions s) d w2 = (n, w3)" by fastforce
  obtain e4 w4 where 4: "bs_delete (st_blobs s) (upload_key u) w3 = (e4, w4)" by fastforce
  obtain e5 w5 where 5: "ss_clear (st_sessions s) u w4 = (e5, w5)" by fastforce
  consider (put) "e1 \<noteq> None" "e \<noteq> None" "w' = w1"
    | (mark) "e1 = None" "e2 \<noteq> None" "e \<noteq> None" "w' = w2"
    | (inc_failed) "e1 = None" "e2 = None" "\<not> is_ok n" "e \<noteq> None" "w' = w3"
    | (stored) "e1 = None" "e2 = None" "is_ok n" "e = None" "w' = w5"
    using assms(2)
    by (auto simp: publish_blob_def 1 2 3 4 5 Let_def is_ok_def split: option.splits sum.splits)
  then show ?thesis
  proof cases
    case put
    then show ?thesis using s1(1) by auto
  next
    case mark
    then show ?thesis using s2 by auto
  next
    case inc_failed
    then have "blobs w2 (blob_key d) = Some b" using s1(2) h2 by (simp add: harmless_def)
    from safe_inc [OF s2 3 this assms(3)] inc_failed show ?thesis by auto
  next
    case stored
    then have "blobs w2 (blob_key d) = Some b" using s1(2) h2 by (simp add: harmless_def)
    from safe_inc [OF s2 3 this assms(3)] stored have s3: "safe (add_mset d h) w3" by simp
    have ok3: "ok w3" using s3 by (simp add: safe_def)
    have s4: "safe (add_mset d h) w4" by (rule harmless_safe [OF harmless_calls(8) [OF ok3 4] s3])
    have ok4: "ok w4" using s4 by (simp add: safe_def)
    have "safe (add_mset d h) w5" by (rule harmless_safe [OF harmless_calls(5) [OF ok4 5] s4])
    with stored show ?thesis by simp
  qed
qed

lemma complete_safe:
  assumes "safe h w" "complete_blob s u d r w = (e, w')"
  shows "safe (if e = None then add_mset d h else h) w'"
proof -
  have ok: "ok w" using assms(1) by (simp add: safe_def)
  show ?thesis
  proof (cases r)
    case (Inl x)
    then show ?thesis using assms by (auto simp: complete_blob_def)
  next
    case (Inr chunk)
    obtain ex w1 where 1: "read_if_exists s (upload_key u) w = (ex, w1)" by fastforce
    have s1: "safe h w1" by (rule harmless_safe [OF read_harmless [OF ok 1] assms(1)])
    show ?thesis
    proof (cases ex)
      case (Inl x)
      then show ?thesis using assms(2) Inr 1 s1 by (auto simp: complete_blob_def)
    next
      case old: (Inr old)
      show ?thesis
      proof (cases "verify_digest (st_sha s) (Inr (old @ chunk)) d")
        case (Some x)
        then show ?thesis using assms(2) Inr 1 old s1 by (auto simp: complete_blob_def)
      next
        case None
        then have "publish_blob s u d (old @ chunk) w1 = (e, w')"
          using assms(2) Inr 1 old by (simp add: complete_blob_def)
        from publish_safe [OF s1 this None] show ?thesis .
      qed
    qed
  qed
qed

lemma release_step:
  assumes "safe h w" "d \<in># h" "ss_dec_ref (st_sessions s) d w = (n, w')"
  shows "safe (h - {#d#}) w'" and "n = Inr k \<Longrightarrow> k \<le> 0 \<Longrightarrow> d \<notin># h - {#d#}"
proof -
  have ok: "ok w" using assms(1) by (simp add: safe_def)
  note c = dec [OF ok assms(3)]
  have le: "int (count h d') \<le> count_of (refs w) d'" for d' using assms(1) by (simp add: safe_def)
  have nn: "0 \<le> count_of (refs w) d'" for d' using le [of d'] by linarith
  have "int (count (h - {#d#}) d') \<le> count_of (refs w') d'" for d'
    using c le [of d'] nn [of d'] count_of_dec [of "refs w" d d'] positive [OF ok, of d]
    by (cases "d' = d") (auto simp: max_def)
  moreover have "\<exists>b. blobs w' (blob_key d') = Some b \<and> verify_digest (st_sha s) (Inr b) d' = None"
    if "d' \<in># h - {#d#}" for d'
    using in_diffD [OF that] assms(1) c by (auto simp: safe_def)
  ultimately show "safe (h - {#d#}) w'" using c by (auto simp: safe_def)
  show "d \<notin># h - {#d#}" if "n = Inr k" "k \<le> 0"
  proof -
    have "count_of (refs w) d \<le> 1" using c that by auto
    then have "count h d \<le> 1" using le [of d] by linarith
    then show ?thesis by (simp add: not_in_iff)
  qed
qed

lemma release_safe:
  "safe h w \<Longrightarrow> mset ds \<subseteq># h \<Longrightarrow> safe (h - mset ds) (release_refs s ds w)"
proof (induction ds arbitrary: h w)
  case (Cons d ds)
  have dh: "d \<in># h" using Cons.prems(2) by (simp add: insert_subset_eq_iff)
  obtain n w1 where 1: "ss_dec_ref (st_sessions s) d w = (n, w1)" by fastforce
  note st = release_step [OF Cons.prems(1) dh 1]
  have sub: "mset ds \<subseteq># h - {#d#}" using Cons.prems(2) by (simp add: insert_subset_eq_iff)
  have eq: "h - mset (d # ds) = h - {#d#} - mset ds" by simp
  show ?case
  proof (cases "\<exists>k. n = Inr k \<and> k \<le> 0")
    case False
    then have "release_refs s (d # ds) w = release_refs s ds w1"
      by (auto simp: 1 split: sum.splits)
    then show ?thesis unfolding eq using Cons.IH [OF st(1) sub] by simp
  next
    case True
    then obtain k where k: "n = Inr k" "k \<le> 0" by blast
    obtain e w2 where 2: "bs_delete (st_blobs s) (blob_key d) w1 = (e, w2)" by fastforce
    have "safe (h - {#d#}) w2"
      using st(1) st(2) [OF k] delete [OF _ 2] by (auto simp: safe_def)
    then show ?thesis unfolding eq using Cons.IH [OF _ sub] k by (simp add: 1 2)
  qed
qed simp

lemma step_safe: "push_step s (h, w) (h', w') \<Longrightarrow> safe h w \<Longrightarrow> safe h' w'"
proof (elim push_stepE)
  assume safe: "safe h w"
  then have ok: "ok w" by (simp add: safe_def)
  note hs = harmless_safe [OF _ safe]
  { fix r assume "begin_upload s w = (r, w')" "h' = h"
    then show "safe h' w'" using hs begin_harmless [OF ok] by blast }
  { fix u off r x assume "write_chunk s u off r w = (x, w')" "h' = h"
    then show "safe h' w'" using hs chunk_harmless [OF ok] by blast }
  { fix u d r assume "complete_blob s u d r w = (None, w')" "h' = add_mset d h"
    then show "safe h' w'" using complete_safe [OF safe] by fastforce }
  { fix u d r e assume "complete_blob s u d r w = (Some e, w')" "h' = h"
    then show "safe h' w'" using complete_safe [OF safe] by fastforce }
  { fix u e assume "abandon_upload s u w = (e, w')" "h' = h"
    then show "safe h' w'" using hs abandon_harmless [OF ok] by blast }
  { fix repo ref m c ls x assume "put_manifest s repo ref m c ls w = (x, w')" "h' = h"
    then show "safe h' w'" using hs manifest_harmless [OF ok] by blast }
  { fix d x assume "get_staged_blob s d w = (x, w')" "h' = h"
    then show "safe h' w'" using hs fetch_harmless [OF ok] by blast }
  { fix ds assume "mset ds \<subseteq># h" "h' = h - mset ds" "w' = release_refs s ds w"
    then show "safe h' w'" using release_safe [OF safe] by simp }
qed

lemma run_safe: "push_run s (h, w) (h', w') \<Longrightarrow> safe h w \<Longrightarrow> safe h' w'"
proof (induction "(h, w)" "(h', w')" arbitrary: h' w' rule: push_run.induct)
  case (step c')
  then show ?case by (cases c') (blast intro: step_safe)
qed simp

end

section \<open>The in-memory stores\<close>

definition mem_store :: "(bytes \<Rightarrow> string) \<Rightarrow> (mem_staging \<Rightarrow> string) \<Rightarrow> mem_staging staging" where
  "mem_store sha ids = \<lparr>st_blobs = mem_blob_store, st_sessions = mem_session_store,
     st_idgen = (\<lambda>w. (ids w, w)), st_sha = sha\<rparr>"

definition mem_ok :: "mem_staging \<Rightarrow> bool" where
  "mem_ok m \<longleftrightarrow> (\<forall>d n. ms_refs m d = Some n \<longrightarrow> 0 < n)"

lemmas mem_staging_simps = mem_store_def mem_blob_store_def mem_session_store_def mem_put_def
  mem_get_def mem_delete_def mem_begin_def mem_cas_offset_def mem_mark_complete_def
  mem_all_complete_def mem_clear_def mem_inc_ref_def mem_dec_ref_def

interpretation memst: staging_backend "mem_store sha ids" mem_ok ms_blobs ms_refs for sha ids
proof (unfold_locales, goal_cases)
  case (10 w d n w')
  then show ?case
    by (auto simp: mem_staging_simps mem_ok_def Let_def inc_count_def count_of_def fun_eq_iff
        split: option.splits if_splits) (smt (verit))+
next
  case (11 w d n w')
  then have pos: "0 < k" if "ms_refs w d = Some k" for k using that by (simp add: mem_ok_def)
  show ?case
  proof (cases "ms_refs w d")
    case None
    with 11 show ?thesis by (auto simp: mem_staging_simps dec_count_def)
  next
    case (Some k)
    with pos have "0 < k" by simp
    then have "k \<le> 1 \<longleftrightarrow> k = 1" by linarith
    with Some 11 show ?thesis
      by (auto simp: mem_staging_simps mem_ok_def Let_def dec_count_def count_of_def split: if_splits)
  qed
qed (auto simp: mem_staging_simps mem_ok_def split: sum.splits option.splits if_splits)

section \<open>The Valkey session store\<close>

text \<open>
  The state of a deployment: blobs in a blob store, sessions in Valkey. The blob side is the
  in-memory one; any store meeting the blob laws would do.
\<close>

record 'k shared =
  sh_mem :: mem_staging
  sh_conn :: "'k conn"

definition on_mem :: "(mem_staging \<Rightarrow> 'a \<times> mem_staging) \<Rightarrow> 'k shared \<Rightarrow> 'a \<times> 'k shared" where
  "on_mem f w = (case f (sh_mem w) of (x, m) \<Rightarrow> (x, w\<lparr>sh_mem := m\<rparr>))"

definition on_conn :: "('k conn \<Rightarrow> 'a \<times> 'k conn) \<Rightarrow> 'k shared \<Rightarrow> 'a \<times> 'k shared" where
  "on_conn f w = (case f (sh_conn w) of (x, c) \<Rightarrow> (x, w\<lparr>sh_conn := c\<rparr>))"

definition shared_store ::
  "'k valkey_sessions \<Rightarrow> (bytes \<Rightarrow> string) \<Rightarrow> ('k shared \<Rightarrow> string) \<Rightarrow> 'k shared staging" where
  "shared_store v sha ids = \<lparr>
     st_blobs = \<lparr>bs_put = (\<lambda>k r. on_mem (mem_put k r)), bs_get = (\<lambda>k. on_mem (mem_get k)),
       bs_delete = (\<lambda>k. on_mem (mem_delete k))\<rparr>,
     st_sessions = \<lparr>ss_begin = (\<lambda>u. on_conn (vk_begin v u)),
       ss_cas_offset = (\<lambda>u a b. on_conn (vk_cas_offset v u a b)),
       ss_mark_complete = (\<lambda>u d. on_conn (vk_mark_complete v u d)),
       ss_all_complete = (\<lambda>ds. on_conn (vk_all_complete v ds)),
       ss_clear = (\<lambda>u. on_conn (vk_clear v u)),
       ss_inc_ref = (\<lambda>d. on_conn (vk_inc_ref v d)), ss_dec_ref = (\<lambda>d. on_conn (vk_dec_ref v d))\<rparr>,
     st_idgen = (\<lambda>w. (ids w, w)), st_sha = sha\<rparr>"

lemma shared_store_sha [simp]: "st_sha (shared_store v sha ids) = sha"
  by (simp add: shared_store_def)

locale valkey_sessions_env = valkey_strings cmds strs
  for cmds :: "'k valkey_cmds" and strs :: "'k \<Rightarrow> string \<Rightarrow> string option" +
  fixes v :: "'k valkey_sessions"
  assumes vs_cmds: "vs_cmds v = cmds" and vs_ttl: "0 < vs_ttl v"
begin

definition vrefs :: "'k conn \<Rightarrow> string \<Rightarrow> int option" where
  "vrefs c d = (case strs (cn_db c) (ref_key d) of None \<Rightarrow> None | Some t \<Rightarrow> parse_int t)"

definition refs_ok :: "'k \<Rightarrow> bool" where
  "refs_ok db \<longleftrightarrow> (\<forall>d t. strs db (ref_key d) = Some t \<longrightarrow> (\<exists>n. t = fmt_int n \<and> 0 < n))"

definition vok :: "'k conn \<Rightarrow> bool" where
  "vok c \<longleftrightarrow> refs_ok (cn_db c)"

lemma vrefs_db: "cn_db c' = db \<Longrightarrow> vrefs c' = vrefs (c\<lparr>cn_db := db\<rparr>)"
  by (simp add: vrefs_def fun_eq_iff)

lemma call_effect:
  assumes "vk_call f c = (r, c')"
  shows "cn_db c' = cn_db c \<and> (\<exists>tmo m. r = Inl (NetError tmo m []))
       \<or> cn_db c' = snd (f (cn_db c)) \<and> (r = fst (f (cn_db c)) \<or> (\<exists>tmo m. r = Inl (NetError tmo m [])))"
  using assms by (elim vk_call_cases) auto

text \<open>A call whose script leaves the counters alone.\<close>

lemma refs_frame:
  assumes "vk_call f c = (r, c')" "vok c"
    and "\<And>d. strs (snd (f (cn_db c))) (ref_key d) = strs (cn_db c) (ref_key d)"
  shows "vok c'" "vrefs c' = vrefs c"
proof -
  have "strs (cn_db c') (ref_key d) = strs (cn_db c) (ref_key d)" for d
    using call_effect [OF assms(1)] assms(3) by auto
  then show "vok c'" "vrefs c' = vrefs c"
    using assms(2) by (simp_all add: vok_def refs_ok_def vrefs_def fun_eq_iff)
qed

lemma call_err_frame:
  assumes "call_err f c = (e, c')" "vok c"
    and "\<And>d. strs (snd (f (cn_db c))) (ref_key d) = strs (cn_db c) (ref_key d)"
  shows "vok c' \<and> vrefs c' = vrefs c"
proof -
  obtain r c1 where 1: "vk_call f c = (r, c1)" by fastforce
  have "c' = c1" using assms(1) by (simp add: call_err_def 1 split: sum.splits)
  with refs_frame [OF 1 assms(2,3)] show ?thesis by simp
qed

lemma vk_begin_frame: "vk_begin v u c = (e, c') \<Longrightarrow> vok c \<Longrightarrow> vok c' \<and> vrefs c' = vrefs c"
  unfolding vk_begin_def by (erule call_err_frame) (simp_all add: vk_do_def vs_cmds set_ttl vs_ttl)

lemma vk_mark_frame: "vk_mark_complete v u d c = (e, c') \<Longrightarrow> vok c \<Longrightarrow> vok c' \<and> vrefs c' = vrefs c"
  unfolding vk_mark_complete_def
  by (erule call_err_frame) (simp_all add: vk_do_def vs_cmds set_ttl vs_ttl)

lemma vk_clear_frame: "vk_clear v u c = (e, c') \<Longrightarrow> vok c \<Longrightarrow> vok c' \<and> vrefs c' = vrefs c"
  unfolding vk_clear_def by (erule call_err_frame) (simp_all add: vk_do_def vs_cmds del)

lemma vk_cas_frame:
  assumes "vk_cas_offset v u a b c = (r, c')" "vok c"
  shows "vok c' \<and> vrefs c' = vrefs c"
proof -
  let ?f = "cas_script v (offset_key u) (fmt_int (sint a)) (fmt_int (sint b))"
  obtain r1 c1 where 1: "vk_call ?f c = (r1, c1)" by fastforce
  have "c' = c1" using assms(1) by (simp add: vk_cas_offset_def 1 split: sum.splits)
  moreover have "strs (snd (?f (cn_db c))) (ref_key d) = strs (cn_db c) (ref_key d)" for d
    by (simp add: cas_script_def vs_cmds set_keepttl)
  ultimately show ?thesis using refs_frame [OF 1 assms(2)] by simp
qed

lemma vk_all_frame: "vk_all_complete v ds c = (r, c') \<Longrightarrow> vok c \<Longrightarrow> vok c' \<and> vrefs c' = vrefs c"
proof (induction ds arbitrary: c)
  case (Cons d ds)
  obtain r1 c1 where 1: "vk_call (vk_ask (vc_exists (vs_cmds v) (complete_key d))) c = (r1, c1)" by fastforce
  have f: "vok c1" "vrefs c1 = vrefs c" using refs_frame [OF 1 Cons.prems(2)] by (simp_all add: vk_ask_def)
  show ?case
  proof (cases "r1 = Inr True")
    case True
    then show ?thesis using Cons.prems(1) Cons.IH [of c1] f by (simp add: 1)
  next
    case False
    then have "c' = c1" using Cons.prems(1) by (auto simp: 1 split: sum.splits if_splits)
    then show ?thesis using f by simp
  qed
qed simp

lemma vk_inc_effect:
  assumes "vk_inc_ref v d c = (n, c')" "vok c"
  shows "vok c' \<and> (vrefs c' = inc_count d (vrefs c) \<or> \<not> is_ok n \<and> vrefs c' = vrefs c)"
proof -
  obtain n1 c1 where 1: "vk_call (vc_incrby cmds 1 (ref_key d)) c = (n1, c1)" by fastforce
  let ?db = "snd (vc_incrby cmds 1 (ref_key d) (cn_db c))"
  have eff: "\<exists>k. 0 < k \<and> k = count_of (vrefs c) d + 1 \<and> strs ?db = (strs (cn_db c))(ref_key d \<mapsto> fmt_int k)
      \<and> fst (vc_incrby cmds 1 (ref_key d) (cn_db c)) = Inr k"
  proof (cases "strs (cn_db c) (ref_key d)")
    case None
    then show ?thesis using incr_none [OF None, of 1] by (simp add: vrefs_def count_of_def)
  next
    case (Some t)
    then obtain k where t: "t = fmt_int k" "0 < k" using assms(2) by (auto simp: vok_def refs_ok_def)
    show ?thesis using incr_some [OF Some [unfolded t], of 1] Some t by (simp add: vrefs_def count_of_def)
  qed
  then have db: "vrefs (c\<lparr>cn_db := ?db\<rparr>) = inc_count d (vrefs c)" "refs_ok ?db"
    using assms(2)
    by (auto simp: vrefs_def inc_count_def vok_def refs_ok_def fun_eq_iff split: if_splits)
  have c1: "vok c1 \<and> (vrefs c1 = inc_count d (vrefs c) \<or> \<not> is_ok n1 \<and> vrefs c1 = vrefs c)"
  proof -
    have same: "cn_db c1 = cn_db c \<Longrightarrow> vrefs c1 = vrefs c" by (simp add: vrefs_def fun_eq_iff)
    show ?thesis
      using call_effect [OF 1] db assms(2) same vrefs_db [of c1 ?db c] by (auto simp: vok_def)
  qed
  show ?thesis
  proof (cases n1)
    case (Inl e)
    then show ?thesis using assms(1) c1 by (auto simp: vk_inc_ref_def vs_cmds 1)
  next
    case (Inr k)
    obtain e c2 where 2: "call_err (vk_do (vc_expire cmds (ref_key d) (vs_ttl v))) c1 = (e, c2)" by fastforce
    have "vok c2 \<and> vrefs c2 = vrefs c1"
      using c1 by (intro call_err_frame [OF 2]) (simp_all add: vk_do_def expire vs_ttl)
    then show ?thesis using assms(1) c1 Inr by (auto simp: vk_inc_ref_def vs_cmds 1 2)
  qed
qed

lemma vk_dec_effect:
  assumes "vk_dec_ref v d c = (n, c')" "vok c"
  shows "vok c' \<and> (vrefs c' = dec_count d (vrefs c) \<or> \<not> is_ok n \<and> vrefs c' = vrefs c)
    \<and> (\<forall>k. n = Inr k \<longrightarrow> vrefs c d \<noteq> None \<and> k = max 0 (count_of (vrefs c) d - 1))"
proof -
  let ?f = "decr_script v (ref_key d)"
  obtain n1 c1 where 1: "vk_call ?f c = (n1, c1)" by fastforce
  have eff: "refs_ok (snd (?f (cn_db c))) \<and> vrefs (c\<lparr>cn_db := snd (?f (cn_db c))\<rparr>) = dec_count d (vrefs c)
     \<and> (case vrefs c d of None \<Rightarrow> fst (?f (cn_db c)) = Inr (- 1)
        | Some k \<Rightarrow> 0 < k \<and> fst (?f (cn_db c)) = Inr (max 0 (k - 1)))"
  proof (cases "strs (cn_db c) (ref_key d)")
    case None
    then show ?thesis
      using assms(2) by (auto simp: decr_script_def vs_cmds exists vrefs_def dec_count_def vok_def)
  next
    case (Some t)
    then obtain k where t: "t = fmt_int k" "0 < k" using assms(2) by (auto simp: vok_def refs_ok_def)
    obtain db1 where db1: "vc_incrby cmds (- 1) (ref_key d) (cn_db c) = (Inr (k - 1), db1)"
      "strs db1 = (strs (cn_db c))(ref_key d \<mapsto> fmt_int (k - 1))"
      using incr_some [OF Some [unfolded t], of "- 1"]
      by (cases "vc_incrby cmds (- 1) (ref_key d) (cn_db c)") auto
    show ?thesis
      using assms(2) t Some
      by (auto simp: decr_script_def vs_cmds exists db1 del vrefs_def dec_count_def vok_def refs_ok_def
          fun_eq_iff max_def)
  qed
  have c1: "vok c1" "vrefs c1 = dec_count d (vrefs c) \<or> \<not> is_ok n1 \<and> vrefs c1 = vrefs c"
  proof -
    have same: "cn_db c1 = cn_db c \<Longrightarrow> vrefs c1 = vrefs c" by (simp add: vrefs_def fun_eq_iff)
    show "vok c1" "vrefs c1 = dec_count d (vrefs c) \<or> \<not> is_ok n1 \<and> vrefs c1 = vrefs c"
      using call_effect [OF 1] eff assms(2) same vrefs_db [of c1 "snd (?f (cn_db c))" c]
      by (auto simp: vok_def)
  qed
  have c': "c' = c1" using assms(1) by (simp add: vk_dec_ref_def 1 split: sum.splits if_splits)
  have n: "\<forall>k. n = Inr k \<longrightarrow> n1 = Inr k \<and> 0 \<le> k"
    using assms(1) by (auto simp: vk_dec_ref_def 1 split: sum.splits if_splits)
  show ?thesis
  proof (cases "is_ok n")
    case True
    then obtain k where k: "n = Inr k" "n1 = Inr k" "0 \<le> k" using n by (cases n) auto
    then have "fst (?f (cn_db c)) = Inr k" using call_effect [OF 1] by auto
    then have "vrefs c d \<noteq> None \<and> k = max 0 (count_of (vrefs c) d - 1)"
      using eff k(3) by (auto simp: count_of_def split: option.splits)
    then show ?thesis using c1 c' k by auto
  next
    case False
    then have nl: "\<forall>k. n \<noteq> Inr k" by (cases n) auto
    show ?thesis
    proof (cases "vrefs c d")
      case None
      then have "dec_count d (vrefs c) = vrefs c" by (simp add: dec_count_def)
      then show ?thesis using c1 c' False nl by auto
    qed (use c1 c' False nl in auto)
  qed
qed

sublocale shared: staging_backend "shared_store v sha ids" "\<lambda>w. vok (sh_conn w)"
  "\<lambda>w. ms_blobs (sh_mem w)" "\<lambda>w. vrefs (sh_conn w)" for sha ids
proof (unfold_locales, goal_cases)
  case (4 w u e w') then show ?case using vk_begin_frame
    by (auto simp: shared_store_def on_conn_def split: prod.splits)
next
  case (5 w u x y r w') then show ?case using vk_cas_frame
    by (auto simp: shared_store_def on_conn_def split: prod.splits)
next
  case (6 w u d e w') then show ?case using vk_mark_frame
    by (auto simp: shared_store_def on_conn_def split: prod.splits)
next
  case (7 w ds r w') then show ?case using vk_all_frame
    by (auto simp: shared_store_def on_conn_def split: prod.splits)
next
  case (8 w u e w') then show ?case using vk_clear_frame
    by (auto simp: shared_store_def on_conn_def split: prod.splits)
next
  case (10 w d n w')
  then obtain c where c: "vk_inc_ref v d (sh_conn w) = (n, c)" "w' = w\<lparr>sh_conn := c\<rparr>"
    by (auto simp: shared_store_def on_conn_def split: prod.splits)
  from vk_inc_effect [OF c(1) 10(1)] show ?case by (simp add: c(2))
next
  case (11 w d n w')
  then obtain c where c: "vk_dec_ref v d (sh_conn w) = (n, c)" "w' = w\<lparr>sh_conn := c\<rparr>"
    by (auto simp: shared_store_def on_conn_def split: prod.splits)
  from vk_dec_effect [OF c(1) 11(1)] show ?case by (simp add: c(2))
next
  case (12 w d m)
  then obtain t where t: "strs (cn_db (sh_conn w)) (ref_key d) = Some t" "parse_int t = Some m"
    by (auto simp: vrefs_def split: option.splits)
  then obtain k where "t = fmt_int k" "0 < k" using 12(1) unfolding vok_def refs_ok_def by blast
  with t(2) show ?case by simp
qed (auto simp: shared_store_def on_mem_def mem_put_def mem_get_def mem_delete_def split: option.splits)

end

interpretation vkst: valkey_sessions_env std_cmds ks_live "new_valkey_sessions std_cmds ttl" for ttl
  by unfold_locales (auto simp: new_valkey_sessions_def default_session_ttl_def duration_units)

section \<open>Session keys expire\<close>

text \<open>Any sequence of session operations on one connection, whatever fails.\<close>

inductive session_step :: "'k valkey_sessions \<Rightarrow> 'k conn \<Rightarrow> 'k conn \<Rightarrow> bool" for v where
  "vk_begin v u c = (e, c') \<Longrightarrow> session_step v c c'"
| "vk_cas_offset v u a b c = (r, c') \<Longrightarrow> session_step v c c'"
| "vk_mark_complete v u d c = (e, c') \<Longrightarrow> session_step v c c'"
| "vk_all_complete v ds c = (r, c') \<Longrightarrow> session_step v c c'"
| "vk_clear v u c = (e, c') \<Longrightarrow> session_step v c c'"
| "vk_inc_ref v d c = (n, c') \<Longrightarrow> session_step v c c'"
| "vk_dec_ref v d c = (n, c') \<Longrightarrow> session_step v c c'"

inductive session_run :: "'k valkey_sessions \<Rightarrow> 'k conn \<Rightarrow> 'k conn \<Rightarrow> bool" for v where
  here: "session_run v c c"
| more: "session_run v c c' \<Longrightarrow> session_step v c' c'' \<Longrightarrow> session_run v c c''"

locale valkey_sessions_ttl = valkey_ttl cmds strs mortal
  for cmds :: "'k valkey_cmds" and strs :: "'k \<Rightarrow> string \<Rightarrow> string option"
    and mortal :: "'k \<Rightarrow> string \<Rightarrow> bool" +
  fixes v :: "'k valkey_sessions"
  assumes vs_cmds: "vs_cmds v = cmds" and vs_ttl: "0 < vs_ttl v"
begin

text \<open>The keys whose expiry no operation depends on a best-effort call for.\<close>

definition all_mortal :: "'k conn \<Rightarrow> bool" where
  "all_mortal c \<longleftrightarrow> (\<forall>u. mortal (cn_db c) (offset_key u)) \<and> (\<forall>d. mortal (cn_db c) (complete_key d))"

lemma call_mortal:
  assumes "vk_call f c = (r, c')" "all_mortal c"
    and "\<And>k. mortal (cn_db c) k \<Longrightarrow> (\<And>d. k \<noteq> ref_key d) \<Longrightarrow> mortal (snd (f (cn_db c))) k"
  shows "all_mortal c'"
  using assms(1)
proof (cases rule: vk_call_cases)
  case unsent
  then show ?thesis using assms(2) by (simp add: all_mortal_def)
qed (use assms(2,3) in \<open>auto simp: all_mortal_def\<close>)

lemma call_err_mortal:
  assumes "call_err f c = (e, c')" "all_mortal c"
    and "\<And>k. mortal (cn_db c) k \<Longrightarrow> (\<And>d. k \<noteq> ref_key d) \<Longrightarrow> mortal (snd (f (cn_db c))) k"
  shows "all_mortal c'"
proof -
  obtain r c1 where 1: "vk_call f c = (r, c1)" by fastforce
  have "c' = c1" using assms(1) by (simp add: call_err_def 1 split: sum.splits)
  with call_mortal [OF 1 assms(2,3)] show ?thesis by simp
qed

lemma all_complete_mortal: "vk_all_complete v ds c = (r, c') \<Longrightarrow> all_mortal c \<Longrightarrow> all_mortal c'"
proof (induction ds arbitrary: c)
  case (Cons d ds)
  obtain r1 c1 where 1: "vk_call (vk_ask (vc_exists (vs_cmds v) (complete_key d))) c = (r1, c1)" by fastforce
  have m: "all_mortal c1" by (rule call_mortal [OF 1 Cons.prems(2)]) (simp add: vk_ask_def)
  show ?case
    using Cons.prems(1) Cons.IH [of c1] m by (auto simp: 1 split: sum.splits if_splits)
qed simp

lemma step_mortal: "session_step v c c' \<Longrightarrow> all_mortal c \<Longrightarrow> all_mortal c'"
proof (induction rule: session_step.induct)
  case (1 u c e c')
  then show ?case unfolding vk_begin_def
    by (elim call_err_mortal) (auto simp: vk_do_def vs_cmds intro: mortal_set vs_ttl)
next
  case (2 u a b c r c')
  let ?f = "cas_script v (offset_key u) (fmt_int (sint a)) (fmt_int (sint b))"
  obtain r1 c1 where 1: "vk_call ?f c = (r1, c1)" by fastforce
  have "c' = c1" using 2(1) by (simp add: vk_cas_offset_def 1 split: sum.splits)
  moreover have "all_mortal c1"
    by (rule call_mortal [OF 1 2(2)]) (auto simp: cas_script_def vs_cmds get intro: mortal_keepttl)
  ultimately show ?case by simp
next
  case (3 u d c e c')
  then show ?case unfolding vk_mark_complete_def
    by (elim call_err_mortal) (auto simp: vk_do_def vs_cmds intro: mortal_set vs_ttl)
next
  case (4 ds c r c')
  then show ?case by (rule all_complete_mortal)
next
  case (5 u c e c')
  then show ?case unfolding vk_clear_def
    by (elim call_err_mortal) (auto simp: vk_do_def vs_cmds intro: mortal_del)
next
  case (6 d c n c')
  obtain n1 c1 where 1: "vk_call (vc_incrby (vs_cmds v) 1 (ref_key d)) c = (n1, c1)" by fastforce
  have m1: "all_mortal c1" by (rule call_mortal [OF 1 6(2)]) (auto simp: vs_cmds intro: mortal_incr)
  obtain e c2 where 2: "call_err (vk_do (vc_expire (vs_cmds v) (ref_key d) (vs_ttl v))) c1 = (e, c2)" by fastforce
  have "all_mortal c2"
    by (rule call_err_mortal [OF 2 m1]) (auto simp: vk_do_def vs_cmds intro: mortal_expire vs_ttl)
  with m1 show ?case using 6(1) by (auto simp: vk_inc_ref_def 1 2 split: sum.splits)
next
  case (7 d c n c')
  obtain n1 c1 where 1: "vk_call (decr_script v (ref_key d)) c = (n1, c1)" by fastforce
  have "c' = c1" using 7(1) by (simp add: vk_dec_ref_def 1 split: sum.splits if_splits)
  moreover have "all_mortal c1"
  proof (rule call_mortal [OF 1 7(2)])
    fix k assume "mortal (cn_db c) k" "\<And>d. k \<noteq> ref_key d"
    then have "mortal (snd (vc_incrby cmds (- 1) (ref_key d) (cn_db c))) k"
      by (auto intro: mortal_incr)
    then show "mortal (snd (decr_script v (ref_key d) (cn_db c))) k"
      using \<open>mortal (cn_db c) k\<close>
      by (auto simp: decr_script_def vs_cmds split: prod.splits sum.splits intro: mortal_del)
  qed
  ultimately show ?case by simp
qed

lemma run_mortal: "session_run v c c' \<Longrightarrow> all_mortal c \<Longrightarrow> all_mortal c'"
  by (induction rule: session_run.induct) (auto intro: step_mortal)

end

interpretation vkttl: valkey_sessions_ttl std_cmds ks_live ks_mortal "new_valkey_sessions std_cmds ttl" for ttl
  by unfold_locales (auto simp: new_valkey_sessions_def default_session_ttl_def duration_units)

section \<open>Properties\<close>


definition sample_shared :: "keyspace shared" where
  "sample_shared = \<lparr>sh_mem = empty_mem_staging,
     sh_conn = \<lparr>cn_db = empty_keyspace, cn_now = 0, cn_faults = []\<rparr>\<rparr>"


text \<open>
  C38: a manifest that lists one layer twice breaks the protection. The push uploads the layer once
  and takes one reference, but its cleanup releases one reference per listed digest, so it drops
  the reference of another push and deletes bytes that push still needs.
\<close>

theorem duplicate_layer_deletes_shared_blob:
  assumes "verify_digest sha (Inr b) d = None"
  shows "let S = mem_store sha ids;
      (e1, w1) = complete_blob S u1 d (Inr b) empty_mem_staging;
      (e2, w2) = complete_blob S u2 d (Inr b) w1;
      first_push = \<lparr>mr_repo = r, mr_ref = t, mr_manifest = m, mr_config_digest = [],
                    mr_layer_digests = [d, d]\<rparr>;
      w3 = release_refs S (cleanup_digests first_push) w2
    in e1 = None \<and> e2 = None \<and> ms_blobs w2 (blob_key d) = Some b
       \<and> ms_blobs w3 (blob_key d) = None"
  using assms
  by (simp add: complete_blob_def read_if_exists_def publish_blob_def cleanup_digests_def
      mem_staging_simps empty_mem_staging_def Let_def)

lemma duplicate_layer_deletes_shared_blob_witness:
  "let S = mem_store (\<lambda>_. ''aa'') (\<lambda>_. []);
      (e1, w1) = complete_blob S ''u1'' ''sha256:aa'' (Inr ''x'') empty_mem_staging;
      (e2, w2) = complete_blob S ''u2'' ''sha256:aa'' (Inr ''x'') w1;
      first_push = \<lparr>mr_repo = [], mr_ref = [], mr_manifest = [], mr_config_digest = [],
                    mr_layer_digests = [''sha256:aa'', ''sha256:aa'']\<rparr>;
      w3 = release_refs S (cleanup_digests first_push) w2
    in e1 = None \<and> e2 = None \<and> ms_blobs w2 (blob_key ''sha256:aa'') = Some ''x''
       \<and> ms_blobs w3 (blob_key ''sha256:aa'') = None"
proof (rule duplicate_layer_deletes_shared_blob)
  show "verify_digest (\<lambda>_. ''aa'') (Inr ''x'') ''sha256:aa'' = None"
    unfolding verify_digest_ok by (rule exI [of _ "''aa''"]) (simp add: to_lower_def lower_char_def)
qed

text \<open>
  No session key is immortal. Whatever the session operations, their order and the failures of
  the connection, and whatever lifetime is configured (zero and negative mean 24 hours), every
  upload offset and every completion flag in Valkey carries an expiry.
\<close>

theorem session_keys_expire:
  assumes "session_run (new_valkey_sessions std_cmds ttl) c c'" and "cn_db c = empty_keyspace"
  shows "ks_mortal (cn_db c') (offset_key u) \<and> ks_mortal (cn_db c') (complete_key d)"
proof -
  have "vkttl.all_mortal c"
    using assms(2) by (simp add: vkttl.all_mortal_def ks_mortal_def ks_entry_def empty_keyspace_def)
  from vkttl.run_mortal [OF assms(1) this] show ?thesis by (simp add: vkttl.all_mortal_def)
qed

lemma session_keys_expire_witness:
  "let v = new_valkey_sessions std_cmds 0;
       c = \<lparr>cn_db = empty_keyspace, cn_now = 0, cn_faults = [NoFault, FailAfter True []]\<rparr>;
       c1 = snd (vk_begin v ''u'' c); c2 = snd (vk_cas_offset v ''u'' 0 5 c1)
   in ks_mortal (cn_db c2) (offset_key ''u'') \<and> ks_mortal (cn_db c2) (complete_key ''d'')"
  unfolding Let_def
  by (rule session_keys_expire
        [OF session_run.more [OF session_run.more [OF session_run.here session_step.intros(1)]
           session_step.intros(2)]])
     (auto simp: prod_eq_iff)

text \<open>Chunks written one after the other at the running offset.\<close>

fun write_chunks :: "'w staging \<Rightarrow> string \<Rightarrow> int64 \<Rightarrow> bytes list \<Rightarrow> 'w \<Rightarrow> int64 res \<times> 'w" where
  "write_chunks s u off [] w = (Inr off, w)"
| "write_chunks s u off (c # cs) w =
     (case write_chunk s u off (Inr c) w of
        (Inl e, w') \<Rightarrow> (Inl e, w')
      | (Inr off', w') \<Rightarrow> write_chunks s u off' cs w')"

definition uploaded :: "mem_staging \<Rightarrow> string \<Rightarrow> bytes" where
  "uploaded m u = (case ms_blobs m (upload_key u) of None \<Rightarrow> [] | Some b \<Rightarrow> b)"

lemma write_chunk_mem:
  assumes "ms_sessions m u = Some off"
  shows "write_chunk (mem_store sha ids) u off (Inr c) m =
    (Inr (off + of_nat (length c)),
     m\<lparr>ms_sessions := (ms_sessions m)(u \<mapsto> off + of_nat (length c)),
       ms_blobs := (ms_blobs m)(upload_key u \<mapsto> uploaded m u @ c)\<rparr>)"
  using assms
  by (auto simp: write_chunk_def mem_staging_simps read_if_exists_def uploaded_def Let_def
      split: option.splits)

lemma write_chunks_mem:
  assumes "ms_sessions m u = Some off"
  shows "\<exists>m'. write_chunks (mem_store sha ids) u off cs m
      = (Inr (off + of_nat (length (concat cs))), m')
    \<and> ms_sessions m' u = Some (off + of_nat (length (concat cs)))
    \<and> uploaded m' u = uploaded m u @ concat cs"
  using assms
proof (induction cs arbitrary: off m)
  case (Cons c cs)
  let ?m = "m\<lparr>ms_sessions := (ms_sessions m)(u \<mapsto> off + of_nat (length c)),
       ms_blobs := (ms_blobs m)(upload_key u \<mapsto> uploaded m u @ c)\<rparr>"
  have "ms_sessions ?m u = Some (off + of_nat (length c))" by simp
  from Cons.IH [OF this] obtain m' where
    "write_chunks (mem_store sha ids) u (off + of_nat (length c)) cs ?m
      = (Inr (off + of_nat (length c) + of_nat (length (concat cs))), m')"
    "ms_sessions m' u = Some (off + of_nat (length c) + of_nat (length (concat cs)))"
    "uploaded m' u = uploaded ?m u @ concat cs" by blast
  moreover have "uploaded ?m u = uploaded m u @ c" by (simp add: uploaded_def)
  ultimately show ?case by (simp add: write_chunk_mem [OF Cons.prems] add.assoc)
qed (simp add: uploaded_def)

text \<open>
  A chunked upload round-trips. Chunks written in order at the running offset, and a final
  chunk with the completing request, end up as their concatenation under the claimed digest when
  it verifies; the upload's own blob and session are gone afterwards.
\<close>

theorem chunked_upload_round_trip:
  assumes "verify_digest sha (Inr (concat cs @ last_chunk)) d = None"
  shows "let S = mem_store sha ids;
      (i, w1) = begin_upload S empty_mem_staging;
      u = (case i of Inr x \<Rightarrow> x | Inl _ \<Rightarrow> []);
      (off, w2) = write_chunks S u 0 cs w1;
      (e, w3) = complete_blob S u d (Inr last_chunk) w2
    in off = Inr (of_nat (length (concat cs))) \<and> e = None
       \<and> ms_blobs w3 (blob_key d) = Some (concat cs @ last_chunk)
       \<and> ms_blobs w3 (upload_key u) = None \<and> ms_sessions w3 u = None"
proof -
  let ?S = "mem_store sha ids" and ?u = "ids empty_mem_staging"
  obtain w1 where 1: "begin_upload ?S empty_mem_staging = (Inr ?u, w1)"
    "ms_sessions w1 ?u = Some 0" "uploaded w1 ?u = []"
    by (auto simp: begin_upload_def mem_staging_simps empty_mem_staging_def uploaded_def)
  obtain w2 where 2: "write_chunks ?S ?u 0 cs w1 = (Inr (of_nat (length (concat cs))), w2)"
    "uploaded w2 ?u = concat cs"
    using write_chunks_mem [OF 1(2), of sha ids cs] 1(3) by auto
  have rd: "read_if_exists ?S (upload_key ?u) w2 = (Inr (concat cs), w2)"
    using 2(2) by (auto simp: read_if_exists_def mem_staging_simps uploaded_def split: option.splits)
  have sha: "st_sha ?S = sha" by (simp add: mem_store_def)
  have cb: "complete_blob ?S ?u d (Inr last_chunk) w2 = publish_blob ?S ?u d (concat cs @ last_chunk) w2"
    using assms by (simp add: complete_blob_def rd sha)
  obtain w3 where 3: "publish_blob ?S ?u d (concat cs @ last_chunk) w2 = (None, w3)"
    "ms_blobs w3 (blob_key d) = Some (concat cs @ last_chunk)"
    "ms_blobs w3 (upload_key ?u) = None" "ms_sessions w3 ?u = None"
    by (simp add: publish_blob_def mem_staging_simps Let_def)
  show ?thesis by (simp add: 1 2 cb 3)
qed

lemma chunked_upload_round_trip_witness:
  "let S = mem_store (\<lambda>_. ''aa'') (\<lambda>_. ''u'');
      (i, w1) = begin_upload S empty_mem_staging;
      u = (case i of Inr x \<Rightarrow> x | Inl _ \<Rightarrow> []);
      (off, w2) = write_chunks S u 0 [''ab'', ''c''] w1;
      (e, w3) = complete_blob S u ''sha256:aa'' (Inr ''d'') w2
    in off = Inr (of_nat (length (concat [''ab'', ''c'']))) \<and> e = None
       \<and> ms_blobs w3 (blob_key ''sha256:aa'') = Some (concat [''ab'', ''c''] @ ''d'')
       \<and> ms_blobs w3 (upload_key u) = None \<and> ms_sessions w3 u = None"
proof (rule chunked_upload_round_trip)
  show "verify_digest (\<lambda>_. ''aa'') (Inr (concat [''ab'', ''c''] @ ''d'')) ''sha256:aa'' = None"
    unfolding verify_digest_ok by (rule exI [of _ "''aa''"]) (simp add: to_lower_def lower_char_def)
qed

end
