(* ===== verification/File_System.thy ===== *)
theory File_System
  imports Go_Path "HOL-Library.Sublist"
begin

text \<open>
  The file-system calls of package \<open>os\<close> that the program makes: \<open>MkdirAll\<close>, \<open>WriteFile\<close>,
  \<open>Create\<close>, \<open>RemoveAll\<close>, \<open>Stat\<close>. A file system maps locations (see \<open>loc_of\<close>) to directories and
  files. Failures the program cannot foresee (a full disk, a permission) are two fault maps: an
  error when a path is opened or made, and an error while its bytes are written, which leaves the
  file there, empty.
\<close>

type_synonym loc = "bool \<times> string list"

datatype fs_node = FDir | FFile string

record fs =
  fs_nodes :: "loc \<Rightarrow> fs_node option"
  fs_open_fault :: "string \<Rightarrow> goerr option"
  fs_write_fault :: "string \<Rightarrow> goerr option"

definition fs_set :: "loc \<Rightarrow> fs_node \<Rightarrow> fs \<Rightarrow> fs" where
  "fs_set l n fs = fs\<lparr>fs_nodes := (fs_nodes fs)(l \<mapsto> n)\<rparr>"

text \<open>The root and the working directory are directories.\<close>

definition fs_lookup :: "fs \<Rightarrow> loc \<Rightarrow> fs_node option" where
  "fs_lookup fs l = (if snd l = [] then Some FDir else fs_nodes fs l)"

definition is_file_at :: "fs \<Rightarrow> loc \<Rightarrow> bool" where
  "is_file_at fs l = (case fs_lookup fs l of Some (FFile _) \<Rightarrow> True | _ \<Rightarrow> False)"

definition above :: "loc \<Rightarrow> loc \<Rightarrow> bool" where
  "above l m \<longleftrightarrow> fst l = fst m \<and> prefix (snd l) (snd m)"

definition os_mkdir_all :: "string \<Rightarrow> fs \<Rightarrow> goerr option \<times> fs" where
  "os_mkdir_all p fs =
     (case fs_open_fault fs p of
        Some e \<Rightarrow> (Some e, fs)
      | None \<Rightarrow>
          (let l = loc_of p in
           if list_ex (\<lambda>cs. is_file_at fs (fst l, cs)) (prefixes (snd l))
           then (Some (ErrMsg (''mkdir '' @ p @ '': not a directory'')), fs)
           else (None, fs\<lparr>fs_nodes := (\<lambda>m. if above m l \<and> snd m \<noteq> [] then Some FDir else fs_nodes fs m)\<rparr>)))"

text \<open>\<open>os.Create\<close> truncates; \<open>os.WriteFile\<close> creates and writes.\<close>

definition os_create :: "string \<Rightarrow> fs \<Rightarrow> goerr option \<times> fs" where
  "os_create p fs =
     (case fs_open_fault fs p of
        Some e \<Rightarrow> (Some e, fs)
      | None \<Rightarrow>
          (let l = loc_of p in
           if fs_lookup fs l = Some FDir then (Some (ErrMsg (''open '' @ p @ '': is a directory'')), fs)
           else if fs_lookup fs (fst l, butlast (snd l)) \<noteq> Some FDir
           then (Some (ErrMsg (''open '' @ p @ '': no such file or directory'')), fs)
           else (None, fs_set l (FFile []) fs)))"

definition os_write :: "string \<Rightarrow> string \<Rightarrow> fs \<Rightarrow> goerr option \<times> fs" where
  "os_write p b fs =
     (case fs_write_fault fs p of
        Some e \<Rightarrow> (Some e, fs)
      | None \<Rightarrow> (None, fs_set (loc_of p) (FFile b) fs))"

definition os_write_file :: "string \<Rightarrow> string \<Rightarrow> fs \<Rightarrow> goerr option \<times> fs" where
  "os_write_file p b fs =
     (case os_create p fs of
        (Some e, fs1) \<Rightarrow> (Some e, fs1)
      | (None, fs1) \<Rightarrow> os_write p b fs1)"

text \<open>\<open>RemoveAll\<close> does nothing for the empty path and refuses a path that ends in a dot.\<close>

definition os_remove_all :: "string \<Rightarrow> fs \<Rightarrow> goerr option \<times> fs" where
  "os_remove_all p fs =
     (if p = [] then (None, fs)
      else if p = ''.'' \<or> has_suffix p ''/.'' then (Some (ErrMsg (''RemoveAll '' @ p @ '': invalid argument'')), fs)
      else case fs_open_fault fs p of
        Some e \<Rightarrow> (Some e, fs)
      | None \<Rightarrow> (None, fs\<lparr>fs_nodes := (\<lambda>m. if above (loc_of p) m then None else fs_nodes fs m)\<rparr>))"

definition os_stat_ok :: "string \<Rightarrow> fs \<Rightarrow> bool" where
  "os_stat_ok p fs \<longleftrightarrow> fs_lookup fs (loc_of p) \<noteq> None"

section \<open>What the calls change\<close>

text \<open>\<open>confined d fs fs'\<close>: every node that changed is on the way to \<open>d\<close> or below it.\<close>

definition confined :: "loc \<Rightarrow> fs \<Rightarrow> fs \<Rightarrow> bool" where
  "confined d fs fs' \<longleftrightarrow> (\<forall>l. fs_nodes fs' l \<noteq> fs_nodes fs l \<longrightarrow> above l d \<or> above d l)"

lemma confined_refl [simp]: "confined d fs fs"
  by (simp add: confined_def)

lemma confined_trans: "confined d fs fs' \<Longrightarrow> confined d fs' fs'' \<Longrightarrow> confined d fs fs''"
  unfolding confined_def by metis

lemma above_refl [simp]: "above l l"
  by (simp add: above_def)

lemma above_chain: "above d l \<Longrightarrow> above m l \<Longrightarrow> above m d \<or> above d m"
  by (auto simp: above_def dest: prefix_same_cases)

lemma confined_mkdir: "above d (loc_of p) \<Longrightarrow> confined d fs (snd (os_mkdir_all p fs))"
  by (auto simp: os_mkdir_all_def confined_def Let_def split: option.splits dest: above_chain)

lemma confined_set: "above d l \<Longrightarrow> confined d fs (fs_set l n fs)"
  by (auto simp: confined_def fs_set_def)

lemma confined_create:
  assumes "above d (loc_of p)"
  shows "confined d fs (snd (os_create p fs))"
  using confined_set [OF assms, of fs "FFile []"]
  unfolding os_create_def Let_def by (cases "fs_open_fault fs p"; simp split: if_split)

lemma confined_write:
  assumes "above d (loc_of p)"
  shows "confined d fs (snd (os_write p b fs))"
  using confined_set [OF assms, of fs "FFile b"]
  unfolding os_write_def by (cases "fs_write_fault fs p"; simp)

lemma confined_write_file:
  assumes "above d (loc_of p)"
  shows "confined d fs (snd (os_write_file p b fs))"
proof -
  obtain e fs1 where 1: "os_create p fs = (e, fs1)" by fastforce
  have "confined d fs fs1" using confined_create [OF assms, of fs] by (simp add: 1)
  then show ?thesis
    using confined_write [OF assms, of fs1 b]
    by (auto simp: os_write_file_def 1 split: option.splits elim: confined_trans)
qed

lemma confined_remove: "above d (loc_of p) \<Longrightarrow> confined d fs (snd (os_remove_all p fs))"
  by (auto simp: os_remove_all_def confined_def above_def split: option.splits)

text \<open>A written file can be read back, and writing one file leaves every other alone.\<close>

lemma write_file_ok:
  "os_write_file p b fs = (None, fs') \<Longrightarrow> fs_nodes fs' (loc_of p) = Some (FFile b)"
  by (auto simp: os_write_file_def os_create_def os_write_def fs_set_def Let_def
      split: option.splits if_splits prod.splits)

lemma write_file_other:
  "os_write_file p b fs = (e, fs') \<Longrightarrow> l \<noteq> loc_of p \<Longrightarrow> fs_nodes fs' l = fs_nodes fs l"
  by (auto simp: os_write_file_def os_create_def os_write_def fs_set_def Let_def
      split: option.splits if_splits prod.splits)

lemma mkdir_keeps_files:
  assumes "os_mkdir_all p fs = (e, fs')" and isf: "fs_nodes fs l = Some (FFile b)"
  shows "fs_nodes fs' l = Some (FFile b)"
proof (cases "fs_nodes fs' = fs_nodes fs")
  case False
  have fs': "fs_nodes fs' = (\<lambda>m. if above m (loc_of p) \<and> snd m \<noteq> [] then Some FDir else fs_nodes fs m)"
    and ok: "\<not> list_ex (\<lambda>cs. is_file_at fs (fst (loc_of p), cs)) (prefixes (snd (loc_of p)))"
    using assms(1) False by (auto simp: os_mkdir_all_def Let_def split: option.splits if_splits)
  have "\<not> (above l (loc_of p) \<and> snd l \<noteq> [])"
  proof
    assume a: "above l (loc_of p) \<and> snd l \<noteq> []"
    then have "(fst (loc_of p), snd l) = l" by (simp add: above_def prod_eq_iff)
    moreover have "is_file_at fs l" using a isf by (simp add: is_file_at_def fs_lookup_def)
    moreover have "snd l \<in> set (prefixes (snd (loc_of p)))" using a by (simp add: above_def)
    ultimately show False using ok unfolding list_ex_iff by metis
  qed
  then show ?thesis using fs' isf by auto
qed (simp add: isf)

lemma path_components_below:
  "dest \<noteq> [] \<Longrightarrow> above (loc_of dest) (loc_of (path_join [dest, path_clean (slash # name)]))"
  by (simp add: loc_of_entry above_def) (simp add: loc_of_def)

end
