(* ===== verification/Staging_Assemble.thy ===== *)
theory Staging_Assemble
  imports Staging_Refs File_System Policy_Engine
begin

text \<open>
  \<open>internal/staging/assemble.go\<close> and \<open>created.go\<close>: a complete push becomes an OCI image layout and an
  extracted root filesystem under a scratch directory. The state is the store's and a file system.
  gzip, tar and JSON are the standard library's; their results are fields of \<open>codecs\<close>. A tar
  stream is the entries before its end and the error that ended it, \<open>None\<close> for \<open>io.EOF\<close>.
\<close>

datatype tar_kind = TarDir | TarReg | TarRegA | TarSymlink | TarLink | TarOther

record tar_entry =
  te_name :: string
  te_kind :: tar_kind
  te_body :: bytes
  te_body_err :: "goerr option"

record codecs =
  cd_gunzip :: "bytes \<Rightarrow> bytes res"
  cd_untar :: "bytes \<Rightarrow> tar_entry list \<times> goerr option"
  cd_media_type :: "bytes \<Rightarrow> string res"
  cd_created :: "bytes \<Rightarrow> string res"
  cd_rfc3339 :: "string \<Rightarrow> gotime res"
  cd_rfc3339_nano :: "string \<Rightarrow> gotime res"
  cd_index_json :: "string \<Rightarrow> string \<Rightarrow> nat \<Rightarrow> string \<Rightarrow> bytes res"

section \<open>The layout\<close>

definition maybe_gunzip :: "codecs \<Rightarrow> bytes \<Rightarrow> bytes res" where
  "maybe_gunzip cd raw =
     (case raw of
        a # b # rest \<Rightarrow> (if a \<noteq> CHR 0x1F \<or> b \<noteq> CHR 0x8B then Inr raw else cd_gunzip cd raw)
      | _ \<Rightarrow> Inr raw)"

definition oci_image_manifest :: string where
  "oci_image_manifest = ''application/vnd.oci.image.manifest.v1+json''"

definition manifest_media_type :: "codecs \<Rightarrow> bytes \<Rightarrow> string" where
  "manifest_media_type cd manifest =
     (case cd_media_type cd manifest of
        Inr mt \<Rightarrow> (if mt \<noteq> [] then mt else oci_image_manifest)
      | Inl _ \<Rightarrow> oci_image_manifest)"

definition oci_layout_marker :: string where
  "oci_layout_marker =
     [CHR 0x7B, CHR 0x22] @ ''imageLayoutVersion'' @ [CHR 0x22, CHR 0x3A, CHR 0x22] @ ''1.0.0''
       @ [CHR 0x22, CHR 0x7D]"

definition write_oci_layout ::
  "codecs \<Rightarrow> string \<Rightarrow> string \<Rightarrow> nat \<Rightarrow> string \<Rightarrow> string \<Rightarrow> fs \<Rightarrow> goerr option \<times> fs" where
  "write_oci_layout cd oci digest sz ref mt fs =
     (case os_write_file (path_join [oci, ''oci-layout'']) oci_layout_marker fs of
        (Some e, fs1) \<Rightarrow> (Some (ErrWrap ''write oci-layout: '' e []), fs1)
      | (None, fs1) \<Rightarrow>
          (case cd_index_json cd mt digest sz ref of
             Inl e \<Rightarrow> (Some (ErrWrap ''marshal index.json: '' e []), fs1)
           | Inr raw \<Rightarrow>
               (case os_write_file (path_join [oci, ''index.json'']) raw fs1 of
                  (Some e, fs2) \<Rightarrow> (Some (ErrWrap ''write index.json: '' e []), fs2)
                | (None, fs2) \<Rightarrow> (None, fs2))))"

definition blob_file_name :: "string \<Rightarrow> string" where
  "blob_file_name digest =
     (if 7 < length digest \<and> take 7 digest = ''sha256:'' then drop 7 digest else digest)"

definition write_oci_blob :: "string \<Rightarrow> string \<Rightarrow> bytes \<Rightarrow> fs \<Rightarrow> goerr option \<times> fs" where
  "write_oci_blob oci digest raw fs =
     (let dir = path_join [oci, ''blobs'', ''sha256''] in
      case os_mkdir_all dir fs of
        (Some e, fs1) \<Rightarrow> (Some (ErrWrap ''mkdir oci blobs: '' e []), fs1)
      | (None, fs1) \<Rightarrow> os_write_file (path_join [dir, blob_file_name digest]) raw fs1)"

section \<open>Extraction\<close>

definition extract_file :: "string \<Rightarrow> tar_entry \<Rightarrow> fs \<Rightarrow> goerr option \<times> fs" where
  "extract_file target te fs =
     (case os_mkdir_all (path_dir target) fs of
        (Some e, fs1) \<Rightarrow> (Some e, fs1)
      | (None, fs1) \<Rightarrow>
          (case os_create target fs1 of
             (Some e, fs2) \<Rightarrow> (Some e, fs2)
           | (None, fs2) \<Rightarrow>
               (case os_write target (te_body te) fs2 of
                  (Some e, fs3) \<Rightarrow> (Some e, fs3)
                | (None, fs3) \<Rightarrow> (te_body_err te, fs3))))"

definition extract_entry :: "string \<Rightarrow> tar_entry \<Rightarrow> fs \<Rightarrow> goerr option \<times> fs" where
  "extract_entry dest te fs =
     (let target = path_join [dest, path_clean (slash # te_name te)];
          clean_dest = path_clean dest
      in if target \<noteq> clean_dest \<and> \<not> has_prefix target (clean_dest @ [slash])
         then (Some (ErrMsg (''tar entry '' @ fmt_q (te_name te) @ '' escapes extraction root'')), fs)
         else case te_kind te of
           TarDir \<Rightarrow> os_mkdir_all target fs
         | TarReg \<Rightarrow> extract_file target te fs
         | TarRegA \<Rightarrow> extract_file target te fs
         | TarSymlink \<Rightarrow> (None, fs)
         | TarLink \<Rightarrow> (None, fs)
         | TarOther \<Rightarrow> (None, fs))"

fun extract_entries :: "string \<Rightarrow> tar_entry list \<Rightarrow> goerr option \<Rightarrow> fs \<Rightarrow> goerr option \<times> fs" where
  "extract_entries dest [] end_err fs = (end_err, fs)"
| "extract_entries dest (te # tes) end_err fs =
     (case extract_entry dest te fs of
        (Some e, fs1) \<Rightarrow> (Some e, fs1)
      | (None, fs1) \<Rightarrow> extract_entries dest tes end_err fs1)"

definition extract_tar :: "codecs \<Rightarrow> bytes \<Rightarrow> string \<Rightarrow> fs \<Rightarrow> goerr option \<times> fs" where
  "extract_tar cd raw dest fs =
     (case cd_untar cd raw of (tes, end_err) \<Rightarrow> extract_entries dest tes end_err fs)"

section \<open>Assembly\<close>

definition parse_image_created :: "codecs \<Rightarrow> bytes \<Rightarrow> gotime res" where
  "parse_image_created cd raw =
     (case cd_created cd raw of
        Inl e \<Rightarrow> Inl (ErrWrap ''parse image config: '' e [])
      | Inr created \<Rightarrow>
          (if created = [] then Inl (ErrMsg ''image config has no created timestamp'')
           else case cd_rfc3339 cd created of
             Inr t \<Rightarrow> Inr t
           | Inl _ \<Rightarrow>
               (case cd_rfc3339_nano cd created of
                  Inl e \<Rightarrow> Inl (ErrWrap (''parse created '' @ fmt_q created @ '': '') e [])
                | Inr t \<Rightarrow> Inr t)))"

fun mkdirs :: "string list \<Rightarrow> fs \<Rightarrow> goerr option \<times> fs" where
  "mkdirs [] fs = (None, fs)"
| "mkdirs (d # ds) fs =
     (case os_mkdir_all d fs of
        (Some e, fs1) \<Rightarrow> (Some (ErrWrap (''mkdir '' @ d @ '': '') e []), fs1)
      | (None, fs1) \<Rightarrow> mkdirs ds fs1)"

text \<open>The config blob goes into the layout verbatim; an unreadable timestamp is the zero time.\<close>

definition stage_config ::
  "'w staging \<Rightarrow> codecs \<Rightarrow> string \<Rightarrow> string \<Rightarrow> 'w \<times> fs \<Rightarrow> gotime res \<times> ('w \<times> fs)" where
  "stage_config s cd oci digest wd =
     (case wd of (w, fs) \<Rightarrow>
        (if digest = [] then (Inr 0, (w, fs))
         else case fetch_verified s digest w of
           (Inl e, w1) \<Rightarrow> (Inl e, (w1, fs))
         | (Inr raw, w1) \<Rightarrow>
             (case write_oci_blob oci digest raw fs of
                (Some e, fs1) \<Rightarrow> (Inl e, (w1, fs1))
              | (None, fs1) \<Rightarrow>
                  (case parse_image_created cd raw of
                     Inl _ \<Rightarrow> (Inr 0, (w1, fs1))
                   | Inr t \<Rightarrow> (Inr t, (w1, fs1))))))"

definition stage_layer ::
  "'w staging \<Rightarrow> codecs \<Rightarrow> string \<Rightarrow> string \<Rightarrow> string \<Rightarrow> 'w \<times> fs \<Rightarrow> goerr option \<times> ('w \<times> fs)" where
  "stage_layer s cd oci rootfs digest wd =
     (case wd of (w, fs) \<Rightarrow>
        (case fetch_verified s digest w of
           (Inl e, w1) \<Rightarrow> (Some e, (w1, fs))
         | (Inr raw, w1) \<Rightarrow>
             (case write_oci_blob oci digest raw fs of
                (Some e, fs1) \<Rightarrow> (Some e, (w1, fs1))
              | (None, fs1) \<Rightarrow>
                  (case maybe_gunzip cd raw of
                     Inl e \<Rightarrow> (Some (ErrWrap (''decompress layer '' @ digest @ '': '') e []), (w1, fs1))
                   | Inr tar_bytes \<Rightarrow>
                       (case extract_tar cd tar_bytes rootfs fs1 of
                          (Some e, fs2) \<Rightarrow>
                            (Some (ErrWrap (''extract layer '' @ digest @ '': '') e []), (w1, fs2))
                        | (None, fs2) \<Rightarrow> (None, (w1, fs2)))))))"

fun stage_layers ::
  "'w staging \<Rightarrow> codecs \<Rightarrow> string \<Rightarrow> string \<Rightarrow> string list \<Rightarrow> 'w \<times> fs \<Rightarrow> goerr option \<times> ('w \<times> fs)" where
  "stage_layers s cd oci rootfs [] wd = (None, wd)"
| "stage_layers s cd oci rootfs (d # ds) wd =
     (case stage_layer s cd oci rootfs d wd of
        (Some e, wd1) \<Rightarrow> (Some e, wd1)
      | (None, wd1) \<Rightarrow> stage_layers s cd oci rootfs ds wd1)"

definition assemble ::
  "'w staging \<Rightarrow> codecs \<Rightarrow> manifest_ref \<Rightarrow> string \<Rightarrow> 'w \<times> fs \<Rightarrow> staged_image res \<times> ('w \<times> fs)" where
  "assemble s cd mr scratch wd =
     (let oci = path_join [scratch, ''oci'']; rootfs = path_join [scratch, ''rootfs''] in
      case mkdirs [oci, rootfs] (snd wd) of
        (Some e, fs1) \<Rightarrow> (Inl e, (fst wd, fs1))
      | (None, fs1) \<Rightarrow>
          (case stage_config s cd oci (mr_config_digest mr) (fst wd, fs1) of
             (Inl e, wd2) \<Rightarrow> (Inl e, wd2)
           | (Inr created, wd2) \<Rightarrow>
               (case stage_layers s cd oci rootfs (mr_layer_digests mr) wd2 of
                  (Some e, wd3) \<Rightarrow> (Inl e, wd3)
                | (None, (w3, fs3)) \<Rightarrow>
                    (let digest = sha256_digest (st_sha s) (mr_manifest mr) in
                     case write_oci_blob oci digest (mr_manifest mr) fs3 of
                       (Some e, fs4) \<Rightarrow> (Inl e, (w3, fs4))
                     | (None, fs4) \<Rightarrow>
                         (case write_oci_layout cd oci digest (length (mr_manifest mr)) (mr_ref mr)
                                 (manifest_media_type cd (mr_manifest mr)) fs4 of
                            (Some e, fs5) \<Rightarrow> (Inl e, (w3, fs5))
                          | (None, fs5) \<Rightarrow>
                              (Inr \<lparr>si_repo = mr_repo mr, si_tag = mr_ref mr, si_digest = [],
                                    si_fs_path = rootfs, si_oci_path = oci, si_created = created,
                                    si_prefix = []\<rparr>, (w3, fs5)))))))"

text \<open>\<open>Cleanup\<close>: release the references, then drop the scratch directory.\<close>

definition cleanup ::
  "'w staging \<Rightarrow> manifest_ref \<Rightarrow> string \<Rightarrow> 'w \<times> fs \<Rightarrow> goerr option \<times> ('w \<times> fs)" where
  "cleanup s mr scratch wd =
     (case os_remove_all scratch (snd wd) of
        (e, fs1) \<Rightarrow> (e, (release_refs s (cleanup_digests mr) (fst wd), fs1)))"

end
