(* ===== verification/Staging_Layout.thy ===== *)
theory Staging_Layout
  imports Staging_Assemble
begin

text \<open>
  What assembling a push does to the file system: extraction never leaves the root filesystem's
  directory, the finished layout holds a blob under every digest the push names and each of them
  hashes to its name, and the clean-up removes all of it.
\<close>

section \<open>Locations\<close>

lemma path_render_ne: "clean_comps r cs \<Longrightarrow> path_render r cs \<noteq> []"
  using clean_comps_noslash [of r cs] by (cases cs rule: remdups_adj.cases) (auto simp: path_render_def)

lemma loc_of_join:
  assumes "a \<noteq> []" "cs \<noteq> []" "list_all normal_comp cs"
  shows "loc_of (path_join (a # cs)) = (fst (loc_of a), snd (loc_of a) @ cs)"
    and "path_join (a # cs) \<noteq> []"
proof -
  let ?p = "a @ slash # str_join [slash] cs"
  have p: "path_join (a # cs) = path_clean ?p"
    using assms(1,2) by (cases cs) (simp_all add: path_join_def)
  have r: "path_rooted ?p = path_rooted a" using assms(1) by (cases a) (simp_all add: path_rooted_def)
  have "path_comps ?p = path_comps a @ cs"
    by (simp add: path_comps_def r str_split_append_sep path_comps_normal assms)
  then show "loc_of (path_join (a # cs)) = (fst (loc_of a), snd (loc_of a) @ cs)"
    by (simp add: loc_of_def p r)
  show "path_join (a # cs) \<noteq> []"
    unfolding p path_clean_def by (rule path_render_ne) (rule path_comps_shape)
qed

lemma above_antisym: "above l m \<Longrightarrow> above m l \<Longrightarrow> l = m"
  by (auto simp: above_def prod_eq_iff intro: prefix_order.antisym)

lemma above_trans: "above l m \<Longrightarrow> above m n \<Longrightarrow> above l n"
  by (auto simp: above_def)

lemma above_append [simp]: "above (r, cs) (r, cs @ ds)"
  by (simp add: above_def)

section \<open>Working below a directory\<close>

text \<open>\<open>dir_at d fs\<close>: \<open>d\<close> is a directory, and so is everything on the way to it.\<close>

definition dir_at :: "loc \<Rightarrow> fs \<Rightarrow> bool" where
  "dir_at d fs \<longleftrightarrow> (\<forall>m. above m d \<longrightarrow> fs_lookup fs m = Some FDir)"

text \<open>\<open>jailed d fs fs'\<close>: only nodes strictly below \<open>d\<close> changed, and \<open>d\<close> is still there.\<close>

definition jailed :: "loc \<Rightarrow> fs \<Rightarrow> fs \<Rightarrow> bool" where
  "jailed d fs fs' \<longleftrightarrow>
     dir_at d fs' \<and> (\<forall>l. fs_nodes fs' l \<noteq> fs_nodes fs l \<longrightarrow> above d l \<and> l \<noteq> d)"

lemma dir_atD: "dir_at d fs \<Longrightarrow> above m d \<Longrightarrow> fs_lookup fs m = Some FDir"
  unfolding dir_at_def by blast

lemma jailed_refl: "dir_at d fs \<Longrightarrow> jailed d fs fs"
  by (simp add: jailed_def)

lemma jailed_trans: "jailed d fs fs' \<Longrightarrow> jailed d fs' fs'' \<Longrightarrow> jailed d fs fs''"
  unfolding jailed_def by metis

lemma jailed_dir: "jailed d fs fs' \<Longrightarrow> dir_at d fs'"
  by (simp add: jailed_def)

lemma jailed_intro:
  assumes "dir_at d fs" and "\<And>l. fs_nodes fs' l \<noteq> fs_nodes fs l \<Longrightarrow> above d l \<and> l \<noteq> d"
  shows "jailed d fs fs'"
proof -
  have "fs_lookup fs' m = Some FDir" if m: "above m d" for m
  proof -
    have "fs_nodes fs' m = fs_nodes fs m" using assms(2) [of m] m above_antisym by blast
    then show ?thesis using dir_atD [OF assms(1) m] by (simp add: fs_lookup_def split: if_splits)
  qed
  with assms(2) show ?thesis unfolding jailed_def dir_at_def by blast
qed

lemma dir_at_node: "dir_at d fs \<Longrightarrow> above l d \<Longrightarrow> snd l \<noteq> [] \<Longrightarrow> fs_nodes fs l = Some FDir"
  by (drule (1) dir_atD) (simp add: fs_lookup_def)

lemma jailed_mkdir:
  assumes d: "dir_at d fs" and p: "above d (loc_of p) \<or> above (loc_of p) d"
  shows "jailed d fs (snd (os_mkdir_all p fs))"
proof (rule jailed_intro [OF d])
  fix l assume "fs_nodes (snd (os_mkdir_all p fs)) l \<noteq> fs_nodes fs l"
  then have l: "above l (loc_of p)" "snd l \<noteq> []" "fs_nodes fs l \<noteq> Some FDir"
    by (auto simp: os_mkdir_all_def Let_def split: option.splits if_splits)
  then have "\<not> above l d" using dir_at_node [OF d] by blast
  moreover from this have "above d l" using p l(1) above_chain above_trans by blast
  ultimately show "above d l \<and> l \<noteq> d" by auto
qed

lemma jailed_set:
  assumes "dir_at d fs" "above d l" "l \<noteq> d" shows "jailed d fs (fs_set l n fs)"
  using assms by (intro jailed_intro) (auto simp: fs_set_def split: if_splits)

lemma os_create_None:
  "os_create p fs = (None, fs') \<Longrightarrow> fs' = fs_set (loc_of p) (FFile []) fs \<and> fs_lookup fs (loc_of p) \<noteq> Some FDir"
  by (auto simp: os_create_def Let_def split: option.splits if_splits)

lemma os_create_Some: "os_create p fs = (Some e, fs') \<Longrightarrow> fs' = fs"
  by (auto simp: os_create_def Let_def split: option.splits if_splits)

lemma jailed_create:
  assumes d: "dir_at d fs" "above d (loc_of p)" and c: "os_create p fs = (e, fs')"
  shows "jailed d fs fs'" and "e = None \<Longrightarrow> loc_of p \<noteq> d"
proof -
  show ne: "e = None \<Longrightarrow> loc_of p \<noteq> d"
    using os_create_None [of p fs fs'] c dir_atD [OF d(1) above_refl] by metis
  show "jailed d fs fs'"
    using os_create_Some [of p fs _ fs'] os_create_None [of p fs fs'] c jailed_refl [OF d(1)]
      jailed_set [OF d] ne by (cases e) auto
qed

lemma jailed_write:
  assumes d: "dir_at d fs" "above d (loc_of p)" and ne: "loc_of p \<noteq> d"
  shows "jailed d fs (snd (os_write p b fs))"
  using jailed_refl [OF d(1)] jailed_set [OF d ne] by (auto simp: os_write_def split: option.splits)

lemma jailed_write_file:
  assumes d: "dir_at d fs" "above d (loc_of p)"
  shows "jailed d fs (snd (os_write_file p b fs))"
proof -
  obtain e fs1 where c: "os_create p fs = (e, fs1)" by fastforce
  note j = jailed_create [OF d c]
  then show ?thesis
    using jailed_write [OF jailed_dir [OF j(1)] d(2), of b] jailed_trans [OF j(1)]
    by (cases e) (auto simp: os_write_file_def c)
qed

section \<open>Extraction\<close>

lemma target_above:
  assumes "dest \<noteq> []"
  shows "above (loc_of dest) (loc_of (path_join [dest, path_clean (slash # name)]))"
    and "above (loc_of dest) (loc_of (path_dir (path_join [dest, path_clean (slash # name)])))
       \<or> above (loc_of (path_dir (path_join [dest, path_clean (slash # name)]))) (loc_of dest)"
proof -
  let ?t = "path_join [dest, path_clean (slash # name)]"
  show a: "above (loc_of dest) (loc_of ?t)" by (rule path_components_below [OF assms])
  have "?t = path_clean (dest @ slash # path_clean (slash # name))" by (rule path_join_two [OF assms])
  then have "loc_of (path_dir ?t) = (fst (loc_of ?t), butlast (snd (loc_of ?t)))"
    by (simp add: loc_of_def comps_path_dir)
  then have "above (loc_of (path_dir ?t)) (loc_of ?t)"
    by (simp add: above_def prefixeq_butlast)
  then show "above (loc_of dest) (loc_of (path_dir ?t)) \<or> above (loc_of (path_dir ?t)) (loc_of dest)"
    using above_chain [OF a] by blast
qed

lemma jailed_extract_file:
  assumes d: "dir_at d fs" "above d (loc_of target)"
    and p: "above d (loc_of (path_dir target)) \<or> above (loc_of (path_dir target)) d"
  shows "jailed d fs (snd (extract_file target te fs))"
proof -
  obtain e1 fs1 where m: "os_mkdir_all (path_dir target) fs = (e1, fs1)" by fastforce
  have j1: "jailed d fs fs1" using jailed_mkdir [OF d(1) p] by (simp add: m)
  show ?thesis
  proof (cases e1)
    case Some
    then show ?thesis using j1 by (simp add: extract_file_def m)
  next
    case None
    obtain e2 fs2 where c: "os_create target fs1 = (e2, fs2)" by fastforce
    note j2 = jailed_create [OF jailed_dir [OF j1] d(2) c]
    show ?thesis
    proof (cases e2)
      case Some
      then show ?thesis using jailed_trans [OF j1 j2(1)] by (simp add: extract_file_def m c None)
    next
      case e2: None
      obtain e3 fs3 where w: "os_write target (te_body te) fs2 = (e3, fs3)" by fastforce
      have "jailed d fs2 fs3"
        using jailed_write [OF jailed_dir [OF j2(1)] d(2) j2(2) [OF e2], of "te_body te"] by (simp add: w)
      then show ?thesis
        using jailed_trans [OF jailed_trans [OF j1 j2(1)]]
        by (simp add: extract_file_def m c None e2 w split: option.split)
    qed
  qed
qed

lemma jailed_extract_entry:
  assumes "dest \<noteq> []" "dir_at (loc_of dest) fs"
  shows "jailed (loc_of dest) fs (snd (extract_entry dest te fs))"
proof -
  define t where "t = path_join [dest, path_clean (slash # te_name te)]"
  note t = target_above [OF assms(1), of "te_name te", folded t_def]
  show ?thesis
    using jailed_mkdir [OF assms(2) disjI1 [OF t(1)]] jailed_extract_file [OF assms(2) t]
      jailed_refl [OF assms(2)]
    unfolding extract_entry_def Let_def t_def [symmetric] by (cases "te_kind te") simp_all
qed

lemma jailed_extract_entries:
  assumes "dest \<noteq> []" "dir_at (loc_of dest) fs"
  shows "jailed (loc_of dest) fs (snd (extract_entries dest tes end_err fs))"
  using assms(2)
proof (induction tes arbitrary: fs)
  case Nil
  then show ?case by (simp add: jailed_refl)
next
  case (Cons te tes)
  obtain e fs1 where x: "extract_entry dest te fs = (e, fs1)" by fastforce
  have j: "jailed (loc_of dest) fs fs1"
    using jailed_extract_entry [OF assms(1) Cons.prems, of te] by (simp add: x)
  show ?case
    using j Cons.IH [OF jailed_dir [OF j]] jailed_trans [OF j] by (cases e) (simp_all add: x)
qed

lemma jailed_extract_tar:
  assumes "dest \<noteq> []" "dir_at (loc_of dest) fs"
  shows "jailed (loc_of dest) fs (snd (extract_tar cd raw dest fs))"
  using jailed_extract_entries [OF assms] by (simp add: extract_tar_def split: prod.split)

section \<open>The layout\<close>

lemma write_file_keeps_dirs:
  "os_write_file p b fs = (e, fs') \<Longrightarrow> fs_nodes fs l = Some FDir \<Longrightarrow> fs_nodes fs' l = Some FDir"
  by (cases "snd l = []"; cases "l = loc_of p")
    (auto simp: os_write_file_def os_create_def os_write_def fs_set_def fs_lookup_def Let_def
      split: option.splits if_splits prod.splits)

lemma mkdir_keeps_dirs:
  "os_mkdir_all p fs = (e, fs') \<Longrightarrow> fs_nodes fs l = Some FDir \<Longrightarrow> fs_nodes fs' l = Some FDir"
  by (auto simp: os_mkdir_all_def Let_def split: option.splits if_splits)

lemma dir_at_mono:
  assumes "dir_at d fs" "\<And>l. fs_nodes fs l = Some FDir \<Longrightarrow> fs_nodes fs' l = Some FDir"
  shows "dir_at d fs'"
  unfolding dir_at_def
proof (intro allI impI)
  fix m assume "above m d"
  then have "fs_lookup fs m = Some FDir" using dir_atD [OF assms(1)] by blast
  then show "fs_lookup fs' m = Some FDir" using assms(2) by (auto simp: fs_lookup_def split: if_splits)
qed

lemma mkdir_dir_at: "os_mkdir_all p fs = (None, fs') \<Longrightarrow> dir_at (loc_of p) fs'"
  by (auto simp: os_mkdir_all_def dir_at_def fs_lookup_def Let_def split: option.splits if_splits)

lemma jailed_confined: "jailed d fs fs' \<Longrightarrow> above s d \<Longrightarrow> confined s fs fs'"
  unfolding jailed_def confined_def using above_trans by blast

text \<open>The hexadecimal SHA-256: a non-empty run of lower-case hexadecimal digits.\<close>

definition hex_digits :: string where
  "hex_digits = ''0123456789abcdef''"

definition hex_hash :: "(bytes \<Rightarrow> string) \<Rightarrow> bool" where
  "hex_hash sha \<longleftrightarrow> (\<forall>b. sha b \<noteq> [] \<and> set (sha b) \<subseteq> set hex_digits)"

lemma hex_normal:
  assumes "hex_hash sha" "sha b = to_lower h" shows "normal_comp h" "h \<noteq> []"
proof -
  have ne: "to_lower h \<noteq> []" and hx: "set (to_lower h) \<subseteq> set hex_digits"
    using assms by (metis hex_hash_def)+
  show "h \<noteq> []" using ne by (auto simp: to_lower_def)
  have "lower_char x = x" if "x = CHR ''.'' \<or> x = slash" for x
    using that lower_char_eq_punct [of x x] by (auto simp: slash_def)
  then have "x \<in> set (to_lower h)" if "x \<in> set h" "x = CHR ''.'' \<or> x = slash" for x
    using that unfolding to_lower_def by (metis image_eqI list.set_map)
  then have "CHR ''.'' \<notin> set h" "slash \<notin> set h"
    using hx by (force simp: hex_digits_def slash_def)+
  with \<open>h \<noteq> []\<close> show "normal_comp h" by (auto simp: normal_comp_def)
qed

definition blob_at :: "string \<Rightarrow> string \<Rightarrow> loc" where
  "blob_at oci h = (fst (loc_of oci), snd (loc_of oci) @ [''blobs'', ''sha256'', h])"

lemma blob_at_inj [simp]: "blob_at oci h = blob_at oci h' \<longleftrightarrow> h = h'"
  by (simp add: blob_at_def)

lemma above_oci [simp]:
  "above (loc_of oci) (blob_at oci h)"
  "above (loc_of oci) (fst (loc_of oci), snd (loc_of oci) @ cs)"
  by (simp_all add: blob_at_def above_def)

lemma normal_names [simp]: "normal_comp ''blobs''" "normal_comp ''sha256''" "normal_comp ''oci''"
  "normal_comp ''rootfs''" "normal_comp ''oci-layout''" "normal_comp ''index.json''"
  by (simp_all add: normal_comp_def slash_def)

lemma write_oci_blob_effect:
  assumes oci: "oci \<noteq> []" and h: "normal_comp h" and w: "write_oci_blob oci (''sha256:'' @ h) raw fs = (e, fs')"
  shows "confined (loc_of oci) fs fs'"
    and "fs_nodes fs l = Some FDir \<Longrightarrow> fs_nodes fs' l = Some FDir"
    and "fs_nodes fs l = Some (FFile b) \<Longrightarrow> l \<noteq> blob_at oci h \<Longrightarrow> fs_nodes fs' l = Some (FFile b)"
    and "e = None \<Longrightarrow> fs_nodes fs' (blob_at oci h) = Some (FFile raw)"
proof -
  let ?dir = "path_join [oci, ''blobs'', ''sha256'']"
  have dir: "loc_of ?dir = (fst (loc_of oci), snd (loc_of oci) @ [''blobs'', ''sha256''])" "?dir \<noteq> []"
    using loc_of_join [OF oci, of "[''blobs'', ''sha256'']"] by simp_all
  have name: "blob_file_name (''sha256:'' @ h) = h"
    using h by (simp add: blob_file_name_def normal_comp_def)
  have pth: "loc_of (path_join [?dir, h]) = blob_at oci h"
    using loc_of_join(1) [OF dir(2), of "[h]"] h by (simp add: dir(1) blob_at_def)
  obtain e1 fs1 where m: "os_mkdir_all ?dir fs = (e1, fs1)" by fastforce
  have c1: "confined (loc_of oci) fs fs1"
    using confined_mkdir [of "loc_of oci" ?dir fs] by (simp add: dir(1) m)
  obtain e2 fs2 where f: "os_write_file (path_join [?dir, h]) raw fs1 = (e2, fs2)" by fastforce
  have c2: "confined (loc_of oci) fs1 fs2"
    using confined_write_file [of "loc_of oci" "path_join [?dir, h]" fs1 raw] by (simp add: pth f)
  have cases: "(e1 = None \<and> e = e2 \<and> fs' = fs2) \<or> (e1 \<noteq> None \<and> e \<noteq> None \<and> fs' = fs1)"
    using w m f name by (cases e1) (auto simp: write_oci_blob_def Let_def)
  show "confined (loc_of oci) fs fs'" using cases c1 confined_trans [OF c1 c2] by auto
  show "fs_nodes fs l = Some FDir \<Longrightarrow> fs_nodes fs' l = Some FDir"
    using cases mkdir_keeps_dirs [OF m] write_file_keeps_dirs [OF f] by metis
  show "fs_nodes fs l = Some (FFile b) \<Longrightarrow> l \<noteq> blob_at oci h \<Longrightarrow> fs_nodes fs' l = Some (FFile b)"
    using cases mkdir_keeps_files [OF m] write_file_other [OF f] pth by metis
  show "e = None \<Longrightarrow> fs_nodes fs' (blob_at oci h) = Some (FFile raw)"
    using cases write_file_ok [of "path_join [?dir, h]" raw fs1 fs2] f pth by auto
qed

text \<open>The layout holds, for every digest of \<open>D\<close>, bytes that hash to it.\<close>

definition layout_has :: "(bytes \<Rightarrow> string) \<Rightarrow> string \<Rightarrow> string set \<Rightarrow> fs \<Rightarrow> bool" where
  "layout_has sha oci D fs \<longleftrightarrow>
     (\<forall>d\<in>D. \<exists>h b. d = ''sha256:'' @ h \<and> sha b = to_lower h
                 \<and> fs_nodes fs (blob_at oci h) = Some (FFile b))"

lemma layout_has_add:
  assumes hex: "hex_hash sha" and oci: "oci \<noteq> []" and v: "verify_digest sha (Inr raw) d = None"
    and w: "write_oci_blob oci d raw fs = (None, fs')" and has: "layout_has sha oci D fs"
  shows "layout_has sha oci (insert d D) fs'"
proof -
  obtain h where d: "d = ''sha256:'' @ h" "sha raw = to_lower h"
    using v verify_digest_ok by blast
  note eff = write_oci_blob_effect [OF oci hex_normal(1) [OF hex d(2)] w [unfolded d(1)]]
  show ?thesis unfolding layout_has_def
  proof
    fix x assume "x \<in> insert d D"
    then consider "x = d" | h' b where "x = ''sha256:'' @ h'" "h' \<noteq> h" "sha b = to_lower h'"
        "fs_nodes fs (blob_at oci h') = Some (FFile b)"
      using has d(1) unfolding layout_has_def by blast
    then show "\<exists>h b. x = ''sha256:'' @ h \<and> sha b = to_lower h \<and> fs_nodes fs' (blob_at oci h) = Some (FFile b)"
    proof cases
      case 1
      then show ?thesis using d eff(4) by blast
    next
      case 2
      then show ?thesis using eff(3) [OF 2(4)] by simp
    qed
  qed
qed

lemma layout_has_other:
  assumes "layout_has sha oci D fs" and "\<And>h. fs_nodes fs' (blob_at oci h) = fs_nodes fs (blob_at oci h)"
  shows "layout_has sha oci D fs'"
  using assms unfolding layout_has_def by metis

lemma write_oci_blob_safe:
  assumes "hex_hash sha" "oci \<noteq> []" "verify_digest sha (Inr raw) d = None" "write_oci_blob oci d raw fs = (e, fs')"
  shows "confined (loc_of oci) fs fs'" and "dir_at r fs \<Longrightarrow> dir_at r fs'"
proof -
  obtain h where d: "d = ''sha256:'' @ h" "sha raw = to_lower h" using assms(3) verify_digest_ok by blast
  note eff = write_oci_blob_effect [OF assms(2) hex_normal(1) [OF assms(1) d(2)] assms(4) [unfolded d(1)]]
  show "confined (loc_of oci) fs fs'" by (rule eff(1))
  show "dir_at r fs \<Longrightarrow> dir_at r fs'" by (erule dir_at_mono) (rule eff(2))
qed

section \<open>Assembly\<close>

lemma stage_config_effect:
  assumes hex: "hex_hash (st_sha s)" and oci: "oci \<noteq> []"
    and c: "stage_config s cd oci digest (w, fs) = (r, (w', fs'))"
  shows "confined (loc_of oci) fs fs'" and "dir_at rf fs \<Longrightarrow> dir_at rf fs'"
    and "r = Inr t \<Longrightarrow> layout_has (st_sha s) oci (if digest = [] then {} else {digest}) fs'"
proof -
  have "(r = Inr 0 \<and> digest = [] \<and> fs' = fs) \<or> (\<exists>e. r = Inl e \<and> fs' = fs) \<or>
      (\<exists>raw e. verify_digest (st_sha s) (Inr raw) digest = None \<and> write_oci_blob oci digest raw fs = (e, fs')
          \<and> (e = None \<longleftrightarrow> (\<exists>t. r = Inr t)))"
  proof (cases "digest = []")
    case True
    then show ?thesis using c by (simp add: stage_config_def)
  next
    case False
    obtain fr w1 where f: "fetch_verified s digest w = (fr, w1)" by fastforce
    show ?thesis
    proof (cases fr)
      case (Inr raw)
      obtain e fs1 where wr: "write_oci_blob oci digest raw fs = (e, fs1)" by fastforce
      have "fs' = fs1" "(e = None) = (\<exists>t. r = Inr t)"
        using c False f Inr wr
        by (cases e; cases "parse_image_created cd raw"; auto simp: stage_config_def)+
      then show ?thesis using wr fetch_verified_Inr [OF f [unfolded Inr]] by blast
    qed (use c False f in \<open>auto simp: stage_config_def\<close>)
  qed
  then have "confined (loc_of oci) fs fs' \<and> (dir_at rf fs \<longrightarrow> dir_at rf fs') \<and>
    (r = Inr t \<longrightarrow> layout_has (st_sha s) oci (if digest = [] then {} else {digest}) fs')"
  proof (elim disjE exE conjE)
    fix raw e
    assume v: "verify_digest (st_sha s) (Inr raw) digest = None" and wr: "write_oci_blob oci digest raw fs = (e, fs')"
      and r: "(e = None) = (\<exists>t. r = Inr t)"
    have "layout_has (st_sha s) oci {digest} fs'" if "r = Inr t"
      using layout_has_add [OF hex oci v, of fs fs' "{}"] wr r that by (simp add: layout_has_def)
    then show ?thesis using write_oci_blob_safe [OF hex oci v wr] by (auto simp: layout_has_def)
  qed (auto simp: layout_has_def)
  then show "confined (loc_of oci) fs fs'" and "dir_at rf fs \<Longrightarrow> dir_at rf fs'"
    and "r = Inr t \<Longrightarrow> layout_has (st_sha s) oci (if digest = [] then {} else {digest}) fs'" by blast+
qed

text \<open>The two directories under the scratch directory at \<open>sd\<close>; extraction cannot reach a blob.\<close>

definition scratch_dirs :: "loc \<Rightarrow> string \<Rightarrow> string \<Rightarrow> bool" where
  "scratch_dirs sd oci rootfs \<longleftrightarrow> oci \<noteq> [] \<and> rootfs \<noteq> [] \<and> above sd (loc_of oci) \<and> above sd (loc_of rootfs)
     \<and> (\<forall>h. \<not> above (loc_of rootfs) (blob_at oci h))"

lemma stage_layer_cases:
  assumes "stage_layer s cd oci rootfs digest (w, fs) = (r, (w', fs'))"
  shows "(r \<noteq> None \<and> fs' = fs) \<or> (\<exists>raw e fs1. verify_digest (st_sha s) (Inr raw) digest = None
     \<and> write_oci_blob oci digest raw fs = (e, fs1)
     \<and> (r \<noteq> None \<and> fs' = fs1 \<or> e = None \<and> (\<exists>tb. fs' = snd (extract_tar cd tb rootfs fs1))))"
proof (cases "fetch_verified s digest w")
  case (Pair fr w1)
  show ?thesis
  proof (cases fr)
    case Inl
    then show ?thesis using assms by (auto simp: stage_layer_def Pair)
  next
    case (Inr raw)
    then have v: "verify_digest (st_sha s) (Inr raw) digest = None"
      using fetch_verified_Inr Pair by fast
    obtain e fs1 where wr: "write_oci_blob oci digest raw fs = (e, fs1)" by fastforce
    have "r \<noteq> None \<and> fs' = fs1 \<or> e = None \<and> (\<exists>tb. fs' = snd (extract_tar cd tb rootfs fs1))"
    proof (cases e)
      case None
      then show ?thesis using assms Inr wr
        by (cases "maybe_gunzip cd raw")
          (auto simp: stage_layer_def Pair split: prod.splits option.splits, (metis snd_conv)+)
    next
      case (Some x)
      then have "r = Some x \<and> fs' = fs1" using assms Inr wr by (simp add: stage_layer_def Pair)
      then show ?thesis by simp
    qed
    with v wr show ?thesis by blast
  qed
qed

lemma stage_layer_effect:
  assumes hex: "hex_hash (st_sha s)" and sc: "scratch_dirs sd oci rootfs"
    and c: "stage_layer s cd oci rootfs digest (w, fs) = (r, (w', fs'))"
    and d: "dir_at (loc_of rootfs) fs"
  shows "confined sd fs fs'" and "dir_at (loc_of rootfs) fs'"
    and "r = None \<Longrightarrow> layout_has (st_sha s) oci D fs \<Longrightarrow> layout_has (st_sha s) oci (insert digest D) fs'"
proof -
  have oci: "oci \<noteq> []" "above sd (loc_of oci)" and rf: "rootfs \<noteq> []" "above sd (loc_of rootfs)"
    and apart: "\<not> above (loc_of rootfs) (blob_at oci h)" for h using sc by (auto simp: scratch_dirs_def)
  have mono: "confined (loc_of oci) a b \<Longrightarrow> confined sd a b" for a b
    unfolding confined_def using oci(2) above_trans above_chain by blast
  have "confined sd fs fs' \<and> dir_at (loc_of rootfs) fs' \<and>
      (r = None \<longrightarrow> layout_has (st_sha s) oci D fs \<longrightarrow> layout_has (st_sha s) oci (insert digest D) fs')"
    using stage_layer_cases [OF c]
  proof (elim disjE exE conjE)
    fix raw e fs1
    assume v: "verify_digest (st_sha s) (Inr raw) digest = None" and wr: "write_oci_blob oci digest raw fs = (e, fs1)"
    note safe = write_oci_blob_safe [OF hex oci(1) v wr]
    {
      assume "r \<noteq> None" "fs' = fs1"
      then show ?thesis using safe mono d by blast
    next
      fix tb assume e: "e = None" and fs': "fs' = snd (extract_tar cd tb rootfs fs1)"
      have j: "jailed (loc_of rootfs) fs1 fs'"
        unfolding fs' by (rule jailed_extract_tar [OF rf(1) safe(2) [OF d]])
      have "fs_nodes fs' (blob_at oci h) = fs_nodes fs1 (blob_at oci h)" for h
        using j apart unfolding jailed_def by blast
      then have "layout_has (st_sha s) oci (insert digest D) fs'" if "layout_has (st_sha s) oci D fs"
        using layout_has_other layout_has_add [OF hex oci(1) v wr [unfolded e] that] by blast
      then show ?thesis
        using confined_trans [OF mono [OF safe(1)] jailed_confined [OF j rf(2)]] jailed_dir [OF j] by blast
    }
  qed (use d in auto)
  then show "confined sd fs fs'" and "dir_at (loc_of rootfs) fs'"
    and "r = None \<Longrightarrow> layout_has (st_sha s) oci D fs \<Longrightarrow> layout_has (st_sha s) oci (insert digest D) fs'"
    by blast+
qed

lemma stage_layers_effect:
  assumes hex: "hex_hash (st_sha s)" and sc: "scratch_dirs sd oci rootfs"
  shows "stage_layers s cd oci rootfs ds (w, fs) = (r, (w', fs')) \<Longrightarrow> dir_at (loc_of rootfs) fs \<Longrightarrow>
     confined sd fs fs' \<and> dir_at (loc_of rootfs) fs' \<and>
     (r = None \<longrightarrow> layout_has (st_sha s) oci D fs \<longrightarrow> layout_has (st_sha s) oci (D \<union> set ds) fs')"
proof (induction ds arbitrary: w fs D)
  case (Cons d ds)
  obtain e w1 fs1 where l: "stage_layer s cd oci rootfs d (w, fs) = (e, (w1, fs1))" by (metis prod.exhaust)
  note eff = stage_layer_effect [OF hex sc l Cons.prems(2)]
  show ?case
  proof (cases e)
    case None
    then have "stage_layers s cd oci rootfs ds (w1, fs1) = (r, (w', fs'))" using Cons.prems(1) by (simp add: l)
    from Cons.IH [OF this eff(2), of "insert d D"] show ?thesis
      using confined_trans [OF eff(1)] eff(3) [OF None, of D] by auto
  next
    case Some
    then have "r \<noteq> None" "fs' = fs1" using Cons.prems(1) by (auto simp: l)
    then show ?thesis using eff by auto
  qed
qed simp

lemma mkdirs_effect:
  "mkdirs ds fs = (e, fs') \<Longrightarrow> (\<And>d. d \<in> set ds \<Longrightarrow> above sd (loc_of d)) \<Longrightarrow>
   confined sd fs fs' \<and> (\<forall>l. fs_nodes fs l = Some FDir \<longrightarrow> fs_nodes fs' l = Some FDir)
   \<and> (e = None \<longrightarrow> (\<forall>d\<in>set ds. dir_at (loc_of d) fs'))"
proof (induction ds arbitrary: fs)
  case (Cons d ds)
  obtain e1 fs1 where m: "os_mkdir_all d fs = (e1, fs1)" by fastforce
  have c: "confined sd fs fs1" using confined_mkdir [of sd d fs] Cons.prems(2) by (simp add: m)
  show ?case
  proof (cases e1)
    case None
    then have ih: "confined sd fs1 fs' \<and> (\<forall>l. fs_nodes fs1 l = Some FDir \<longrightarrow> fs_nodes fs' l = Some FDir)
        \<and> (e = None \<longrightarrow> (\<forall>d\<in>set ds. dir_at (loc_of d) fs'))"
      using Cons.IH [of fs1] Cons.prems by (simp add: m)
    then have "dir_at (loc_of d) fs'" using mkdir_dir_at m None dir_at_mono by blast
    then show ?thesis using ih confined_trans [OF c] mkdir_keeps_dirs [OF m] by simp
  next
    case Some
    then show ?thesis using Cons.prems(1) c mkdir_keeps_dirs [OF m] by (auto simp: m)
  qed
qed simp

lemma scratch_dirs_join:
  assumes "scratch \<noteq> []"
  shows "scratch_dirs (loc_of scratch) (path_join [scratch, ''oci'']) (path_join [scratch, ''rootfs''])"
  using loc_of_join [OF assms, of "[''oci'']"] loc_of_join [OF assms, of "[''rootfs'']"]
  by (simp add: scratch_dirs_def above_def blob_at_def)

lemma write_oci_layout_effect:
  assumes oci: "oci \<noteq> []" and w: "write_oci_layout cd oci digest n ref mt fs = (e, fs')"
  shows "confined (loc_of oci) fs fs'"
    and "fs_nodes fs l = Some FDir \<Longrightarrow> fs_nodes fs' l = Some FDir"
    and "fs_nodes fs' (blob_at oci h) = fs_nodes fs (blob_at oci h)"
    and "e = None \<Longrightarrow> \<exists>raw. cd_index_json cd mt digest n ref = Inr raw
           \<and> fs_nodes fs' (loc_of (path_join [oci, ''index.json''])) = Some (FFile raw)"
proof -
  let ?m = "path_join [oci, ''oci-layout'']" and ?i = "path_join [oci, ''index.json'']"
  have loc: "loc_of ?m = (fst (loc_of oci), snd (loc_of oci) @ [''oci-layout''])"
      "loc_of ?i = (fst (loc_of oci), snd (loc_of oci) @ [''index.json''])"
    using loc_of_join(1) [OF oci, of "[''oci-layout'']"] loc_of_join(1) [OF oci, of "[''index.json'']"]
    by simp_all
  have ne: "blob_at oci h \<noteq> loc_of ?m" "blob_at oci h \<noteq> loc_of ?i" by (simp_all add: loc blob_at_def)
  obtain e1 fs1 where f1: "os_write_file ?m oci_layout_marker fs = (e1, fs1)" by fastforce
  have cases: "fs' = fs1 \<and> e \<noteq> None \<or> (\<exists>raw e2. cd_index_json cd mt digest n ref = Inr raw
      \<and> os_write_file ?i raw fs1 = (e2, fs') \<and> (e = None \<longleftrightarrow> e2 = None))"
    using w f1 by (auto simp: write_oci_layout_def split: option.splits sum.splits prod.splits)
  have c1: "confined (loc_of oci) fs fs1"
    using confined_write_file [of "loc_of oci" ?m fs oci_layout_marker] by (simp add: loc f1)
  have c2: "os_write_file ?i raw fs1 = (e2, fs') \<Longrightarrow> confined (loc_of oci) fs1 fs'" for raw e2
    using confined_write_file [of "loc_of oci" ?i fs1 raw] by (simp add: loc)
  show "confined (loc_of oci) fs fs'" using cases c1 confined_trans [OF c1] c2 by blast
  show "fs_nodes fs l = Some FDir \<Longrightarrow> fs_nodes fs' l = Some FDir"
    using cases write_file_keeps_dirs f1 by metis
  show "fs_nodes fs' (blob_at oci h) = fs_nodes fs (blob_at oci h)"
    using cases write_file_other ne f1 by metis
  show "e = None \<Longrightarrow> \<exists>raw. cd_index_json cd mt digest n ref = Inr raw
           \<and> fs_nodes fs' (loc_of ?i) = Some (FFile raw)"
    using cases write_file_ok by blast
qed

lemma assemble_effect:
  assumes hex: "hex_hash (st_sha s)" and sc: "scratch \<noteq> []"
    and a: "assemble s cd mr scratch (w, fs) = (r, (w', fs'))"
    and oci: "oci = path_join [scratch, ''oci'']" and rf: "rf = path_join [scratch, ''rootfs'']"
  shows "confined (loc_of scratch) fs fs'"
    and "r = Inr img \<Longrightarrow> si_oci_path img = oci \<and> si_fs_path img = rf \<and> dir_at (loc_of rf) fs'
      \<and> layout_has (st_sha s) oci (set (cleanup_digests mr)) fs'
      \<and> fs_nodes fs' (blob_at oci (st_sha s (mr_manifest mr))) = Some (FFile (mr_manifest mr))
      \<and> (\<exists>raw. cd_index_json cd (manifest_media_type cd (mr_manifest mr)) (sha256_digest (st_sha s) (mr_manifest mr))
                (length (mr_manifest mr)) (mr_ref mr) = Inr raw
             \<and> fs_nodes fs' (loc_of (path_join [oci, ''index.json''])) = Some (FFile raw))"
proof -
  let ?sd = "loc_of scratch" and ?sha = "st_sha s" and ?h = "st_sha s (mr_manifest mr)"
  let ?D0 = "if mr_config_digest mr = [] then {} else {mr_config_digest mr}"
  let ?dg = "sha256_digest (st_sha s) (mr_manifest mr)"
  let ?goal = "confined ?sd fs fs' \<and> (r = Inr img \<longrightarrow>
     si_oci_path img = oci \<and> si_fs_path img = rf \<and> dir_at (loc_of rf) fs'
     \<and> layout_has ?sha oci (set (cleanup_digests mr)) fs'
     \<and> fs_nodes fs' (blob_at oci ?h) = Some (FFile (mr_manifest mr))
     \<and> (\<exists>raw. cd_index_json cd (manifest_media_type cd (mr_manifest mr)) ?dg
                (length (mr_manifest mr)) (mr_ref mr) = Inr raw
             \<and> fs_nodes fs' (loc_of (path_join [oci, ''index.json''])) = Some (FFile raw)))"
  have dirs: "scratch_dirs ?sd oci rf" unfolding oci rf by (rule scratch_dirs_join [OF sc])
  then have ne: "oci \<noteq> []" and ab: "above ?sd (loc_of oci)" "above ?sd (loc_of rf)"
    by (auto simp: scratch_dirs_def)
  have up: "confined (loc_of oci) x y \<Longrightarrow> confined ?sd x y" for x y
    unfolding confined_def using ab(1) above_trans above_chain by blast
  have digests: "set (cleanup_digests mr) = ?D0 \<union> set (mr_layer_digests mr)"
    by (auto simp: cleanup_digests_def)
  obtain e1 fs1 where m: "mkdirs [oci, rf] fs = (e1, fs1)" by fastforce
  have m_eff: "confined ?sd fs fs1" "e1 = None \<Longrightarrow> dir_at (loc_of rf) fs1"
    using mkdirs_effect [OF m, of ?sd] ab by auto
  obtain r2 w2 fs2 where c: "stage_config s cd oci (mr_config_digest mr) (w, fs1) = (r2, (w2, fs2))"
    by (metis prod.exhaust)
  note c_eff = stage_config_effect [OF hex ne c]
  obtain e3 w3 fs3 where l: "stage_layers s cd oci rf (mr_layer_digests mr) (w2, fs2) = (e3, (w3, fs3))"
    by (metis prod.exhaust)
  obtain e4 fs4 where b: "write_oci_blob oci ?dg (mr_manifest mr) fs3 = (e4, fs4)" by fastforce
  have v: "normal_comp ?h" "verify_digest ?sha (Inr (mr_manifest mr)) ?dg = None" "to_lower ?h = ?h"
  proof -
    have "set ?h \<subseteq> set hex_digits" using hex by (simp add: hex_hash_def)
    moreover have "lower_char x = x" if "x \<in> set hex_digits" for x
      using that by (auto simp: hex_digits_def lower_char_def)
    ultimately show low: "to_lower ?h = ?h" unfolding to_lower_def by (simp add: map_idI subset_iff)
    then show "normal_comp ?h" "verify_digest ?sha (Inr (mr_manifest mr)) ?dg = None"
      using hex_normal(1) [OF hex, of "mr_manifest mr" ?h] by (simp_all add: verify_digest_ok sha256_digest_def)
  qed
  note b_eff = write_oci_blob_effect [OF ne v(1) b [unfolded sha256_digest_def]] write_oci_blob_safe [OF hex ne v(2) b]
  obtain e5 fs5 where y: "write_oci_layout cd oci ?dg (length (mr_manifest mr)) (mr_ref mr)
      (manifest_media_type cd (mr_manifest mr)) fs4 = (e5, fs5)" by fastforce
  note y_eff = write_oci_layout_effect [OF ne y]
  note eqs = assemble_def [of s cd mr scratch "(w, fs)", folded oci rf] m c l b y Let_def
  consider "e1 \<noteq> None" | "e1 = None" "\<exists>e. r2 = Inl e" | t where "e1 = None" "r2 = Inr t" "e3 \<noteq> None"
    | t where "e1 = None" "r2 = Inr t" "e3 = None" by (cases e1; cases r2; cases e3) auto
  then have ?goal
  proof cases
    case 1
    then show ?thesis using a m_eff(1) by (auto simp: eqs simp del: mkdirs.simps)
  next
    case 2
    then show ?thesis using a confined_trans [OF m_eff(1) up [OF c_eff(1)]] by (auto simp: eqs simp del: mkdirs.simps)
  next
    case 3
    note le = stage_layers_effect [OF hex dirs l c_eff(2) [OF m_eff(2) [OF 3(1)]], of "{}"]
    from 3 show ?thesis
      using a confined_trans [OF m_eff(1) confined_trans [OF up [OF c_eff(1)]]] le by (auto simp: eqs simp del: mkdirs.simps)
  next
    case 4
    note le = stage_layers_effect [OF hex dirs l c_eff(2) [OF m_eff(2) [OF 4(1)]], of ?D0]
    have cf: "confined ?sd fs fs3" using confined_trans [OF m_eff(1) confined_trans [OF up [OF c_eff(1)]]] le by blast
    have cf4: "confined ?sd fs fs4" by (rule confined_trans [OF cf up [OF b_eff(1)]])
    have has3: "layout_has ?sha oci (set (cleanup_digests mr)) fs3"
      using le 4(3) c_eff(3) [OF 4(2)] by (simp add: digests)
    show ?thesis
    proof (cases e4)
      case Some
      then show ?thesis using a 4 cf4 by (auto simp: eqs simp del: mkdirs.simps)
    next
      case None
      have has: "layout_has ?sha oci (set (cleanup_digests mr)) fs4"
        using layout_has_add [OF hex ne v(2) b [unfolded None] has3] by (simp add: layout_has_def)
      have man: "fs_nodes fs4 (blob_at oci ?h) = Some (FFile (mr_manifest mr))" using b_eff(4) None by blast
      have d5: "dir_at (loc_of rf) fs5" using b_eff(6) le y_eff(2) dir_at_mono by blast
      show ?thesis
        using a 4 None d5 confined_trans [OF cf4 up [OF y_eff(1)]] y_eff(4) man
          layout_has_other [OF has, of fs5] y_eff(3)
        by (cases e5) (auto simp: eqs simp del: mkdirs.simps)
    qed
  qed
  then show "confined ?sd fs fs'" and "r = Inr img \<Longrightarrow> si_oci_path img = oci \<and> si_fs_path img = rf \<and> dir_at (loc_of rf) fs'
      \<and> layout_has ?sha oci (set (cleanup_digests mr)) fs'
      \<and> fs_nodes fs' (blob_at oci ?h) = Some (FFile (mr_manifest mr))
      \<and> (\<exists>raw. cd_index_json cd (manifest_media_type cd (mr_manifest mr)) ?dg
                (length (mr_manifest mr)) (mr_ref mr) = Inr raw
             \<and> fs_nodes fs' (loc_of (path_join [oci, ''index.json''])) = Some (FFile raw))"
    by blast+
qed

section \<open>Properties\<close>

definition empty_fs :: fs where
  "empty_fs = \<lparr>fs_nodes = (\<lambda>_. None), fs_open_fault = (\<lambda>_. None), fs_write_fault = (\<lambda>_. None)\<rparr>"

text \<open>Codecs for the examples: every stream holds one regular file with a hostile name.\<close>

definition sample_codecs :: codecs where
  "sample_codecs =
     \<lparr>cd_gunzip = Inr, cd_untar = (\<lambda>b. ([\<lparr>te_name = ''../../etc/passwd'', te_kind = TarReg, te_body = b,
          te_body_err = None\<rparr>], None)),
      cd_media_type = (\<lambda>_. Inr []), cd_created = (\<lambda>_. Inr ''t''), cd_rfc3339 = (\<lambda>_. Inr 1),
      cd_rfc3339_nano = (\<lambda>_. Inr 1), cd_index_json = (\<lambda>mt d n r. Inr d)\<rparr>"

definition sample_push :: manifest_ref where
  "sample_push = \<lparr>mr_repo = ''r'', mr_ref = ''t'', mr_manifest = ''m'', mr_config_digest = [],
     mr_layer_digests = [''sha256:aa'']\<rparr>"

definition sample_staged :: mem_staging where
  "sample_staged = snd (complete_blob (mem_store (\<lambda>_. ''aa'') (\<lambda>_. [])) ''u'' ''sha256:aa'' (Inr ''l'') empty_mem_staging)"

text \<open>
  C40: Extracting a layer cannot leave the root filesystem's directory. Whatever names, types and
  order the archive's entries have, and whether extraction succeeds or fails half way, every file
  or directory it creates or changes lies strictly below the destination, and the destination
  and its parents stay directories.
\<close>

theorem extraction_confined:
  assumes "dest \<noteq> []" "dir_at (loc_of dest) fs"
  shows "jailed (loc_of dest) fs (snd (extract_tar cd raw dest fs))"
  by (rule jailed_extract_tar [OF assms])

text \<open>
  Assembling a push, successfully or not, changes nothing outside the scratch directory it
  was given (the directories on the way to it apart), and once \<open>Cleanup\<close> has succeeded nothing is
  left of it.
\<close>

theorem assembly_confined_and_removed:
  assumes "hex_hash (st_sha s)" "scratch \<noteq> []"
    and "assemble s cd mr scratch (w, fs) = (r, (w1, fs1))"
    and "cleanup s mr scratch (w2, fs1) = (None, (w3, fs2))"
  shows "confined (loc_of scratch) fs fs1
    \<and> (\<forall>l. above (loc_of scratch) l \<longrightarrow> fs_nodes fs2 l = None)
    \<and> (\<forall>l. \<not> above l (loc_of scratch) \<longrightarrow> \<not> above (loc_of scratch) l \<longrightarrow> fs_nodes fs2 l = fs_nodes fs l)"
proof -
  have c: "confined (loc_of scratch) fs fs1" using assemble_effect(1) [OF assms(1-3) HOL.refl HOL.refl] .
  have "fs_nodes fs2 = (\<lambda>m. if above (loc_of scratch) m then None else fs_nodes fs1 m)"
    using assms(2,4) by (auto simp: cleanup_def os_remove_all_def split: if_splits option.splits)
  with c show ?thesis unfolding confined_def by auto
qed

text \<open>
  C39: When \<open>Assemble\<close> succeeds, the OCI layout it hands to the scanner holds, for the config and
  every layer the manifest names, a file named by the digest whose bytes hash to that digest; the
  pushed manifest is there verbatim under its own digest, and \<open>index.json\<close> is the index of that
  digest. So what is scanned is what the manifest says.
\<close>

theorem assembled_layout_verified:
  assumes "hex_hash (st_sha s)" "scratch \<noteq> []"
    and "assemble s cd mr scratch (w, fs) = (Inr img, (w', fs'))"
  shows "layout_has (st_sha s) (si_oci_path img) (set (cleanup_digests mr)) fs'
    \<and> fs_nodes fs' (blob_at (si_oci_path img) (st_sha s (mr_manifest mr))) = Some (FFile (mr_manifest mr))
    \<and> (\<exists>raw. cd_index_json cd (manifest_media_type cd (mr_manifest mr))
                (sha256_digest (st_sha s) (mr_manifest mr)) (length (mr_manifest mr)) (mr_ref mr) = Inr raw
         \<and> fs_nodes fs' (loc_of (path_join [si_oci_path img, ''index.json''])) = Some (FFile raw))
    \<and> dir_at (loc_of (si_fs_path img)) fs'"
  using assemble_effect(2) [OF assms HOL.refl HOL.refl HOL.refl] by simp

lemma sample_assembles:
  "\<not> isl (fst (assemble (mem_store (\<lambda>_. ''aa'') (\<lambda>_. [])) sample_codecs sample_push ''s'' (sample_staged, empty_fs)))"
  by code_simp

lemma sample_hash: "hex_hash (st_sha (mem_store (\<lambda>_. ''aa'') ids))"
  by (simp add: hex_hash_def hex_digits_def mem_store_def)

lemma extraction_confined_witness:
  "jailed (loc_of ''/root'') (snd (os_mkdir_all ''/root'' empty_fs))
     (snd (extract_tar sample_codecs ''x'' ''/root'' (snd (os_mkdir_all ''/root'' empty_fs))))
   \<and> fs_nodes (snd (extract_tar sample_codecs ''x'' ''/root'' (snd (os_mkdir_all ''/root'' empty_fs))))
       (True, [''root'', ''etc'', ''passwd'']) = Some (FFile ''x'')"
proof (intro conjI extraction_confined)
  show "dir_at (loc_of ''/root'') (snd (os_mkdir_all ''/root'' empty_fs))"
    by (rule mkdir_dir_at [of _ empty_fs]) (simp add: prod_eq_iff, code_simp)
  show "fs_nodes (snd (extract_tar sample_codecs ''x'' ''/root'' (snd (os_mkdir_all ''/root'' empty_fs))))
      (True, [''root'', ''etc'', ''passwd'']) = Some (FFile ''x'')" by code_simp
qed simp

lemma sample_cleaned:
  "fst (cleanup (mem_store (\<lambda>_. ''aa'') (\<lambda>_. [])) sample_push ''s'' (snd (assemble (mem_store (\<lambda>_. ''aa'') (\<lambda>_. []))
     sample_codecs sample_push ''s'' (sample_staged, empty_fs)))) = None"
  by code_simp

lemma assembly_confined_and_removed_witness:
  "\<exists>r w1 fs1 w3 fs2. assemble (mem_store (\<lambda>_. ''aa'') (\<lambda>_. [])) sample_codecs sample_push ''s'' (sample_staged, empty_fs)
       = (r, (w1, fs1))
     \<and> cleanup (mem_store (\<lambda>_. ''aa'') (\<lambda>_. [])) sample_push ''s'' (w1, fs1) = (None, (w3, fs2))
     \<and> confined (loc_of ''s'') empty_fs fs1 \<and> fs_nodes fs2 (loc_of ''s/rootfs'') = None"
proof -
  let ?S = "mem_store (\<lambda>_. ''aa'') (\<lambda>_. [])"
  obtain r w1 fs1 where a: "assemble ?S sample_codecs sample_push ''s'' (sample_staged, empty_fs) = (r, (w1, fs1))"
    by (metis prod.exhaust)
  obtain w3 fs2 where c: "cleanup ?S sample_push ''s'' (w1, fs1) = (None, (w3, fs2))"
    using sample_cleaned by (simp add: a) (metis prod.exhaust fst_conv)
  have "above (loc_of ''s'') (loc_of ''s/rootfs'')" by code_simp
  then show ?thesis
    using assembly_confined_and_removed [OF sample_hash _ a c] a c by blast
qed

lemma assembled_layout_verified_witness:
  "\<exists>img w' fs'. assemble (mem_store (\<lambda>_. ''aa'') (\<lambda>_. [])) sample_codecs sample_push ''s'' (sample_staged, empty_fs)
       = (Inr img, (w', fs'))
     \<and> layout_has (\<lambda>_. ''aa'') (si_oci_path img) {''sha256:aa''} fs'"
proof -
  let ?S = "mem_store (\<lambda>_. ''aa'') (\<lambda>_. [])"
  obtain img w' fs' where
    a: "assemble ?S sample_codecs sample_push ''s'' (sample_staged, empty_fs) = (Inr img, (w', fs'))"
    using sample_assembles by (metis fst_conv isl_def prod.exhaust sum.exhaust_sel)
  have "set (cleanup_digests sample_push) = {''sha256:aa''}" by (simp add: cleanup_digests_def sample_push_def)
  then show ?thesis
    using assembled_layout_verified [OF sample_hash _ a] a by (simp add: mem_store_def)
qed

end
