(* ===== verification/Staging_Sweep.thy ===== *)
theory Staging_Sweep
  imports Staging_Layout
begin

text \<open>
  \<open>internal/staging/sweep.go\<close>: the removal of scratch directories a crash left behind, and the
  count of the bytes Merlin's own scratch directories hold. \<open>os.ReadDir\<close> and
  \<open>filepath.WalkDir\<close> are the operating system's: what they report is an argument.
\<close>

text \<open>A \<open>os.DirEntry\<close>: its name, whether it is a directory, and what \<open>Info\<close> says of its age.\<close>

record dir_entry =
  de_name :: string
  de_is_dir :: bool
  de_mod_time :: "gotime res"

datatype read_dir = DirMissing | DirUnreadable goerr | DirEntries "dir_entry list"

text \<open>One step of a walk: an error, a directory, or a file and its size.\<close>

datatype walk_step = WalkError goerr | WalkDirectory | WalkFile "int64 res"

definition scratch_prefixes :: "string list" where
  "scratch_prefixes = [''merlin-assemble-'', ''merlin-promote-'', ''stereoscope-'', ''getter'']"

definition default_scratch_max_age :: duration where
  "default_scratch_max_age = 24 * hour"

definition has_scratch_prefix :: "string \<Rightarrow> bool" where
  "has_scratch_prefix name = list_ex (has_prefix name) scratch_prefixes"

text \<open>The entries the sweep gives to \<open>RemoveAll\<close>.\<close>

definition sweepable :: "gotime \<Rightarrow> dir_entry \<Rightarrow> bool" where
  "sweepable cutoff e =
     (if \<not> de_is_dir e \<or> \<not> has_scratch_prefix (de_name e) then False
      else case de_mod_time e of Inl _ \<Rightarrow> False | Inr mt \<Rightarrow> mt < cutoff)"

fun sweep_entries :: "string \<Rightarrow> gotime \<Rightarrow> dir_entry list \<Rightarrow> int \<Rightarrow> fs \<Rightarrow> int \<times> fs" where
  "sweep_entries base cutoff [] removed fs = (removed, fs)"
| "sweep_entries base cutoff (e # es) removed fs =
     (if \<not> sweepable cutoff e then sweep_entries base cutoff es removed fs
      else case os_remove_all (path_join [base, de_name e]) fs of
        (Some _, fs1) \<Rightarrow> sweep_entries base cutoff es removed fs1
      | (None, fs1) \<Rightarrow> sweep_entries base cutoff es (removed + 1) fs1)"

definition sweep_scratch :: "string \<Rightarrow> duration \<Rightarrow> gotime \<Rightarrow> (string \<Rightarrow> read_dir) \<Rightarrow> fs \<Rightarrow> int res \<times> fs" where
  "sweep_scratch base max_age now read_dir fs =
     (if base = [] then (Inr 0, fs)
      else case read_dir base of
        DirMissing \<Rightarrow> (Inr 0, fs)
      | DirUnreadable e \<Rightarrow> (Inl (ErrWrap (''read scratch dir '' @ base @ '': '') e []), fs)
      | DirEntries es \<Rightarrow>
          (case sweep_entries base (now - max_age) es 0 fs of (n, fs1) \<Rightarrow> (Inr n, fs1)))"

fun walk_bytes :: "walk_step list \<Rightarrow> int64 \<Rightarrow> int64" where
  "walk_bytes [] acc = acc"
| "walk_bytes (WalkFile (Inr n) # ws) acc = walk_bytes ws (acc + n)"
| "walk_bytes (_ # ws) acc = walk_bytes ws acc"

fun scratch_entries_bytes :: "(string \<Rightarrow> walk_step list) \<Rightarrow> string \<Rightarrow> dir_entry list \<Rightarrow> int64 \<Rightarrow> int64" where
  "scratch_entries_bytes walk base [] acc = acc"
| "scratch_entries_bytes walk base (e # es) acc =
     (if \<not> de_is_dir e \<or> \<not> has_scratch_prefix (de_name e)
      then scratch_entries_bytes walk base es acc
      else scratch_entries_bytes walk base es (walk_bytes (walk (path_join [base, de_name e])) acc))"

definition scratch_bytes :: "(string \<Rightarrow> walk_step list) \<Rightarrow> string \<Rightarrow> (string \<Rightarrow> read_dir) \<Rightarrow> int64 res" where
  "scratch_bytes walk base read_dir =
     (if base = [] then Inr 0
      else case read_dir base of
        DirMissing \<Rightarrow> Inr 0
      | DirUnreadable e \<Rightarrow> Inl (ErrWrap (''read scratch dir '' @ base @ '': '') e [])
      | DirEntries es \<Rightarrow> Inr (scratch_entries_bytes walk base es 0))"

section \<open>What the sweep removes\<close>

lemma remove_all_nodes:
  "os_remove_all p fs = (r, fs') \<Longrightarrow>
   (\<forall>l. fs_nodes fs' l \<noteq> fs_nodes fs l \<longrightarrow> above (loc_of p) l \<and> fs_nodes fs' l = None)
   \<and> fs_open_fault fs' = fs_open_fault fs
   \<and> (r = None \<longrightarrow> p \<noteq> [] \<longrightarrow> (\<forall>l. above (loc_of p) l \<longrightarrow> fs_nodes fs' l = None))"
  by (auto simp: os_remove_all_def split: if_splits option.splits)

lemma sweep_entries_removed:
  "sweep_entries base cutoff es k fs = (n, fs') \<Longrightarrow> fs_nodes fs' l \<noteq> fs_nodes fs l \<Longrightarrow>
   fs_nodes fs' l = None \<and> (\<exists>e\<in>set es. sweepable cutoff e \<and> above (loc_of (path_join [base, de_name e])) l)"
proof (induction es arbitrary: k fs)
  case (Cons e es)
  show ?case
  proof (cases "sweepable cutoff e")
    case False
    then show ?thesis using Cons by auto
  next
    case True
    obtain r fs1 where r: "os_remove_all (path_join [base, de_name e]) fs = (r, fs1)" by fastforce
    obtain k' where k': "sweep_entries base cutoff es k' fs1 = (n, fs')"
      using Cons.prems(1) True r by (cases r) auto
    show ?thesis
    proof (cases "fs_nodes fs' l = fs_nodes fs1 l")
      case same: True
      then have "fs_nodes fs1 l \<noteq> fs_nodes fs l" using Cons.prems(2) by simp
      then have "above (loc_of (path_join [base, de_name e])) l \<and> fs_nodes fs1 l = None"
        using remove_all_nodes [OF r] by blast
      then show ?thesis using same True by auto
    next
      case False
      then show ?thesis using Cons.IH [OF k'] by auto
    qed
  qed
qed simp

lemma sweep_entries_count:
  "sweep_entries base cutoff es k fs = (n, fs') \<Longrightarrow> k \<le> n \<and> n \<le> k + int (length (filter (sweepable cutoff) es))"
proof (induction es arbitrary: k fs)
  case (Cons e es)
  obtain r fs1 where r: "os_remove_all (path_join [base, de_name e]) fs = (r, fs1)" by fastforce
  show ?case
    using Cons.IH [of k fs] Cons.IH [of k fs1] Cons.IH [of "k + 1" fs1] Cons.prems
    by (cases "sweepable cutoff e"; cases r) (auto simp: r)
qed simp

text \<open>
  The sweep can only take what a crash of Merlin left. Every node it removes lies in an
  entry of the scratch directory that is a directory, whose name starts with one of Merlin's
  prefixes and which was last modified more than the maximum age ago; nothing is created or
  rewritten, and the count it reports is at most the number of such entries.
\<close>

theorem sweep_takes_only_stale_scratch:
  assumes "sweep_scratch base max_age now (\<lambda>_. DirEntries es) fs = (Inr n, fs')"
  shows "(\<forall>l. fs_nodes fs' l \<noteq> fs_nodes fs l \<longrightarrow> fs_nodes fs' l = None \<and>
            (\<exists>e\<in>set es. de_is_dir e \<and> (\<exists>p\<in>set scratch_prefixes. has_prefix (de_name e) p)
                      \<and> (\<exists>t. de_mod_time e = Inr t \<and> t + max_age < now)
                      \<and> above (loc_of (path_join [base, de_name e])) l))
    \<and> 0 \<le> n \<and> n \<le> int (length (filter (sweepable (now - max_age)) es))"
proof (cases "base = []")
  case True
  then show ?thesis using assms by (auto simp: sweep_scratch_def)
next
  case False
  then have s: "sweep_entries base (now - max_age) es 0 fs = (n, fs')"
    using assms by (auto simp: sweep_scratch_def split: prod.splits)
  have "sweepable c e \<Longrightarrow> de_is_dir e \<and> (\<exists>p\<in>set scratch_prefixes. has_prefix (de_name e) p)
      \<and> (\<exists>t. de_mod_time e = Inr t \<and> t < c)" for c e
    by (auto simp: sweepable_def has_scratch_prefix_def list_ex_iff split: if_splits sum.splits)
  then show ?thesis
    using sweep_entries_removed [OF s] sweep_entries_count [OF s] by (smt (verit))
qed

lemma sweep_takes_only_stale_scratch_witness:
  "\<exists>n fs'. sweep_scratch ''/s'' 5 10 (\<lambda>_. DirEntries [\<lparr>de_name = ''getter1'', de_is_dir = True, de_mod_time = Inr 4\<rparr>,
        \<lparr>de_name = ''getter2'', de_is_dir = True, de_mod_time = Inr 5\<rparr>,
        \<lparr>de_name = ''data'', de_is_dir = True, de_mod_time = Inr 0\<rparr>]) empty_fs = (Inr n, fs')
     \<and> n = 1 \<and> (\<forall>l. fs_nodes fs' l = None)"
proof -
  let ?es = "[\<lparr>de_name = ''getter1'', de_is_dir = True, de_mod_time = Inr 4\<rparr>,
      \<lparr>de_name = ''getter2'', de_is_dir = True, de_mod_time = Inr 5\<rparr>,
      \<lparr>de_name = ''data'', de_is_dir = True, de_mod_time = Inr (0::gotime)\<rparr>]"
  have "fst (sweep_scratch ''/s'' 5 10 (\<lambda>_. DirEntries ?es) empty_fs) = Inr 1" by code_simp
  then obtain fs' where s: "sweep_scratch ''/s'' 5 10 (\<lambda>_. DirEntries ?es) empty_fs = (Inr 1, fs')"
    by (metis prod.exhaust fst_conv)
  have "fs_nodes fs' l = None" for l
  proof -
    have "fs_nodes fs' l \<noteq> fs_nodes empty_fs l \<longrightarrow> fs_nodes fs' l = None"
      using sweep_takes_only_stale_scratch [OF s] by blast
    then show ?thesis by (auto simp: empty_fs_def)
  qed
  with s show ?thesis by blast
qed

end
