(* ===== verification/Go_Http.thy ===== *)
theory Go_Http
  imports Staging_Store
begin

text \<open>
  What the ingress uses of \<open>net/http\<close> and of \<open>time.Duration\<close>'s methods. A request is what the
  server hands to a handler; the body is what reading it to the end gives. A response is what has
  been written when the handler returns; a handler that writes nothing is answered with an empty
  200. A panic, which the server turns into a dropped connection, is a reply of its own.
\<close>

section \<open>Requests and responses\<close>

record http_request =
  rq_method :: string
  rq_host :: string
  rq_path :: string
  rq_query :: "string \<Rightarrow> string"
  rq_header :: "string \<Rightarrow> string"
  rq_body :: reader
  rq_basic_auth :: "(string \<times> string) option"

record http_response =
  rs_status :: nat
  rs_headers :: "(string \<times> string) list"
  rs_body :: string

datatype reply = Reply http_response | Panic

definition no_write :: http_response where
  "no_write = \<lparr>rs_status = 200, rs_headers = [], rs_body = []\<rparr>"

definition respond :: "nat \<Rightarrow> (string \<times> string) list \<Rightarrow> string \<Rightarrow> http_response" where
  "respond code hs body = \<lparr>rs_status = code, rs_headers = hs, rs_body = body\<rparr>"

definition http_error :: "(string \<times> string) list \<Rightarrow> string \<Rightarrow> nat \<Rightarrow> http_response" where
  "http_error hs msg code =
     respond code (hs @ [(''Content-Type'', ''text/plain; charset=utf-8''), (''X-Content-Type-Options'', ''nosniff'')])
       (msg @ newline)"

definition http_not_found :: http_response where
  "http_not_found = http_error [] ''404 page not found'' 404"

text \<open>\<open>http.MaxBytesReader\<close>: a body longer than the limit ends in an error.\<close>

definition max_bytes_reader :: "int \<Rightarrow> reader \<Rightarrow> reader" where
  "max_bytes_reader n r =
     (case r of
        Inl e \<Rightarrow> Inl e
      | Inr b \<Rightarrow> (if int (length b) \<le> max n 0 then Inr b else Inl (ErrMsg ''http: request body too large'')))"

section \<open>Durations\<close>

definition fraction_digits :: "nat \<Rightarrow> nat \<Rightarrow> string" where
  "fraction_digits prec v =
     (let ds = fmt_nat (v mod 10 ^ prec);
          padded = replicate (prec - length ds) (CHR ''0'') @ ds;
          kept = rev (dropWhile (\<lambda>c. c = CHR ''0'') (rev padded))
      in if kept = [] then [] else ''.'' @ kept)"

definition fmt_fraction :: "nat \<Rightarrow> nat \<Rightarrow> string" where
  "fmt_fraction prec v = fmt_nat (v div 10 ^ prec) @ fraction_digits prec v"

text \<open>\<open>Duration.String\<close>; the two bytes before the \<open>s\<close> of microseconds are UTF-8 for the micro sign.\<close>

definition fmt_duration :: "duration \<Rightarrow> string" where
  "fmt_duration d =
     (let u = nat (abs d); sign = (if d < 0 then ''-'' else []); secs = u div 1000000000 in
      if u = 0 then ''0s''
      else sign @
        (if u < 1000 then fmt_nat u @ ''ns''
         else if u < 1000000 then fmt_fraction 3 u @ [CHR 0xC2, CHR 0xB5] @ ''s''
         else if u < 1000000000 then fmt_fraction 6 u @ ''ms''
         else (if 3600 \<le> secs then fmt_nat (secs div 3600) @ ''h'' else [])
            @ (if 60 \<le> secs then fmt_nat (secs div 60 mod 60) @ ''m'' else [])
            @ fmt_nat (secs mod 60) @ fraction_digits 9 u @ ''s''))"

text \<open>\<open>Duration.Round\<close> for a positive unit: halves go away from zero.\<close>

definition round_duration :: "duration \<Rightarrow> duration \<Rightarrow> duration" where
  "round_duration d m =
     (let r = abs d mod m;
          v = (if r + r < m then abs d - r else min max_duration (abs d + m - r))
      in if d < 0 then (if r + r < m then d + r else max min_duration (d - m + r)) else v)"

definition duration_secs :: "duration \<Rightarrow> real" where
  "duration_secs d = real_of_int d / 1000000000"

lemma http_error_status [simp]: "rs_status (http_error hs msg code) = code"
  by (simp add: http_error_def respond_def)

lemma respond_status [simp]: "rs_status (respond code hs b) = code"
  by (simp add: respond_def)

end
