(* ===== verification/Docker_Manifest.thy ===== *)
theory Docker_Manifest
  imports Go_Http
begin

text \<open>
  The pure part of \<open>internal/ingress/docker\<close>: the classification of a pushed manifest
  (\<open>classify.go\<close>), the parsers of request paths and image references, and the bounded route label
  (\<open>manifest.go\<close>, \<open>upload.go\<close>, \<open>handler.go\<close>, \<open>report.go\<close>). \<open>json.Unmarshal\<close> into
  \<open>parsedManifest\<close> is a parameter.
\<close>

section \<open>Classification\<close>

datatype manifest_kind = KindImage | KindIndex | KindAttestation

record descriptor =
  dc_media_type :: string
  dc_digest :: string

record parsed_manifest =
  pm_media_type :: string
  pm_config :: descriptor
  pm_layers :: "descriptor list"
  pm_manifests :: "descriptor list"

definition zero_manifest :: parsed_manifest where
  "zero_manifest = \<lparr>pm_media_type = [], pm_config = \<lparr>dc_media_type = [], dc_digest = []\<rparr>,
     pm_layers = [], pm_manifests = []\<rparr>"

definition index_media_types :: "string list" where
  "index_media_types = [''application/vnd.oci.image.index.v1+json'',
     ''application/vnd.docker.distribution.manifest.list.v2+json'']"

definition non_filesystem_layer_types :: "string list" where
  "non_filesystem_layer_types = [''application/vnd.in-toto+json'']"

definition manifest_kind_of :: "parsed_manifest \<Rightarrow> manifest_kind" where
  "manifest_kind_of m =
     (if pm_manifests m \<noteq> [] \<or> pm_media_type m \<in> set index_media_types then KindIndex
      else if pm_layers m \<noteq> [] \<and>
              list_all (\<lambda>l. dc_media_type l \<in> set non_filesystem_layer_types) (pm_layers m)
           then KindAttestation
      else KindImage)"

definition classify_manifest ::
  "(bytes \<Rightarrow> parsed_manifest res) \<Rightarrow> bytes \<Rightarrow> (parsed_manifest \<times> manifest_kind) res" where
  "classify_manifest unmarshal body =
     (case unmarshal body of Inl e \<Rightarrow> Inl e | Inr m \<Rightarrow> Inr (m, manifest_kind_of m))"

definition kind_name :: "manifest_kind \<Rightarrow> string" where
  "kind_name k =
     (case k of KindIndex \<Rightarrow> ''index'' | KindAttestation \<Rightarrow> ''attestation'' | KindImage \<Rightarrow> ''image'')"

section \<open>Paths and references\<close>

definition parse_manifest_path :: "string \<Rightarrow> string \<times> string" where
  "parse_manifest_path p0 =
     (let p = trim_prefix p0 ''/v2/'' in
      case str_index p ''/manifests/'' of
        None \<Rightarrow> ([], [])
      | Some i \<Rightarrow> (take i p, trim_prefix (drop i p) ''/manifests/''))"

definition parse_upload_repo :: "string \<Rightarrow> string" where
  "parse_upload_repo p0 =
     (let p = trim_prefix p0 ''/v2/'' in
      case str_index p ''/blobs/uploads/'' of Some i \<Rightarrow> take i p | None \<Rightarrow> p)"

definition parse_upload_ref :: "string \<Rightarrow> string \<times> string" where
  "parse_upload_ref p0 =
     (let p = trim_prefix p0 ''/v2/'' in
      case str_index p ''/blobs/uploads/'' of
        None \<Rightarrow> ([], [])
      | Some i \<Rightarrow>
          (let uuid = trim_prefix (drop i p) ''/blobs/uploads/'' in
           (take i p, case str_index uuid ''?'' of Some q \<Rightarrow> take q uuid | None \<Rightarrow> uuid)))"

definition repo_from_v2_path :: "string \<Rightarrow> string" where
  "repo_from_v2_path p0 =
     (let p = trim_prefix p0 ''/v2/'' in
      if p = [] \<or> p = ''/'' then []
      else case str_index p ''/manifests/'' of
        Some i \<Rightarrow> take i p
      | None \<Rightarrow>
          (case str_index p ''/blobs/'' of
             Some i \<Rightarrow> take i p
           | None \<Rightarrow> trim_suffix p ''/''))"

definition target_ref :: "string \<Rightarrow> string \<Rightarrow> string \<Rightarrow> string" where
  "target_ref registry repo ref =
     (if has_prefix ref ''sha256:'' then registry @ ''/'' @ repo @ ''@'' @ ref
      else registry @ ''/'' @ repo @ '':'' @ ref)"

definition manifest_digest :: "(bytes \<Rightarrow> string) \<Rightarrow> bytes \<Rightarrow> string" where
  "manifest_digest sha raw = ''sha256:'' @ sha raw"

definition split_image_ref :: "string \<Rightarrow> (string \<times> string) option" where
  "split_image_ref i =
     (case str_index i ''@'' of
        Some k \<Rightarrow> Some (take k i, drop (k + 1) i)
      | None \<Rightarrow>
          (let sl = (case last_index i (CHR ''/'') of Some k \<Rightarrow> int k | None \<Rightarrow> - 1) in
           case last_index i (CHR '':'') of
             None \<Rightarrow> None
           | Some c \<Rightarrow> (if int c > sl then Some (take c i, drop (c + 1) i) else None)))"

definition route_class :: "string \<Rightarrow> string" where
  "route_class p =
     (if p = ''/v2/'' \<or> p = ''/v2'' then ''base''
      else if p = ''/token'' then ''token''
      else if has_prefix p ''/reports/'' then ''report''
      else if str_contains p ''/blobs/uploads/'' then ''blob_upload''
      else if str_contains p ''/blobs/'' then ''blob''
      else if str_contains p ''/manifests/'' then ''manifest''
      else if has_prefix p ''/v2/'' then ''v2_other''
      else ''other'')"

section \<open>Facts\<close>

lemma kind_attestation_iff:
  "manifest_kind_of m = KindAttestation \<longleftrightarrow>
   pm_manifests m = [] \<and> pm_media_type m \<notin> set index_media_types \<and> pm_layers m \<noteq> []
   \<and> (\<forall>l\<in>set (pm_layers m). dc_media_type l = ''application/vnd.in-toto+json'')"
  by (auto simp: manifest_kind_of_def non_filesystem_layer_types_def list_all_iff)

lemma kind_index_iff:
  "manifest_kind_of m = KindIndex \<longleftrightarrow>
   pm_manifests m \<noteq> [] \<or> pm_media_type m \<in> set index_media_types"
  by (auto simp: manifest_kind_of_def)

lemma str_index_prefix_free:
  assumes "\<not> str_contains (a @ butlast pat) pat" "pat \<noteq> []"
  shows "str_index (a @ pat @ b) pat = Some (length a)"
proof (rule str_index_unique [OF HOL.refl])
  fix k assume k: "k < length a"
  show "\<not> has_prefix (drop k (a @ pat @ b)) pat"
  proof
    assume "has_prefix (drop k (a @ pat @ b)) pat"
    then obtain r where r: "drop k (a @ pat @ b) = pat @ r" by (auto simp: has_prefix_iff)
    have "take (length pat) (drop k (a @ butlast pat)) = pat"
    proof -
      have n: "length pat \<le> length (drop k (a @ butlast pat))" using k assms(2) by simp
      have "a @ pat @ b = (a @ butlast pat) @ last pat # b" using assms(2) by simp
      then have "drop k (a @ pat @ b) = drop k (a @ butlast pat) @ drop (k - length (a @ butlast pat)) (last pat # b)"
        by (simp only: drop_append)
      then have "take (length pat) (drop k (a @ pat @ b)) = take (length pat) (drop k (a @ butlast pat))"
        using n by (simp only: take_append) simp
      then show ?thesis unfolding r by (metis append_eq_conv_conj)
    qed
    then have "\<exists>x y. a @ butlast pat = x @ pat @ y"
      by (metis append_take_drop_id)
    then show False using assms(1) by (auto simp: str_contains_iff)
  qed
qed

end
