(* ===== verification/Docker_Outcome.thy ===== *)
theory Docker_Outcome
  imports Docker_Manifest Gate_Router Audit_Decision Acr_Classify
begin

text \<open>
  \<open>internal/ingress/docker/outcome.go\<close>: from a gate result to the decision a client is given, the
  publication of a passed image, the metrics and the audit row. The optional interfaces a metrics
  sink or a recorder may implement are optional fields. Publication may update what it was called
  on, so it threads a state \<open>'p\<close> of its own beside the world \<open>'w\<close>.
\<close>

section \<open>Data\<close>

record gate_decision =
  gd_status :: nat
  gd_summary :: string
  gd_report_url :: string
  gd_infra_error :: bool

record 'w metrics_observer =
  mo_push :: "bool \<Rightarrow> 'w \<Rightarrow> 'w"
  mo_scan_duration :: "real \<Rightarrow> 'w \<Rightarrow> 'w"
  mo_push_error :: "('w \<Rightarrow> 'w) option"
  mo_promote_duration :: "(real \<Rightarrow> 'w \<Rightarrow> 'w) option"
  mo_assemble_duration :: "(real \<Rightarrow> 'w \<Rightarrow> 'w) option"
  mo_queue_wait :: "(real \<Rightarrow> 'w \<Rightarrow> 'w) option"
  mo_acr_push :: "(string \<Rightarrow> string \<Rightarrow> 'w \<Rightarrow> 'w) option"

text \<open>The last two fields are the runtime's random bytes and clock.\<close>

record 'w outcome =
  oc_report_base_url :: string
  oc_recorder :: "'w recorder option"
  oc_tag_alias :: "(tag_alias \<Rightarrow> 'w \<Rightarrow> 'w) option"
  oc_id_gen :: "('w \<Rightarrow> string \<times> 'w) option"
  oc_metrics :: "'w metrics_observer option"
  oc_rand :: "nat \<Rightarrow> 'w \<Rightarrow> bytes res \<times> 'w"
  oc_clock :: "'w \<Rightarrow> gotime"

section \<open>Identifiers\<close>

definition hex_digit :: "nat \<Rightarrow> char" where
  "hex_digit n = ''0123456789abcdef'' ! (n mod 16)"

definition hex_encode :: "bytes \<Rightarrow> string" where
  "hex_encode b = concat (map (\<lambda>c. let n = (of_char c :: nat) in [hex_digit (n div 16), hex_digit n]) b)"

fun hex_pad :: "nat \<Rightarrow> nat \<Rightarrow> string" where
  "hex_pad 0 n = []"
| "hex_pad (Suc k) n = hex_pad k (n div 16) @ [hex_digit n]"

text \<open>\<open>%032x\<close> of \<open>UnixNano\<close> as a uint64; the Unix epoch is 62135596800 s after Go's zero time.\<close>

definition unix_nano :: "gotime \<Rightarrow> 64 word" where
  "unix_nano t = word_of_int (t - 62135596800 * second)"

definition generate_push_id :: "(nat \<Rightarrow> 'w \<Rightarrow> bytes res \<times> 'w) \<Rightarrow> ('w \<Rightarrow> gotime) \<Rightarrow> 'w \<Rightarrow> string \<times> 'w" where
  "generate_push_id rand clock w =
     (case rand 16 w of
        (Inl e, w1) \<Rightarrow> (hex_pad 32 (unat (unix_nano (clock w1))), w1)
      | (Inr b, w1) \<Rightarrow> (hex_encode b, w1))"

definition new_push_id :: "'w outcome \<Rightarrow> 'w \<Rightarrow> string \<times> 'w" where
  "new_push_id oc w =
     (case oc_id_gen oc of Some f \<Rightarrow> f w | None \<Rightarrow> generate_push_id (oc_rand oc) (oc_clock oc) w)"

definition clamp_uint16 :: "int \<Rightarrow> 16 word" where
  "clamp_uint16 n = (if n < 0 then 0 else if n > 65535 then 65535 else word_of_int n)"

text \<open>\<open>uint32(d.Milliseconds())\<close>: truncated towards zero, then to 32 bits.\<close>

definition duration_ms :: "duration \<Rightarrow> 32 word" where
  "duration_ms d = word_of_int (sgn d * (abs d div 1000000))"

section \<open>Publication, metrics, audit row\<close>

definition sync_publish ::
  "'w pusher \<Rightarrow> gate_request \<Rightarrow> (string \<Rightarrow> string \<Rightarrow> 'w \<Rightarrow> 'w) option \<Rightarrow> 'w \<Rightarrow> goerr option \<times> 'w" where
  "sync_publish pusher req obs w =
     (case ps_push pusher (si_oci_path (gr_image req)) (gr_target req) w of
        (err, w1) \<Rightarrow>
          (err, case obs of
                  None \<Rightarrow> w1
                | Some f \<Rightarrow> f (registry_from_target (gr_target req)) (push_error_label (classify_push_error err)) w1))"

definition observe_push_error :: "'w outcome \<Rightarrow> 'w \<Rightarrow> 'w" where
  "observe_push_error oc w =
     (case oc_metrics oc of
        None \<Rightarrow> w
      | Some m \<Rightarrow> (case mo_push_error m of None \<Rightarrow> w | Some f \<Rightarrow> f w))"

definition observe_promote :: "'w outcome \<Rightarrow> duration \<Rightarrow> 'w \<Rightarrow> 'w" where
  "observe_promote oc d w =
     (case oc_metrics oc of
        None \<Rightarrow> w
      | Some m \<Rightarrow> (case mo_promote_duration m of None \<Rightarrow> w | Some f \<Rightarrow> f (duration_secs d) w))"

definition observe_scan_duration :: "'w outcome \<Rightarrow> duration \<Rightarrow> 'w \<Rightarrow> 'w" where
  "observe_scan_duration oc d w =
     (case oc_metrics oc of None \<Rightarrow> w | Some m \<Rightarrow> mo_scan_duration m (duration_secs d) w)"

definition observe_push :: "'w outcome \<Rightarrow> bool \<Rightarrow> 'w \<Rightarrow> 'w" where
  "observe_push oc ok w = (case oc_metrics oc of None \<Rightarrow> w | Some m \<Rightarrow> mo_push m ok w)"

text \<open>The row: failed policies and their reasons in the order the map is ranged over.\<close>

definition decision_row ::
  "string \<Rightarrow> gate_request \<Rightarrow> result \<Rightarrow> bool \<Rightarrow> 32 word \<Rightarrow> goerr option \<Rightarrow> decision" where
  "decision_row push_id req res passed dur_ms infra =
     (let failed = filter (\<lambda>(_, v). \<not> v_passed v) (r_verdicts res);
          row = zero_decision\<lparr>ad_push_id := push_id, ad_repo := si_repo (gr_image req),
                  ad_tag := si_tag (gr_image req), ad_digest := si_digest (gr_image req),
                  ad_identity := gr_identity req, ad_passed := passed,
                  ad_failed_policies := map fst failed,
                  ad_reasons := concat (map (v_reasons \<circ> snd) failed) @ r_unenforced res,
                  ad_base_image_id := [], ad_scanner_db_version := r_scanner_db_version res,
                  ad_duration_ms := dur_ms\<rparr>;
          row1 = (case r_age res of
                    None \<Rightarrow> row
                  | Some a \<Rightarrow>
                      (if ai_known a
                       then row\<lparr>ad_image_created := ai_created a, ad_image_age_days := clamp_uint16 (ai_age_days a),
                                ad_image_age_threshold_days := clamp_uint16 (ai_threshold_days a),
                                ad_image_age_known := True\<rparr>
                       else row))
      in case infra of
           None \<Rightarrow> row1
         | Some e \<Rightarrow> row1\<lparr>ad_infra_error := True, ad_error_detail := err_text e\<rparr>)"

definition record_decision ::
  "'w outcome \<Rightarrow> string \<Rightarrow> gate_request \<Rightarrow> result \<Rightarrow> bool \<Rightarrow> 32 word \<Rightarrow> goerr option \<Rightarrow> 'w \<Rightarrow> 'w" where
  "record_decision oc push_id req res passed dur_ms infra w =
     (case oc_recorder oc of
        None \<Rightarrow> w
      | Some f \<Rightarrow> f (decision_row push_id req res passed dur_ms infra) (r_findings res) w)"

section \<open>Apply\<close>

text \<open>The two early returns of \<open>Apply\<close> and its publishing tail.\<close>

definition apply_infra ::
  "'w outcome \<Rightarrow> string \<Rightarrow> gate_request \<Rightarrow> result \<Rightarrow> goerr \<Rightarrow> 32 word \<Rightarrow> string \<Rightarrow> 'w \<Rightarrow> gate_decision \<times> 'w" where
  "apply_infra oc push_id req res err dur_ms url w =
     (let w1 = record_decision oc push_id req res False dur_ms (Some err) (observe_push_error oc w) in
      if errors_is err ErrSaturated
      then (\<lparr>gd_status = 503, gd_summary = ''scan pool saturated, retry later'', gd_report_url = url,
             gd_infra_error = True\<rparr>, w1)
      else (\<lparr>gd_status = 500, gd_summary = ''scan could not complete'', gd_report_url = url,
             gd_infra_error = True\<rparr>, w1))"

definition apply_publish ::
  "'w outcome \<Rightarrow> string \<Rightarrow> ('p \<Rightarrow> 'w \<Rightarrow> goerr option \<times> 'p \<times> 'w) \<Rightarrow> 'p \<Rightarrow> gate_request \<Rightarrow> result
   \<Rightarrow> 32 word \<Rightarrow> string \<Rightarrow> string \<Rightarrow> 'w \<Rightarrow> (gate_decision \<times> goerr option) \<times> 'p \<times> 'w" where
  "apply_publish oc push_id publish p req res dur_ms url summary w =
     (case publish p w of
        (err, p1, w1) \<Rightarrow>
          (let w2 = observe_promote oc (time_sub (oc_clock oc w1) (oc_clock oc w)) w1 in
           case err of
             Some e \<Rightarrow>
               (let pe = ErrWrap ''publish: '' e [] in
                ((\<lparr>gd_status = 502, gd_summary = ''passed but publication failed'', gd_report_url = url,
                   gd_infra_error = True\<rparr>, Some pe),
                 p1, record_decision oc push_id req res False dur_ms (Some pe) w2))
           | None \<Rightarrow>
               ((\<lparr>gd_status = 201, gd_summary = summary, gd_report_url = url, gd_infra_error = False\<rparr>, None),
                p1, record_decision oc push_id req res True dur_ms None w2)))"

definition outcome_apply ::
  "'w outcome \<Rightarrow> string \<Rightarrow> ('p \<Rightarrow> 'w \<Rightarrow> goerr option \<times> 'p \<times> 'w) \<Rightarrow> 'p \<Rightarrow> gate_request \<Rightarrow> result
   \<Rightarrow> goerr option \<Rightarrow> duration \<Rightarrow> 'w \<Rightarrow> (gate_decision \<times> goerr option) \<times> 'p \<times> 'w" where
  "outcome_apply oc push_id0 publish p req res gate_err scan_dur w0 =
     (case (if push_id0 = [] then new_push_id oc w0 else (push_id0, w0)) of
        (push_id, w1) \<Rightarrow>
          (let url = oc_report_base_url oc @ ''/'' @ push_id;
               dur_ms = duration_ms scan_dur;
               w2 = observe_scan_duration oc scan_dur w1
           in case gate_err of
                Some e \<Rightarrow> (case apply_infra oc push_id req res e dur_ms url w2 of (d, w3) \<Rightarrow> ((d, None), p, w3))
              | None \<Rightarrow>
                  (let w3 = observe_push oc (r_passed res) w2; summary = summarize_result res in
                   if \<not> r_passed res
                   then ((\<lparr>gd_status = 400, gd_summary = summary, gd_report_url = url, gd_infra_error = False\<rparr>, None),
                         p, record_decision oc push_id req res False dur_ms None w3)
                   else apply_publish oc push_id publish p req res dur_ms url summary w3)))"

section \<open>Facts\<close>

lemma decision_row_simps [simp]:
  "ad_push_id (decision_row i req res ok d er) = i"
  "ad_passed (decision_row i req res ok d er) = ok"
  "ad_infra_error (decision_row i req res ok d er) = (er \<noteq> None)"
  "ad_digest (decision_row i req res ok d er) = si_digest (gr_image req)"
  "ad_error_detail (decision_row i req res ok d er) = (case er of Some e \<Rightarrow> err_text e | None \<Rightarrow> [])"
  by (auto simp: decision_row_def zero_decision_def Let_def split: option.splits)

lemma clamp_uint16_bounds: "uint (clamp_uint16 n) = max 0 (min 65535 n)"
proof -
  have "uint (word_of_int n :: 16 word) = n" if "0 \<le> n" "n \<le> 65535"
    using that by (simp add: uint_word_of_int_eq take_bit_eq_mod)
  then show ?thesis by (auto simp: clamp_uint16_def)
qed

lemma hex_pad_length [simp]: "length (hex_pad k n) = k"
  by (induction k arbitrary: n) auto

lemma hex_encode_length: "length (hex_encode b) = 2 * length b"
  by (induction b) (auto simp: hex_encode_def Let_def)

text \<open>The outcome of \<open>Apply\<close> by cases, with the world before the row is written.\<close>

lemma outcome_apply_cases:
  assumes "outcome_apply oc i publish p req res gate_err dur w = ((d, err), p', w')"
  obtains
    (infra) e i' w1 where "gate_err = Some e" "p' = p" "err = None" "gd_infra_error d"
      "gd_status d = (if errors_is e ErrSaturated then 503 else 500)"
      "gd_report_url d = oc_report_base_url oc @ ''/'' @ i'" "i \<noteq> [] \<Longrightarrow> i' = i"
      "w' = record_decision oc i' req res False (duration_ms dur) (Some e) w1"
  | (rejected) i' w1 where "gate_err = None" "\<not> r_passed res" "p' = p" "err = None" "\<not> gd_infra_error d"
      "gd_status d = 400" "gd_report_url d = oc_report_base_url oc @ ''/'' @ i'" "i \<noteq> [] \<Longrightarrow> i' = i"
      "gd_summary d = summarize_result res"
      "w' = record_decision oc i' req res False (duration_ms dur) None w1"
  | (unpublished) e i' wp wq w1 where "gate_err = None" "r_passed res" "publish p wp = (Some e, p', wq)"
      "err = Some (ErrWrap ''publish: '' e [])" "gd_infra_error d" "gd_status d = 502"
      "gd_report_url d = oc_report_base_url oc @ ''/'' @ i'" "i \<noteq> [] \<Longrightarrow> i' = i"
      "w' = record_decision oc i' req res False (duration_ms dur) (Some (ErrWrap ''publish: '' e [])) w1"
  | (published) i' wp wq w1 where "gate_err = None" "r_passed res" "publish p wp = (None, p', wq)"
      "err = None" "\<not> gd_infra_error d" "gd_status d = 201"
      "gd_report_url d = oc_report_base_url oc @ ''/'' @ i'" "i \<noteq> [] \<Longrightarrow> i' = i"
      "gd_summary d = summarize_result res"
      "w' = record_decision oc i' req res True (duration_ms dur) None w1"
proof -
  obtain i' w1 where iw: "(if i = [] then new_push_id oc w else (i, w)) = (i', w1)" by fastforce
  then have i': "i \<noteq> [] \<Longrightarrow> i' = i" by auto
  note eq = assms [unfolded outcome_apply_def iw, simplified Let_def prod.case]
  show thesis
  proof (cases gate_err)
    case (Some e)
    then show thesis using eq i' infra [of e i']
      by (auto simp: apply_infra_def Let_def split: if_splits)
  next
    case None
    show thesis
    proof (cases "r_passed res")
      case False
      then show thesis using eq i' None rejected [of i'] by auto
    next
      case True
      define wp where "wp = observe_push oc (r_passed res) (observe_scan_duration oc dur w1)"
      obtain e q wq where pub: "publish p wp = (e, q, wq)" by (metis prod.exhaust)
      have "apply_publish oc i' publish p req res (duration_ms dur) (oc_report_base_url oc @ ''/'' @ i')
          (summarize_result res) wp = ((d, err), p', w')"
        using eq None True by (simp add: wp_def)
      then show thesis
        using pub None True i' unpublished [where wp = wp and wq = wq and i' = i'] published [where wp = wp and wq = wq and i' = i']
        by (cases e) (auto simp: apply_publish_def Let_def)
    qed
  qed
qed

text \<open>
  C13: Status code, audit row and report agree, and nothing is published unless the gate passed. A
  201 is given exactly when the gate ran, passed and publication succeeded; a 400 exactly
  when the gate ran and rejected; 500, 502 and 503 exactly when the row is marked as an
  infrastructure error, with its cause. The row says passed only under a 201, and it is filed
  under the push ID the report URL ends in. Publication was not called unless the gate passed.
\<close>

theorem decision_and_row_agree:
  assumes "outcome_apply oc i publish p req res gate_err dur w = ((d, err), p', w')"
    and "oc_recorder oc = Some rec"
  shows "\<exists>row w1. w' = rec row (r_findings res) w1
    \<and> gd_report_url d = oc_report_base_url oc @ ''/'' @ ad_push_id row \<and> (i = [] \<or> ad_push_id row = i)
    \<and> gd_status d \<in> {201, 400, 500, 502, 503}
    \<and> (ad_passed row = (gd_status d = 201)) \<and> (ad_infra_error row = gd_infra_error d)
    \<and> (gd_infra_error d = (gd_status d \<in> {500, 502, 503}))
    \<and> ((gd_status d = 400) = (gate_err = None \<and> \<not> r_passed res))
    \<and> ((gd_status d = 201) = (gate_err = None \<and> r_passed res \<and> err = None))
    \<and> (gate_err = None \<and> r_passed res \<or> p' = p)
    \<and> (gd_status d = 201 \<longrightarrow> (\<exists>wp wq. publish p wp = (None, p', wq)))
    \<and> (\<forall>e. gate_err = Some e \<longrightarrow> ad_error_detail row = err_text e)
    \<and> ad_duration_ms row = duration_ms dur"
proof -
  have ms: "ad_duration_ms (decision_row j req res ok x er) = x" for j ok x er
    by (auto simp: decision_row_def Let_def split: option.splits)
  have row: "record_decision oc j req res ok x er v = rec (decision_row j req res ok x er) (r_findings res) v"
    for j ok x er v by (simp add: record_decision_def assms(2))
  show ?thesis
    using assms(1)
  proof (cases rule: outcome_apply_cases)
    case (infra e i' w1)
    then show ?thesis
      by (intro exI [of _ "decision_row i' req res False (duration_ms dur) (Some e)"] exI [of _ w1])
        (auto simp: row ms)
  next
    case (rejected i' w1)
    then show ?thesis
      by (intro exI [of _ "decision_row i' req res False (duration_ms dur) None"] exI [of _ w1])
        (auto simp: row ms)
  next
    case (unpublished e i' wp wq w1)
    then show ?thesis
      by (intro exI [of _ "decision_row i' req res False (duration_ms dur) (Some (ErrWrap ''publish: '' e []))"]
          exI [of _ w1]) (auto simp: row ms)
  next
    case (published i' wp wq w1)
    then show ?thesis
      by (intro exI [of _ "decision_row i' req res True (duration_ms dur) None"] exI [of _ w1])
        (auto simp: row ms)
  qed
qed

text \<open>A recorder that keeps its rows, for the examples.\<close>

definition sample_outcome :: "decision list outcome" where
  "sample_outcome = \<lparr>oc_report_base_url = ''https://m/reports'', oc_recorder = Some (\<lambda>row _ w. w @ [row]),
     oc_tag_alias = None, oc_id_gen = Some (\<lambda>w. (''id'', w)), oc_metrics = None,
     oc_rand = (\<lambda>n w. (Inr [], w)), oc_clock = (\<lambda>_. 0)\<rparr>"

definition sample_request :: gate_request where
  "sample_request = \<lparr>gr_source = ''docker'', gr_identity = ''u'', gr_image = \<lparr>si_repo = ''r'', si_tag = ''t'',
     si_digest = ''sha256:aa'', si_fs_path = [], si_oci_path = [], si_created = 0, si_prefix = ''p''\<rparr>,
     gr_target = ''reg/r:t''\<rparr>"

lemma decision_and_row_agree_witness:
  "\<exists>d w'. outcome_apply sample_outcome ''id'' (\<lambda>p w. (None, p, w)) () sample_request
        (zero_result\<lparr>r_passed := True\<rparr>) None 5 [] = ((d, None), (), w')
     \<and> gd_status d = 201 \<and> (\<exists>row. w' = [row] \<and> ad_passed row)"
proof -
  let ?res = "zero_result\<lparr>r_passed := True\<rparr>"
  obtain d err p' w' where a: "outcome_apply sample_outcome ''id'' (\<lambda>p w. (None, p, w)) () sample_request
        ?res None 5 [] = ((d, err), p', w')" by (metis prod.exhaust)
  have e: "err = None"
    using a by (auto simp: outcome_apply_def apply_publish_def zero_result_def Let_def)
  have w: "length w' = 1"
    using a by (auto simp: outcome_apply_def apply_publish_def zero_result_def Let_def sample_outcome_def
        record_decision_def observe_promote_def observe_push_def observe_scan_duration_def)
  have rec: "oc_recorder sample_outcome = Some (\<lambda>row _ w. w @ [row])" by (simp add: sample_outcome_def)
  obtain row w1 where r: "w' = w1 @ [row]" "ad_passed row = (gd_status d = 201)"
      "(gd_status d = 201) = (None = None \<and> r_passed ?res \<and> err = None)"
    using decision_and_row_agree [OF a rec] by blast
  then show ?thesis using a e w by (auto simp: zero_result_def)
qed

end
