(* ===== verification/Docker_Slots.thy ===== *)
theory Docker_Slots
  imports Gate_Router
begin

text \<open>
  What the request path uses of a semaphore: the scan pool of \<open>internal/router\<close> and the upload
  slots of \<open>internal/ingress/docker/handler.go\<close> are both buffered channels a caller acquires within
  a time budget and releases in a \<open>defer\<close>. \<open>slots\<close> is the interface, \<open>slot_spec\<close> its contract,
  and both channels are instances.
\<close>

record 'w slots =
  sl_acquire :: "duration \<Rightarrow> 'w \<Rightarrow> goerr option \<times> 'w"
  sl_release :: "'w \<Rightarrow> 'w"

text \<open>The shape of \<open>acquire; defer release; body\<close>: what the body returns is kept.\<close>

definition with_slot ::
  "'w slots \<Rightarrow> duration \<Rightarrow> (goerr \<Rightarrow> 'a) \<Rightarrow> ('w \<Rightarrow> 'a \<times> 'w) \<Rightarrow> 'w \<Rightarrow> 'a \<times> 'w" where
  "with_slot s budget refused body w =
     (case sl_acquire s budget w of
        (Some e, w1) \<Rightarrow> (refused e, w1)
      | (None, w1) \<Rightarrow> (case body w1 of (r, w2) \<Rightarrow> (r, sl_release s w2)))"

locale slot_spec =
  fixes s :: "'w slots"
    and held :: "'w \<Rightarrow> nat multiset"
    and cap :: "'w \<Rightarrow> nat"
    and who :: nat
  assumes acquired: "sl_acquire s b w = (None, w') \<Longrightarrow> held w' = add_mset who (held w)"
    and acquired_room: "sl_acquire s b w = (None, w') \<Longrightarrow> size (held w) < cap w"
    and refused: "sl_acquire s b w = (Some e, w') \<Longrightarrow> held w' = held w"
    and released: "held (sl_release s w) = held w - {#who#}"
    and cap_acquire: "cap (snd (sl_acquire s b w)) = cap w"
    and cap_release: "cap (sl_release s w) = cap w"
begin

lemma with_slot_balanced:
  assumes "\<And>w. held (snd (body w)) = held w"
  shows "held (snd (with_slot s b r body w)) = held w"
proof (cases "sl_acquire s b w")
  case (Pair e w1)
  show ?thesis
  proof (cases e)
    case None
    obtain x w2 where b: "body w1 = (x, w2)" by fastforce
    have "held w2 = add_mset who (held w)"
      using assms [of w1] acquired [OF Pair [unfolded None]] b by simp
    then show ?thesis by (simp add: with_slot_def Pair None b released)
  next
    case Some
    then show ?thesis using refused [OF Pair [unfolded Some]] by (simp add: with_slot_def Pair)
  qed
qed

text \<open>While the body runs the slots are within the capacity, this caller's included.\<close>

lemma body_within_cap:
  assumes "sl_acquire s b w = (None, w')"
  shows "size (held w') \<le> cap w'"
  using acquired [OF assms] acquired_room [OF assms] cap_acquire [of b w] assms by simp

end

section \<open>The scan pool as slots\<close>

text \<open>
  \<open>runGate\<close> waits under a context with a deadline, so a caller the channel never admits ends with
  \<open>ErrSaturated\<close>; which case of the \<open>select\<close> fires is the scheduler's choice.
\<close>

definition pool_slots :: "(duration \<Rightarrow> pool \<Rightarrow> pool_event) \<Rightarrow> nat \<Rightarrow> pool slots" where
  "pool_slots scheduler who =
     \<lparr>sl_acquire = (\<lambda>b p. case pool_acquire who (scheduler b p) p of
                      Some (Inr _, p') \<Rightarrow> (None, p')
                    | Some (Inl e, p') \<Rightarrow> (Some e, p')
                    | None \<Rightarrow> (Some ErrSaturated, p)),
      sl_release = pool_release who\<rparr>"

interpretation pooled: slot_spec "pool_slots scheduler who" pl_held pl_cap who for scheduler who
  by unfold_locales
    (auto simp: pool_slots_def pool_acquire_def pool_release_def split: option.splits sum.splits
      pool_event.splits if_splits)

section \<open>The upload slots\<close>

text \<open>
  The \<open>select\<close> of \<open>acquireUploadSlot\<close>: a slot, the timer (a deadline error here), or the client
  leaving. A caller that gets no slot is ended by its timer.
\<close>

datatype upload_event = UploadSlot | UploadTimer | UploadClientGone goerr

definition upload_acquire :: "nat \<Rightarrow> upload_event \<Rightarrow> pool \<Rightarrow> goerr option \<times> pool" where
  "upload_acquire who ev p =
     (case ev of
        UploadSlot \<Rightarrow>
          (if size (pl_held p) < pl_cap p then (None, p\<lparr>pl_held := add_mset who (pl_held p)\<rparr>)
           else (Some CtxDeadlineExceeded, p))
      | UploadTimer \<Rightarrow> (Some CtxDeadlineExceeded, p)
      | UploadClientGone e \<Rightarrow> (Some e, p))"

definition upload_slots :: "(duration \<Rightarrow> pool \<Rightarrow> upload_event) \<Rightarrow> nat \<Rightarrow> pool slots" where
  "upload_slots scheduler who =
     \<lparr>sl_acquire = (\<lambda>b p. upload_acquire who (scheduler b p) p), sl_release = pool_release who\<rparr>"

interpretation uploads: slot_spec "upload_slots scheduler who" pl_held pl_cap who for scheduler who
  by unfold_locales
    (auto simp: upload_slots_def upload_acquire_def pool_release_def split: upload_event.splits if_splits)

section \<open>Slots in one part of a larger state\<close>

definition shared_slots :: "'w slots \<Rightarrow> ('w \<times> 'f) slots" where
  "shared_slots s =
     \<lparr>sl_acquire = (\<lambda>b (w, f). case sl_acquire s b w of (e, w') \<Rightarrow> (e, (w', f))),
      sl_release = (\<lambda>(w, f). (sl_release s w, f))\<rparr>"

lemma pool_slots_cap:
  "sl_acquire (pool_slots scheduler who) b p = (e, p') \<Longrightarrow> pl_cap p' = pl_cap p"
  using pooled.cap_acquire [of scheduler who b p] by simp

interpretation pod_pool: slot_spec "shared_slots (pool_slots scheduler who)" "\<lambda>p. pl_held (fst p)"
    "\<lambda>p. pl_cap (fst p)" who for scheduler who
  by unfold_locales
    (auto simp: shared_slots_def pooled.released pooled.cap_release
      dest: pool_slots_cap pooled.acquired pooled.acquired_room pooled.refused
      split: prod.splits)

end
