(* ===== verification/Auth_Tokens.thy ===== *)
theory Auth_Tokens
  imports Tenants Go_Http Acr_Classify
begin

text \<open>
  \<open>internal/auth\<close> and \<open>internal/ingress/docker/token.go\<close>: validating an Entra token
  (\<open>auth.go\<close>), the client-credentials grant (\<open>clientcreds.go\<close>), Merlin's own registry token
  (\<open>registrytoken.go\<close>) and the endpoint that mints it.

  The JWT library, the HTTP client and the JSON codecs are parameters. What the program relies on
  in the JWT library is stated as \<open>jwt_sound\<close> and \<open>jwt_complete\<close>.
\<close>

section \<open>The JWT library\<close>

record registry_claims =
  rc_scope :: string
  rc_prefix :: string
  rc_issuer :: string
  rc_subject :: string
  rc_audience :: "string list"
  rc_issued_at :: gotime
  rc_expires_at :: gotime

record parse_options =
  po_methods :: "string list"
  po_issuer :: string
  po_audience :: string
  po_expiration_required :: bool

text \<open>
  Signing with HS256 and a key, parsing registry claims under a key, parsing a map of claims (of which
  only a string \<open>sub\<close> is read) under a key function, and the precision of a numeric date.
\<close>

record jwt_lib =
  jw_sign :: "registry_claims \<Rightarrow> bytes \<Rightarrow> string res"
  jw_parse :: "string \<Rightarrow> bytes \<Rightarrow> parse_options \<Rightarrow> gotime \<Rightarrow> registry_claims res"
  jw_parse_sub :: "string \<Rightarrow> parse_options \<Rightarrow> gotime \<Rightarrow> string option res"
  jw_date :: "gotime \<Rightarrow> gotime"

text \<open>An accepted token was signed with the key, for the issuer and audience asked for, and is not expired.\<close>

definition jwt_sound :: "jwt_lib \<Rightarrow> bool" where
  "jwt_sound lib \<longleftrightarrow>
     (\<forall>tok key opts now c. jw_parse lib tok key opts now = Inr c \<longrightarrow>
        jw_sign lib c key = Inr tok \<and> rc_issuer c = po_issuer opts \<and> po_audience opts \<in> set (rc_audience c)
        \<and> (po_expiration_required opts \<longrightarrow> now < rc_expires_at c))"

text \<open>A signed token is accepted under the same key while it is valid, and gives its claims back.\<close>

definition jwt_complete :: "jwt_lib \<Rightarrow> bool" where
  "jwt_complete lib \<longleftrightarrow>
     (\<forall>tok key opts now c. jw_sign lib c key = Inr tok \<longrightarrow> ''HS256'' \<in> set (po_methods opts) \<longrightarrow>
        rc_issuer c = po_issuer opts \<longrightarrow> po_audience opts \<in> set (rc_audience c) \<longrightarrow> now < rc_expires_at c \<longrightarrow>
        jw_parse lib tok key opts now = Inr c)"

section \<open>Entra tokens\<close>

record jwt_authenticator =
  ja_issuer :: string
  ja_audience :: string
  ja_algorithms :: "string list"

definition new_jwt_authenticator :: "string \<Rightarrow> string \<Rightarrow> jwt_authenticator" where
  "new_jwt_authenticator issuer audience =
     \<lparr>ja_issuer = issuer, ja_audience = audience, ja_algorithms = [''RS256'']\<rparr>"

definition jwt_validate :: "jwt_lib \<Rightarrow> jwt_authenticator \<Rightarrow> gotime \<Rightarrow> string \<Rightarrow> string res" where
  "jwt_validate lib a now bearer =
     (if bearer = [] then Inl (ErrMsg ''auth: empty token'')
      else case jw_parse_sub lib bearer
          \<lparr>po_methods = ja_algorithms a, po_issuer = ja_issuer a, po_audience = ja_audience a,
           po_expiration_required = True\<rparr> now of
        Inl e \<Rightarrow> Inl (ErrWrap ''auth: invalid token: '' e [])
      | Inr claim \<Rightarrow>
          (let sub = (case claim of Some s \<Rightarrow> s | None \<Rightarrow> []) in
           if sub = [] then Inl (ErrMsg ''auth: token missing sub'') else Inr sub))"

section \<open>Client credentials\<close>

record 'w entra_credentials =
  ec_token_url :: string
  ec_scope :: string
  ec_new_request :: "string \<Rightarrow> goerr option"
  ec_do :: "string \<Rightarrow> (string \<times> string) list \<Rightarrow> 'w \<Rightarrow> (nat \<times> reader) res \<times> 'w"
  ec_access_token :: "bytes \<Rightarrow> string res"

definition entra_token_url :: "string \<Rightarrow> string" where
  "entra_token_url tenant_id = ''https://login.microsoftonline.com/'' @ tenant_id @ ''/oauth2/v2.0/token''"

definition limit_reader :: "nat \<Rightarrow> reader \<Rightarrow> reader" where
  "limit_reader n r = (case r of Inl e \<Rightarrow> Inl e | Inr b \<Rightarrow> Inr (take n b))"

definition credentials_validate ::
  "'w entra_credentials \<Rightarrow> string \<Rightarrow> string \<Rightarrow> 'w \<Rightarrow> string res \<times> 'w" where
  "credentials_validate e client_id secret w =
     (let form = [(''grant_type'', ''client_credentials''), (''client_id'', client_id),
                  (''client_secret'', secret), (''scope'', ec_scope e)] in
      case ec_new_request e (ec_token_url e) of
        Some er \<Rightarrow> (Inl (ErrWrap ''build client-credentials request: '' er []), w)
      | None \<Rightarrow>
          (case ec_do e (ec_token_url e) form w of
             (Inl er, w1) \<Rightarrow> (Inl (ErrWrap ''client-credentials request: '' er []), w1)
           | (Inr (status, body), w1) \<Rightarrow>
               (if status \<noteq> 200
                then (Inl (ErrMsg (''client-credentials grant failed: status '' @ fmt_nat status)), w1)
                else case limit_reader (2 ^ 20) body of
                  Inl er \<Rightarrow> (Inl (ErrWrap ''read client-credentials response: '' er []), w1)
                | Inr raw \<Rightarrow>
                    (case ec_access_token e raw of
                       Inl er \<Rightarrow> (Inl (ErrWrap ''decode client-credentials response: '' er []), w1)
                     | Inr tok \<Rightarrow>
                         (if tok = [] then (Inl (ErrMsg ''client-credentials grant returned no access_token''), w1)
                          else (Inr client_id, w1))))))"

section \<open>Registry tokens\<close>

record registry_issuer =
  ri_secret :: bytes
  ri_service :: string
  ri_ttl :: duration

definition mint_claims :: "jwt_lib \<Rightarrow> registry_issuer \<Rightarrow> gotime \<Rightarrow> string \<Rightarrow> string \<Rightarrow> string \<Rightarrow> registry_claims" where
  "mint_claims lib i now subject scope pfx =
     \<lparr>rc_scope = scope, rc_prefix = pfx, rc_issuer = ''merlin'', rc_subject = subject,
      rc_audience = [ri_service i], rc_issued_at = jw_date lib now,
      rc_expires_at = jw_date lib (now + ri_ttl i)\<rparr>"

text \<open>\<open>int(d.Seconds())\<close> truncates towards zero.\<close>

definition whole_seconds :: "duration \<Rightarrow> int" where
  "whole_seconds d = sgn d * (abs d div second)"

definition token_mint ::
  "jwt_lib \<Rightarrow> registry_issuer \<Rightarrow> gotime \<Rightarrow> string \<Rightarrow> string \<Rightarrow> string \<Rightarrow> (string \<times> int) res" where
  "token_mint lib i now subject scope pfx =
     (case jw_sign lib (mint_claims lib i now subject scope pfx) (ri_secret i) of
        Inl e \<Rightarrow> Inl (ErrWrap ''sign registry token: '' e [])
      | Inr tok \<Rightarrow> Inr (tok, whole_seconds (ri_ttl i)))"

definition verify_options :: "registry_issuer \<Rightarrow> parse_options" where
  "verify_options i = \<lparr>po_methods = [''HS256''], po_issuer = ''merlin'', po_audience = ri_service i,
     po_expiration_required = True\<rparr>"

definition token_verify :: "jwt_lib \<Rightarrow> registry_issuer \<Rightarrow> gotime \<Rightarrow> string \<Rightarrow> (string \<times> string \<times> string) res" where
  "token_verify lib i now tok =
     (case jw_parse lib tok (ri_secret i) (verify_options i) now of
        Inl e \<Rightarrow> Inl (ErrWrap ''verify registry token: '' e [])
      | Inr c \<Rightarrow> Inr (rc_subject c, rc_scope c, rc_prefix c))"

section \<open>The token endpoint\<close>

text \<open>What a handler uses of an issuer, and a tenant with its collaborators.\<close>

record 'w token_service =
  ts_mint :: "string \<Rightarrow> string \<Rightarrow> string \<Rightarrow> 'w \<Rightarrow> (string \<times> int) res \<times> 'w"
  ts_verify :: "string \<Rightarrow> 'w \<Rightarrow> (string \<times> string \<times> string) res \<times> 'w"

definition issuer_service :: "jwt_lib \<Rightarrow> registry_issuer \<Rightarrow> ('w \<Rightarrow> gotime) \<Rightarrow> 'w token_service" where
  "issuer_service lib i clock =
     \<lparr>ts_mint = (\<lambda>subject scope pfx w. (token_mint lib i (clock w) subject scope pfx, w)),
      ts_verify = (\<lambda>tok w. (token_verify lib i (clock w) tok, w))\<rparr>"

record 'w tenant =
  tn_prefix :: string
  tn_registry :: string
  tn_pusher :: "'w pusher"
  tn_authn :: "string \<Rightarrow> 'w \<Rightarrow> string res \<times> 'w"

record 'w token_handler =
  th_resolver :: "string \<Rightarrow> 'w tenant res"
  th_client_creds :: "string \<Rightarrow> string \<Rightarrow> 'w \<Rightarrow> string res \<times> 'w"
  th_issuer :: "'w token_service"
  th_encode :: "string \<Rightarrow> int \<Rightarrow> string"

definition unauthorized_token :: http_response where
  "unauthorized_token = http_error [] ''unauthorized'' 401"

definition token_issue ::
  "'w token_handler \<Rightarrow> string \<Rightarrow> string \<Rightarrow> string \<Rightarrow> 'w \<Rightarrow> http_response \<times> 'w" where
  "token_issue th subject scope pfx w =
     (case ts_mint (th_issuer th) subject scope pfx w of
        (Inl e, w1) \<Rightarrow> (http_error [] ''token issuance failed'' 500, w1)
      | (Inr (tok, expires_in), w1) \<Rightarrow>
          (respond 200 [(''Content-Type'', ''application/json'')] (th_encode th tok expires_in), w1))"

definition token_serve :: "'w token_handler \<Rightarrow> http_request \<Rightarrow> 'w \<Rightarrow> http_response \<times> 'w" where
  "token_serve th rq w =
     (case th_resolver th (rq_host rq) of
        Inl e \<Rightarrow> (http_error [] ''unknown registry'' 404, w)
      | Inr t \<Rightarrow>
          (case rq_basic_auth rq of
             None \<Rightarrow> (unauthorized_token, w)
           | Some (user, pass) \<Rightarrow>
               (if pass = [] then (unauthorized_token, w)
                else
                  (let scope = rq_query rq ''scope'' in
                   case tn_authn t pass w of
                     (Inr subject, w1) \<Rightarrow> token_issue th subject scope (tn_prefix t) w1
                   | (Inl _, w1) \<Rightarrow>
                       (case th_client_creds th user pass w1 of
                          (Inr subject, w2) \<Rightarrow> token_issue th subject scope (tn_prefix t) w2
                        | (Inl _, w2) \<Rightarrow> (unauthorized_token, w2))))))"

section \<open>Facts\<close>

lemma mint_verify:
  assumes "jwt_complete lib" "token_mint lib i now subject scope pfx = Inr (tok, n)"
    and "now' < jw_date lib (now + ri_ttl i)"
  shows "token_verify lib i now' tok = Inr (subject, scope, pfx)"
proof -
  let ?c = "mint_claims lib i now subject scope pfx"
  have s: "jw_sign lib ?c (ri_secret i) = Inr tok"
    using assms(2) by (auto simp: token_mint_def split: sum.splits)
  have "jw_parse lib tok (ri_secret i) (verify_options i) now' = Inr ?c"
    using assms(1,3) s unfolding jwt_complete_def by (auto simp: mint_claims_def verify_options_def)
  then show ?thesis by (simp add: token_verify_def mint_claims_def)
qed

lemma verify_signed:
  assumes "jwt_sound lib" "token_verify lib i now tok = Inr (subject, scope, pfx)"
  shows "\<exists>c. jw_sign lib c (ri_secret i) = Inr tok \<and> rc_subject c = subject \<and> rc_prefix c = pfx
    \<and> ri_service i \<in> set (rc_audience c) \<and> rc_issuer c = ''merlin'' \<and> now < rc_expires_at c"
proof -
  obtain c where c: "jw_parse lib tok (ri_secret i) (verify_options i) now = Inr c"
      "rc_subject c = subject" "rc_prefix c = pfx"
    using assms(2) by (auto simp: token_verify_def split: sum.splits)
  with assms(1) have "jw_sign lib c (ri_secret i) = Inr tok \<and> rc_issuer c = po_issuer (verify_options i)
      \<and> po_audience (verify_options i) \<in> set (rc_audience c)
      \<and> (po_expiration_required (verify_options i) \<longrightarrow> now < rc_expires_at c)"
    unfolding jwt_sound_def by blast
  with c show ?thesis by (auto simp: verify_options_def)
qed

end
