(* ===== verification/Docker_Handler.thy ===== *)
theory Docker_Handler
  imports Docker_Outcome Docker_Slots Auth_Tokens Staging_Layout Promote_Queue
begin

text \<open>
  \<open>internal/ingress/docker/handler.go\<close>: the handler's state, its validated construction, the
  admission checks, authentication and challenges. The world of a request is a pair of what all
  replicas share (\<open>'w\<close>: the stores, the queue, the registries) and the pod's file system; the
  staging store acts on the first part, every other collaborator on the pair. The store, the router
  and the pool's router are not nil in any wiring of the program that accepts a push, so they are
  not optional here.
\<close>

section \<open>Collaborators\<close>

type_synonym 'w pod = "'w \<times> fs"

record 'w promoter =
  pr_promote :: "job \<Rightarrow> 'w \<Rightarrow> goerr option \<times> 'w"
  pr_pending :: "('w \<Rightarrow> int res \<times> 'w) option"

definition queue_promoter :: "'w promote_queue \<Rightarrow> 'w promoter" where
  "queue_promoter q = \<lparr>pr_promote = queue_promote q, pr_pending = Some (queue_pending q)\<rparr>"

record 'w report_source =
  rp_findings_by_push :: "string \<Rightarrow> 'w \<Rightarrow> finding list res \<times> 'w"
  rp_findings_by_image_ref :: "string \<Rightarrow> string \<Rightarrow> 'w \<Rightarrow> finding list res \<times> 'w"
  rp_header_by_push :: "string \<Rightarrow> 'w \<Rightarrow> decision_header res \<times> 'w"
  rp_header_by_image_ref :: "string \<Rightarrow> string \<Rightarrow> 'w \<Rightarrow> decision_header res \<times> 'w"

text \<open>
  The runtime a request runs in: the clock, whether the client is still there, the wait of a
  \<open>select\<close> on a timer and the client (true when the timer fired), \<open>os.MkdirTemp\<close>'s random name,
  and the codecs.
\<close>

record 'w runtime =
  rt_clock :: "'w pod \<Rightarrow> gotime"
  rt_client_err :: "'w pod \<Rightarrow> goerr option"
  rt_pause :: "duration \<Rightarrow> 'w pod \<Rightarrow> bool \<times> 'w pod"
  rt_rand :: "nat \<Rightarrow> 'w pod \<Rightarrow> bytes res \<times> 'w pod"
  rt_rand_name :: "'w pod \<Rightarrow> string \<times> 'w pod"
  rt_codecs :: codecs
  rt_unmarshal :: "bytes \<Rightarrow> parsed_manifest res"
  rt_encode_report :: "(bool \<times> string \<times> finding list \<times> age_info option) \<Rightarrow> string"

section \<open>The handler and its configuration\<close>

record 'w handler_config =
  hc_resolver :: "(string \<Rightarrow> 'w pod tenant res) option"
  hc_router :: "'w pod gate_policy list"
  hc_outcome :: "'w pod outcome option"
  hc_store :: "'w staging"
  hc_reports :: "'w pod report_source option"
  hc_requests :: "(string \<Rightarrow> string \<Rightarrow> string \<Rightarrow> 'w pod \<Rightarrow> 'w pod) option"
  hc_promoter :: "'w pod promoter option"
  hc_max_pending :: int
  hc_max_upload_bytes :: int
  hc_upload_concurrency :: int
  hc_upload_wait :: duration
  hc_pool :: "('w pod slots \<times> 'w pod gate_policy list) option"
  hc_gate_timeout :: duration
  hc_scratch_base_dir :: string
  hc_registry_issuer :: "'w pod token_service option"
  hc_token_realm :: string
  hc_service :: string
  hc_token_handler :: "'w pod token_handler option"

record 'w handler =
  h_resolver :: "string \<Rightarrow> 'w pod tenant res"
  h_store :: "'w staging"
  h_router :: "'w pod gate_policy list"
  h_outcome :: "'w pod outcome option"
  h_reports :: "'w pod report_source option"
  h_max_upload_bytes :: int
  h_upload_slots :: "'w pod slots option"
  h_upload_wait :: duration
  h_pool :: "('w pod slots \<times> 'w pod gate_policy list) option"
  h_gate_timeout :: duration
  h_scratch_base_dir :: string
  h_reg_issuer :: "'w pod token_service option"
  h_token_realm :: string
  h_service :: string
  h_token_handler :: "'w pod token_handler option"
  h_promoter :: "'w pod promoter option"
  h_max_pending :: int
  h_requests :: "(string \<Rightarrow> string \<Rightarrow> string \<Rightarrow> 'w pod \<Rightarrow> 'w pod) option"
  h_index_wait :: duration
  h_index_poll :: duration
  h_runtime :: "'w runtime"

definition em_dash :: string where
  "em_dash = [CHR 0xE2, CHR 0x80, CHR 0x94]"

text \<open>\<open>make_slots n\<close> is the channel of capacity \<open>n\<close>.\<close>

definition new_handler ::
  "'w runtime \<Rightarrow> (int \<Rightarrow> 'w pod slots) \<Rightarrow> 'w handler_config \<Rightarrow> 'w handler res" where
  "new_handler rt make_slots cfg =
     (case hc_resolver cfg of
        None \<Rightarrow> Inl (ErrMsg ''docker handler: Resolver is required (host->tenant resolution is the security boundary)'')
      | Some resolver \<Rightarrow>
          (if hc_registry_issuer cfg \<noteq> None \<and> (hc_token_realm cfg = [] \<or> hc_service cfg = [])
           then Inl (ErrMsg (''docker handler: RegistryIssuer set with TokenRealm='' @ fmt_q (hc_token_realm cfg)
                  @ '' Service='' @ fmt_q (hc_service cfg)
                  @ '' '' @ em_dash @ '' the WWW-Authenticate challenge would tell clients nowhere to get a token''))
           else if 0 < hc_max_pending cfg \<and> hc_promoter cfg = None
           then Inl (ErrMsg (''docker handler: MaxPendingPromotions='' @ fmt_int (hc_max_pending cfg)
                  @ '' with no Promoter '' @ em_dash @ '' the backlog bound would be inert''))
           else if 0 < hc_upload_wait cfg \<and> hc_upload_concurrency cfg < 1
           then Inl (ErrMsg (''docker handler: UploadWait='' @ fmt_duration (hc_upload_wait cfg)
                  @ '' with no UploadConcurrency '' @ em_dash @ '' there is no queue to wait in, so the budget would be inert''))
           else Inr \<lparr>h_resolver = resolver, h_store = hc_store cfg, h_router = hc_router cfg,
                  h_outcome = hc_outcome cfg, h_reports = hc_reports cfg,
                  h_max_upload_bytes = hc_max_upload_bytes cfg,
                  h_upload_slots = (if 0 < hc_upload_concurrency cfg
                                    then Some (make_slots (hc_upload_concurrency cfg)) else None),
                  h_upload_wait = hc_upload_wait cfg, h_pool = hc_pool cfg,
                  h_gate_timeout = hc_gate_timeout cfg, h_scratch_base_dir = hc_scratch_base_dir cfg,
                  h_reg_issuer = hc_registry_issuer cfg, h_token_realm = hc_token_realm cfg,
                  h_service = hc_service cfg, h_token_handler = hc_token_handler cfg,
                  h_promoter = hc_promoter cfg,
                  h_max_pending = (if 0 < hc_max_pending cfg then hc_max_pending cfg else 0),
                  h_requests = hc_requests cfg, h_index_wait = 0, h_index_poll = 0, h_runtime = rt\<rparr>))"

definition default_max_pending_promotions :: int where
  "default_max_pending_promotions = 16"

definition default_max_upload_bytes :: int where
  "default_max_upload_bytes = 512 * 2 ^ 20"

definition get_max_upload_bytes :: "'w handler \<Rightarrow> int" where
  "get_max_upload_bytes h =
     (if h_max_upload_bytes h = 0 then default_max_upload_bytes else h_max_upload_bytes h)"

definition default_upload_wait :: duration where
  "default_upload_wait = 30 * second"

definition clock :: "'w handler \<Rightarrow> 'w pod \<Rightarrow> gotime" where
  "clock h = rt_clock (h_runtime h)"

definition on_shared :: "('w \<Rightarrow> 'a \<times> 'w) \<Rightarrow> 'w pod \<Rightarrow> 'a \<times> 'w pod" where
  "on_shared f p = (case p of (w, fs) \<Rightarrow> (case f w of (r, w') \<Rightarrow> (r, (w', fs))))"

section \<open>Admission\<close>

definition promotion_backlog_full :: "'w handler \<Rightarrow> 'w pod \<Rightarrow> bool \<times> 'w pod" where
  "promotion_backlog_full h p =
     (if h_max_pending h < 1 then (False, p)
      else case h_promoter h of
        None \<Rightarrow> (False, p)
      | Some pr \<Rightarrow>
          (case pr_pending pr of
             None \<Rightarrow> (False, p)
           | Some pending \<Rightarrow>
               (case pending p of
                  (Inl e, p1) \<Rightarrow> (False, p1)
                | (Inr depth, p1) \<Rightarrow> (h_max_pending h \<le> depth, p1))))"

definition handler_push_id :: "'w handler \<Rightarrow> 'w pod \<Rightarrow> string \<times> 'w pod" where
  "handler_push_id h p =
     (case h_outcome h of
        Some oc \<Rightarrow> new_push_id oc p
      | None \<Rightarrow> generate_push_id (rt_rand (h_runtime h)) (clock h) p)"

definition upload_refused :: "goerr \<Rightarrow> http_response" where
  "upload_refused e =
     (if e = CtxDeadlineExceeded then http_error [(''Retry-After'', ''5'')] ''upload capacity saturated'' 503
      else no_write)"

text \<open>\<open>acquireUploadSlot\<close> with its deferred release around the rest of the handler.\<close>

definition with_upload_slot ::
  "'w handler \<Rightarrow> ('w pod \<Rightarrow> 'w pod) \<Rightarrow> ('w pod \<Rightarrow> http_response \<times> 'w pod) \<Rightarrow> 'w pod \<Rightarrow> http_response \<times> 'w pod" where
  "with_upload_slot h shed body p =
     (case h_upload_slots h of
        None \<Rightarrow> body p
      | Some s \<Rightarrow>
          (let wait = (if h_upload_wait h = 0 then default_upload_wait else h_upload_wait h) in
           case with_slot s wait Inl (\<lambda>p1. case body p1 of (r, p2) \<Rightarrow> (Inr r, p2)) p of
             (Inl e, p1) \<Rightarrow> (upload_refused e, shed p1)
           | (Inr r, p1) \<Rightarrow> (r, p1)))"

section \<open>Authentication\<close>

definition bearer_of :: "http_request \<Rightarrow> string" where
  "bearer_of rq = trim_prefix (rq_header rq ''Authorization'') ''Bearer ''"

definition dquote :: char where
  "dquote = CHR 0x22"

definition quoted :: "string \<Rightarrow> string" where
  "quoted s = dquote # s @ [dquote]"

definition legacy_challenge :: "string \<times> string" where
  "legacy_challenge =
     (''WWW-Authenticate'', ''Bearer realm='' @ quoted ''merlin'' @ '',service='' @ quoted ''registry'')"

definition challenge :: "'w handler \<Rightarrow> http_request \<Rightarrow> http_response" where
  "challenge h rq =
     (let repo = repo_from_v2_path (rq_path rq);
          scope = (if repo \<noteq> [] then '',scope='' @ quoted (''repository:'' @ repo @ '':push,pull'') else [])
      in respond 401 [(''WWW-Authenticate'', ''Bearer realm='' @ quoted (h_token_realm h) @ '',service=''
           @ quoted (h_service h) @ scope)] [])"

definition authenticate ::
  "'w handler \<Rightarrow> http_request \<Rightarrow> 'w pod tenant \<Rightarrow> 'w pod \<Rightarrow> http_response option \<times> 'w pod" where
  "authenticate h rq t p =
     (case h_reg_issuer h of
        Some iss \<Rightarrow>
          (case ts_verify iss (bearer_of rq) p of
             (Inl e, p1) \<Rightarrow> (Some (challenge h rq), p1)
           | (Inr (subject, scope, pfx), p1) \<Rightarrow>
               (if pfx \<noteq> tn_prefix t then (Some (challenge h rq), p1) else (None, p1)))
      | None \<Rightarrow>
          (case tn_authn t (bearer_of rq) p of
             (Inl e, p1) \<Rightarrow> (Some (respond 401 [legacy_challenge] []), p1)
           | (Inr subject, p1) \<Rightarrow> (None, p1)))"

definition validated_identity ::
  "'w handler \<Rightarrow> http_request \<Rightarrow> 'w pod tenant \<Rightarrow> 'w pod \<Rightarrow> string option \<times> 'w pod" where
  "validated_identity h rq t p =
     (case h_reg_issuer h of
        Some iss \<Rightarrow>
          (case ts_verify iss (bearer_of rq) p of
             (Inl e, p1) \<Rightarrow> (None, p1)
           | (Inr (subject, scope, pfx), p1) \<Rightarrow> (Some subject, p1))
      | None \<Rightarrow>
          (case tn_authn t (bearer_of rq) p of
             (Inl e, p1) \<Rightarrow> (None, p1)
           | (Inr subject, p1) \<Rightarrow> (Some subject, p1)))"

end
