(* ===== verification/Docker_Gate.thy ===== *)
theory Docker_Gate
  imports Docker_Handler
begin

text \<open>
  The gated half of \<open>internal/ingress/docker/manifest.go\<close>: staging an image, running the gate under
  a scan slot, publishing and rendering the decision.

  A context with a timeout is done from its deadline on. The scan's context is detached from the
  request, so only its deadline matters; the request's own context is done when the client has left.
\<close>

section \<open>A parsed push\<close>

record manifest_push =
  mp_repo :: string
  mp_ref :: string
  mp_raw :: bytes
  mp_manifest :: parsed_manifest
  mp_kind :: manifest_kind
  mp_identity :: string

definition read_manifest_push ::
  "'w handler \<Rightarrow> http_request \<Rightarrow> 'w pod tenant \<Rightarrow> 'w pod \<Rightarrow> (http_response + manifest_push) \<times> 'w pod" where
  "read_manifest_push h rq t p =
     (case parse_manifest_path (rq_path rq) of
        (repo, ref) \<Rightarrow>
          (if repo = [] \<or> ref = [] then (Inl (http_error [] ''invalid manifest path'' 400), p)
           else case validated_identity h rq t p of
             (None, p1) \<Rightarrow> (Inl (respond 401 [legacy_challenge] []), p1)
           | (Some identity, p1) \<Rightarrow>
               (case max_bytes_reader (get_max_upload_bytes h) (rq_body rq) of
                  Inl e \<Rightarrow> (Inl (http_error [] (''read manifest: '' @ err_text e) 400), p1)
                | Inr raw \<Rightarrow>
                    (case classify_manifest (rt_unmarshal (h_runtime h)) raw of
                       Inl e \<Rightarrow> (Inl (http_error [] (''invalid manifest JSON: '' @ err_text e) 400), p1)
                     | Inr (m, kind) \<Rightarrow>
                         (Inr \<lparr>mp_repo = repo, mp_ref = ref, mp_raw = raw, mp_manifest = m, mp_kind = kind,
                               mp_identity = identity\<rparr>, p1)))))"

section \<open>Staging\<close>

record stage_handle =
  sg_mr :: manifest_ref
  sg_img :: staged_image
  sg_scratch_dir :: string

text \<open>\<open>os.MkdirTemp\<close>: the last star of the pattern is the random part.\<close>

definition os_mkdir_temp :: "string \<Rightarrow> string \<Rightarrow> string \<Rightarrow> fs \<Rightarrow> string res \<times> fs" where
  "os_mkdir_temp base pfx rnd fs =
     (let dir = (if base = [] then ''/tmp'' else base);
          name = (if has_suffix dir ''/'' then dir else dir @ ''/'') @ pfx @ rnd;
          l = loc_of name
      in case fs_open_fault fs name of
           Some e \<Rightarrow> (Inl e, fs)
         | None \<Rightarrow>
             (if fs_lookup fs l \<noteq> None then (Inl (ErrMsg (''mkdir '' @ name @ '': file exists'')), fs)
              else if fs_lookup fs (fst l, butlast (snd l)) \<noteq> Some FDir
              then (Inl (ErrMsg (''mkdir '' @ name @ '': no such file or directory'')), fs)
              else (Inr name, fs_set l FDir fs)))"

definition observe_optional ::
  "'w handler \<Rightarrow> ('w pod metrics_observer \<Rightarrow> (real \<Rightarrow> 'w pod \<Rightarrow> 'w pod) option) \<Rightarrow> duration \<Rightarrow> 'w pod \<Rightarrow> 'w pod" where
  "observe_optional h field d p =
     (case h_outcome h of
        None \<Rightarrow> p
      | Some oc \<Rightarrow>
          (case oc_metrics oc of
             None \<Rightarrow> p
           | Some m \<Rightarrow> (case field m of None \<Rightarrow> p | Some f \<Rightarrow> f (duration_secs d) p)))"

definition observe_assemble :: "'w handler \<Rightarrow> duration \<Rightarrow> 'w pod \<Rightarrow> 'w pod" where
  "observe_assemble h = observe_optional h mo_assemble_duration"

definition observe_queue_wait :: "'w handler \<Rightarrow> duration \<Rightarrow> 'w pod \<Rightarrow> 'w pod" where
  "observe_queue_wait h = observe_optional h mo_queue_wait"

definition acr_push_observer :: "'w handler \<Rightarrow> (string \<Rightarrow> string \<Rightarrow> 'w pod \<Rightarrow> 'w pod) option" where
  "acr_push_observer h =
     (case h_outcome h of
        None \<Rightarrow> None
      | Some oc \<Rightarrow> (case oc_metrics oc of None \<Rightarrow> None | Some m \<Rightarrow> mo_acr_push m))"

definition release_staged :: "'w handler \<Rightarrow> manifest_ref \<Rightarrow> string \<Rightarrow> 'w pod \<Rightarrow> 'w pod" where
  "release_staged h mr scratch p = snd (cleanup (h_store h) mr scratch p)"

text \<open>\<open>MkdirTemp\<close> and \<open>Assemble\<close>, once the manifest is known to be complete.\<close>

definition assemble_push ::
  "'w handler \<Rightarrow> manifest_ref \<Rightarrow> 'w pod \<Rightarrow> (http_response + stage_handle) \<times> 'w pod" where
  "assemble_push h mr p =
     (case rt_rand_name (h_runtime h) p of
        (rnd, (w1, fs1)) \<Rightarrow>
          (case os_mkdir_temp (h_scratch_base_dir h) ''merlin-assemble-'' rnd fs1 of
             (Inl e, fs2) \<Rightarrow> (Inl (http_error [] (''create scratch dir: '' @ err_text e) 500), (w1, fs2))
           | (Inr scratch, fs2) \<Rightarrow>
               (case assemble (h_store h) (rt_codecs (h_runtime h)) mr scratch (w1, fs2) of
                  (r, p3) \<Rightarrow>
                    (let p4 = observe_assemble h (time_sub (clock h p3) (clock h (w1, fs2))) p3 in
                     case r of
                       Inl e \<Rightarrow>
                         (Inl (http_error [] (''assemble image: '' @ err_text e) 500), release_staged h mr scratch p4)
                     | Inr img \<Rightarrow> (Inr \<lparr>sg_mr = mr, sg_img = img, sg_scratch_dir = scratch\<rparr>, p4)))))"

definition stage_image ::
  "'w handler \<Rightarrow> manifest_push \<Rightarrow> 'w pod \<Rightarrow> (http_response + stage_handle) \<times> 'w pod" where
  "stage_image h push p =
     (let m = mp_manifest push; layer_digests = map dc_digest (pm_layers m) in
      case on_shared (put_manifest (h_store h) (mp_repo push) (mp_ref push) (mp_raw push)
             (dc_digest (pm_config m)) layer_digests) p of
        (Inl e, p1) \<Rightarrow>
          (if errors_is e ErrIncompletePush
           then (Inl (http_error [] ''incomplete push: some referenced blobs were not uploaded'' 400), p1)
           else (Inl (http_error [] (''put manifest: '' @ err_text e) 500), p1))
      | (Inr mr, p1) \<Rightarrow> assemble_push h mr p1)"

definition gate_request_for :: "'w handler \<Rightarrow> 'w pod tenant \<Rightarrow> manifest_push \<Rightarrow> stage_handle \<Rightarrow> gate_request" where
  "gate_request_for h t push s =
     \<lparr>gr_source = ''docker'', gr_identity = mp_identity push,
      gr_image = (sg_img s)\<lparr>si_prefix := tn_prefix t, si_digest := manifest_digest (st_sha (h_store h)) (mp_raw push)\<rparr>,
      gr_target = target_ref (tn_registry t) (mp_repo push) (mp_ref push)\<rparr>"

section \<open>The gate\<close>

record gate_run =
  gn_res :: result
  gn_err :: "goerr option"
  gn_scan_dur :: duration
  gn_abandoned :: bool

definition default_gate_timeout :: duration where
  "default_gate_timeout = 5 * minute"

definition gate_budget :: "'w handler \<Rightarrow> duration" where
  "gate_budget h = (if h_gate_timeout h = 0 then default_gate_timeout else h_gate_timeout h)"

text \<open>When the detached context of a scan begun at \<open>p\<close> is done.\<close>

abbreviation scan_deadline :: "'w handler \<Rightarrow> 'w pod \<Rightarrow> gotime" where
  "scan_deadline h p \<equiv> clock h p + gate_budget h"

abbreviation publish_budget :: "'w handler \<Rightarrow> duration" where
  "publish_budget h \<equiv> gate_budget h"

definition explain_scan_failure ::
  "'w handler \<Rightarrow> goerr option \<Rightarrow> bool \<Rightarrow> bool \<Rightarrow> duration \<Rightarrow> goerr option" where
  "explain_scan_failure h err scan_expired client_gone elapsed =
     (case err of
        None \<Rightarrow> None
      | Some e \<Rightarrow>
          (if scan_expired
           then Some (ErrWrap (''scan exceeded the '' @ fmt_duration (gate_budget h) @ '' gate budget: '') e [])
           else if client_gone
           then Some (ErrWrap (''scan abandoned: client disconnected while it ran (''
                  @ fmt_duration (round_duration elapsed 1000000) @ ''): '') e [])
           else Some e))"

definition run_scan :: "'w handler \<Rightarrow> 'w pod gate_policy list \<Rightarrow> gate_request \<Rightarrow> 'w pod \<Rightarrow> gate_run \<times> 'w pod" where
  "run_scan h engine req p =
     (let deadline = scan_deadline h p in
      case router_gate engine req p of
        ((res, err), p1) \<Rightarrow>
          (let elapsed = time_sub (clock h p1) (clock h p) in
           (\<lparr>gn_res = res,
             gn_err = explain_scan_failure h err (deadline \<le> clock h p1)
                        (rt_client_err (h_runtime h) p1 \<noteq> None) elapsed,
             gn_scan_dur = elapsed, gn_abandoned = False\<rparr>, p1)))"

text \<open>The wait for a slot is observed on every path, refused ones included.\<close>

definition observed_slots :: "'w handler \<Rightarrow> 'w pod slots \<Rightarrow> 'w pod slots" where
  "observed_slots h s =
     s\<lparr>sl_acquire := (\<lambda>b p. case sl_acquire s b p of
          (e, p1) \<Rightarrow> (e, observe_queue_wait h (time_sub (clock h p1) (clock h p)) p1))\<rparr>"

definition slot_refused :: "goerr \<Rightarrow> gate_run" where
  "slot_refused e =
     (if errors_is e ErrSaturated
      then \<lparr>gn_res = zero_result, gn_err = Some e, gn_scan_dur = 0, gn_abandoned = False\<rparr>
      else \<lparr>gn_res = zero_result, gn_err = None, gn_scan_dur = 0, gn_abandoned = True\<rparr>)"

definition run_gate :: "'w handler \<Rightarrow> gate_request \<Rightarrow> 'w pod \<Rightarrow> gate_run \<times> 'w pod" where
  "run_gate h req p =
     (case h_pool h of
        None \<Rightarrow> run_scan h (h_router h) req p
      | Some (slots, engine) \<Rightarrow>
          with_slot (observed_slots h slots) (gate_budget h) slot_refused (run_scan h engine req) p)"

section \<open>Publication\<close>

record 'w publication =
  pb_sync :: "'w pod \<Rightarrow> goerr option \<times> 'w pod"
  pb_promoter :: "'w pod promoter option"
  pb_job :: job
  pb_budget :: duration
  pb_handed_off :: bool

definition publication_run :: "'w publication \<Rightarrow> 'w pod \<Rightarrow> goerr option \<times> 'w publication \<times> 'w pod" where
  "publication_run pb p =
     (case pb_promoter pb of
        None \<Rightarrow> (case pb_sync pb p of (e, p1) \<Rightarrow> (e, pb, p1))
      | Some pr \<Rightarrow>
          (case pr_promote pr (pb_job pb) p of
             (Some e, p1) \<Rightarrow> (Some (ErrWrap ''enqueue promotion: '' e []), pb, p1)
           | (None, p1) \<Rightarrow> (None, pb\<lparr>pb_handed_off := True\<rparr>, p1)))"

definition zero_job :: job where
  "zero_job = \<lparr>jb_push_id = [], jb_tenant = [], jb_repo = [], jb_tag = [], jb_digest = [], jb_ref = [],
     jb_target = [], jb_oci_path = [], jb_scratch_dir = [], jb_layers = [], jb_config_dig = [],
     jb_manifest = [], jb_identity = [], jb_attempts = 0\<rparr>"

definition promotion_job ::
  "'w pod tenant \<Rightarrow> gate_request \<Rightarrow> manifest_push \<Rightarrow> stage_handle \<Rightarrow> string \<Rightarrow> job" where
  "promotion_job t req push s push_id =
     \<lparr>jb_push_id = push_id, jb_tenant = tn_prefix t, jb_repo = mp_repo push, jb_tag = si_tag (gr_image req),
      jb_digest = si_digest (gr_image req), jb_ref = mp_ref push, jb_target = gr_target req,
      jb_oci_path = si_oci_path (gr_image req), jb_scratch_dir = sg_scratch_dir s,
      jb_layers = mr_layer_digests (sg_mr s), jb_config_dig = mr_config_digest (sg_mr s),
      jb_manifest = mp_raw push, jb_identity = mp_identity push, jb_attempts = 0\<rparr>"

text \<open>With a promoter the synchronous push is a nil function, which \<open>run\<close> never calls.\<close>

definition publication_for ::
  "'w handler \<Rightarrow> 'w pod tenant \<Rightarrow> gate_request \<Rightarrow> manifest_push \<Rightarrow> stage_handle \<Rightarrow> string \<Rightarrow> 'w publication" where
  "publication_for h t req push s push_id =
     (case h_promoter h of
        None \<Rightarrow>
          \<lparr>pb_sync = sync_publish (tn_pusher t) req (acr_push_observer h), pb_promoter = None,
           pb_job = zero_job, pb_budget = publish_budget h, pb_handed_off = False\<rparr>
      | Some pr \<Rightarrow>
          \<lparr>pb_sync = (\<lambda>p. (None, p)), pb_promoter = Some pr, pb_job = promotion_job t req push s push_id,
           pb_budget = publish_budget h, pb_handed_off = False\<rparr>)"

section \<open>The gated push\<close>

definition write_decision :: "gate_decision \<Rightarrow> string \<Rightarrow> http_response" where
  "write_decision d digest =
     (let h1 = (if gd_report_url d \<noteq> [] then [(''X-Merlin-Scan-Report-URL'', gd_report_url d)] else []);
          code = (if gd_status d = 0 then 201 else gd_status d);
          h2 = (if code = 503 then [(''Retry-After'', ''5'')] else []);
          h3 = (if 200 \<le> code \<and> code < 300 then [(''Docker-Content-Digest'', digest)] else [])
      in respond code (h1 @ h2 @ h3) (gd_summary d))"

text \<open>From the gate to the response, before the deferred clean-up.\<close>

definition gate_and_publish ::
  "'w handler \<Rightarrow> 'w pod tenant \<Rightarrow> manifest_push \<Rightarrow> stage_handle \<Rightarrow> 'w pod \<Rightarrow> reply \<times> bool \<times> 'w pod" where
  "gate_and_publish h t push s p =
     (let req = gate_request_for h t push s in
      case handler_push_id h p of
        (push_id, p1) \<Rightarrow>
          (case run_gate h req p1 of
             (g, p2) \<Rightarrow>
               (if gn_abandoned g then (Reply no_write, False, p2)
                else case h_outcome h of
                  None \<Rightarrow> (Panic, False, p2)
                | Some oc \<Rightarrow>
                    (case outcome_apply oc push_id publication_run (publication_for h t req push s push_id)
                            req (gn_res g) (gn_err g) (gn_scan_dur g) p2 of
                       ((d, err), pb, p3) \<Rightarrow>
                         (Reply (write_decision d (si_digest (gr_image req))), pb_handed_off pb, p3)))))"

definition handle_image ::
  "'w handler \<Rightarrow> 'w pod tenant \<Rightarrow> manifest_push \<Rightarrow> 'w pod \<Rightarrow> reply \<times> 'w pod" where
  "handle_image h t push p =
     (case promotion_backlog_full h p of
        (True, p1) \<Rightarrow> (Reply (http_error [(''Retry-After'', ''5'')] ''promotion queue saturated'' 503), p1)
      | (False, p1) \<Rightarrow>
          (case stage_image h push p1 of
             (Inl r, p2) \<Rightarrow> (Reply r, p2)
           | (Inr s, p2) \<Rightarrow>
               (case gate_and_publish h t push s p2 of
                  (r, handed_off, p3) \<Rightarrow>
                    (r, if handed_off then p3 else release_staged h (sg_mr s) (sg_scratch_dir s) p3))))"

end
