(* ===== verification/Go_Parse.thy ===== *)
theory Go_Parse
  imports Go_Http
begin

text \<open>
  The parsing functions of the standard library that read configuration and headers:
  \<open>strconv.ParseInt\<close>, \<open>strings.ReplaceAll\<close>, \<open>os.Expand\<close> and \<open>time.ParseDuration\<close>. The float64
  arithmetic that \<open>ParseDuration\<close> does on a fraction is parameterised by the rounding function,
  as it is for the image age.
\<close>

section \<open>Integers\<close>

text \<open>\<open>strconv.ParseInt(s, 10, 64)\<close>: an optional sign, digits, within the int64 range.\<close>

definition parse_int64 :: "string \<Rightarrow> int64 option" where
  "parse_int64 s =
     (case parse_int s of
        None \<Rightarrow> None
      | Some i \<Rightarrow> (if - (2 ^ 63) \<le> i \<and> i < 2 ^ 63 then Some (word_of_int i) else None))"

section \<open>Replacement\<close>

text \<open>\<open>strings.ReplaceAll\<close> for a non-empty pattern.\<close>

function replace_all :: "string \<Rightarrow> string \<Rightarrow> string \<Rightarrow> string" where
  "replace_all old new [] = []"
| "replace_all old new (c # cs) =
     (if has_prefix (c # cs) old then new @ replace_all old new (drop (length old - 1) cs)
      else c # replace_all old new cs)"
  by pat_completeness auto
termination by (relation "measure (\<lambda>(old, new, s). length s)") auto

lemma replace_all_absent: "\<not> str_contains s old \<Longrightarrow> replace_all old new s = s"
proof (induction old new s rule: replace_all.induct)
  case (2 old new c cs)
  then show ?case by (auto simp: str_contains_def split: if_splits)
qed simp

text \<open>Where the pattern occurs, the result determines the text that replaced it.\<close>

lemma replace_all_length_mono:
  "length p \<le> length q \<Longrightarrow> length (replace_all old p s) \<le> length (replace_all old q s)"
  by (induction old p s rule: replace_all.induct) auto

lemma replace_all_length_strict:
  "str_contains s old \<Longrightarrow> old \<noteq> [] \<Longrightarrow> length p < length q \<Longrightarrow>
   length (replace_all old p s) < length (replace_all old q s)"
proof (induction old p s rule: replace_all.induct)
  case (1 old new)
  then show ?case by (simp add: str_contains_def)
next
  case (2 old new c cs)
  show ?case
  proof (cases "has_prefix (c # cs) old")
    case True
    then show ?thesis
      using 2(5) replace_all_length_mono [of new q old "drop (length old - 1) cs"] by simp
  next
    case False
    then show ?thesis using 2 by (auto simp: str_contains_def)
  qed
qed

lemma replace_all_same_length:
  "str_contains s old \<Longrightarrow> old \<noteq> [] \<Longrightarrow> length p = length q \<Longrightarrow>
   replace_all old p s = replace_all old q s \<Longrightarrow> p = q"
proof (induction old p s rule: replace_all.induct)
  case (1 old new)
  then show ?case by (simp add: str_contains_def)
next
  case (2 old new c cs)
  then show ?case by (auto simp: str_contains_def split: if_splits)
qed

lemma replace_all_inject:
  assumes "str_contains s old" and "old \<noteq> []" and "replace_all old p s = replace_all old q s"
  shows "p = q"
  using assms replace_all_length_strict [OF assms(1,2), of p q]
    replace_all_length_strict [OF assms(1,2), of q p] replace_all_same_length [OF assms(1,2), of p q]
  by (cases "length p" "length q" rule: linorder_cases) simp_all

section \<open>Environment references\<close>

text \<open>\<open>os.Expand\<close>'s name after a dollar sign, and how many bytes it takes.\<close>

definition is_special_var :: "char \<Rightarrow> bool" where
  "is_special_var c \<longleftrightarrow> c \<in> set ''*#$@!?-'' \<or> is_digit c"

definition is_alnum :: "char \<Rightarrow> bool" where
  "is_alnum c \<longleftrightarrow> (let n = (of_char c :: nat) in
     c = CHR ''_'' \<or> 48 \<le> n \<and> n \<le> 57 \<or> 65 \<le> n \<and> n \<le> 90 \<or> 97 \<le> n \<and> n \<le> 122)"

definition shell_name :: "string \<Rightarrow> string \<times> nat" where
  "shell_name s =
     (if hd s = CHR ''{'' then
        (case tl s of
           c # d # _ \<Rightarrow>
             (if is_special_var c \<and> d = CHR ''}'' then ([c], 3)
              else case str_index (tl s) ''}'' of
                None \<Rightarrow> ([], 1)
              | Some i \<Rightarrow> (take i (tl s), i + 2))
         | _ \<Rightarrow> (case str_index (tl s) ''}'' of
                None \<Rightarrow> ([], 1)
              | Some i \<Rightarrow> (take i (tl s), i + 2)))
      else if is_special_var (hd s) then ([hd s], 1)
      else (takeWhile is_alnum s, length (takeWhile is_alnum s)))"

text \<open>The expansion, and the names the mapping was asked for in order.\<close>

function expand_vars :: "(string \<Rightarrow> string) \<Rightarrow> string \<Rightarrow> string \<times> string list" where
  "expand_vars f [] = ([], [])"
| "expand_vars f (c # cs) =
     (if c = CHR ''$'' \<and> cs \<noteq> [] then
        (let (name, w) = shell_name cs; (out, names) = expand_vars f (drop w cs) in
           if name \<noteq> [] then (f name @ out, name # names)
           else if 0 < w then (out, names)
           else (CHR ''$'' # out, names))
      else (let (out, names) = expand_vars f cs in (c # out, names)))"
  by pat_completeness auto
termination by (relation "measure (\<lambda>(f, s). length s)") auto

lemma expand_vars_plain: "CHR ''$'' \<notin> set s \<Longrightarrow> expand_vars f s = (s, [])"
  by (induction s) auto

lemma expand_vars_names: "snd (expand_vars f s) = snd (expand_vars g s)"
  by (induction f s rule: expand_vars.induct) (auto simp: Let_def split: prod.splits)

section \<open>Durations\<close>

definition two63 :: nat where "two63 = 2 ^ 63"

text \<open>\<open>leadingInt\<close>, with its overflow checks, and \<open>leadingFraction\<close>, which stops adding digits.\<close>

definition digits_of :: "string \<Rightarrow> nat list" where
  "digits_of s = map (the \<circ> digit_val) (takeWhile is_digit s)"

fun leading_int :: "nat list \<Rightarrow> nat \<Rightarrow> nat option" where
  "leading_int [] x = Some x"
| "leading_int (d # ds) x =
     (if two63 div 10 < x then None
      else if two63 < x * 10 + d then None else leading_int ds (x * 10 + d))"

fun leading_fraction :: "(real \<Rightarrow> real) \<Rightarrow> nat list \<Rightarrow> nat \<Rightarrow> real \<Rightarrow> nat \<times> real" where
  "leading_fraction rnd [] x scale = (x, scale)"
| "leading_fraction rnd (d # ds) x scale =
     (if (two63 - 1) div 10 < x \<or> two63 < x * 10 + d then (x, scale)
      else leading_fraction rnd ds (x * 10 + d) (rnd (scale * 10)))"

definition unit_ns :: "string \<Rightarrow> nat option" where
  "unit_ns = map_of
     [(''ns'', 1), (''us'', 1000), ([CHR 0xC2, CHR 0xB5, CHR ''s''], 1000),
      ([CHR 0xCE, CHR 0xBC, CHR ''s''], 1000), (''ms'', 1000000), (''s'', 1000000000),
      (''m'', 60000000000), (''h'', 3600000000000)]"

definition bad_duration :: "string \<Rightarrow> goerr" where
  "bad_duration orig = ErrMsg (''time: invalid duration '' @ fmt_q orig)"

text \<open>The parts of one number: digits, digits of the fraction, unit, and the rest of the text.\<close>

definition item_parts :: "string \<Rightarrow> nat list \<times> nat list \<times> string \<times> string" where
  "item_parts s =
     (let s1 = dropWhile is_digit s; point = (s1 \<noteq> [] \<and> hd s1 = CHR ''.'');
          s2 = (if point then dropWhile is_digit (tl s1) else s1);
          u = takeWhile (\<lambda>c. c \<noteq> CHR ''.'' \<and> \<not> is_digit c) s2
      in (digits_of s, if point then digits_of (tl s1) else [], u, drop (length u) s2))"

lemma item_parts_shorter:
  assumes "item_parts s = (ds, fs, u, rest)" and "u \<noteq> []"
  shows "length rest < length s"
proof -
  let ?s1 = "dropWhile is_digit s"
  let ?s2 = "if ?s1 \<noteq> [] \<and> hd ?s1 = CHR ''.'' then dropWhile is_digit (tl ?s1) else ?s1"
  have r: "u = takeWhile (\<lambda>c. c \<noteq> CHR ''.'' \<and> \<not> is_digit c) ?s2" "rest = drop (length u) ?s2"
    using assms(1) by (auto simp: item_parts_def Let_def)
  then have "?s2 \<noteq> []" using assms(2) by (cases ?s2) simp_all
  with assms(2) have "length rest < length ?s2" by (simp only: r(2) length_drop) simp
  moreover have "length (dropWhile is_digit (tl ?s1)) \<le> length ?s1"
    using length_dropWhile_le [of is_digit "tl ?s1"] by simp
  then have "length ?s2 \<le> length ?s1" by simp
  moreover have "length ?s1 \<le> length s" by (rule length_dropWhile_le)
  ultimately show ?thesis by linarith
qed

text \<open>One number with its unit: the nanoseconds and the rest of the text.\<close>

definition duration_item :: "(real \<Rightarrow> real) \<Rightarrow> string \<Rightarrow> string \<Rightarrow> (nat \<times> string) res" where
  "duration_item rnd orig s =
     (let (ds, fs, u, rest) = item_parts s
      in if \<not> (s \<noteq> [] \<and> (hd s = CHR ''.'' \<or> is_digit (hd s))) then Inl (bad_duration orig)
         else case leading_int ds 0 of
           None \<Rightarrow> Inl (bad_duration orig)
         | Some v \<Rightarrow>
             (if ds = [] \<and> fs = [] then Inl (bad_duration orig)
              else if u = [] then Inl (ErrMsg (''time: missing unit in duration '' @ fmt_q orig))
              else case unit_ns u of
                None \<Rightarrow> Inl (ErrMsg (''time: unknown unit '' @ fmt_q u @ '' in duration '' @ fmt_q orig))
              | Some unit \<Rightarrow>
                  (if two63 div unit < v then Inl (bad_duration orig)
                   else let (f, scale) = leading_fraction rnd fs 0 1;
                            part = (if f = 0 then 0
                                    else nat \<lfloor>rnd (rnd (real f) * rnd (real unit / scale))\<rfloor>)
                        in if two63 < v * unit + part then Inl (bad_duration orig)
                           else Inr (v * unit + part, rest))))"

lemma duration_item_shorter:
  assumes "duration_item rnd orig s = Inr (v, rest)"
  shows "length rest < length s"
proof -
  obtain ds fs u r where p: "item_parts s = (ds, fs, u, r)" by (cases "item_parts s") auto
  with assms have "r = rest" "u \<noteq> []"
    by (auto simp: duration_item_def Let_def split: if_splits option.splits prod.splits)
  with item_parts_shorter [OF p] show ?thesis by simp
qed

function duration_items :: "(real \<Rightarrow> real) \<Rightarrow> string \<Rightarrow> nat \<Rightarrow> string \<Rightarrow> nat res" where
  "duration_items rnd orig d s =
     (if s = [] then Inr d
      else case duration_item rnd orig s of
        Inl e \<Rightarrow> Inl e
      | Inr (v, rest) \<Rightarrow>
          (let d' = (d + v) mod 2 ^ 64 in
           if two63 < d' then Inl (bad_duration orig) else duration_items rnd orig d' rest))"
  by pat_completeness auto
termination
  by (relation "measure (\<lambda>(rnd, orig, d, s). length s)") (auto dest: duration_item_shorter)

declare duration_items.simps [simp del]

definition parse_duration :: "(real \<Rightarrow> real) \<Rightarrow> string \<Rightarrow> duration res" where
  "parse_duration rnd orig =
     (let signed = (orig \<noteq> [] \<and> (hd orig = CHR ''-'' \<or> hd orig = CHR ''+''));
          neg = (orig \<noteq> [] \<and> hd orig = CHR ''-'');
          s = (if signed then tl orig else orig)
      in if s = ''0'' then Inr 0
         else if s = [] then Inl (bad_duration orig)
         else case duration_items rnd orig 0 s of
           Inl e \<Rightarrow> Inl e
         | Inr d \<Rightarrow>
             (if neg then Inr (- int d)
              else if two63 - 1 < d then Inl (bad_duration orig) else Inr (int d)))"

text \<open>What a parsed duration is: an int64, as \<open>time.Duration\<close> is.\<close>

lemma duration_items_bound: "duration_items rnd orig d s = Inr n \<Longrightarrow> d \<le> two63 \<Longrightarrow> n \<le> two63"
proof (induction rnd orig d s rule: duration_items.induct)
  case (1 rnd orig d s)
  show ?case
  proof (cases "s = []")
    case True
    with 1(2,3) show ?thesis by (simp add: duration_items.simps [of rnd orig d "[]"])
  next
    case False
    with 1(2) obtain v rest where v: "duration_item rnd orig s = Inr (v, rest)"
      by (auto simp: duration_items.simps [of rnd orig d s] split: sum.splits)
    with False 1(2) have "(d + v) mod 2 ^ 64 \<le> two63"
      "duration_items rnd orig ((d + v) mod 2 ^ 64) rest = Inr n"
      by (simp_all add: duration_items.simps [of rnd orig d s] Let_def not_less split: if_splits)
    with 1(1) [OF False v HOL.refl HOL.refl] show ?thesis by simp
  qed
qed

lemma parse_duration_range:
  "parse_duration rnd s = Inr d \<Longrightarrow> min_duration \<le> d \<and> d \<le> max_duration"
  by (auto simp: parse_duration_def Let_def min_duration_def max_duration_def two63_def
      split: if_splits sum.splits dest!: duration_items_bound)

lemmas duration_eval = parse_duration_def duration_items.simps duration_item_def item_parts_def digits_of_def
  is_digit_def digit_val_def unit_ns_def two63_def Let_def

end
