(* ===== verification/Docker_Upload.thy ===== *)
theory Docker_Upload
  imports Docker_Handler Go_Parse
begin

text \<open>
  \<open>internal/ingress/docker/upload.go\<close>: the three requests of a blob upload. POST begins an upload
  (and completes it at once when it carries a digest), PATCH appends a chunk, PUT completes.
\<close>

definition abandon_dead_upload :: "'w handler \<Rightarrow> string \<Rightarrow> 'w pod \<Rightarrow> 'w pod" where
  "abandon_dead_upload h upload p = snd (on_shared (abandon_upload (h_store h) upload) p)"

definition limited_body :: "'w handler \<Rightarrow> http_request \<Rightarrow> reader" where
  "limited_body h rq = max_bytes_reader (get_max_upload_bytes h) (rq_body rq)"

definition blob_location :: "string \<Rightarrow> string \<Rightarrow> string" where
  "blob_location repo digest = ''/v2/'' @ repo @ ''/blobs/'' @ digest"

definition upload_location :: "string \<Rightarrow> string \<Rightarrow> string" where
  "upload_location repo upload = ''/v2/'' @ repo @ ''/blobs/uploads/'' @ upload"

definition blob_created :: "string \<Rightarrow> string \<Rightarrow> http_response" where
  "blob_created repo digest =
     respond 201 [(''Location'', blob_location repo digest), (''Docker-Content-Digest'', digest)] []"

text \<open>Completion under an upload slot, common to the monolithic POST and the PUT.\<close>

definition complete_upload ::
  "'w handler \<Rightarrow> http_request \<Rightarrow> string \<Rightarrow> string \<Rightarrow> string \<Rightarrow> 'w pod \<Rightarrow> http_response \<times> 'w pod" where
  "complete_upload h rq repo upload digest p =
     (case on_shared (complete_blob (h_store h) upload digest (limited_body h rq)) p of
        (Some e, p1) \<Rightarrow> (http_error [] (''complete blob: '' @ err_text e) 400, abandon_dead_upload h upload p1)
      | (None, p1) \<Rightarrow> (blob_created repo digest, p1))"

definition upload_post :: "'w handler \<Rightarrow> http_request \<Rightarrow> 'w pod \<Rightarrow> http_response \<times> 'w pod" where
  "upload_post h rq p =
     (let repo = parse_upload_repo (rq_path rq) in
      if repo = [] then (http_error [] ''missing repository name'' 400, p)
      else case on_shared (begin_upload (h_store h)) p of
        (Inl e, p1) \<Rightarrow> (http_error [] (''begin upload: '' @ err_text e) 500, p1)
      | (Inr upload, p1) \<Rightarrow>
          (let digest = rq_query rq ''digest'' in
           if digest \<noteq> []
           then with_upload_slot h (abandon_dead_upload h upload) (complete_upload h rq repo upload digest) p1
           else (respond 202 [(''Location'', upload_location repo upload), (''Docker-Upload-UUID'', upload),
                   (''Range'', ''0-0'')] [], p1)))"

definition chunk_offset :: "http_request \<Rightarrow> int64" where
  "chunk_offset rq =
     (let cr = rq_header rq ''Content-Range'' in
      if cr = [] then 0
      else case str_split (CHR ''-'') cr of
        part # _ \<Rightarrow> (case parse_int64 part of Some n \<Rightarrow> n | None \<Rightarrow> 0)
      | [] \<Rightarrow> 0)"

definition append_chunk ::
  "'w handler \<Rightarrow> http_request \<Rightarrow> string \<Rightarrow> string \<Rightarrow> 'w pod \<Rightarrow> http_response \<times> 'w pod" where
  "append_chunk h rq repo upload p =
     (case on_shared (write_chunk (h_store h) upload (chunk_offset rq) (limited_body h rq)) p of
        (Inl e, p1) \<Rightarrow>
          (if errors_is e ErrOutOfOrder then (respond 416 [] [], p1)
           else (http_error [] (''write chunk: '' @ err_text e) 500, p1))
      | (Inr off, p1) \<Rightarrow>
          (respond 202 [(''Location'', upload_location repo upload), (''Docker-Upload-UUID'', upload),
             (''Range'', ''0-'' @ fmt_int (sint (off - 1)))] [], p1))"

definition upload_patch :: "'w handler \<Rightarrow> http_request \<Rightarrow> 'w pod \<Rightarrow> http_response \<times> 'w pod" where
  "upload_patch h rq p =
     (case parse_upload_ref (rq_path rq) of
        (repo, upload) \<Rightarrow>
          (if upload = [] then (http_error [] ''missing upload UUID'' 400, p)
           else with_upload_slot h (\<lambda>q. q) (append_chunk h rq repo upload) p))"

definition upload_put :: "'w handler \<Rightarrow> http_request \<Rightarrow> 'w pod \<Rightarrow> http_response \<times> 'w pod" where
  "upload_put h rq p =
     (case parse_upload_ref (rq_path rq) of
        (repo, upload) \<Rightarrow>
          (if upload = [] then (http_error [] ''missing upload UUID'' 400, p)
           else
             (let digest = rq_query rq ''digest'' in
              if digest = [] then (http_error [] ''missing digest query parameter'' 400, p)
              else with_upload_slot h (\<lambda>q. q) (complete_upload h rq repo upload digest) p)))"

definition handle_upload :: "'w handler \<Rightarrow> http_request \<Rightarrow> 'w pod \<Rightarrow> http_response \<times> 'w pod" where
  "handle_upload h rq p =
     (if rq_method rq = ''POST'' then upload_post h rq p
      else if rq_method rq = ''PATCH'' then upload_patch h rq p
      else if rq_method rq = ''PUT'' then upload_put h rq p
      else (respond 405 [] [], p))"

end
