(* ===== verification/Docker_Server.thy ===== *)
theory Docker_Server
  imports Docker_Gate Docker_Upload
begin

text \<open>
  The rest of the Docker ingress: forwarding manifests that carry no filesystem and the wait for
  the image an index names (\<open>manifest.go\<close>), reports (\<open>report.go\<close>), routing and the request
  counter (\<open>handler.go\<close>). The wait may in principle never end, so it and everything above it is an
  option: \<open>None\<close> is a request that is never answered.
\<close>

section \<open>Waiting for an index's references\<close>

definition default_index_reference_wait :: duration where
  "default_index_reference_wait = 90 * second"

definition default_index_reference_poll :: duration where
  "default_index_reference_poll = 500 * 1000000"

definition index_reference_wait :: "'w handler \<Rightarrow> duration" where
  "index_reference_wait h = (if h_index_wait h \<le> 0 then default_index_reference_wait else h_index_wait h)"

definition index_reference_poll :: "'w handler \<Rightarrow> duration" where
  "index_reference_poll h = (if h_index_poll h \<le> 0 then default_index_reference_poll else h_index_poll h)"

definition wait_over :: "'w handler \<Rightarrow> nat \<Rightarrow> goerr \<Rightarrow> goerr" where
  "wait_over h attempts err =
     ErrWrap (''index references an image that has not finished publishing after '' @ fmt_nat attempts
       @ '' attempts over '' @ fmt_duration (index_reference_wait h) @ '' (retry the push): '') err []"

definition client_left :: "goerr \<Rightarrow> goerr" where
  "client_left err =
     ErrWrap ''index references an image that has not finished publishing, client left: '' err []"

text \<open>\<open>now\<close> is the clock, \<open>pause\<close> the \<open>select\<close>, \<open>over\<close> the error of the deadline.\<close>

partial_function (option) await_loop ::
  "('p \<Rightarrow> gotime) \<Rightarrow> ('p \<Rightarrow> bool \<times> 'p) \<Rightarrow> (nat \<Rightarrow> goerr \<Rightarrow> goerr) \<Rightarrow> ('p \<Rightarrow> goerr option \<times> 'p) \<Rightarrow> gotime
   \<Rightarrow> nat \<Rightarrow> goerr \<Rightarrow> 'p \<Rightarrow> (goerr option \<times> 'p) option"
where
  "await_loop now pause over push deadline attempts err p =
     (if \<not> now p < deadline then Some (Some (over attempts err), p)
      else case pause p of
        (fired, p1) \<Rightarrow>
          (if \<not> fired then Some (Some (client_left err), p1)
           else case push p1 of
             (r, p2) \<Rightarrow>
               (if r = None then Some (None, p2)
                else if \<not> is_missing_reference (the r) then Some (r, p2)
                else await_loop now pause over push deadline (attempts + 1) (the r) p2)))"

definition await_index_references ::
  "'w handler \<Rightarrow> ('w pod \<Rightarrow> goerr option \<times> 'w pod) \<Rightarrow> goerr \<Rightarrow> 'w pod \<Rightarrow> (goerr option \<times> 'w pod) option" where
  "await_index_references h push first p =
     (if \<not> is_missing_reference first then Some (Some first, p)
      else await_loop (clock h) (rt_pause (h_runtime h) (index_reference_poll h)) (wait_over h) push
             (clock h p + index_reference_wait h) 1 first p)"

section \<open>Forwarding\<close>

fun seed_blobs ::
  "'w handler \<Rightarrow> 'w pod pusher \<Rightarrow> string \<Rightarrow> descriptor list \<Rightarrow> 'w pod \<Rightarrow> goerr option \<times> 'w pod" where
  "seed_blobs h pusher repo_ref [] p = (None, p)"
| "seed_blobs h pusher repo_ref (b # bs) p =
     (case on_shared (get_staged_blob (h_store h) (dc_digest b)) p of
        (Inl e, p1) \<Rightarrow> (Some (ErrWrap (''fetch staged blob '' @ dc_digest b @ '': '') e []), p1)
      | (Inr raw, p1) \<Rightarrow>
          (case ps_push_blob pusher raw (dc_media_type b) repo_ref p1 of
             (Some e, p2) \<Rightarrow> (Some (ErrWrap (''push blob '' @ dc_digest b @ '': '') e []), p2)
           | (None, p2) \<Rightarrow> seed_blobs h pusher repo_ref bs p2))"

definition seed_attestation_blobs ::
  "'w handler \<Rightarrow> 'w pod pusher \<Rightarrow> string \<Rightarrow> parsed_manifest \<Rightarrow> 'w pod \<Rightarrow> goerr option \<times> 'w pod" where
  "seed_attestation_blobs h pusher repo_ref m p =
     seed_blobs h pusher repo_ref
       ((if dc_digest (pm_config m) \<noteq> [] then [pm_config m] else []) @ pm_layers m) p"

definition tag_alias_recorder :: "'w handler \<Rightarrow> (tag_alias \<Rightarrow> 'w pod \<Rightarrow> 'w pod) option" where
  "tag_alias_recorder h =
     (case h_outcome h of
        None \<Rightarrow> None
      | Some oc \<Rightarrow> (case oc_recorder oc of None \<Rightarrow> None | Some _ \<Rightarrow> oc_tag_alias oc))"

definition record_aliases :: "'w handler \<Rightarrow> string \<Rightarrow> string \<Rightarrow> parsed_manifest \<Rightarrow> 'w pod \<Rightarrow> 'w pod" where
  "record_aliases h repo ref m p =
     (case tag_alias_recorder h of
        None \<Rightarrow> p
      | Some rec \<Rightarrow>
          fold (\<lambda>sm q. if dc_digest sm = [] then q
                       else rec \<lparr>ta_repo = repo, ta_tag = ref, ta_digest = dc_digest sm\<rparr> q) (pm_manifests m) p)"

definition not_published :: "goerr \<Rightarrow> http_response" where
  "not_published e = http_error [] (''manifest not published: '' @ err_text e) 400"

definition forward_manifest ::
  "'w handler \<Rightarrow> 'w pod tenant \<Rightarrow> manifest_push \<Rightarrow> 'w pod \<Rightarrow> (http_response \<times> 'w pod) option" where
  "forward_manifest h t push p =
     (let m = mp_manifest push; raw = mp_raw push; kind = mp_kind push; ref = mp_ref push;
          digest = manifest_digest (st_sha (h_store h)) raw;
          target = target_ref (tn_registry t) (mp_repo push) ref;
          put = ps_push_manifest (tn_pusher t) raw (pm_media_type m) target;
          seeded = (if kind = KindAttestation
                    then seed_attestation_blobs h (tn_pusher t) (tn_registry t @ ''/'' @ mp_repo push) m p
                    else (None, p))
      in case seeded of
        (Some e, p1) \<Rightarrow> Some (not_published e, p1)
      | (None, p1) \<Rightarrow>
          (case put p1 of
             (err, p2) \<Rightarrow>
               (case (case err of
                        None \<Rightarrow> Some (None, p2)
                      | Some e \<Rightarrow> (if kind = KindIndex then await_index_references h put e p2 else Some (err, p2))) of
                  None \<Rightarrow> None
                | Some (Some e, p3) \<Rightarrow> Some (not_published e, p3)
                | Some (None, p3) \<Rightarrow>
                    Some (respond 201 [(''Docker-Content-Digest'', digest)] [],
                      if kind = KindIndex \<and> \<not> has_prefix ref ''sha256:''
                      then record_aliases h (mp_repo push) ref m p3 else p3))))"

definition handle_manifest ::
  "'w handler \<Rightarrow> http_request \<Rightarrow> 'w pod tenant \<Rightarrow> 'w pod \<Rightarrow> (reply \<times> 'w pod) option" where
  "handle_manifest h rq t p =
     (case read_manifest_push h rq t p of
        (Inl r, p1) \<Rightarrow> Some (Reply r, p1)
      | (Inr push, p1) \<Rightarrow>
          (if mp_kind push = KindIndex \<or> mp_kind push = KindAttestation
           then (case forward_manifest h t push p1 of
                   None \<Rightarrow> None
                 | Some (r, p2) \<Rightarrow> Some (Reply r, p2))
           else Some (handle_image h t push p1)))"

section \<open>Reports\<close>

text \<open>The header, then the findings unless the header failed.\<close>

definition fetch_report ::
  "'w pod report_source \<Rightarrow> string \<Rightarrow> 'w pod \<Rightarrow> (decision_header \<times> finding list) res \<times> 'w pod" where
  "fetch_report src i p =
     (case (case split_image_ref i of
              Some (repo, ref) \<Rightarrow> rp_header_by_image_ref src repo ref p
            | None \<Rightarrow> rp_header_by_push src i p) of
        (Inl e, p1) \<Rightarrow> (Inl e, p1)
      | (Inr hdr, p1) \<Rightarrow>
          (case (case split_image_ref i of
                   Some (repo, ref) \<Rightarrow> rp_findings_by_image_ref src repo ref p1
                 | None \<Rightarrow> rp_findings_by_push src i p1) of
             (Inl e, p2) \<Rightarrow> (Inl e, p2)
           | (Inr fs, p2) \<Rightarrow> (Inr (hdr, fs), p2)))"

definition report_age :: "decision_header \<Rightarrow> age_info option" where
  "report_age hdr =
     (if dh_found hdr \<and> dh_image_age_known hdr
      then Some \<lparr>ai_known = True, ai_created = dh_image_created hdr,
                 ai_age_days = uint (dh_image_age_days hdr),
                 ai_threshold_days = uint (dh_image_age_threshold_days hdr),
                 ai_compliant = (uint (dh_image_age_days hdr) \<le> uint (dh_image_age_threshold_days hdr))\<rparr>
      else None)"

text \<open>\<open>infra_error\<close>, \<open>error\<close>, \<open>findings\<close> and \<open>age\<close> of the envelope.\<close>

definition report_envelope :: "decision_header \<Rightarrow> finding list \<Rightarrow> bool \<times> string \<times> finding list \<times> age_info option" where
  "report_envelope hdr fs =
     (if dh_found hdr \<and> dh_infra_error hdr then (True, dh_error_detail hdr, fs, report_age hdr)
      else (False, [], fs, report_age hdr))"

definition handle_report :: "'w handler \<Rightarrow> http_request \<Rightarrow> 'w pod \<Rightarrow> http_response \<times> 'w pod" where
  "handle_report h rq p =
     (case h_resolver h (rq_host rq) of
        Inl e \<Rightarrow> (http_error [] ''unknown registry'' 404, p)
      | Inr t \<Rightarrow>
          (case authenticate h rq t p of
             (Some r, p1) \<Rightarrow> (r, p1)
           | (None, p1) \<Rightarrow>
               (let i = trim_prefix (rq_path rq) ''/reports/'' in
                case (if i = [] then None else h_reports h) of
                  None \<Rightarrow> (http_not_found, p1)
                | Some src \<Rightarrow>
                    (case fetch_report src i p1 of
                       (Inl e, p2) \<Rightarrow> (http_error [] ''report unavailable'' 500, p2)
                     | (Inr (hdr, fs), p2) \<Rightarrow>
                         (if \<not> dh_found hdr \<and> fs = []
                          then (http_error [] ''no report for that reference'' 404, p2)
                          else (respond 200 [(''Content-Type'', ''application/json'')]
                                  (rt_encode_report (h_runtime h) (report_envelope hdr fs)), p2))))))"

section \<open>Routing\<close>

definition route :: "'w handler \<Rightarrow> http_request \<Rightarrow> 'w pod \<Rightarrow> (reply \<times> 'w pod) option" where
  "route h rq p =
     (case h_resolver h (rq_host rq) of
        Inl e \<Rightarrow> Some (Reply (http_error [] ''unknown registry'' 404), p)
      | Inr t \<Rightarrow>
          (case authenticate h rq t p of
             (Some r, p1) \<Rightarrow> Some (Reply r, p1)
           | (None, p1) \<Rightarrow>
               (if rq_path rq = ''/v2/'' then Some (Reply (respond 200 [] []), p1)
                else if str_contains (rq_path rq) ''/blobs/uploads/''
                then (if rq_method rq \<noteq> ''POST'' \<and> rq_method rq \<noteq> ''PATCH'' \<and> rq_method rq \<noteq> ''PUT''
                      then Some (Reply (respond 405 [] []), p1)
                      else (case handle_upload h rq p1 of (r, p2) \<Rightarrow> Some (Reply r, p2)))
                else if str_contains (rq_path rq) ''/manifests/''
                then (if rq_method rq = ''PUT'' then handle_manifest h rq t p1
                      else if rq_method rq = ''GET'' \<or> rq_method rq = ''HEAD''
                      then Some (Reply (respond 404 [] []), p1)
                      else Some (Reply (respond 405 [] []), p1))
                else Some (Reply http_not_found, p1))))"

text \<open>
  The patterns registered on the \<open>ServeMux\<close>: \<open>/v2/\<close> and \<open>/reports/\<close> are subtrees, \<open>/token\<close> is a
  path; a subtree without its slash is redirected to it. Requests whose path is not clean never
  reach a handler: the mux redirects them, too.
\<close>

definition mux_clean :: "string \<Rightarrow> string" where
  "mux_clean path0 =
     (if path0 = [] then ''/''
      else (let path = (if has_prefix path0 ''/'' then path0 else ''/'' @ path0); np = path_clean path in
            if has_suffix path ''/'' \<and> np \<noteq> ''/'' then np @ ''/'' else np))"

definition redirect_to :: "string \<Rightarrow> http_response" where
  "redirect_to path = respond 301 [(''Location'', path)] []"

definition mux_serve :: "'w handler \<Rightarrow> http_request \<Rightarrow> 'w pod \<Rightarrow> (reply \<times> 'w pod) option" where
  "mux_serve h rq p =
     (let path = rq_path rq in
      if rq_method rq \<noteq> ''CONNECT'' \<and> path = ''/v2'' \<or> rq_method rq \<noteq> ''CONNECT'' \<and> path = ''/reports''
      then Some (Reply (redirect_to (path @ ''/'')), p)
      else if rq_method rq \<noteq> ''CONNECT'' \<and> mux_clean path \<noteq> path then Some (Reply (redirect_to (mux_clean path)), p)
      else if has_prefix path ''/v2/'' then route h rq p
      else if has_prefix path ''/reports/'' then (case handle_report h rq p of (r, p1) \<Rightarrow> Some (Reply r, p1))
      else if path = ''/token''
      then (case h_token_handler h of
              None \<Rightarrow> Some (Reply http_not_found, p)
            | Some th \<Rightarrow> (case token_serve th rq p of (r, p1) \<Rightarrow> Some (Reply r, p1)))
      else Some (Reply http_not_found, p))"

text \<open>A panicking handler unwinds past the request counter.\<close>

definition serve_http :: "'w handler \<Rightarrow> http_request \<Rightarrow> 'w pod \<Rightarrow> (reply \<times> 'w pod) option" where
  "serve_http h rq p =
     (case mux_serve h rq p of
        None \<Rightarrow> None
      | Some (Panic, p1) \<Rightarrow> Some (Panic, p1)
      | Some (Reply r, p1) \<Rightarrow>
          Some (Reply r,
            case h_requests h of
              None \<Rightarrow> p1
            | Some observe \<Rightarrow> observe (rq_method rq) (route_class (rq_path rq)) (fmt_nat (rs_status r)) p1))"

end
