(* ===== verification/Docker_Gate_Laws.thy ===== *)
theory Docker_Gate_Laws
  imports Docker_Server
begin

text \<open>
  What the gated push guarantees: a 201 needs a gate that passed and a publication that succeeded, a
  push that is not published does not depend on who would have published it, the staged bytes have
  exactly one owner afterwards, and a scan slot is always given back.
\<close>

section \<open>The stages of a gated push\<close>

definition gate_engine :: "'w handler \<Rightarrow> 'w pod gate_policy list" where
  "gate_engine h = (case h_pool h of None \<Rightarrow> h_router h | Some (s, engine) \<Rightarrow> engine)"

lemma explain_none [simp]: "explain_scan_failure h err a b d = None \<longleftrightarrow> err = None"
  by (simp add: explain_scan_failure_def split: option.split)

lemma run_scan_ran:
  assumes "run_scan h engine req p = (g, p')"
  shows "\<exists>err. router_gate engine req p = ((gn_res g, err), p') \<and> (gn_err g = None \<longleftrightarrow> err = None)
    \<and> \<not> gn_abandoned g"
proof -
  obtain res err p1 where g: "router_gate engine req p = ((res, err), p1)" by (metis prod.exhaust)
  then show ?thesis using assms by (auto simp: run_scan_def Let_def)
qed

lemma run_gate_ran:
  assumes "run_gate h req p = (g, p')" "\<not> gn_abandoned g" "gn_err g = None"
  shows "\<exists>q q'. router_gate (gate_engine h) req q = ((gn_res g, None), q')"
proof (cases "h_pool h")
  case None
  then show ?thesis using assms run_scan_ran by (fastforce simp: run_gate_def gate_engine_def)
next
  case (Some se)
  obtain s engine where se: "se = (s, engine)" by (rule prod.exhaust)
  note rg = assms(1) [unfolded run_gate_def Some se, simplified, unfolded with_slot_def]
  obtain e p1 where a: "sl_acquire (observed_slots h s) (gate_budget h) p = (e, p1)" by (rule prod.exhaust)
  show ?thesis
  proof (cases e)
    case None
    obtain g2 p2 where s2: "run_scan h engine req p1 = (g2, p2)" by (rule prod.exhaust)
    then have "g2 = g" using rg a None by simp
    have ge: "gate_engine h = engine" by (simp add: gate_engine_def Some se)
    obtain err where "router_gate engine req p1 = ((gn_res g2, err), p2)" "gn_err g2 = None \<longleftrightarrow> err = None"
      using run_scan_ran [OF s2] by (elim exE conjE) (rule that)
    then have "router_gate (gate_engine h) req p1 = ((gn_res g, None), p2)"
      using assms(3) \<open>g2 = g\<close> ge by simp
    then show ?thesis by (intro exI)
  next
    case (Some er)
    then have "g = slot_refused er" using rg a by simp
    then show ?thesis using assms(2,3) by (auto simp: slot_refused_def split: if_splits)
  qed
qed

lemma publication_run_ok:
  assumes "publication_run (publication_for h t req push s i) p = (None, pb, p')"
  shows "(h_promoter h = None \<longrightarrow> (\<exists>q. ps_push (tn_pusher t) (si_oci_path (gr_image req)) (gr_target req) p = (None, q)))
    \<and> (\<forall>pr. h_promoter h = Some pr \<longrightarrow> pr_promote pr (promotion_job t req push s i) p = (None, p'))
    \<and> (pb_handed_off pb \<longleftrightarrow> h_promoter h \<noteq> None)"
  using assms
  by (auto simp: publication_run_def publication_for_def sync_publish_def split: option.splits prod.splits)

lemma publication_run_failed:
  "publication_run (publication_for h t req push s i) p = (Some e, pb, p') \<Longrightarrow> \<not> pb_handed_off pb"
  by (auto simp: publication_run_def publication_for_def split: option.splits prod.splits)

lemma publication_fresh [simp]: "\<not> pb_handed_off (publication_for h t req push s i)"
  by (simp add: publication_for_def split: option.split)

lemma write_decision_status: "gd_status d \<noteq> 0 \<Longrightarrow> rs_status (write_decision d dg) = gd_status d"
  by (simp add: write_decision_def Let_def)

text \<open>The gated half, by what became of it.\<close>

lemma gate_and_publish_cases:
  assumes "gate_and_publish h t push s p = (r, handed, p')"
  obtains (kept) "\<not> handed" "\<forall>resp. r = Reply resp \<longrightarrow> rs_status resp \<noteq> 201"
  | (out) resp res q q' qp qp' pb i where
      "r = Reply resp" "rs_status resp = 201" "handed \<longleftrightarrow> h_promoter h \<noteq> None"
      "router_gate (gate_engine h) (gate_request_for h t push s) q = ((res, None), q')" "r_passed res"
      "publication_run (publication_for h t (gate_request_for h t push s) push s i) qp = (None, pb, qp')"
      "(''Docker-Content-Digest'', manifest_digest (st_sha (h_store h)) (mp_raw push)) \<in> set (rs_headers resp)"
proof -
  let ?req = "gate_request_for h t push s"
  obtain i p1 where i: "handler_push_id h p = (i, p1)" by (rule prod.exhaust)
  obtain g p2 where g: "run_gate h ?req p1 = (g, p2)" by (rule prod.exhaust)
  note eq = assms [unfolded gate_and_publish_def Let_def i, simplified, unfolded g, simplified]
  consider "gn_abandoned g" | "\<not> gn_abandoned g" "h_outcome h = None" | oc where "\<not> gn_abandoned g" "h_outcome h = Some oc"
    by blast
  then show thesis
  proof cases
    case 1
    then show thesis using eq kept by (auto simp: no_write_def)
  next
    case 2
    then show thesis using eq kept by auto
  next
    case 3
    let ?pb = "publication_for h t ?req push s i"
    obtain d err pb p3 where ap: "outcome_apply oc i publication_run ?pb ?req (gn_res g) (gn_err g) (gn_scan_dur g) p2
        = ((d, err), pb, p3)" by (metis prod.exhaust)
    have r: "r = Reply (write_decision d (si_digest (gr_image ?req)))" "handed = pb_handed_off pb"
      using eq 3 ap by auto
    show thesis using ap
    proof (cases rule: outcome_apply_cases)
      case (infra e i' w1)
      then show thesis using r kept by (auto simp: write_decision_status)
    next
      case (rejected i' w1)
      then show thesis using r kept by (auto simp: write_decision_status)
    next
      case (unpublished e i' wp wq w1)
      then have "\<not> handed" using publication_run_failed [OF unpublished(3)] r(2) by simp
      then show thesis using r(1) kept unpublished(6) by (auto simp: write_decision_status)
    next
      case (published i' wp wq w1)
      obtain q q' where q: "router_gate (gate_engine h) ?req q = ((gn_res g, None), q')"
        using run_gate_ran [OF g 3(1) published(1)] by blast
      have st: "rs_status (write_decision d (si_digest (gr_image ?req))) = 201"
        using published by (simp add: write_decision_status)
      have dg: "(''Docker-Content-Digest'', manifest_digest (st_sha (h_store h)) (mp_raw push))
          \<in> set (rs_headers (write_decision d (si_digest (gr_image ?req))))"
        using published by (simp add: write_decision_def respond_def gate_request_for_def Let_def)
      have ho: "handed \<longleftrightarrow> h_promoter h \<noteq> None" using publication_run_ok [OF published(3)] r(2) by simp
      show thesis by (rule out [OF r(1) st ho q published(2,3) dg])
    qed
  qed
qed

lemma handle_image_stages:
  assumes "handle_image h t push p = (r, p')"
  obtains (early) resp where "r = Reply resp" "rs_status resp \<noteq> 201" "rs_status resp \<in> {400, 500, 503}"
  | (staged) s p1 p2 p3 handed where "promotion_backlog_full h p = (False, p1)" "stage_image h push p1 = (Inr s, p2)"
      "gate_and_publish h t push s p2 = (r, handed, p3)"
      "p' = (if handed then p3 else release_staged h (sg_mr s) (sg_scratch_dir s) p3)"
proof -
  obtain full p1 where b: "promotion_backlog_full h p = (full, p1)" by (rule prod.exhaust)
  obtain st p2 where s: "stage_image h push p1 = (st, p2)" by (rule prod.exhaust)
  consider "full" | resp where "\<not> full" "st = Inl resp" | sg where "\<not> full" "st = Inr sg" by (cases st) auto
  then show thesis
  proof cases
    case 1
    then show thesis using assms b early by (auto simp: handle_image_def)
  next
    case 2
    then have "rs_status resp \<in> {400, 500}"
      using s by (auto simp: stage_image_def assemble_push_def Let_def split: sum.splits prod.splits if_splits)
    then show thesis using assms b s 2 early by (auto simp: handle_image_def)
  next
    case 3
    obtain r' ho p3 where g: "gate_and_publish h t push sg p2 = (r', ho, p3)" by (metis prod.exhaust)
    then show thesis using assms b s 3 staged [of p1 sg p2 ho p3] by (auto simp: handle_image_def split: if_splits)
  qed
qed

end
