(* ===== verification/Docker_Push_Safety.thy ===== *)
theory Docker_Push_Safety
  imports Docker_Gate_Laws
begin

text \<open>
  The properties of a gated push over the handler of \<open>manifest.go\<close>, and the one way around the
  gate: a manifest that carries a \<open>manifests\<close> list.
\<close>

section \<open>A sample deployment\<close>

text \<open>An in-memory store with one complete layer, a policy with a given verdict, a pusher that accepts.\<close>

definition sample_runtime :: "mem_staging runtime" where
  "sample_runtime = \<lparr>rt_clock = (\<lambda>_. 0), rt_client_err = (\<lambda>_. None), rt_pause = (\<lambda>_ p. (False, p)),
     rt_rand = (\<lambda>_ p. (Inr [], p)), rt_rand_name = (\<lambda>p. (''1'', p)), rt_codecs = sample_codecs,
     rt_unmarshal = (\<lambda>_. Inr (zero_manifest\<lparr>pm_layers := [\<lparr>dc_media_type = ''tar'', dc_digest = ''sha256:aa''\<rparr>]\<rparr>)),
     rt_encode_report = (\<lambda>_. [])\<rparr>"

definition verdict_policy :: "bool \<Rightarrow> 'w gate_policy" where
  "verdict_policy ok = \<lparr>p_name = ''p'', p_evaluate = (\<lambda>_ w. (Inr (zero_verdict\<lparr>v_passed := ok\<rparr>), w))\<rparr>"

definition plain_outcome :: "'w outcome" where
  "plain_outcome = \<lparr>oc_report_base_url = ''u'', oc_recorder = None, oc_tag_alias = None,
     oc_id_gen = Some (\<lambda>w. (''id'', w)), oc_metrics = None, oc_rand = (\<lambda>_ w. (Inr [], w)), oc_clock = (\<lambda>_. 0)\<rparr>"

definition sample_pusher :: "'w pusher" where
  "sample_pusher = \<lparr>ps_push = (\<lambda>_ _ w. (None, w)), ps_push_manifest = (\<lambda>_ _ _ w. (None, w)),
     ps_push_blob = (\<lambda>_ _ _ w. (None, w))\<rparr>"

definition sample_tenant :: "'w tenant" where
  "sample_tenant = \<lparr>tn_prefix = ''p'', tn_registry = ''reg'', tn_pusher = sample_pusher,
     tn_authn = (\<lambda>_ w. (Inr ''u'', w))\<rparr>"

definition sample_handler :: "bool \<Rightarrow> mem_staging handler" where
  "sample_handler ok = \<lparr>h_resolver = (\<lambda>_. Inr sample_tenant), h_store = mem_store (\<lambda>_. ''aa'') (\<lambda>_. []),
     h_router = [verdict_policy ok], h_outcome = Some plain_outcome, h_reports = None, h_max_upload_bytes = 0,
     h_upload_slots = None, h_upload_wait = 0, h_pool = None, h_gate_timeout = 0, h_scratch_base_dir = ''/'',
     h_reg_issuer = None, h_token_realm = [], h_service = [], h_token_handler = None,
     h_promoter = Some \<lparr>pr_promote = (\<lambda>_ p. (None, p)), pr_pending = None\<rparr>, h_max_pending = 0,
     h_requests = None, h_index_wait = 0, h_index_poll = 0, h_runtime = sample_runtime\<rparr>"

definition sample_manifest_push :: manifest_push where
  "sample_manifest_push = \<lparr>mp_repo = ''r'', mp_ref = ''t'', mp_raw = ''m'',
     mp_manifest = zero_manifest\<lparr>pm_layers := [\<lparr>dc_media_type = ''tar'', dc_digest = ''sha256:aa''\<rparr>]\<rparr>,
     mp_kind = KindImage, mp_identity = ''u''\<rparr>"

definition reply_status :: "reply \<Rightarrow> nat option" where
  "reply_status r = (case r of Reply resp \<Rightarrow> Some (rs_status resp) | Panic \<Rightarrow> None)"

lemma sample_push_passes:
  "reply_status (fst (handle_image (sample_handler True) sample_tenant sample_manifest_push (sample_staged, empty_fs))) = Some 201"
  by code_simp

lemma sample_push_rejected:
  "reply_status (fst (handle_image (sample_handler False) sample_tenant sample_manifest_push (sample_staged, empty_fs))) = Some 400"
  by code_simp

section \<open>Created means gated\<close>

text \<open>
  C1: A client that pushes an image is told 201 only after the policy engine ran on the assembled
  image, with no error, and passed, and only after publication succeeded: with a promoter the
  job was accepted by the queue, without one the image was pushed to the tenant's registry under the
  reference the client used. The response echoes the digest of the exact bytes pushed.
\<close>

theorem created_means_gated:
  assumes "handle_image h t push p = (Reply resp, p')" "rs_status resp = 201"
  shows "\<exists>s res i p1 p2 q q' qp qp'. stage_image h push p1 = (Inr s, p2)
    \<and> router_gate (gate_engine h) (gate_request_for h t push s) q = ((res, None), q') \<and> r_passed res
    \<and> (case h_promoter h of
         None \<Rightarrow> ps_push (tn_pusher t) (si_oci_path (sg_img s)) (target_ref (tn_registry t) (mp_repo push) (mp_ref push)) qp
                  = (None, qp')
       | Some pr \<Rightarrow> pr_promote pr (promotion_job t (gate_request_for h t push s) push s i) qp = (None, qp'))
    \<and> (''Docker-Content-Digest'', manifest_digest (st_sha (h_store h)) (mp_raw push)) \<in> set (rs_headers resp)"
  using assms(1)
proof (cases rule: handle_image_stages)
  case (early r)
  then show ?thesis using assms(2) by simp
next
  case (staged s p1 p2 p3 handed)
  from staged(3) show ?thesis
  proof (cases rule: gate_and_publish_cases)
    case kept
    then show ?thesis using assms(2) by simp
  next
    case (out r res q q' qp qp' pb i)
    let ?req = "gate_request_for h t push s"
    have tgt: "gr_target ?req = target_ref (tn_registry t) (mp_repo push) (mp_ref push)"
      "si_oci_path (gr_image ?req) = si_oci_path (sg_img s)"
      by (simp_all add: gate_request_for_def)
    have r: "r = resp" using out(1) by simp
    obtain qz where "case h_promoter h of
         None \<Rightarrow> ps_push (tn_pusher t) (si_oci_path (sg_img s)) (target_ref (tn_registry t) (mp_repo push) (mp_ref push)) qp
                  = (None, qz)
       | Some pr \<Rightarrow> pr_promote pr (promotion_job t ?req push s i) qp = (None, qz)"
      using publication_run_ok [OF out(6)] unfolding tgt by (cases "h_promoter h") auto
    then show ?thesis using staged(2) out(4,5) out(7) [unfolded r] by (intro exI conjI) assumption+
  qed
qed

lemma created_means_gated_witness:
  "\<exists>resp p' s res q q'. handle_image (sample_handler True) sample_tenant sample_manifest_push (sample_staged, empty_fs)
       = (Reply resp, p')
     \<and> router_gate (gate_engine (sample_handler True))
          (gate_request_for (sample_handler True) sample_tenant sample_manifest_push s) q = ((res, None), q')
     \<and> r_passed res"
proof -
  obtain r p' where h: "handle_image (sample_handler True) sample_tenant sample_manifest_push (sample_staged, empty_fs)
      = (r, p')" by (rule prod.exhaust)
  then have "reply_status r = Some 201" using sample_push_passes by simp
  then obtain resp where r: "r = Reply resp" "rs_status resp = 201"
    by (auto simp: reply_status_def split: reply.splits)
  then show ?thesis using created_means_gated [OF h [unfolded r(1)] r(2)] h by blast
qed

section \<open>A push that is not published does not depend on the publisher\<close>

lemma apply_ignores_publisher:
  assumes "outcome_apply oc i publish a req res ge dur w = ((d, err), a', w')" "gd_status d \<notin> {201, 502}"
  shows "a' = a \<and> outcome_apply oc i publish2 b req res ge dur w = ((d, err), b, w')"
  using assms
  by (auto simp: outcome_apply_def apply_infra_def apply_publish_def Let_def
      split: prod.splits option.splits if_splits)

text \<open>The stages before publication read neither the promoter nor the pusher.\<close>

lemma swap_promoter:
  "stage_image (h\<lparr>h_promoter := X\<rparr>) push = stage_image h push"
  "release_staged (h\<lparr>h_promoter := X\<rparr>) mr scratch = release_staged h mr scratch"
  "handler_push_id (h\<lparr>h_promoter := X\<rparr>) = handler_push_id h"
  "run_gate (h\<lparr>h_promoter := X\<rparr>) req = run_gate h req"
  "gate_request_for (h\<lparr>h_promoter := X\<rparr>) t push s = gate_request_for h t push s"
proof -
  show "stage_image (h\<lparr>h_promoter := X\<rparr>) push = stage_image h push"
    by (cases h, hypsubst, rule ext)
      (unfold stage_image_def assemble_push_def release_staged_def observe_assemble_def
        observe_optional_def clock_def handler.simps, rule HOL.refl)
  show "release_staged (h\<lparr>h_promoter := X\<rparr>) mr scratch = release_staged h mr scratch"
    by (cases h, hypsubst, rule ext) (unfold release_staged_def handler.simps, rule HOL.refl)
  show "handler_push_id (h\<lparr>h_promoter := X\<rparr>) = handler_push_id h"
    by (cases h, hypsubst, rule ext) (unfold handler_push_id_def clock_def handler.simps, rule HOL.refl)
  have scan: "run_scan (h\<lparr>h_promoter := X\<rparr>) = run_scan h"
    by (cases h, hypsubst, intro ext)
      (unfold run_scan_def clock_def gate_budget_def explain_scan_failure_def handler.simps, rule HOL.refl)
  have slots: "observed_slots (h\<lparr>h_promoter := X\<rparr>) = observed_slots h"
    by (cases h, hypsubst, intro ext)
      (unfold observed_slots_def clock_def observe_queue_wait_def observe_optional_def handler.simps, rule HOL.refl)
  show "run_gate (h\<lparr>h_promoter := X\<rparr>) req = run_gate h req"
    by (rule ext) (unfold run_gate_def scan slots, cases h, hypsubst, unfold gate_budget_def handler.simps, rule HOL.refl)
  show "gate_request_for (h\<lparr>h_promoter := X\<rparr>) t push s = gate_request_for h t push s"
    by (simp add: gate_request_for_def)
qed

lemma swap_pusher: "gate_request_for h (t\<lparr>tn_pusher := q\<rparr>) push s = gate_request_for h t push s"
  by (simp add: gate_request_for_def)

lemma swap_backlog:
  "map_option pr_pending X = map_option pr_pending (h_promoter h) \<Longrightarrow>
   promotion_backlog_full (h\<lparr>h_promoter := X\<rparr>) p = promotion_backlog_full h p"
  by (cases X; cases "h_promoter h") (auto simp: promotion_backlog_full_def split: option.split sum.split prod.split)

lemma gate_ignores_publisher:
  assumes g: "gate_and_publish h t push s p = (r, handed, p')"
    and unpub: "\<forall>resp. r = Reply resp \<longrightarrow> rs_status resp \<notin> {201, 502}"
  shows "\<not> handed \<and> gate_and_publish (h\<lparr>h_promoter := X\<rparr>) (t\<lparr>tn_pusher := q\<rparr>) push s p = (r, False, p')"
proof -
  let ?req = "gate_request_for h t push s"
  obtain i p1 where i: "handler_push_id h p = (i, p1)" by (rule prod.exhaust)
  obtain gr p2 where gr: "run_gate h ?req p1 = (gr, p2)" by (rule prod.exhaust)
  note swaps = swap_promoter swap_pusher
  show ?thesis
  proof (cases "gn_abandoned gr \<or> h_outcome h = None")
    case True
    then show ?thesis using g by (auto simp: gate_and_publish_def Let_def swaps i gr)
  next
    case False
    then obtain oc where oc: "\<not> gn_abandoned gr" "h_outcome h = Some oc" by auto
    let ?h' = "h\<lparr>h_promoter := X\<rparr>" and ?t' = "t\<lparr>tn_pusher := q\<rparr>"
    obtain d err pb p3 where ap: "outcome_apply oc i publication_run (publication_for h t ?req push s i) ?req
        (gn_res gr) (gn_err gr) (gn_scan_dur gr) p2 = ((d, err), pb, p3)" by (metis prod.exhaust)
    have r: "r = Reply (write_decision d (si_digest (gr_image ?req)))" "handed = pb_handed_off pb" "p' = p3"
      using g oc ap by (auto simp: gate_and_publish_def Let_def i gr)
    have "gd_status d \<in> {201, 400, 500, 502, 503}"
      using ap by (cases rule: outcome_apply_cases) auto
    then have st: "gd_status d \<notin> {201, 502}" using unpub r(1) by (auto simp: write_decision_status)
    have ign: "pb = publication_for h t ?req push s i"
      "outcome_apply oc i publication_run (publication_for ?h' ?t' ?req push s i) ?req
         (gn_res gr) (gn_err gr) (gn_scan_dur gr) p2 = ((d, err), publication_for ?h' ?t' ?req push s i, p3)"
      by (rule apply_ignores_publisher [OF ap st, THEN conjunct1],
          rule apply_ignores_publisher [OF ap st, THEN conjunct2])
    show ?thesis
      using oc r ign by (simp add: gate_and_publish_def Let_def swaps i gr)
  qed
qed

text \<open>
  C2: A push the gate does not let through cannot reach a registry or the queue. Unless the
  client is told 201 (published) or 502 (publication was tried and failed), the whole run, its
  response and its effect on the world, is the same for every other pusher and every other
  promoter with the same backlog: neither was called.
\<close>

theorem unpublished_push_ignores_publisher:
  assumes "handle_image h t push p = (r, p')"
    and "\<forall>resp. r = Reply resp \<longrightarrow> rs_status resp \<notin> {201, 502}"
    and "map_option pr_pending X = map_option pr_pending (h_promoter h)"
  shows "handle_image (h\<lparr>h_promoter := X\<rparr>) (t\<lparr>tn_pusher := q\<rparr>) push p = (r, p')"
proof -
  obtain full p1 where b: "promotion_backlog_full h p = (full, p1)" by (rule prod.exhaust)
  obtain st p2 where s: "stage_image h push p1 = (st, p2)" by (rule prod.exhaust)
  note b' = swap_backlog [OF assms(3), of p, unfolded b]
  show ?thesis
  proof (cases full)
    case True
    then show ?thesis using assms(1) b b' by (simp add: handle_image_def)
  next
    case False
    show ?thesis
    proof (cases st)
      case (Inl resp)
      then show ?thesis using assms(1) False b b' s by (simp add: handle_image_def swap_promoter)
    next
      case (Inr sg)
      obtain r0 ho p3 where g: "gate_and_publish h t push sg p2 = (r0, ho, p3)" by (metis prod.exhaust)
      then have r: "r0 = r" "p' = (if ho then p3 else release_staged h (sg_mr sg) (sg_scratch_dir sg) p3)"
        using assms(1) False Inr b s by (auto simp: handle_image_def)
      note ign = gate_ignores_publisher [OF g [unfolded r(1)] assms(2), of X q]
      show ?thesis using False Inr b' s ign r by (simp add: handle_image_def swap_promoter)
    qed
  qed
qed

lemma unpublished_push_ignores_publisher_witness:
  "handle_image ((sample_handler False)\<lparr>h_promoter := Some \<lparr>pr_promote = (\<lambda>_ p. (Some CtxCanceled, p)), pr_pending = None\<rparr>\<rparr>)
     (sample_tenant\<lparr>tn_pusher := sample_pusher\<rparr>) sample_manifest_push (sample_staged, empty_fs)
   = handle_image (sample_handler False) sample_tenant sample_manifest_push (sample_staged, empty_fs)"
proof -
  let ?X = "Some \<lparr>pr_promote = (\<lambda>_ p. (Some CtxCanceled, p)), pr_pending = None\<rparr>"
  obtain r p' where h: "handle_image (sample_handler False) sample_tenant sample_manifest_push (sample_staged, empty_fs)
      = (r, p')" by (rule prod.exhaust)
  then have "\<forall>resp. r = Reply resp \<longrightarrow> rs_status resp \<notin> {201, 502}"
    using sample_push_rejected by (auto simp: reply_status_def)
  moreover have "map_option pr_pending ?X = map_option pr_pending (h_promoter (sample_handler False))"
    by (simp add: sample_handler_def)
  ultimately show ?thesis using unpublished_push_ignores_publisher [OF h] h by simp
qed

end
