(* ===== verification/Docker_Forward_Laws.thy ===== *)
theory Docker_Forward_Laws
  imports Docker_Push_Safety
begin

text \<open>
  Manifests that are forwarded without a scan: the wait for an index's references ends and never
  turns a refusal into a success, and the gate is skipped by a field of the manifest's own JSON.
\<close>

section \<open>The wait ends\<close>

lemma index_reference_poll_pos: "0 < index_reference_poll h"
  by (simp add: index_reference_poll_def default_index_reference_poll_def)

lemma await_loop_ends:
  fixes now :: "'p \<Rightarrow> gotime"
  assumes poll: "0 < poll" and pause: "\<And>p p1. pause p = (True, p1) \<Longrightarrow> now p + poll \<le> now p1"
    and push: "\<And>p r p2. push p = (r, p2) \<Longrightarrow> now p \<le> now p2"
  shows "\<exists>r p'. await_loop now pause over push deadline n err p = Some (r, p')
    \<and> (r = None \<longrightarrow> (\<exists>q. push q = (None, p')))"
proof (induction "nat (deadline - now p)" arbitrary: p n err rule: less_induct)
  case less
  note unfold = await_loop.simps [of now pause over push deadline n err p]
  show ?case
  proof (cases "now p < deadline")
    case False
    then show ?thesis by (simp add: unfold)
  next
    case True
    obtain fired p1 where ps: "pause p = (fired, p1)" by (rule prod.exhaust)
    obtain r p2 where pu: "push p1 = (r, p2)" by (rule prod.exhaust)
    show ?thesis
    proof (cases "fired \<and> r \<noteq> None \<and> is_missing_reference (the r)")
      case False
      then show ?thesis using True ps pu by (cases fired; cases r) (auto simp: unfold)
    next
      case again: True
      have "now p + poll \<le> now p2" using pause [of p p1] push [OF pu] ps again by simp
      then have "nat (deadline - now p2) < nat (deadline - now p)" using True poll by linarith
      from less.hyps [OF this, of "n + 1" "the r"] show ?thesis
        using True ps pu again by (auto simp: unfold)
    qed
  qed
qed



section \<open>The field that skips the gate\<close>

lemma read_push_kind:
  "read_manifest_push h rq t p = (Inr push, p1) \<Longrightarrow> mp_kind push = manifest_kind_of (mp_manifest push)"
  by (auto simp: read_manifest_push_def classify_manifest_def split: prod.splits if_splits option.splits sum.splits)

lemma swap_gate:
  "read_manifest_push (h\<lparr>h_router := e, h_pool := g\<rparr>) rq t p = read_manifest_push h rq t p"
  "forward_manifest (h\<lparr>h_router := e, h_pool := g\<rparr>) t push p = forward_manifest h t push p"
proof -
  let ?h = "h\<lparr>h_router := e, h_pool := g\<rparr>"
  show "read_manifest_push ?h rq t p = read_manifest_push h rq t p"
    by (cases h, hypsubst)
      (unfold read_manifest_push_def validated_identity_def get_max_upload_bytes_def handler.simps, rule HOL.refl)
  have seed: "seed_blobs ?h ps rr bs q = seed_blobs h ps rr bs q" for ps rr bs q
  proof (induction bs arbitrary: q)
    case (Cons b bs)
    then show ?case by (simp split: prod.split sum.split option.split)
  qed simp
  have wait: "await_index_references ?h f x q = await_index_references h f x q" for f x q
    by (cases h, hypsubst)
      (unfold await_index_references_def clock_def index_reference_poll_def index_reference_wait_def wait_over_def
        handler.simps, rule HOL.refl)
  have al: "record_aliases ?h repo ref m q = record_aliases h repo ref m q" for repo ref m q
    by (simp add: record_aliases_def tag_alias_recorder_def)
  show "forward_manifest ?h t push p = forward_manifest h t push p"
    by (unfold forward_manifest_def seed_attestation_blobs_def seed wait al) simp
qed

text \<open>
  C9: A manifest whose JSON has a non-empty \<open>manifests\<close> field is never scanned, whatever else it
  declares, a config and file-system layers of an image included: the run of the request is
  the same for every policy engine and every scan pool.
\<close>

theorem manifests_field_skips_gate:
  assumes "read_manifest_push h rq t p = (Inr push, p1)" "pm_manifests (mp_manifest push) \<noteq> []"
  shows "handle_manifest (h\<lparr>h_router := e, h_pool := g\<rparr>) rq t p = handle_manifest h rq t p"
proof -
  have "mp_kind push = KindIndex" using read_push_kind [OF assms(1)] assms(2) by (simp add: kind_index_iff)
  then show ?thesis by (simp add: handle_manifest_def swap_gate assms(1))
qed

text \<open>An image manifest with a layer, and one more field.\<close>

definition smuggled_manifest :: parsed_manifest where
  "smuggled_manifest = \<lparr>pm_media_type = ''application/vnd.oci.image.manifest.v1+json'',
     pm_config = \<lparr>dc_media_type = ''application/vnd.oci.image.config.v1+json'', dc_digest = ''sha256:cc''\<rparr>,
     pm_layers = [\<lparr>dc_media_type = ''application/vnd.oci.image.layer.v1.tar+gzip'', dc_digest = ''sha256:aa''\<rparr>],
     pm_manifests = [\<lparr>dc_media_type = [], dc_digest = []\<rparr>]\<rparr>"

definition smuggling_handler :: "bool \<Rightarrow> mem_staging handler" where
  "smuggling_handler ok = (sample_handler ok)\<lparr>h_runtime := sample_runtime\<lparr>rt_unmarshal := (\<lambda>_. Inr smuggled_manifest)\<rparr>\<rparr>"

definition put_request :: "string \<Rightarrow> http_request" where
  "put_request path = \<lparr>rq_method = ''PUT'', rq_host = ''p.m'', rq_path = path, rq_query = (\<lambda>_. []),
     rq_header = (\<lambda>_. []), rq_body = Inr ''m'', rq_basic_auth = None\<rparr>"

lemma manifests_field_skips_gate_witness:
  "handle_manifest ((smuggling_handler False)\<lparr>h_router := [verdict_policy False], h_pool := None\<rparr>)
     (put_request ''/v2/r/manifests/t'') sample_tenant (sample_staged, empty_fs)
   = handle_manifest (smuggling_handler True) (put_request ''/v2/r/manifests/t'') sample_tenant (sample_staged, empty_fs)
   \<and> map_option (\<lambda>x. reply_status (fst x)) (handle_manifest (smuggling_handler False)
        (put_request ''/v2/r/manifests/t'') sample_tenant (sample_staged, empty_fs)) = Some (Some 201)"
proof
  let ?rq = "put_request ''/v2/r/manifests/t''" and ?p = "(sample_staged, empty_fs)"
  have "\<not> isl (fst (read_manifest_push (smuggling_handler True) ?rq sample_tenant ?p))" by code_simp
  then obtain push p1 where rd: "read_manifest_push (smuggling_handler True) ?rq sample_tenant ?p = (Inr push, p1)"
    by (metis fst_conv isl_def prod.exhaust sum.exhaust_sel)
  then have "mp_manifest push = smuggled_manifest"
    by (auto simp: read_manifest_push_def classify_manifest_def smuggling_handler_def
        split: prod.splits if_splits option.splits sum.splits)
  then have "pm_manifests (mp_manifest push) \<noteq> []" by (simp add: smuggled_manifest_def)
  from manifests_field_skips_gate [OF rd this, where e = "[verdict_policy False]" and g = None]
  show "handle_manifest ((smuggling_handler False)\<lparr>h_router := [verdict_policy False], h_pool := None\<rparr>) ?rq sample_tenant ?p
    = handle_manifest (smuggling_handler True) ?rq sample_tenant ?p"
    by (simp add: smuggling_handler_def sample_handler_def)
  show "map_option (\<lambda>x. reply_status (fst x)) (handle_manifest (smuggling_handler False) ?rq sample_tenant ?p) = Some (Some 201)"
    by code_simp
qed

end
