(* ===== verification/Docker_Ownership.thy ===== *)
theory Docker_Ownership
  imports Docker_Push_Safety
begin

text \<open>
  Who owns what after a gated push: the staged bytes belong either to the promotion worker or to
  nobody, and a scan slot is always given back.
\<close>



section \<open>Scan slots\<close>

lemma observed_acquire:
  assumes "sl_acquire (observed_slots h s) b p = (e, p')"
  shows "\<exists>p1 d. sl_acquire s b p = (e, p1) \<and> p' = observe_queue_wait h d p1"
  using assms by (auto simp: observed_slots_def split: prod.splits)

lemma observed_release: "sl_release (observed_slots h s) = sl_release s"
  by (simp add: observed_slots_def)

lemma observed_slots_spec:
  assumes spec: "slot_spec s held cap who"
    and obs: "\<And>d p. held (observe_queue_wait h d p) = held p" "\<And>d p. cap (observe_queue_wait h d p) = cap p"
  shows "slot_spec (observed_slots h s) held cap who"
proof
  fix b p p' e
  show "sl_acquire (observed_slots h s) b p = (None, p') \<Longrightarrow> held p' = add_mset who (held p)"
    using observed_acquire slot_spec.acquired [OF spec] obs(1) by metis
  show "sl_acquire (observed_slots h s) b p = (None, p') \<Longrightarrow> size (held p) < cap p"
    using observed_acquire slot_spec.acquired_room [OF spec] by metis
  show "sl_acquire (observed_slots h s) b p = (Some e, p') \<Longrightarrow> held p' = held p"
    using observed_acquire slot_spec.refused [OF spec] obs(1) by metis
  show "held (sl_release (observed_slots h s) p) = held p - {#who#}"
    unfolding observed_release by (rule slot_spec.released [OF spec])
  show "cap (snd (sl_acquire (observed_slots h s) b p)) = cap p"
  proof -
    obtain x y where a: "sl_acquire (observed_slots h s) b p = (x, y)" by (rule prod.exhaust)
    then show ?thesis using observed_acquire [OF a] slot_spec.cap_acquire [OF spec, of b p] obs(2) by auto
  qed
  show "cap (sl_release (observed_slots h s) p) = cap p"
    unfolding observed_release by (rule slot_spec.cap_release [OF spec])
qed

text \<open>
  Whatever a gate run does, the scan pool is as full after it as before: a caller that was
  refused (saturated, or gone) took no slot, and one that was admitted gives its slot back
  after the scan, whether the scan passed, rejected or failed. This holds for every pool
  that keeps the slot contract and every engine and metrics sink that leaves the pool alone.
\<close>

theorem gate_run_returns_slot:
  assumes "slot_spec s held cap who" "h_pool h = Some (s, engine)"
    and "\<And>q. held (snd (router_gate engine req q)) = held q"
    and "\<And>d q. held (observe_queue_wait h d q) = held q" "\<And>d q. cap (observe_queue_wait h d q) = cap q"
  shows "held (snd (run_gate h req p)) = held p"
proof -
  have "held (snd (run_scan h engine req q)) = held q" for q
    using assms(3) [of q] by (auto simp: run_scan_def Let_def split: prod.splits)
  then have "held (snd (with_slot (observed_slots h s) (gate_budget h) slot_refused (run_scan h engine req) p)) = held p"
    by (rule slot_spec.with_slot_balanced [OF observed_slots_spec [OF assms(1,4,5)]])
  then show ?thesis by (simp add: run_gate_def assms(2))
qed

text \<open>A store whose every call fails, where none is made.\<close>

definition no_store :: "'w staging" where
  "no_store =
     (let e = ErrMsg ''no store'' in
      \<lparr>st_blobs = \<lparr>bs_put = (\<lambda>_ _ w. (Some e, w)), bs_get = (\<lambda>_ w. (Inl e, w)), bs_delete = (\<lambda>_ w. (Some e, w))\<rparr>,
       st_sessions = \<lparr>ss_begin = (\<lambda>_ w. (Some e, w)), ss_cas_offset = (\<lambda>_ _ _ w. (Inl e, w)),
         ss_mark_complete = (\<lambda>_ _ w. (Some e, w)), ss_all_complete = (\<lambda>_ w. (Inl e, w)),
         ss_clear = (\<lambda>_ w. (Some e, w)), ss_inc_ref = (\<lambda>_ w. (Inl e, w)), ss_dec_ref = (\<lambda>_ w. (Inl e, w))\<rparr>,
       st_idgen = (\<lambda>w. ([], w)), st_sha = (\<lambda>_. ''0'')\<rparr>)"

definition pool_handler :: "nat \<Rightarrow> pool handler" where
  "pool_handler who = \<lparr>h_resolver = (\<lambda>_. Inl ErrUnknownTenant), h_store = no_store, h_router = [],
     h_outcome = None, h_reports = None, h_max_upload_bytes = 0, h_upload_slots = None, h_upload_wait = 0,
     h_pool = Some (shared_slots (pool_slots (\<lambda>_ _. SlotReady) who), [verdict_policy True]), h_gate_timeout = 0,
     h_scratch_base_dir = [], h_reg_issuer = None, h_token_realm = [], h_service = [], h_token_handler = None,
     h_promoter = None, h_max_pending = 0, h_requests = None, h_index_wait = 0, h_index_poll = 0,
     h_runtime = \<lparr>rt_clock = (\<lambda>_. 0), rt_client_err = (\<lambda>_. None), rt_pause = (\<lambda>_ p. (False, p)),
       rt_rand = (\<lambda>_ p. (Inr [], p)), rt_rand_name = (\<lambda>p. ([], p)), rt_codecs = sample_codecs,
       rt_unmarshal = (\<lambda>_. Inr zero_manifest), rt_encode_report = (\<lambda>_. [])\<rparr>\<rparr>"

lemma gate_run_returns_slot_witness:
  "pl_held (fst (snd (run_gate (pool_handler 7) sample_request (new_pool 2, empty_fs)))) = {#}"
proof -
  have "pl_held (fst (snd (run_gate (pool_handler 7) sample_request (new_pool 2, empty_fs))))
      = pl_held (fst (new_pool 2, empty_fs))"
  proof (rule gate_run_returns_slot)
    show "slot_spec (shared_slots (pool_slots (\<lambda>_ _. SlotReady) 7)) (\<lambda>p. pl_held (fst p)) (\<lambda>p. pl_cap (fst p)) 7"
      by (rule pod_pool.slot_spec_axioms)
    show "h_pool (pool_handler 7) = Some (shared_slots (pool_slots (\<lambda>_ _. SlotReady) 7), [verdict_policy True])"
      by (simp add: pool_handler_def)
    show "pl_held (fst (snd (router_gate [verdict_policy True] sample_request q))) = pl_held (fst q)" for q :: "pool pod"
      by (simp add: router_gate_def engine_run_def verdict_policy_def split: prod.splits)
    show "pl_held (fst (observe_queue_wait (pool_handler 7) d q)) = pl_held (fst q)"
      "pl_cap (fst (observe_queue_wait (pool_handler 7) d q)) = pl_cap (fst q)" for d q
      by (simp_all add: observe_queue_wait_def observe_optional_def pool_handler_def)
  qed
  then show ?thesis by (simp add: new_pool_def)
qed

end
