(* ===== verification/Docker_Access.thy ===== *)
theory Docker_Access
  imports Docker_Push_Safety
begin

text \<open>
  Who may do what through the Docker ingress, and what its other answers mean: tokens and tenants,
  uploads, reports, the request counter and the validated configuration.
\<close>

section \<open>Tokens and tenants\<close>

lemma issuer_service_simps [simp]:
  "ts_verify (issuer_service lib i clk) tok p = (token_verify lib i (clk p) tok, p)"
  "ts_mint (issuer_service lib i clk) subject scope pfx p = (token_mint lib i (clk p) subject scope pfx, p)"
  by (simp_all add: issuer_service_def)

lemma authenticate_registry:
  assumes "h_reg_issuer h = Some (issuer_service lib i clk)"
  shows "authenticate h rq t p =
    (case token_verify lib i (clk p) (bearer_of rq) of
       Inr (subject, scope, pfx) \<Rightarrow> (if pfx = tn_prefix t then None else Some (challenge h rq), p)
     | Inl e \<Rightarrow> (Some (challenge h rq), p))"
  by (auto simp: authenticate_def assms split: sum.split prod.split)

lemma challenge_status [simp]: "rs_status (challenge h rq) = 401"
  by (simp add: challenge_def Let_def)

lemma not_found_status [simp]: "rs_status http_not_found = 404"
  by (simp add: http_not_found_def)

text \<open>A token that authenticates was signed for the tenant it is used on.\<close>

definition signed_for :: "jwt_lib \<Rightarrow> registry_issuer \<Rightarrow> gotime \<Rightarrow> string \<Rightarrow> string \<Rightarrow> bool" where
  "signed_for lib i now tok pfx \<longleftrightarrow>
     (\<exists>c. jw_sign lib c (ri_secret i) = Inr tok \<and> rc_prefix c = pfx \<and> rc_issuer c = ''merlin''
        \<and> ri_service i \<in> set (rc_audience c) \<and> now < rc_expires_at c)"

lemma authenticated_signed:
  assumes "jwt_sound lib" "h_reg_issuer h = Some (issuer_service lib i clk)" "authenticate h rq t p = (None, p1)"
  shows "signed_for lib i (clk p) (bearer_of rq) (tn_prefix t)"
proof -
  obtain subject scope pfx where v: "token_verify lib i (clk p) (bearer_of rq) = Inr (subject, scope, pfx)"
      "pfx = tn_prefix t"
    using assms(3) by (auto simp: authenticate_registry [OF assms(2)] split: sum.splits if_splits)
  show ?thesis unfolding signed_for_def using verify_signed [OF assms(1) v(1)] v(2) by blast
qed

text \<open>
  C10: With registry tokens in force, a request to \<open>/v2/\<close> or for a report changes the world only if it
  carries a token signed with Merlin's secret, for this service, not expired, and for the very tenant
  the request's host belongs to. Every other request is answered 401 or 404 and leaves the world,
  file system included, exactly as it was.
\<close>

theorem state_change_needs_tenant_token:
  assumes "jwt_sound lib" "h_reg_issuer h = Some (issuer_service lib i clk)"
    and "route h rq p = Some (r, p') \<or> (\<exists>resp. handle_report h rq p = (resp, p') \<and> r = Reply resp)"
  shows "p' = p \<and> (\<exists>resp. r = Reply resp \<and> rs_status resp \<in> {401, 404})
    \<or> (\<exists>t. h_resolver h (rq_host rq) = Inr t \<and> signed_for lib i (clk p) (bearer_of rq) (tn_prefix t))"
proof (cases "h_resolver h (rq_host rq)")
  case (Inl e)
  then show ?thesis using assms(3) by (auto simp: route_def handle_report_def)
next
  case (Inr t)
  obtain a p1 where a: "authenticate h rq t p = (a, p1)" by (rule prod.exhaust)
  show ?thesis
  proof (cases a)
    case None
    then show ?thesis using authenticated_signed [OF assms(1,2)] a Inr by blast
  next
    case (Some resp)
    then have "p1 = p" "rs_status resp = 401"
      using a by (auto simp: authenticate_registry [OF assms(2)] split: sum.splits if_splits)
    then show ?thesis using assms(3) Inr a Some by (auto simp: route_def handle_report_def)
  qed
qed

text \<open>A library that signs one set of claims under one key, for the examples.\<close>

definition one_claim :: registry_claims where
  "one_claim = \<lparr>rc_scope = [], rc_prefix = ''p'', rc_issuer = ''merlin'', rc_subject = ''u'',
     rc_audience = [''svc''], rc_issued_at = 0, rc_expires_at = 10\<rparr>"

definition one_token_lib :: jwt_lib where
  "one_token_lib =
     \<lparr>jw_sign = (\<lambda>c k. if c = one_claim \<and> k = ''k'' then Inr ''tok'' else Inl (ErrMsg ''sign'')),
      jw_parse = (\<lambda>tok k opts now. if tok = ''tok'' \<and> k = ''k'' \<and> ''HS256'' \<in> set (po_methods opts)
          \<and> po_issuer opts = ''merlin'' \<and> po_audience opts = ''svc'' \<and> now < 10 then Inr one_claim
          else Inl (ErrMsg ''parse'')),
      jw_parse_sub = (\<lambda>_ _ _. Inl (ErrMsg ''parse'')), jw_date = (\<lambda>t. t)\<rparr>"

definition one_issuer :: registry_issuer where
  "one_issuer = \<lparr>ri_secret = ''k'', ri_service = ''svc'', ri_ttl = 10\<rparr>"

lemma one_token_lib_laws: "jwt_sound one_token_lib" "jwt_complete one_token_lib"
  by (auto simp: jwt_sound_def jwt_complete_def one_token_lib_def one_claim_def)

definition token_handler_pod :: "mem_staging handler" where
  "token_handler_pod = (sample_handler True)\<lparr>h_reg_issuer := Some (issuer_service one_token_lib one_issuer (\<lambda>_. 0))\<rparr>"

definition get_request :: "string \<Rightarrow> string \<Rightarrow> http_request" where
  "get_request path auth = \<lparr>rq_method = ''GET'', rq_host = ''p.m'', rq_path = path, rq_query = (\<lambda>_. []),
     rq_header = (\<lambda>_. auth), rq_body = Inr [], rq_basic_auth = None\<rparr>"

lemma state_change_needs_tenant_token_witness:
  "\<exists>r p'. route token_handler_pod (get_request ''/v2/'' ''Bearer bad'') (sample_staged, empty_fs) = Some (r, p')
     \<and> p' = (sample_staged, empty_fs) \<and> reply_status r = Some 401"
proof -
  let ?rq = "get_request ''/v2/'' ''Bearer bad''" and ?p = "(sample_staged, empty_fs)"
  have iss: "h_reg_issuer token_handler_pod = Some (issuer_service one_token_lib one_issuer (\<lambda>_. 0))"
    by (simp add: token_handler_pod_def)
  have res: "h_resolver token_handler_pod (rq_host ?rq) = Inr sample_tenant"
    by (simp add: token_handler_pod_def sample_handler_def)
  have tok: "bearer_of ?rq = ''bad''" by code_simp
  have unsigned: "\<not> signed_for one_token_lib one_issuer 0 ''bad'' x" for x
    by (simp add: signed_for_def one_token_lib_def)
  have "map_option (\<lambda>x. reply_status (fst x)) (route token_handler_pod ?rq ?p) = Some (Some 401)" by code_simp
  then obtain x where x: "route token_handler_pod ?rq ?p = Some x" "reply_status (fst x) = Some 401"
    by (auto simp del: prod.case_eq_if)
  obtain r p' where rp: "x = (r, p')" by (rule prod.exhaust)
  have r: "route token_handler_pod ?rq ?p = Some (r, p')" "reply_status r = Some 401"
    using x unfolding rp by (simp_all only: fst_conv)
  have "p' = ?p"
    using state_change_needs_tenant_token [OF one_token_lib_laws(1) iss disjI1 [OF r(1)]] unsigned
    unfolding tok by blast
  then show ?thesis using r by blast
qed

text \<open>The credential check the token endpoint makes: an Entra token, or else a client secret.\<close>

definition proven_subject ::
  "'w token_handler \<Rightarrow> 'w tenant \<Rightarrow> http_request \<Rightarrow> 'w \<Rightarrow> string \<Rightarrow> 'w \<Rightarrow> bool" where
  "proven_subject th t rq w subject w' \<longleftrightarrow>
     (\<exists>user pass. rq_basic_auth rq = Some (user, pass) \<and> pass \<noteq> []
        \<and> (tn_authn t pass w = (Inr subject, w')
           \<or> (\<exists>e w1. tn_authn t pass w = (Inl e, w1) \<and> th_client_creds th user pass w1 = (Inr subject, w'))))"

lemma token_serve_granted:
  assumes "token_serve th rq w = (resp, w')" "rs_status resp = 200"
  obtains t subject w1 where "th_resolver th (rq_host rq) = Inr t" "proven_subject th t rq w subject w1"
    "token_issue th subject (rq_query rq ''scope'') (tn_prefix t) w1 = (resp, w')"
proof -
  obtain t where t: "th_resolver th (rq_host rq) = Inr t"
    using assms by (cases "th_resolver th (rq_host rq)") (auto simp: token_serve_def)
  obtain user pass where ba: "rq_basic_auth rq = Some (user, pass)" "pass \<noteq> []"
    using assms t
    by (cases "rq_basic_auth rq") (auto simp: token_serve_def unauthorized_token_def split: if_splits)
  obtain a w1 where a: "tn_authn t pass w = (a, w1)" by (rule prod.exhaust)
  show thesis
  proof (cases a)
    case (Inr subject)
    have "token_issue th subject (rq_query rq ''scope'') (tn_prefix t) w1 = (resp, w')"
      using assms(1) t ba a Inr by (simp add: token_serve_def)
    then show thesis using that t ba a Inr unfolding proven_subject_def by metis
  next
    case (Inl e)
    obtain b w2 where b: "th_client_creds th user pass w1 = (b, w2)" by (rule prod.exhaust)
    then obtain subject where s: "b = Inr subject"
      using assms t ba a Inl by (cases b) (auto simp: token_serve_def unauthorized_token_def)
    have "token_issue th subject (rq_query rq ''scope'') (tn_prefix t) w2 = (resp, w')"
      using assms(1) t ba a Inl b s by (simp add: token_serve_def)
    then show thesis using that t ba a Inl b s unfolding proven_subject_def by metis
  qed
qed

text \<open>
  C11: A token obtained from the token endpoint is bound to the tenant whose host issued it and to the
  subject whose credential that tenant, or else the client-credentials grant, accepted. Until it
  expires, one lifetime after it was issued, it authenticates exactly on tenants with that prefix, as
  that subject, and it is refused with 401 on every other tenant.
\<close>

theorem token_bound_to_tenant:
  assumes "jwt_complete lib" "th_issuer th = issuer_service lib i clk" "token_serve th rq0 p0 = (resp, p1)"
    and "rs_status resp = 200"
  shows "\<exists>t0 subject tok n. th_resolver th (rq_host rq0) = Inr t0 \<and> proven_subject th t0 rq0 p0 subject p1
    \<and> rs_body resp = th_encode th tok n
    \<and> (\<forall>h rq t p. h_reg_issuer h = Some (issuer_service lib i clk) \<longrightarrow> bearer_of rq = tok \<longrightarrow>
         clk p < jw_date lib (clk p1 + ri_ttl i) \<longrightarrow>
         authenticate h rq t p = (if tn_prefix t = tn_prefix t0 then None else Some (challenge h rq), p)
         \<and> validated_identity h rq t p = (Some subject, p))"
proof -
  obtain t0 subject q where t0: "th_resolver th (rq_host rq0) = Inr t0" "proven_subject th t0 rq0 p0 subject q"
      "token_issue th subject (rq_query rq0 ''scope'') (tn_prefix t0) q = (resp, p1)"
    by (rule token_serve_granted [OF assms(3,4)])
  obtain tok n where mint: "token_mint lib i (clk q) subject (rq_query rq0 ''scope'') (tn_prefix t0) = Inr (tok, n)"
      "rs_body resp = th_encode th tok n" "q = p1"
    using t0(3) assms(4) by (auto simp: token_issue_def assms(2) respond_def split: sum.splits)
  have v: "token_verify lib i now' tok = Inr (subject, rq_query rq0 ''scope'', tn_prefix t0)"
    if "now' < jw_date lib (clk p1 + ri_ttl i)" for now'
    using mint_verify [OF assms(1) mint(1)] that mint(3) by simp
  have "authenticate h rq t p = (if tn_prefix t = tn_prefix t0 then None else Some (challenge h rq), p)
      \<and> validated_identity h rq t p = (Some subject, p)"
    if "h_reg_issuer h = Some (issuer_service lib i clk)" "bearer_of rq = tok" "clk p < jw_date lib (clk p1 + ri_ttl i)"
    for h rq and t p
    using that(2) v [OF that(3)]
    by (auto simp: authenticate_registry [OF that(1)] validated_identity_def that(1))
  then show ?thesis using t0(1,2) mint(2,3) by blast
qed

definition sample_token_handler :: "mem_staging pod token_handler" where
  "sample_token_handler = \<lparr>th_resolver = (\<lambda>_. Inr sample_tenant), th_client_creds = (\<lambda>_ _ p. (Inl CtxCanceled, p)),
     th_issuer = issuer_service one_token_lib one_issuer (\<lambda>_. 0), th_encode = (\<lambda>tok n. tok)\<rparr>"

definition login_request :: http_request where
  "login_request = (get_request ''/token'' [])\<lparr>rq_basic_auth := Some (''u'', ''pw'')\<rparr>"

lemma token_bound_to_tenant_witness:
  "\<exists>tok n. rs_body (fst (token_serve sample_token_handler login_request (sample_staged, empty_fs)))
       = th_encode sample_token_handler tok n
     \<and> (\<forall>(h::mem_staging handler) rq t p. h_reg_issuer h = Some (issuer_service one_token_lib one_issuer (\<lambda>_. 0)) \<longrightarrow>
          bearer_of rq = tok \<longrightarrow>
          authenticate h rq t p = (if tn_prefix t = ''p'' then None else Some (challenge h rq), p))"
proof -
  let ?r = "token_serve sample_token_handler login_request (sample_staged, empty_fs)"
  have s: "?r = (fst ?r, snd ?r)" by (rule surjective_pairing)
  have st: "rs_status (fst ?r) = 200" by code_simp
  have iss: "th_issuer sample_token_handler = issuer_service one_token_lib one_issuer (\<lambda>_. 0)"
    by (simp add: sample_token_handler_def)
  obtain t0 subject tok n where
    t: "th_resolver sample_token_handler (rq_host login_request) = Inr t0"
      "rs_body (fst ?r) = th_encode sample_token_handler tok n"
      "\<forall>(h::mem_staging handler) rq t p. h_reg_issuer h = Some (issuer_service one_token_lib one_issuer (\<lambda>_. 0)) \<longrightarrow> bearer_of rq = tok \<longrightarrow>
         0 < jw_date one_token_lib (0 + ri_ttl one_issuer) \<longrightarrow>
         authenticate h rq t p = (if tn_prefix t = tn_prefix t0 then None else Some (challenge h rq), p)
         \<and> validated_identity h rq t p = (Some subject, p)"
    using token_bound_to_tenant [OF one_token_lib_laws(2) iss s st] by (elim exE conjE) (rule that)
  have "tn_prefix t0 = ''p''" using t(1) by (auto simp: sample_token_handler_def sample_tenant_def)
  moreover have "jw_date one_token_lib x = x" "ri_ttl one_issuer = 10" for x
    by (simp_all add: one_token_lib_def one_issuer_def)
  ultimately show ?thesis using t(2,3) by fastforce
qed

end
