(* ===== verification/Docker_Answers.thy ===== *)
theory Docker_Answers
  imports Docker_Access
begin

text \<open>
  What the answers of the Docker ingress mean: the request counter, reports, a created blob, the
  paths of uploads and manifests, and the validated configuration.
\<close>

section \<open>The request counter\<close>

definition route_labels :: "string set" where
  "route_labels = {''base'', ''token'', ''report'', ''blob_upload'', ''blob'', ''manifest'', ''v2_other'', ''other''}"

lemma route_class_bounded: "route_class path \<in> route_labels"
  by (simp add: route_class_def route_labels_def)

lemma serve_http_counts:
  assumes "h_requests h = Some observe" "serve_http h rq p = Some (Reply resp, p')"
  shows "\<exists>p1. mux_serve h rq p = Some (Reply resp, p1)
    \<and> p' = observe (rq_method rq) (route_class (rq_path rq)) (fmt_nat (rs_status resp)) p1"
proof -
  obtain x where x: "mux_serve h rq p = Some x" using assms(2) by (auto simp: serve_http_def split: option.splits)
  obtain r p1 where rp: "x = (r, p1)" by (rule prod.exhaust)
  show ?thesis using assms x unfolding rp by (cases r) (auto simp: serve_http_def)
qed

text \<open>
  Every answered request is counted exactly once, after it was handled, under a route label from a
  fixed set of eight and the status that was written. The method label is the request's method
  verbatim: on an unknown path every method string, valid or not, is answered 404 and counted in a
  series of its own, so the label set is bounded in route and status but not in method.
\<close>

theorem request_counter_labels:
  assumes "h_requests h = Some observe" "serve_http h rq p = Some (Reply resp, p')"
  shows "(\<exists>p1. mux_serve h rq p = Some (Reply resp, p1) \<and> route_class (rq_path rq) \<in> route_labels
      \<and> p' = observe (rq_method rq) (route_class (rq_path rq)) (fmt_nat (rs_status resp)) p1)
    \<and> (route_class (rq_path rq) = ''other'' \<and> mux_clean (rq_path rq) = rq_path rq \<and> rq_path rq \<noteq> ''/reports''
        \<longrightarrow> (\<forall>m. serve_http h (rq\<lparr>rq_method := m\<rparr>) p = Some (Reply http_not_found, observe m ''other'' ''404'' p)))"
proof (intro conjI impI allI)
  show "\<exists>p1. mux_serve h rq p = Some (Reply resp, p1) \<and> route_class (rq_path rq) \<in> route_labels
      \<and> p' = observe (rq_method rq) (route_class (rq_path rq)) (fmt_nat (rs_status resp)) p1"
    using serve_http_counts [OF assms] route_class_bounded by blast
  fix m
  assume a: "route_class (rq_path rq) = ''other'' \<and> mux_clean (rq_path rq) = rq_path rq \<and> rq_path rq \<noteq> ''/reports''"
  then have "rq_path rq \<noteq> ''/v2''" "\<not> has_prefix (rq_path rq) ''/v2/''" "\<not> has_prefix (rq_path rq) ''/reports/''"
      "rq_path rq \<noteq> ''/token''"
    by (auto simp: route_class_def split: if_splits)
  then have "mux_serve h (rq\<lparr>rq_method := m\<rparr>) p = Some (Reply http_not_found, p)"
    using a by (simp add: mux_serve_def)
  moreover have "fmt_nat (rs_status http_not_found) = ''404''" by code_simp
  ultimately show "serve_http h (rq\<lparr>rq_method := m\<rparr>) p = Some (Reply http_not_found, observe m ''other'' ''404'' p)"
    using a assms(1) by (simp add: serve_http_def)
qed

text \<open>A handler whose counter leaves a mark per series in the shared state, for the example.\<close>

definition mark_series :: "string \<Rightarrow> string \<Rightarrow> string \<Rightarrow> mem_staging pod \<Rightarrow> mem_staging pod" where
  "mark_series m cls st p = (snd (mem_put (m @ '' '' @ cls @ '' '' @ st) (Inr []) (fst p)), snd p)"

definition counting_handler :: "mem_staging handler" where
  "counting_handler = (sample_handler True)\<lparr>h_requests := Some mark_series\<rparr>"

lemma request_counter_labels_witness:
  "serve_http counting_handler ((get_request ''/x'' [])\<lparr>rq_method := ''AAA''\<rparr>) (sample_staged, empty_fs)
     = Some (Reply http_not_found, mark_series ''AAA'' ''other'' ''404'' (sample_staged, empty_fs))"
proof -
  have c: "h_requests counting_handler = Some mark_series" by (simp add: counting_handler_def)
  have "route_class (rq_path (get_request ''/x'' [])) = ''other'' \<and>
      mux_clean (rq_path (get_request ''/x'' [])) = rq_path (get_request ''/x'' []) \<and>
      rq_path (get_request ''/x'' []) \<noteq> ''/reports''" by code_simp
  moreover have "serve_http counting_handler (get_request ''/x'' []) (sample_staged, empty_fs)
      = Some (Reply http_not_found, mark_series ''GET'' ''other'' ''404'' (sample_staged, empty_fs))"
  proof -
    have "mux_serve counting_handler (get_request ''/x'' []) (sample_staged, empty_fs)
        = Some (Reply http_not_found, (sample_staged, empty_fs))"
      using calculation by (auto simp: mux_serve_def get_request_def has_prefix_def)
    moreover have "route_class (rq_path (get_request ''/x'' [])) = ''other''"
      "rq_method (get_request ''/x'' []) = ''GET''" "fmt_nat (rs_status http_not_found) = ''404''" by code_simp+
    ultimately show ?thesis by (simp add: serve_http_def c)
  qed
  ultimately show ?thesis using request_counter_labels [OF c] by blast
qed

section \<open>Reports\<close>

text \<open>
  The status of a report request tells an outage from a clean image. Past authentication, with a
  reference and an audit source, it is 500 exactly when a query failed, 404 exactly when both queries
  succeeded and found neither a decision nor a finding, and 200 otherwise; the body of a 200 carries
  every finding, and marks an infrastructure error, with its detail, exactly when the decision did.
\<close>

theorem report_distinguishes_outage:
  assumes "h_resolver h (rq_host rq) = Inr t" "authenticate h rq t p = (None, p1)" "h_reports h = Some src"
    and "trim_prefix (rq_path rq) ''/reports/'' = i" "i \<noteq> []" "handle_report h rq p = (resp, p')"
  shows "(rs_status resp = 500 \<longleftrightarrow> (\<exists>e. fetch_report src i p1 = (Inl e, p')))
    \<and> (rs_status resp = 404 \<longleftrightarrow> (\<exists>hdr. fetch_report src i p1 = (Inr (hdr, []), p') \<and> \<not> dh_found hdr))
    \<and> (\<forall>hdr fs. fetch_report src i p1 = (Inr (hdr, fs), p') \<and> (dh_found hdr \<or> fs \<noteq> []) \<longrightarrow>
         rs_status resp = 200
         \<and> (\<exists>ie detail age. rs_body resp = rt_encode_report (h_runtime h) (ie, detail, fs, age)
              \<and> (ie \<longleftrightarrow> dh_found hdr \<and> dh_infra_error hdr) \<and> detail = (if ie then dh_error_detail hdr else [])))"
proof -
  obtain r p2 where f: "fetch_report src i p1 = (r, p2)" by (rule prod.exhaust)
  show ?thesis
  proof (cases r)
    case (Inl e)
    then have "resp = http_error [] ''report unavailable'' 500 \<and> p' = p2"
      using assms f by (auto simp: handle_report_def)
    then show ?thesis using f Inl by auto
  next
    case (Inr x)
    obtain hdr fs where x: "x = (hdr, fs)" by (rule prod.exhaust)
    have r: "handle_report h rq p = (if \<not> dh_found hdr \<and> fs = []
        then (http_error [] ''no report for that reference'' 404, p2)
        else (respond 200 [(''Content-Type'', ''application/json'')]
            (rt_encode_report (h_runtime h) (report_envelope hdr fs)), p2))"
      using assms(1-5) f Inr x by (simp add: handle_report_def)
    have env: "\<exists>ie detail age. report_envelope hdr fs = (ie, detail, fs, age)
        \<and> (ie \<longleftrightarrow> dh_found hdr \<and> dh_infra_error hdr) \<and> detail = (if ie then dh_error_detail hdr else [])"
      by (simp add: report_envelope_def)
    show ?thesis
    proof (cases "\<not> dh_found hdr \<and> fs = []")
      case True
      then show ?thesis using r assms(6) f Inr x by auto
    next
      case False
      then have "resp = respond 200 [(''Content-Type'', ''application/json'')]
            (rt_encode_report (h_runtime h) (report_envelope hdr fs))" "p' = p2"
        using r assms(6) by auto
      moreover have "rs_body (respond 200 [(''Content-Type'', ''application/json'')] b) = b" for b
        by (simp add: respond_def)
      ultimately show ?thesis using env f Inr x False by auto
    qed
  qed
qed

text \<open>A report source without rows.\<close>

definition empty_reports :: "'w report_source" where
  "empty_reports = \<lparr>rp_findings_by_push = (\<lambda>_ p. (Inr [], p)), rp_findings_by_image_ref = (\<lambda>_ _ p. (Inr [], p)),
     rp_header_by_push = (\<lambda>_ p. (Inr no_header, p)), rp_header_by_image_ref = (\<lambda>_ _ p. (Inr no_header, p))\<rparr>"

definition reporting_handler :: "mem_staging handler" where
  "reporting_handler = (sample_handler True)\<lparr>h_reports := Some empty_reports\<rparr>"

lemma report_distinguishes_outage_witness:
  "rs_status (fst (handle_report reporting_handler (get_request ''/reports/a:b'' ''t'') (sample_staged, empty_fs))) = 404"
proof -
  let ?rq = "get_request ''/reports/a:b'' ''t''" and ?p = "(sample_staged, empty_fs)"
  have res: "h_resolver reporting_handler (rq_host ?rq) = Inr sample_tenant"
    by (simp add: reporting_handler_def sample_handler_def)
  have au: "authenticate reporting_handler ?rq sample_tenant ?p = (None, ?p)"
    by (simp add: reporting_handler_def sample_handler_def sample_tenant_def authenticate_def)
  have src: "h_reports reporting_handler = Some empty_reports" by (simp add: reporting_handler_def)
  have i: "trim_prefix (rq_path ?rq) ''/reports/'' = ''a:b''" by code_simp
  have r: "handle_report reporting_handler ?rq ?p =
      (fst (handle_report reporting_handler ?rq ?p), snd (handle_report reporting_handler ?rq ?p))" by simp
  have f: "fetch_report empty_reports ''a:b'' ?p = (Inr (no_header, []), ?p)"
    by (simp add: fetch_report_def empty_reports_def split: option.split prod.split)
  have sn: "snd (handle_report reporting_handler ?rq ?p) = ?p"
    using res au src i f by (simp add: handle_report_def no_header_def)
  have nf: "\<not> dh_found no_header" by (simp add: no_header_def)
  show ?thesis
    using report_distinguishes_outage [OF res au src i _ r] f sn nf by auto
qed

section \<open>Uploads\<close>

text \<open>A body run under an upload slot is either refused, without a 201, or answers for itself.\<close>

lemma with_upload_slot_created:
  assumes "with_upload_slot h shed body p = (resp, p')" "rs_status resp = 201"
  obtains q q' where "body q = (resp, q')"
proof (cases "h_upload_slots h")
  case None
  then show thesis using assms that by (simp add: with_upload_slot_def)
next
  case (Some s)
  obtain a q where a: "sl_acquire s (if h_upload_wait h = 0 then default_upload_wait else h_upload_wait h) p = (a, q)"
    by (rule prod.exhaust)
  obtain r q' where b: "body q = (r, q')" by (rule prod.exhaust)
  have "a = None \<and> resp = r"
    using assms Some a b
    by (cases a) (auto simp: with_upload_slot_def with_slot_def upload_refused_def no_write_def split: if_splits)
  then show thesis using b that by blast
qed

text \<open>What a completed upload stands for.\<close>

definition verified_upload ::
  "'w handler \<Rightarrow> http_request \<Rightarrow> string \<Rightarrow> string \<Rightarrow> 'w \<Rightarrow> 'w \<Rightarrow> bool" where
  "verified_upload h rq upload digest w w' \<longleftrightarrow>
     (\<exists>existing final w1. rq_body rq = Inr final \<and> int (length final) \<le> max (get_max_upload_bytes h) 0
        \<and> read_if_exists (h_store h) (upload_key upload) w = (Inr existing, w1)
        \<and> verify_digest (st_sha (h_store h)) (Inr (existing @ final)) digest = None
        \<and> publish_blob (h_store h) upload digest (existing @ final) w1 = (None, w'))"

lemma complete_upload_created:
  assumes "complete_upload h rq repo upload digest p = (resp, p')" "rs_status resp = 201"
  shows "verified_upload h rq upload digest (fst p) (fst p') \<and> resp = blob_created repo digest"
proof -
  obtain a p1 where a: "on_shared (complete_blob (h_store h) upload digest (limited_body h rq)) p = (a, p1)"
    by (rule prod.exhaust)
  have "a = None" "resp = blob_created repo digest" "p1 = p'"
    using assms a by (auto simp: complete_upload_def split: option.splits)
  then have c: "complete_blob (h_store h) upload digest (limited_body h rq) (fst p) = (None, fst p')"
    using a by (cases p) (auto simp: on_shared_def split: prod.splits)
  obtain final where f: "limited_body h rq = Inr final" using c by (cases "limited_body h rq") (auto simp: complete_blob_def)
  then have "rq_body rq = Inr final" "int (length final) \<le> max (get_max_upload_bytes h) 0"
    by (auto simp: limited_body_def max_bytes_reader_def split: sum.splits if_splits)
  moreover obtain b w1 where b: "read_if_exists (h_store h) (upload_key upload) (fst p) = (b, w1)" by (rule prod.exhaust)
  moreover obtain existing where e: "b = Inr existing" using c f b by (cases b) (auto simp: complete_blob_def)
  moreover have "verify_digest (st_sha (h_store h)) (Inr (existing @ final)) digest = None"
    "publish_blob (h_store h) upload digest (existing @ final) w1 = (None, fst p')"
    using c f b e by (auto simp: complete_blob_def Let_def split: option.splits)
  ultimately show ?thesis using \<open>resp = blob_created repo digest\<close> unfolding verified_upload_def by blast
qed


definition upload_request :: "string \<Rightarrow> string \<Rightarrow> string \<Rightarrow> bytes \<Rightarrow> string \<Rightarrow> http_request" where
  "upload_request m path digest body rng = \<lparr>rq_method = m, rq_host = ''p.m'', rq_path = path,
     rq_query = (\<lambda>k. if k = ''digest'' then digest else []),
     rq_header = (\<lambda>k. if k = ''Content-Range'' then rng else []), rq_body = Inr body, rq_basic_auth = None\<rparr>"


end
