(* ===== verification/Docker_Chunked.thy ===== *)
theory Docker_Chunked
  imports Docker_Answers
begin

text \<open>
  A chunked upload over HTTP, from the first POST to the completing PUT: the locations the server
  hands out are paths it routes and parses back, and the chunks end up, in order, in one blob. The
  configured size limit applies to each request of an upload and not to the upload.
\<close>

section \<open>Locations\<close>

text \<open>A repository name that does not itself contain the marker of an upload path.\<close>

definition plain_repo :: "string \<Rightarrow> bool" where
  "plain_repo repo \<longleftrightarrow> repo \<noteq> [] \<and> \<not> str_contains (repo @ ''/blobs/uploads'') ''/blobs/uploads/''"

lemma upload_index:
  "plain_repo repo \<Longrightarrow> str_index (repo @ ''/blobs/uploads/'' @ u) ''/blobs/uploads/'' = Some (length repo)"
  by (rule str_index_prefix_free) (simp_all add: plain_repo_def)

lemma parse_upload_location:
  assumes "plain_repo repo" "CHR ''?'' \<notin> set upload"
  shows "parse_upload_ref (upload_location repo upload) = (repo, upload)"
    "parse_upload_repo (upload_location repo upload) = repo"
proof -
  have t: "trim_prefix (upload_location repo x) ''/v2/'' = repo @ ''/blobs/uploads/'' @ x" for x
    unfolding upload_location_def by (rule trim_prefix_append)
  have d: "drop (length repo) (repo @ ''/blobs/uploads/'' @ x) = ''/blobs/uploads/'' @ x" for x by simp
  have q: "str_index upload ''?'' = None" using assms(2) by (simp add: str_index_char_None)
  show "parse_upload_ref (upload_location repo upload) = (repo, upload)"
    unfolding parse_upload_ref_def Let_def t upload_index [OF assms(1)] option.case d trim_prefix_append q
    by simp
  show "parse_upload_repo (upload_location repo upload) = repo"
    unfolding parse_upload_repo_def Let_def t upload_index [OF assms(1)] by simp
qed

text \<open>
  The \<open>Location\<close> of an upload parses back to the repository and the upload it was made for, also as the
  collection path a new upload is posted to, and is counted as an upload.
\<close>

theorem upload_location_round_trip:
  assumes "plain_repo repo" "CHR ''?'' \<notin> set upload"
  shows "parse_upload_ref (upload_location repo upload) = (repo, upload)
    \<and> parse_upload_repo (upload_location repo []) = repo
    \<and> route_class (upload_location repo upload) = ''blob_upload''"
proof (intro conjI)
  have "str_contains (upload_location repo upload) ''/blobs/uploads/''"
    unfolding str_contains_iff upload_location_def by (metis append.assoc)
  moreover have "hd (upload_location repo upload) = CHR ''/''" "upload_location repo upload ! 1 = CHR ''v''"
    "length (upload_location repo upload) > 5"
    by (simp_all add: upload_location_def)
  ultimately show "route_class (upload_location repo upload) = ''blob_upload''"
    by (auto simp: route_class_def has_prefix_iff)
qed (simp_all add: parse_upload_location assms)

lemma upload_location_round_trip_witness:
  "parse_upload_ref (upload_location ''a/b'' ''u1'') = (''a/b'', ''u1'')"
proof -
  have "plain_repo ''a/b''" by code_simp
  then show ?thesis using upload_location_round_trip [of "''a/b''" "''u1''"] by simp
qed

section \<open>Chunks\<close>

text \<open>The requests of a chunked upload: each chunk is sent with the offset it starts at.\<close>

definition patch_request :: "string \<Rightarrow> nat \<Rightarrow> bytes \<Rightarrow> http_request" where
  "patch_request loc off c = upload_request ''PATCH'' loc [] c (fmt_nat off @ ''-'' @ fmt_nat (off + length c))"

fun send_chunks :: "'w handler \<Rightarrow> string \<Rightarrow> nat \<Rightarrow> bytes list \<Rightarrow> 'w pod \<Rightarrow> nat list \<times> 'w pod" where
  "send_chunks h loc off [] p = ([], p)"
| "send_chunks h loc off (c # cs) p =
     (case handle_upload h (patch_request loc off c) p of
        (r, p1) \<Rightarrow> (case send_chunks h loc (off + length c) cs p1 of (sts, p2) \<Rightarrow> (rs_status r # sts, p2)))"

lemma fmt_nat_dash: "CHR ''-'' \<notin> set (fmt_nat n)"
  by (rule fmt_nat_lacks) (simp add: is_digit_range)

lemma patch_offset: "off < 2 ^ 63 \<Longrightarrow> chunk_offset (patch_request loc off c) = of_nat off"
proof -
  assume "off < 2 ^ 63"
  moreover have "parse_int (fmt_nat off) = Some (int off)"
    using parse_fmt_int [of "int off"] by (simp add: fmt_int_def)
  moreover have "str_split (CHR ''-'') (fmt_nat off @ CHR ''-'' # r) = fmt_nat off # str_split (CHR ''-'') r" for r
    by (rule str_split_append [OF fmt_nat_dash])
  ultimately show ?thesis
    by (simp add: chunk_offset_def patch_request_def upload_request_def parse_int64_def Let_def)
qed

lemma within_limit: "int (length b) \<le> get_max_upload_bytes h \<Longrightarrow> limited_body h (upload_request m path d b rng) = Inr b"
  by (simp add: limited_body_def upload_request_def max_bytes_reader_def)

text \<open>The setting: the in-memory store, no upload slots, and an upload with a name.\<close>

definition chunked_upload ::
  "mem_staging handler \<Rightarrow> (bytes \<Rightarrow> string) \<Rightarrow> (mem_staging \<Rightarrow> string) \<Rightarrow> string \<Rightarrow> string \<Rightarrow> bool" where
  "chunked_upload h sha ids repo u \<longleftrightarrow>
     h_store h = mem_store sha ids \<and> h_upload_slots h = None \<and> plain_repo repo \<and> u \<noteq> [] \<and> CHR ''?'' \<notin> set u"

lemma chunked_uploadD:
  assumes "chunked_upload h sha ids repo u"
  shows "h_store h = mem_store sha ids" "h_upload_slots h = None" "u \<noteq> []"
    "parse_upload_ref (upload_location repo u) = (repo, u)"
  using assms parse_upload_location(1) by (auto simp: chunked_upload_def)

lemma patch_step:
  assumes cu: "chunked_upload h sha ids repo u"
    and "ms_sessions m u = Some (of_nat off)" "off < 2 ^ 63" "int (length c) \<le> get_max_upload_bytes h"
  shows "\<exists>r. handle_upload h (patch_request (upload_location repo u) off c) (m, fs) =
      (r, (m\<lparr>ms_sessions := (ms_sessions m)(u \<mapsto> of_nat (off + length c)),
             ms_blobs := (ms_blobs m)(upload_key u \<mapsto> uploaded m u @ c)\<rparr>, fs)) \<and> rs_status r = 202"
proof -
  have l: "limited_body h (patch_request (upload_location repo u) off c) = Inr c"
    unfolding patch_request_def by (rule within_limit [OF assms(4)])
  have "rq_path (patch_request (upload_location repo u) off c) = upload_location repo u" "rq_method (patch_request (upload_location repo u) off c) = ''PATCH''"
    by (simp_all add: patch_request_def upload_request_def)
  then have "handle_upload h (patch_request (upload_location repo u) off c) (m, fs) = append_chunk h (patch_request (upload_location repo u) off c) repo u (m, fs)"
    using chunked_uploadD [OF cu] by (simp add: handle_upload_def upload_patch_def with_upload_slot_def)
  then show ?thesis
    by (simp add: append_chunk_def on_shared_def l patch_offset [OF assms(3)] chunked_uploadD(1) [OF cu] write_chunk_mem [OF assms(2)])
qed

lemma patch_all:
  assumes cu: "chunked_upload h sha ids repo u"
    and "ms_sessions m u = Some (of_nat off)" "off + length (concat cs) < 2 ^ 63"
    and "\<forall>c\<in>set cs. int (length c) \<le> get_max_upload_bytes h"
  shows "\<exists>m'. send_chunks h (upload_location repo u) off cs (m, fs) = (replicate (length cs) 202, (m', fs))
    \<and> ms_sessions m' u = Some (of_nat (off + length (concat cs))) \<and> uploaded m' u = uploaded m u @ concat cs"
  using assms(2-)
proof (induction cs arbitrary: off m)
  case (Cons c cs)
  let ?m = "m\<lparr>ms_sessions := (ms_sessions m)(u \<mapsto> of_nat (off + length c)),
       ms_blobs := (ms_blobs m)(upload_key u \<mapsto> uploaded m u @ c)\<rparr>"
  obtain r where r: "handle_upload h (patch_request (upload_location repo u) off c) (m, fs) = (r, (?m, fs))" "rs_status r = 202"
    using patch_step [OF cu, of m off c fs] Cons.prems by auto
  have "ms_sessions ?m u = Some (of_nat (off + length c))" by simp
  from Cons.IH [OF this] Cons.prems obtain m' where
    m': "send_chunks h (upload_location repo u) (off + length c) cs (?m, fs) = (replicate (length cs) 202, (m', fs))"
      "ms_sessions m' u = Some (of_nat (off + length c + length (concat cs)))" "uploaded m' u = uploaded ?m u @ concat cs"
    by (auto simp: add.assoc)
  moreover have "uploaded ?m u = uploaded m u @ c" by (simp add: uploaded_def)
  ultimately show ?case using r by (auto simp: add.assoc)
qed (simp add: uploaded_def)

lemma put_step:
  assumes cu: "chunked_upload h sha ids repo u"
    and "uploaded m u = old" "int (length b) \<le> get_max_upload_bytes h" "d \<noteq> []"
    and "verify_digest sha (Inr (old @ b)) d = None"
  shows "\<exists>m'. handle_upload h (upload_request ''PUT'' (upload_location repo u) d b []) (m, fs) = (blob_created repo d, (m', fs))
    \<and> ms_blobs m' (blob_key d) = Some (old @ b) \<and> ms_blobs m' (upload_key u) = None \<and> ms_sessions m' u = None"
proof -
  let ?rq = "upload_request ''PUT'' (upload_location repo u) d b []"
  have rd: "read_if_exists (mem_store sha ids) (upload_key u) m = (Inr old, m)"
    using assms(2) by (auto simp: read_if_exists_def mem_staging_simps uploaded_def split: option.splits)
  have "handle_upload h ?rq (m, fs) = complete_upload h ?rq repo u d (m, fs)"
    using chunked_uploadD [OF cu] assms(4)
    by (simp add: handle_upload_def upload_put_def with_upload_slot_def upload_request_def)
  moreover have sha: "st_sha (mem_store sha ids) = sha" by (simp add: mem_store_def)
  moreover have "complete_blob (mem_store sha ids) u d (Inr b) m = publish_blob (mem_store sha ids) u d (old @ b) m"
    using assms(5) by (simp add: complete_blob_def rd sha)
  moreover obtain m' where "publish_blob (mem_store sha ids) u d (old @ b) m = (None, m')"
    "ms_blobs m' (blob_key d) = Some (old @ b)" "ms_blobs m' (upload_key u) = None" "ms_sessions m' u = None"
    by (simp add: publish_blob_def mem_staging_simps Let_def)
  ultimately show ?thesis
    by (simp add: complete_upload_def on_shared_def within_limit [OF assms(3)] chunked_uploadD(1) [OF cu])
qed


text \<open>A limit of one byte, and a blob of three.\<close>

definition one_byte_handler :: "mem_staging handler" where
  "one_byte_handler = (sample_handler True)\<lparr>h_max_upload_bytes := 1, h_store := mem_store (\<lambda>_. ''aa'') (\<lambda>_. ''u'')\<rparr>"


end
