(* ===== verification/Scan_Cache.thy ===== *)
theory Scan_Cache
  imports Grype_Policy Staging_Backends Go_Http
begin

text \<open>
  \<open>internal/scancache\<close>: the Valkey store behind the report cache of the scan policy, and what the
  policy and the store do together. The policy sees a store through \<open>report_store\<close>; the contract
  it relies on is the locale \<open>scan_store\<close>, of which the Valkey store is an instance for every
  server that keeps the laws of \<open>valkey_ttl\<close>.
\<close>

section \<open>The store\<close>

definition default_op_timeout :: duration where
  "default_op_timeout = 2 * second"

record 'k valkey_store =
  sv_cmds :: "'k valkey_cmds"
  sv_op_timeout :: duration

definition new_valkey_store :: "'k valkey_cmds \<Rightarrow> duration \<Rightarrow> 'k valkey_store" where
  "new_valkey_store cmds op_timeout =
     \<lparr>sv_cmds = cmds, sv_op_timeout = (if op_timeout \<le> 0 then default_op_timeout else op_timeout)\<rparr>"

definition classify_get :: "string res \<Rightarrow> string \<Rightarrow> string option res" where
  "classify_get r key =
     (case r of
        Inl e \<Rightarrow> (if errors_is e RedisNil then Inr None
                  else Inl (ErrWrap (''scan cache: get '' @ key @ '': '') e []))
      | Inr val \<Rightarrow> Inr (Some val))"

definition get_command :: "'k valkey_store \<Rightarrow> string \<Rightarrow> 'k \<Rightarrow> string res \<times> 'k" where
  "get_command s key db = (nil_reply (vc_get (sv_cmds s) key db), db)"

definition valkey_get :: "'k valkey_store \<Rightarrow> string \<Rightarrow> 'k conn \<Rightarrow> string option res \<times> 'k conn" where
  "valkey_get s key w = (case vk_call (get_command s key) w of (r, w') \<Rightarrow> (classify_get r key, w'))"

definition valkey_set :: "'k valkey_store \<Rightarrow> string \<Rightarrow> string \<Rightarrow> duration \<Rightarrow> 'k conn \<Rightarrow> goerr option \<times> 'k conn" where
  "valkey_set s key val ttl w =
     (if ttl \<le> 0
      then (Some (ErrMsg (''scan cache: refusing to store '' @ key @ '' without an expiry (ttl '' @ fmt_duration ttl @ '')'')), w)
      else case call_err (vk_do (vc_set (sv_cmds s) key val ttl)) w of
        (Some e, w') \<Rightarrow> (Some (ErrWrap (''scan cache: set '' @ key @ '': '') e []), w')
      | (None, w') \<Rightarrow> (None, w'))"

definition valkey_report_store :: "'k valkey_store \<Rightarrow> 'k conn report_store" where
  "valkey_report_store s = \<lparr>rs_get = valkey_get s, rs_set = valkey_set s\<rparr>"

section \<open>What the policy relies on\<close>

locale scan_store =
  fixes store :: "'w report_store"
    and holds :: "'w \<Rightarrow> string \<Rightarrow> string option"
    and expires :: "'w \<Rightarrow> string \<Rightarrow> bool"
    and calm :: "'w \<Rightarrow> bool"
  assumes get_keeps: "rs_get store k w = (r, w') \<Longrightarrow> holds w' = holds w \<and> expires w' = expires w"
    and get_answer: "rs_get store k w = (Inr x, w') \<Longrightarrow> x = holds w k"
    and get_calm: "calm w \<Longrightarrow> rs_get store k w = (Inr (holds w k), w)"
    and set_either: "rs_set store k v ttl w = (e, w') \<Longrightarrow> holds w' = holds w \<or> holds w' = (holds w)(k \<mapsto> v)"
    and set_expires: "rs_set store k v ttl w = (e, w') \<Longrightarrow> expires w k' \<Longrightarrow> expires w' k'"
    and set_calm: "calm w \<Longrightarrow> 0 < ttl \<Longrightarrow> rs_set store k v ttl w = (e, w') \<Longrightarrow>
      e = None \<and> holds w' = (holds w)(k \<mapsto> v) \<and> calm w'"
    and set_refused: "ttl \<le> 0 \<Longrightarrow> snd (rs_set store k v ttl w) = w"
begin

text \<open>What is reused was in the store under this digest; what is not reused is scanned.\<close>

lemma lookup_held:
  assumes "g_cache p = Some store" "lookup_report p d w = (Some rep, w')"
  obtains raw entry where "holds w (report_cache_key d) = Some raw" "g_decode p raw = Inr entry"
    "rep = cr_report entry" "cr_version entry = report_cache_version" "report_is_fresh p rep w'"
proof -
  obtain raw entry where r: "rs_get store (report_cache_key d) w = (Inr (Some raw), w')"
      "g_decode p raw = Inr entry" "cr_version entry = report_cache_version" "rep = cr_report entry"
      "report_is_fresh p rep w'"
    using lookup_report_Some [OF assms(2)] assms(1) by (metis option.inject)
  show thesis using that [of raw entry] get_answer [OF r(1)] r by simp
qed

lemma lookup_keeps:
  assumes "g_cache p = Some store" "lookup_report p d w = (r, w')"
  shows "holds w' = holds w \<and> expires w' = expires w"
proof (cases "d = []")
  case True
  then show ?thesis using assms by (simp add: lookup_report_def)
next
  case False
  obtain x w1 where x: "rs_get store (report_cache_key d) w = (x, w1)" by (rule prod.exhaust)
  have "w' = w1" using assms False x
    by (auto simp: lookup_report_def split: sum.splits option.splits if_splits)
  then show ?thesis using get_keeps [OF x] by simp
qed

lemma store_report_shape:
  assumes "g_cache p = Some store"
  shows "store_report p d rep w = w \<or>
    (\<exists>raw ttl. store_report p d rep w = snd (rs_set store (report_cache_key d) raw ttl w))"
  using assms by (auto simp: store_report_def Let_def split: sum.split)

lemma store_expires:
  assumes "g_cache p = Some store" "expires w k"
  shows "expires (store_report p d rep w) k"
  using store_report_shape [OF assms(1), of d rep w] set_expires [OF _ assms(2)] assms(2)
  by (metis surjective_pairing)

lemma store_other:
  assumes "g_cache p = Some store" "k \<noteq> report_cache_key d"
  shows "holds (store_report p d rep w) k = holds w k"
  using store_report_shape [OF assms(1), of d rep w] set_either assms(2)
  by (metis fun_upd_other surjective_pairing)

lemma stored_is_found:
  assumes p: "g_cache p = Some store" "d \<noteq> []" "\<not> is_zero_time (rep_db_built rep)" "0 < entry_ttl p rep w"
    and raw: "g_encode p \<lparr>cr_version = report_cache_version, cr_report = rep, cr_stored_at = g_clock p w\<rparr> = Inr raw"
      "length raw \<le> max_cached_report_bytes"
      "g_decode p raw = Inr \<lparr>cr_version = report_cache_version, cr_report = rep, cr_stored_at = g_clock p w\<rparr>"
    and "calm w" "report_is_fresh p rep (store_report p d rep w)"
  shows "lookup_report p d (store_report p d rep w) = (Some rep, store_report p d rep w)"
proof -
  obtain e w1 where s: "rs_set store (report_cache_key d) raw (entry_ttl p rep w) w = (e, w1)" by (rule prod.exhaust)
  have "store_report p d rep w = w1" using p raw(1,2) s by (simp add: store_report_def)
  moreover have "rs_get store (report_cache_key d) w1 = (Inr (Some raw), w1)"
    using set_calm [OF assms(8) p(4) s] get_calm by simp
  ultimately show ?thesis using p raw(3) assms(9) by (simp add: lookup_report_def)
qed

end

section \<open>The Valkey store keeps the contract\<close>

lemma valkey_store_simps [simp]:
  "rs_get (valkey_report_store s) = valkey_get s" "rs_set (valkey_report_store s) = valkey_set s"
  "sv_cmds (new_valkey_store cmds tmo) = cmds"
  by (simp_all add: valkey_report_store_def new_valkey_store_def)

lemma get_command_run:
  "get_command (new_valkey_store std_cmds tmo) k db = (nil_reply (ks_live db k), db)"
  by (simp add: get_command_def ks_s.get)

lemma valkey_get_cases:
  assumes "valkey_get (new_valkey_store std_cmds tmo) k w = (r, w')"
  shows "cn_db w' = cn_db w \<and> (\<forall>x. r = Inr x \<longrightarrow> x = ks_live (cn_db w) k)"
proof -
  obtain x where x: "vk_call (get_command (new_valkey_store std_cmds tmo) k) w = (x, w')" "r = classify_get x k"
    using assms by (auto simp: valkey_get_def split: prod.splits)
  from x(1) show ?thesis
    by (cases rule: vk_call_cases)
      (auto simp: get_command_run x(2) classify_get_def errors_is_def nil_reply_def split: option.splits)
qed

lemma valkey_set_cases:
  assumes "valkey_set (new_valkey_store std_cmds tmo) k v ttl w = (e, w')"
  shows "cn_db w' = cn_db w \<or> 0 < ttl \<and> cn_db w' = vc_set std_cmds k v ttl (cn_db w)"
proof (cases "ttl \<le> 0")
  case True
  then show ?thesis using assms by (simp add: valkey_set_def)
next
  case False
  obtain x where x: "vk_call (vk_do (vc_set std_cmds k v ttl)) w = (x, w')"
    using assms False by (auto simp: valkey_set_def call_err_def split: prod.splits sum.splits option.splits)
  then show ?thesis
    by (cases rule: vk_call_cases) (use False in \<open>auto simp: vk_do_def\<close>)
qed

interpretation vk_scan: scan_store "valkey_report_store (new_valkey_store std_cmds tmo)" "\<lambda>w. ks_live (cn_db w)"
  "\<lambda>w. ks_mortal (cn_db w)" "\<lambda>w. cn_faults w = []" for tmo
proof (unfold_locales, goal_cases)
  case (1 k w r w')
  then show ?case using valkey_get_cases [of tmo k w r w'] by simp
next
  case (2 k w x w')
  then show ?case using valkey_get_cases [of tmo k w "Inr x" w'] by simp
next
  case (3 w k)
  then have "vk_call (get_command (new_valkey_store std_cmds tmo) k) w = (nil_reply (ks_live (cn_db w) k), w)"
    by (simp add: vk_call_calm [OF _ get_command_run])
  then show ?case by (simp add: valkey_get_def classify_get_def nil_reply_def split: option.split)
next
  case (4 k v ttl w e w')
  then show ?case using valkey_set_cases [of tmo k v ttl w e w'] ks_s.set_ttl by auto
next
  case (5 k v ttl w e w' k')
  then show ?case using valkey_set_cases [of tmo k v ttl w e w'] ks_t.mortal_set by auto
next
  case (6 w ttl k v e w')
  then show ?case
    using ks_s.set_ttl by (auto simp: valkey_set_def call_err_def vk_call_calm vk_do_def)
next
  case (7 ttl k v w)
  then show ?case by (simp add: valkey_set_def)
qed

text \<open>A policy over one report, for the examples.\<close>

definition one_report :: report where
  "one_report = \<lparr>rep_db_version = ''v6'', rep_db_built = 9, rep_findings = []\<rparr>"

definition one_entry :: cached_report where
  "one_entry = \<lparr>cr_version = report_cache_version, cr_report = one_report, cr_stored_at = 10\<rparr>"

definition caching_policy :: "keyspace conn grype_policy" where
  "caching_policy = \<lparr>
     g_scan = (\<lambda>_ w. (Inl CtxCanceled, w)), g_threshold = ''HIGH'', g_observe = False, g_db_age = None,
     g_clock = (\<lambda>_. 10), g_cache = Some (valkey_report_store (new_valkey_store std_cmds 0)),
     g_cache_max_db_age = 5, g_cache_observer = None, g_encode = (\<lambda>_. Inr ''x''),
     g_decode = (\<lambda>_. Inr one_entry), g_round = (\<lambda>x. x)\<rparr>"

definition calm_conn :: "fault list \<Rightarrow> keyspace conn" where
  "calm_conn fs = \<lparr>cn_db = empty_keyspace, cn_now = 10, cn_faults = fs\<rparr>"

section \<open>Properties\<close>

text \<open>
  C24: The shared report cache can never fail or fake a scan. Whatever the connection to Valkey does, the
  report the policy judges is either what the scanner just answered, error or report, or a report
  that the keyspace held under this image's digest, that decodes at the current version, and whose
  vulnerability database was within the age limit when it was read.
\<close>

theorem cache_never_fails_scan:
  assumes "g_cache p = Some (valkey_report_store (new_valkey_store std_cmds tmo))"
    and "scan_or_reuse p img w = (r, w')"
  shows "(\<exists>q q'. g_scan p (si_oci_path img) q = (r, q'))
    \<or> (\<exists>rep raw entry q. r = Inr rep \<and> ks_live (cn_db w) (report_cache_key (si_digest img)) = Some raw
         \<and> g_decode p raw = Inr entry \<and> rep = cr_report entry \<and> cr_version entry = report_cache_version
         \<and> report_is_fresh p rep q)"
proof -
  obtain l w1 where l: "lookup_report p (si_digest img) w = (l, w1)" by (rule prod.exhaust)
  show ?thesis
  proof (cases l)
    case None
    obtain x q where "g_scan p (si_oci_path img) (observe_cache p False w1) = (x, q)" by (rule prod.exhaust)
    moreover from this have "x = r" using assms(2) l None by (cases x) (auto simp: scan_or_reuse_def)
    ultimately show ?thesis by blast
  next
    case (Some rep)
    then have "r = Inr rep" using assms(2) l by (simp add: scan_or_reuse_def)
    then show ?thesis using vk_scan.lookup_held [OF assms(1) l [unfolded Some]] by metis
  qed
qed

lemma cache_never_fails_scan_witness:
  "\<exists>q. g_scan caching_policy ''/o'' q = (Inl CtxCanceled, q)
     \<and> fst (scan_or_reuse caching_policy sample_image (calm_conn [FailBefore True []])) = Inl CtxCanceled"
proof -
  have c: "g_cache caching_policy = Some (valkey_report_store (new_valkey_store std_cmds 0))"
    by (simp add: caching_policy_def)
  have s: "fst (scan_or_reuse caching_policy sample_image (calm_conn [FailBefore True []])) = Inl CtxCanceled"
    by code_simp
  then obtain w' where w': "scan_or_reuse caching_policy sample_image (calm_conn [FailBefore True []]) = (Inl CtxCanceled, w')"
    by (metis prod.collapse)
  show ?thesis
    using cache_never_fails_scan [OF c w'] s by (auto simp: caching_policy_def sample_image_def)
qed

text \<open>
  C25: A stored report is found again, and nothing in the cache is immortal. On a working connection, a report
  that is fresh, has an identified database, and encodes within the size limit is what the next
  lookup of the same digest returns; lookups of other digests are not affected, and every key of
  the keyspace that would expire before the store still does, also when the connection fails.
\<close>

theorem cached_report_round_trip:
  assumes "g_cache p = Some (valkey_report_store (new_valkey_store std_cmds tmo))"
    and "d \<noteq> []" "\<not> is_zero_time (rep_db_built rep)" "0 < entry_ttl p rep w"
    and "report_is_fresh p rep (store_report p d rep w)"
    and "entry = \<lparr>cr_version = report_cache_version, cr_report = rep, cr_stored_at = g_clock p w\<rparr>"
    and "g_encode p entry = Inr raw" "length raw \<le> max_cached_report_bytes" "g_decode p raw = Inr entry"
  shows "(cn_faults w = [] \<longrightarrow> lookup_report p d (store_report p d rep w) = (Some rep, store_report p d rep w))
    \<and> (\<forall>d'. d' \<noteq> d \<longrightarrow> ks_live (cn_db (store_report p d rep w)) (report_cache_key d')
          = ks_live (cn_db w) (report_cache_key d'))
    \<and> (\<forall>k. ks_mortal (cn_db w) k \<longrightarrow> ks_mortal (cn_db (store_report p d rep w)) k)"
proof (intro conjI allI impI)
  assume "cn_faults w = []"
  then show "lookup_report p d (store_report p d rep w) = (Some rep, store_report p d rep w)"
    using assms(7,9) unfolding assms(6) by (intro vk_scan.stored_is_found [OF assms(1-4)]) (use assms in auto)
next
  fix d' assume "d' \<noteq> d"
  then show "ks_live (cn_db (store_report p d rep w)) (report_cache_key d') = ks_live (cn_db w) (report_cache_key d')"
    by (intro vk_scan.store_other [OF assms(1)]) simp
next
  fix k assume "ks_mortal (cn_db w) k"
  then show "ks_mortal (cn_db (store_report p d rep w)) k" by (rule vk_scan.store_expires [OF assms(1)])
qed

lemma cached_report_round_trip_witness:
  "fst (lookup_report caching_policy ''sha256:aa'' (store_report caching_policy ''sha256:aa'' one_report (calm_conn [])))
     = Some one_report"
proof -
  have c: "g_cache caching_policy = Some (valkey_report_store (new_valkey_store std_cmds 0))"
    by (simp add: caching_policy_def)
  have t: "0 < entry_ttl caching_policy one_report (calm_conn [])"
    "report_is_fresh caching_policy one_report w" "\<not> is_zero_time (rep_db_built one_report)" for w
    by (simp_all add: caching_policy_def one_report_def entry_ttl_def report_is_fresh_def time_sub_def
        max_duration_def min_duration_def is_zero_time_def)
  have e: "one_entry = \<lparr>cr_version = report_cache_version, cr_report = one_report,
      cr_stored_at = g_clock caching_policy (calm_conn [])\<rparr>"
    by (simp add: one_entry_def caching_policy_def)
  have k: "g_encode caching_policy one_entry = Inr ''x''" "g_decode caching_policy ''x'' = Inr one_entry"
    "length ''x'' \<le> max_cached_report_bytes" "cn_faults (calm_conn []) = []"
    by (simp_all add: caching_policy_def max_cached_report_bytes_def calm_conn_def)
  show ?thesis
    using cached_report_round_trip [OF c _ t(3) t(1) t(2) e k(1) k(3) k(2), of "''sha256:aa''"] k(4) by simp
qed

end
