(* ===== verification/Audit_Buffer.thy ===== *)
theory Audit_Buffer
  imports Audit_Decision "HOL-Library.Multiset"
begin

text \<open>
  \<open>internal/audit/buffer.go\<close>: the asynchronous auditor. Requests enqueue rows without ever blocking,
  one worker writes them with retries, and what cannot be queued or written is reported to
  \<open>onDrop\<close>. Senders and the worker are interleaved operations on the queue; any list of operations
  is a schedule.
\<close>

section \<open>Writers and jobs\<close>

record 'w writer =
  wr_decision :: "decision \<Rightarrow> 'w \<Rightarrow> goerr option \<times> 'w"
  wr_findings :: "decision \<Rightarrow> finding list \<Rightarrow> 'w \<Rightarrow> goerr option \<times> 'w"
  wr_alias :: "(tag_alias \<Rightarrow> 'w \<Rightarrow> goerr option \<times> 'w) option"

record audit_job =
  aj_decision :: decision
  aj_findings :: "finding list"
  aj_alias :: "tag_alias option"
  aj_flush :: "nat option"

text \<open>The auditor with its collaborators, and the state its goroutines share.\<close>

record 'w auditor =
  au_writer :: "'w writer"
  au_queue_size :: nat
  au_on_drop :: "decision \<Rightarrow> goerr \<Rightarrow> 'w \<Rightarrow> 'w"
  au_sleep :: "duration \<Rightarrow> 'w \<Rightarrow> 'w"

record audit_state =
  as_queue :: "audit_job list"
  as_flushed :: "nat list"

definition new_audit_state :: audit_state where
  "new_audit_state = \<lparr>as_queue = [], as_flushed = []\<rparr>"

definition write_attempts :: nat where
  "write_attempts = 3"

definition retry_backoff :: duration where
  "retry_backoff = 500 * 1000000"

section \<open>Retries\<close>

text \<open>The loop of \<open>withRetry\<close> from attempt \<open>attempt\<close> on, with \<open>err\<close> the error of the last one.\<close>

function retry_loop ::
  "'w auditor \<Rightarrow> ('w \<Rightarrow> goerr option \<times> 'w) \<Rightarrow> nat \<Rightarrow> goerr option \<Rightarrow> 'w \<Rightarrow> goerr option \<times> 'w" where
  "retry_loop a fn attempt err w =
     (if attempt \<le> write_attempts
      then (case fn w of
              (None, w1) \<Rightarrow> (None, w1)
            | (Some e, w1) \<Rightarrow>
                retry_loop a fn (attempt + 1) (Some e)
                  (if attempt < write_attempts then au_sleep a (retry_backoff * int attempt) w1 else w1))
      else (err, w))"
  by pat_completeness auto
termination
  by (relation "measure (\<lambda>(a, fn, attempt, err, w). write_attempts + 1 - attempt)") auto

declare retry_loop.simps [simp del]

definition with_retry :: "'w auditor \<Rightarrow> ('w \<Rightarrow> goerr option \<times> 'w) \<Rightarrow> 'w \<Rightarrow> goerr option \<times> 'w" where
  "with_retry a fn w = retry_loop a fn 1 None w"

section \<open>The worker\<close>

definition write_row :: "'w auditor \<Rightarrow> decision \<Rightarrow> finding list \<Rightarrow> 'w \<Rightarrow> 'w" where
  "write_row a d fs w =
     (case with_retry a (wr_decision (au_writer a) d) w of
        (Some e, w1) \<Rightarrow> au_on_drop a d e w1
      | (None, w1) \<Rightarrow>
          (if fs = [] then w1
           else case with_retry a (wr_findings (au_writer a) d fs) w1 of
             (Some e, w2) \<Rightarrow> au_on_drop a d e w2
           | (None, w2) \<Rightarrow> w2))"

definition audit_process :: "'w auditor \<Rightarrow> audit_job \<Rightarrow> audit_state \<times> 'w \<Rightarrow> audit_state \<times> 'w" where
  "audit_process a j s =
     (case s of (q, w) \<Rightarrow>
        (case aj_flush j of
           Some m \<Rightarrow> (q\<lparr>as_flushed := m # as_flushed q\<rparr>, w)
         | None \<Rightarrow>
             (case aj_alias j of
                Some al \<Rightarrow>
                  (case wr_alias (au_writer a) of
                     None \<Rightarrow> (q, w)
                   | Some write \<Rightarrow> (q, snd (with_retry a (write al) w)))
              | None \<Rightarrow> (q, write_row a (aj_decision j) (aj_findings j) w))))"

text \<open>One round of \<open>run\<close>: take a job, if there is one, and process it.\<close>

definition audit_work :: "'w auditor \<Rightarrow> audit_state \<times> 'w \<Rightarrow> audit_state \<times> 'w" where
  "audit_work a s =
     (case s of (q, w) \<Rightarrow>
        (case as_queue q of
           [] \<Rightarrow> (q, w)
         | j # js \<Rightarrow> audit_process a j (q\<lparr>as_queue := js\<rparr>, w)))"

section \<open>Senders\<close>

text \<open>A send on the channel in a \<open>select\<close>: it goes through exactly when there is room.\<close>

definition audit_send :: "'w auditor \<Rightarrow> audit_job \<Rightarrow> audit_state \<Rightarrow> audit_state option" where
  "audit_send a j q =
     (if length (as_queue q) < au_queue_size a then Some (q\<lparr>as_queue := as_queue q @ [j]\<rparr>) else None)"

definition decision_job :: "decision \<Rightarrow> finding list \<Rightarrow> audit_job" where
  "decision_job d fs = \<lparr>aj_decision = d, aj_findings = fs, aj_alias = None, aj_flush = None\<rparr>"

definition alias_job :: "tag_alias \<Rightarrow> audit_job" where
  "alias_job al = \<lparr>aj_decision = zero_decision, aj_findings = [], aj_alias = Some al, aj_flush = None\<rparr>"

definition flush_job :: "nat \<Rightarrow> audit_job" where
  "flush_job m = \<lparr>aj_decision = zero_decision, aj_findings = [], aj_alias = None, aj_flush = Some m\<rparr>"

definition audit_record :: "'w auditor \<Rightarrow> decision \<Rightarrow> finding list \<Rightarrow> audit_state \<times> 'w \<Rightarrow> audit_state \<times> 'w" where
  "audit_record a d fs s =
     (case s of (q, w) \<Rightarrow>
        (case audit_send a (decision_job d fs) q of
           Some q1 \<Rightarrow> (q1, w)
         | None \<Rightarrow> (q, au_on_drop a d ErrQueueFull w)))"

definition record_tag_alias :: "'w auditor \<Rightarrow> tag_alias \<Rightarrow> audit_state \<times> 'w \<Rightarrow> audit_state \<times> 'w" where
  "record_tag_alias a al s =
     (case s of (q, w) \<Rightarrow>
        (case audit_send a (alias_job al) q of
           Some q1 \<Rightarrow> (q1, w)
         | None \<Rightarrow>
             (q, au_on_drop a (zero_decision\<lparr>ad_repo := ta_repo al, ad_tag := ta_tag al, ad_digest := ta_digest al\<rparr>)
                   ErrQueueFull w)))"

text \<open>
  The first half of \<open>Flush\<close>, with a marker of its own: it waits for room, or gives up with its
  context, which leaves the queue alone. The second half waits for the marker to be closed.
\<close>

definition flush_send :: "'w auditor \<Rightarrow> nat \<Rightarrow> audit_state \<times> 'w \<Rightarrow> audit_state \<times> 'w" where
  "flush_send a m s =
     (case s of (q, w) \<Rightarrow> (case audit_send a (flush_job m) q of Some q1 \<Rightarrow> (q1, w) | None \<Rightarrow> (q, w)))"

datatype audit_op = OpRecord decision "finding list" | OpAlias tag_alias | OpFlush nat | OpWork

definition audit_step :: "'w auditor \<Rightarrow> audit_op \<Rightarrow> audit_state \<times> 'w \<Rightarrow> audit_state \<times> 'w" where
  "audit_step a op s =
     (case op of
        OpRecord d fs \<Rightarrow> audit_record a d fs s
      | OpAlias al \<Rightarrow> record_tag_alias a al s
      | OpFlush m \<Rightarrow> flush_send a m s
      | OpWork \<Rightarrow> audit_work a s)"

definition audit_run :: "'w auditor \<Rightarrow> audit_op list \<Rightarrow> audit_state \<times> 'w \<Rightarrow> audit_state \<times> 'w" where
  "audit_run a ops s = fold (audit_step a) ops s"

text \<open>\<open>Close\<close> closes the channel and waits for the worker, which drains it first.\<close>

definition audit_close :: "'w auditor \<Rightarrow> audit_state \<times> 'w \<Rightarrow> audit_state \<times> 'w" where
  "audit_close a s = (audit_work a ^^ length (as_queue (fst s))) s"

section \<open>Facts\<close>

text \<open>Whatever each attempt and each pause preserves, the loop does; success is that of its last attempt.\<close>

lemma retry_loop_rel:
  assumes "reflp R" "transp R" and fns: "\<forall>w r w'. fn w = (r, w') \<longrightarrow> R w w'" and sleeps: "\<forall>t w. R w (au_sleep a t w)"
  shows "retry_loop a fn n err w = (r, w') \<Longrightarrow> n \<le> write_attempts \<or> err \<noteq> None \<Longrightarrow>
    R w w' \<and> (r = None \<longrightarrow> (\<exists>w1. R w w1 \<and> fn w1 = (None, w')))"
proof (induction "write_attempts + 1 - n" arbitrary: n err w)
  note fn = fns [rule_format] and sleep = sleeps [rule_format]
  case 0
  then show ?case using reflpD [OF assms(1)] by (auto simp: retry_loop.simps [of a fn n])
next
  note fn = fns [rule_format] and sleep = sleeps [rule_format]
  case (Suc k)
  then have n: "n \<le> write_attempts" "k = write_attempts + 1 - (n + 1)" by simp_all
  obtain x w1 where x: "fn w = (x, w1)" by (rule prod.exhaust)
  show ?case
  proof (cases x)
    case None
    then show ?thesis using Suc.prems(1) n(1) x fn [OF x] reflpD [OF assms(1)]
      by (auto simp: retry_loop.simps [of a fn n])
  next
    case (Some e)
    let ?w = "if n < write_attempts then au_sleep a (retry_backoff * int n) w1 else w1"
    have "retry_loop a fn (n + 1) (Some e) ?w = (r, w')"
      using Suc.prems(1) n(1) x Some by (simp add: retry_loop.simps [of a fn n])
    from Suc.hyps(1) [OF n(2) this] have "R ?w w' \<and> (r = None \<longrightarrow> (\<exists>v. R ?w v \<and> fn v = (None, w')))" by simp
    moreover have "R w ?w" using transpD [OF assms(2) fn [OF x] sleep] fn [OF x] by simp
    ultimately show ?thesis using transpD [OF assms(2)] by blast
  qed
qed

lemma with_retry_rel:
  assumes "reflp R" "transp R" "\<forall>w r w'. fn w = (r, w') \<longrightarrow> R w w'" "\<forall>t w. R w (au_sleep a t w)"
    and "with_retry a fn w = (r, w')"
  shows "R w w'" "r = None \<Longrightarrow> \<exists>w1. R w w1 \<and> fn w1 = (None, w')"
  using retry_loop_rel [of R fn a 1 None w r w', OF assms(1-4)] assms(5)
  by (auto simp: with_retry_def write_attempts_def)

lemma add_mset_leD: "add_mset x A \<subseteq># B \<Longrightarrow> A \<subseteq># B"
  by (meson mset_subset_eq_insertD subset_mset.less_imp_le)

lemma send_bounded:
  "audit_send a j q = Some q' \<Longrightarrow> length (as_queue q') \<le> au_queue_size a"
  by (auto simp: audit_send_def split: if_splits)

lemma process_queue [simp]: "as_queue (fst (audit_process a j (q, w))) = as_queue q"
  by (auto simp: audit_process_def split: option.split)

lemma work_queue [simp]: "as_queue (fst (audit_work a s)) = tl (as_queue (fst s))"
  by (cases s) (auto simp: audit_work_def split: list.split)

lemma step_bounded:
  "length (as_queue (fst s)) \<le> au_queue_size a \<Longrightarrow> length (as_queue (fst (audit_step a op s))) \<le> au_queue_size a"
  by (cases s; cases op)
    (auto simp: audit_step_def audit_record_def record_tag_alias_def flush_send_def split: option.split dest: send_bounded)

lemma run_bounded:
  "length (as_queue (fst s)) \<le> au_queue_size a \<Longrightarrow> length (as_queue (fst (audit_run a ops s))) \<le> au_queue_size a"
  by (induction ops arbitrary: s) (simp_all add: audit_run_def step_bounded)

lemma close_drains: "as_queue (fst (audit_close a s)) = []"
proof -
  have "as_queue (fst ((audit_work a ^^ n) s)) = drop n (as_queue (fst s))" for n
    by (induction n) (simp_all add: drop_Suc tl_drop)
  then show ?thesis by (simp add: audit_close_def)
qed

text \<open>Which decisions a schedule records, and which of them are still queued.\<close>

definition recorded :: "audit_op list \<Rightarrow> decision multiset" where
  "recorded ops = mset (concat (map (\<lambda>op. case op of OpRecord d fs \<Rightarrow> [d] | _ \<Rightarrow> []) ops))"

definition is_row :: "audit_job \<Rightarrow> bool" where
  "is_row j \<longleftrightarrow> aj_flush j = None \<and> aj_alias j = None"

definition queued :: "audit_job list \<Rightarrow> decision multiset" where
  "queued js = mset (map aj_decision (filter is_row js))"

lemma queued_simps [simp]:
  "queued [] = {#}" "queued (js @ ks) = queued js + queued ks"
  "queued (j # js) = (if is_row j then add_mset (aj_decision j) (queued js) else queued js)"
  by (simp_all add: queued_def)

lemma job_kinds [simp]:
  "is_row (decision_job d fs)" "aj_decision (decision_job d fs) = d" "\<not> is_row (alias_job al)" "\<not> is_row (flush_job m)"
  "aj_flush (flush_job m) = Some m" "aj_flush (decision_job d fs) = None" "aj_flush (alias_job al) = None"
  by (simp_all add: is_row_def decision_job_def alias_job_def flush_job_def)

lemma recorded_simps [simp]:
  "recorded [] = {#}" "recorded (ops @ ops') = recorded ops + recorded ops'"
  "recorded (op # ops) = (case op of OpRecord d fs \<Rightarrow> {#d#} | _ \<Rightarrow> {#}) + recorded ops"
  by (simp_all add: recorded_def split: audit_op.split)

section \<open>What a sink promises and what the auditor makes of it\<close>

text \<open>
  \<open>written\<close> are the rows the store holds, \<open>dropped\<close> those reported as lost. A write that returns an
  error may still have been applied.
\<close>

locale audit_sink =
  fixes a :: "'w auditor" and written dropped :: "'w \<Rightarrow> decision multiset"
  assumes wrote: "wr_decision (au_writer a) d w = (None, w') \<Longrightarrow>
      add_mset d (written w) \<subseteq># written w' \<and> dropped w \<subseteq># dropped w'"
    and not_wrote: "wr_decision (au_writer a) d w = (Some e, w') \<Longrightarrow>
      written w \<subseteq># written w' \<and> dropped w \<subseteq># dropped w'"
    and findings: "wr_findings (au_writer a) d fs w = (r, w') \<Longrightarrow>
      written w \<subseteq># written w' \<and> dropped w \<subseteq># dropped w'"
    and aliases: "wr_alias (au_writer a) = Some f \<Longrightarrow> f al w = (r, w') \<Longrightarrow>
      written w \<subseteq># written w' \<and> dropped w \<subseteq># dropped w'"
    and drop_kept: "add_mset d (dropped w) \<subseteq># dropped (au_on_drop a d e w)" "written w \<subseteq># written (au_on_drop a d e w)"
    and sleep_kept: "written w \<subseteq># written (au_sleep a t w)" "dropped w \<subseteq># dropped (au_sleep a t w)"
begin

definition keeps :: "'w \<Rightarrow> 'w \<Rightarrow> bool" where
  "keeps w w' \<longleftrightarrow> written w \<subseteq># written w' \<and> dropped w \<subseteq># dropped w'"

lemma keeps_refl: "keeps w w" by (simp add: keeps_def)

lemma keeps_trans: "keeps u v \<Longrightarrow> keeps v w \<Longrightarrow> keeps u w"
  unfolding keeps_def by (meson subset_mset.order_trans)

lemma keeps_preorder: "reflp keeps" "transp keeps"
  using keeps_refl keeps_trans by (auto intro: reflpI transpI)

lemma keeps_decision: "\<forall>w r w'. wr_decision (au_writer a) d w = (r, w') \<longrightarrow> keeps w w'"
proof (intro allI impI)
  fix w r w' assume c: "wr_decision (au_writer a) d w = (r, w')"
  show "keeps w w'"
  proof (cases r)
    case None
    then show ?thesis using wrote [of d w w'] add_mset_leD [of d "written w" "written w'"] c by (simp add: keeps_def)
  next
    case (Some e)
    then show ?thesis using not_wrote [of d w e w'] c by (simp add: keeps_def)
  qed
qed

lemma keeps_findings: "\<forall>w r w'. wr_findings (au_writer a) d fs w = (r, w') \<longrightarrow> keeps w w'"
  using findings unfolding keeps_def by blast

lemma keeps_aliases: "wr_alias (au_writer a) = Some f \<Longrightarrow> \<forall>w r w'. f al w = (r, w') \<longrightarrow> keeps w w'"
  using aliases unfolding keeps_def by blast

lemma keeps_drop: "keeps w (au_on_drop a d e w)"
  using add_mset_leD [OF drop_kept(1)] drop_kept(2) by (simp add: keeps_def)

lemma retry_keeps:
  assumes "\<forall>w r w'. fn w = (r, w') \<longrightarrow> keeps w w'" "with_retry a fn w = (r, w')"
  shows "keeps w w'" "r = None \<Longrightarrow> \<exists>w1. keeps w w1 \<and> fn w1 = (None, w')"
proof -
  have "\<forall>t w. keeps w (au_sleep a t w)" using sleep_kept by (simp add: keeps_def)
  from with_retry_rel [OF keeps_preorder assms(1) this assms(2)]
  show "keeps w w'" "r = None \<Longrightarrow> \<exists>w1. keeps w w1 \<and> fn w1 = (None, w')" by blast+
qed

text \<open>The rows accounted for, and a processed row among them.\<close>

definition accounted :: "'w \<Rightarrow> decision multiset" where
  "accounted w = written w + dropped w"

lemma keeps_accounted: "keeps w w' \<Longrightarrow> accounted w \<subseteq># accounted w'"
  by (simp add: keeps_def accounted_def subset_mset.add_mono)

lemma drop_accounted: "add_mset d (accounted w) \<subseteq># accounted (au_on_drop a d e w)"
  using subset_mset.add_mono [OF drop_kept(2) drop_kept(1)] by (simp add: accounted_def)

lemma write_row_accounted: "add_mset d (accounted w) \<subseteq># accounted (write_row a d fs w)"
proof -
  obtain r w1 where r: "with_retry a (wr_decision (au_writer a) d) w = (r, w1)" by (rule prod.exhaust)
  have k: "keeps w w1" by (rule retry_keeps(1) [OF keeps_decision r])
  show ?thesis
  proof (cases r)
    case (Some e)
    then have "write_row a d fs w = au_on_drop a d e w1" using r by (simp add: write_row_def)
    then show ?thesis using drop_accounted [of d w1 e] keeps_accounted [OF k]
      by (metis mset_subset_eq_add_mset_cancel subset_mset.order_trans)
  next
    case None
    obtain v where v: "keeps w v" "wr_decision (au_writer a) d v = (None, w1)"
      using retry_keeps(2) [OF keeps_decision r None] by blast
    have "add_mset d (written v) + dropped v \<subseteq># written w1 + dropped w1"
      using wrote [OF v(2)] by (intro subset_mset.add_mono) simp_all
    then have "add_mset d (accounted v) \<subseteq># accounted w1" by (simp add: accounted_def)
    then have d: "add_mset d (accounted w) \<subseteq># accounted w1"
      using keeps_accounted [OF v(1)] by (metis mset_subset_eq_add_mset_cancel subset_mset.order_trans)
    have "keeps w1 (write_row a d fs w)"
    proof (cases "fs = []")
      case True
      then show ?thesis using r None by (simp add: write_row_def keeps_refl)
    next
      case False
      obtain x w2 where x: "with_retry a (wr_findings (au_writer a) d fs) w1 = (x, w2)" by (rule prod.exhaust)
      show ?thesis
        using retry_keeps(1) [OF keeps_findings x] keeps_drop keeps_trans r None False x
        by (cases x) (auto simp: write_row_def)
    qed
    then show ?thesis using d keeps_accounted subset_mset.order_trans by blast
  qed
qed

lemma process_accounted:
  "(if is_row j then {#aj_decision j#} else {#}) + accounted w \<subseteq># accounted (snd (audit_process a j (q, w)))"
proof (cases "is_row j")
  case True
  then show ?thesis using write_row_accounted [of "aj_decision j" w "aj_findings j"]
    by (simp add: audit_process_def is_row_def)
next
  case False
  show ?thesis
  proof (cases "aj_flush j")
    case None
    then obtain al where al: "aj_alias j = Some al" using False by (auto simp: is_row_def)
    show ?thesis
    proof (cases "wr_alias (au_writer a)")
      case (Some f)
      obtain r w1 where r: "with_retry a (f al) w = (r, w1)" by (rule prod.exhaust)
      have "accounted w \<subseteq># accounted w1"
        by (rule keeps_accounted [OF retry_keeps(1) [OF keeps_aliases [OF Some] r]])
      then show ?thesis using False None al Some r by (simp add: audit_process_def)
    qed (use False None al in \<open>simp add: audit_process_def\<close>)
  qed (use False in \<open>simp add: audit_process_def\<close>)
qed

text \<open>Every decision recorded so far is queued or accounted for.\<close>

definition tracked :: "audit_state \<times> 'w \<Rightarrow> decision multiset" where
  "tracked s = queued (as_queue (fst s)) + accounted (snd s)"

lemma step_tracked:
  "(case op of OpRecord d fs \<Rightarrow> {#d#} | _ \<Rightarrow> {#}) + tracked s \<subseteq># tracked (audit_step a op s)"
proof (cases s)
  case (Pair q w)
  note keep = keeps_accounted [OF keeps_drop]
  show ?thesis
  proof (cases op)
    case (OpRecord d fs)
    have "add_mset d (accounted w) \<subseteq># accounted (au_on_drop a d ErrQueueFull w)" by (rule drop_accounted)
    then have "queued (as_queue q) + add_mset d (accounted w)
        \<subseteq># queued (as_queue q) + accounted (au_on_drop a d ErrQueueFull w)" by simp
    then show ?thesis using OpRecord Pair
      by (auto simp: audit_step_def audit_record_def audit_send_def tracked_def)
  next
    case (OpAlias al)
    then show ?thesis using Pair keep
      by (auto simp: audit_step_def record_tag_alias_def audit_send_def tracked_def)
  next
    case (OpFlush m)
    then show ?thesis using Pair by (auto simp: audit_step_def flush_send_def audit_send_def tracked_def)
  next
    case OpWork
    show ?thesis
    proof (cases "as_queue q")
      case Nil
      then show ?thesis using OpWork Pair by (simp add: audit_step_def audit_work_def)
    next
      case (Cons j js)
      let ?s = "audit_process a j (q\<lparr>as_queue := js\<rparr>, w)"
      have "as_queue (fst ?s) = js" by simp
      moreover have "(if is_row j then {#aj_decision j#} else {#}) + accounted w \<subseteq># accounted (snd ?s)"
        by (rule process_accounted)
      then have "queued js + ((if is_row j then {#aj_decision j#} else {#}) + accounted w) \<subseteq># queued js + accounted (snd ?s)"
        by simp
      ultimately show ?thesis using OpWork Pair Cons
        by (auto simp: audit_step_def audit_work_def tracked_def split: if_splits)
    qed
  qed
qed

lemma run_tracked: "recorded ops + tracked s \<subseteq># tracked (audit_run a ops s)"
proof (induction ops arbitrary: s)
  case (Cons op ops)
  have "recorded ops + ((case op of OpRecord d fs \<Rightarrow> {#d#} | _ \<Rightarrow> {#}) + tracked s)
      \<subseteq># recorded ops + tracked (audit_step a op s)"
    using step_tracked by simp
  also have "\<dots> \<subseteq># tracked (audit_run a ops (audit_step a op s))" by (rule Cons.IH)
  finally show ?case by (simp add: audit_run_def ac_simps)
qed (simp add: audit_run_def)

lemma close_tracked: "tracked s \<subseteq># tracked (audit_close a s)"
proof -
  have "tracked s \<subseteq># tracked ((audit_work a ^^ n) s)" for n
  proof (induction n)
    case (Suc n)
    have "tracked ((audit_work a ^^ n) s) \<subseteq># tracked (audit_work a ((audit_work a ^^ n) s))"
      using step_tracked [of OpWork] by (simp add: audit_step_def)
    then show ?case using Suc subset_mset.order_trans by fastforce
  qed simp
  then show ?thesis by (simp add: audit_close_def)
qed

text \<open>
  A marker in the queue stands behind everything recorded before it; once it is taken out, all of
  that is accounted for.
\<close>

definition behind :: "nat \<Rightarrow> decision multiset \<Rightarrow> audit_state \<times> 'w \<Rightarrow> bool" where
  "behind m ds s \<longleftrightarrow>
     (m \<in> set (as_flushed (fst s)) \<longrightarrow> ds \<subseteq># accounted (snd s))
     \<and> (\<forall>pre j post. as_queue (fst s) = pre @ j # post \<longrightarrow> aj_flush j = Some m \<longrightarrow> ds \<subseteq># queued pre + accounted (snd s))"

lemma drop_behind:
  assumes "behind m ds (q, w)" "keeps w w'"
  shows "behind m ds (q, w')"
  using assms(1) keeps_accounted [OF assms(2)] subset_mset.add_left_mono [OF keeps_accounted [OF assms(2)]]
  unfolding behind_def fst_conv snd_conv by (meson subset_mset.order_trans)

lemma send_behind:
  assumes "behind m ds (q, w)" "aj_flush j \<noteq> Some m" "audit_send a j q = Some q'"
  shows "behind m ds (q', w)"
proof -
  have q': "as_queue q' = as_queue q @ [j]" "as_flushed q' = as_flushed q"
    using assms(3) by (auto simp: audit_send_def split: if_splits)
  have "ds \<subseteq># queued pre + accounted w" if "as_queue q @ [j] = pre @ k # post" "aj_flush k = Some m" for pre k post
  proof -
    have "post \<noteq> []" using that assms(2) by auto
    then have "as_queue q = pre @ k # butlast post"
      using that(1) by (metis butlast.simps(2) butlast_append butlast_snoc list.distinct(1))
    then show ?thesis using assms(1) that(2) by (simp add: behind_def)
  qed
  then show ?thesis using assms(1) q' by (simp add: behind_def)
qed

lemma work_behind:
  assumes "behind m ds s"
  shows "behind m ds (audit_work a s)"
proof (cases s)
  case (Pair q w)
  show ?thesis
  proof (cases "as_queue q")
    case Nil
    then show ?thesis using assms Pair by (simp add: audit_work_def)
  next
    case (Cons j js)
    obtain q' w' where p: "audit_process a j (q\<lparr>as_queue := js\<rparr>, w) = (q', w')" by (rule prod.exhaust)
    have q': "as_queue q' = js" "set (as_flushed q') \<subseteq> set (as_flushed q) \<union> {n. aj_flush j = Some n}"
      using p by (auto simp: audit_process_def split: option.splits)
    have acc: "(if is_row j then {#aj_decision j#} else {#}) + accounted w \<subseteq># accounted w'"
      using process_accounted [of j w "q\<lparr>as_queue := js\<rparr>"] p by simp
    then have le: "accounted w \<subseteq># accounted w'"
      by (metis mset_subset_eq_add_right subset_mset.order_trans)
    have "ds \<subseteq># accounted w" if "aj_flush j = Some m"
    proof -
      have "as_queue q = [] @ j # js" using Cons by simp
      then show ?thesis using assms that Pair unfolding behind_def by fastforce
    qed
    then have fl: "m \<in> set (as_flushed q') \<longrightarrow> ds \<subseteq># accounted w'"
      using assms Pair q'(2) le unfolding behind_def by (auto intro: subset_mset.order_trans)
    have "ds \<subseteq># queued pre + accounted w'" if js: "js = pre @ k # post" "aj_flush k = Some m" for pre k post
    proof -
      have "as_queue q = (j # pre) @ k # post" using Cons js by simp
      then have "ds \<subseteq># queued (j # pre) + accounted w" using assms js(2) unfolding Pair behind_def fst_conv snd_conv by blast
      also have "\<dots> = queued pre + ((if is_row j then {#aj_decision j#} else {#}) + accounted w)" by simp
      also have "\<dots> \<subseteq># queued pre + accounted w'" using acc by simp
      finally show ?thesis .
    qed
    then show ?thesis using fl q'(1) Pair Cons p by (simp add: audit_work_def behind_def)
  qed
qed

lemma step_behind:
  assumes "behind m ds s" "op \<noteq> OpFlush m"
  shows "behind m ds (audit_step a op s)"
proof (cases s)
  case (Pair q w)
  note send = send_behind [OF assms(1) [unfolded Pair]] and lost = drop_behind [OF assms(1) [unfolded Pair] keeps_drop]
  show ?thesis
  proof (cases op)
    case (OpRecord d fs)
    then show ?thesis using Pair send [of "decision_job d fs"] lost
      by (simp add: audit_step_def audit_record_def split: option.split)
  next
    case (OpAlias al)
    then show ?thesis using Pair send [of "alias_job al"] lost
      by (simp add: audit_step_def record_tag_alias_def split: option.split)
  next
    case (OpFlush n)
    then show ?thesis using Pair send [of "flush_job n"] assms
      by (simp add: audit_step_def flush_send_def split: option.split)
  next
    case OpWork
    then show ?thesis using work_behind [OF assms(1)] by (simp add: audit_step_def)
  qed
qed

lemma run_behind:
  "behind m ds s \<Longrightarrow> OpFlush m \<notin> set ops \<Longrightarrow> behind m ds (audit_run a ops s)"
proof (induction ops arbitrary: s)
  case (Cons op ops)
  have "behind m ds (audit_step a op s)" by (rule step_behind) (use Cons.prems in auto)
  then show ?case using Cons by (simp add: audit_run_def)
qed (simp add: audit_run_def)

text \<open>A marker nobody has sent yet is neither queued nor closed.\<close>

definition unsent :: "nat \<Rightarrow> audit_state \<Rightarrow> bool" where
  "unsent m q \<longleftrightarrow> m \<notin> set (as_flushed q) \<and> (\<forall>j\<in>set (as_queue q). aj_flush j \<noteq> Some m)"

lemma step_unsent:
  assumes "unsent m (fst s)" "op \<noteq> OpFlush m"
  shows "unsent m (fst (audit_step a op s))"
proof (cases s)
  case (Pair q w)
  have send: "unsent m q'" if "audit_send a j q = Some q'" "aj_flush j \<noteq> Some m" for j q'
    using that assms(1) Pair by (auto simp: audit_send_def unsent_def split: if_splits)
  show ?thesis
  proof (cases op)
    case OpWork
    then show ?thesis using assms Pair
      by (auto simp: audit_step_def audit_work_def audit_process_def unsent_def split: list.split option.split)
  qed (use Pair assms send in \<open>auto simp: audit_step_def audit_record_def record_tag_alias_def flush_send_def split: option.split\<close>)
qed

lemma run_unsent: "unsent m (fst s) \<Longrightarrow> OpFlush m \<notin> set ops \<Longrightarrow> unsent m (fst (audit_run a ops s))"
proof (induction ops arbitrary: s)
  case (Cons op ops)
  have "unsent m (fst (audit_step a op s))" by (rule step_unsent) (use Cons.prems in auto)
  then show ?case using Cons by (simp add: audit_run_def)
qed (simp add: audit_run_def)

lemma flush_waits:
  assumes "OpFlush m \<notin> set (before @ after)"
    and "s = audit_run a after (flush_send a m (audit_run a before (new_audit_state, w)))"
    and "m \<in> set (as_flushed (fst s))"
  shows "recorded before \<subseteq># accounted (snd s)"
proof -
  obtain q1 w1 where s1: "audit_run a before (new_audit_state, w) = (q1, w1)" by (rule prod.exhaust)
  have "unsent m (fst (new_audit_state, w))" by (simp add: unsent_def new_audit_state_def)
  from run_unsent [OF this, of before] have un: "unsent m q1" using assms(1) s1 by simp
  have tr: "recorded before \<subseteq># queued (as_queue q1) + accounted w1"
    using run_tracked [of before "(new_audit_state, w)"] s1
    by (metis fst_conv snd_conv tracked_def mset_subset_eq_add_left subset_mset.order_trans)
  have "behind m (recorded before) (flush_send a m (q1, w1))"
  proof (cases "audit_send a (flush_job m) q1")
    case None
    then show ?thesis using un by (auto simp: flush_send_def behind_def unsent_def)
  next
    case (Some q2)
    then have q2: "as_queue q2 = as_queue q1 @ [flush_job m]" "as_flushed q2 = as_flushed q1"
      by (auto simp: audit_send_def split: if_splits)
    have "pre = as_queue q1" if "as_queue q1 @ [flush_job m] = pre @ k # post" "aj_flush k = Some m" for pre k post
    proof (rule ccontr)
      assume "pre \<noteq> as_queue q1"
      then have "post \<noteq> []" using that(1) by auto
      then have "as_queue q1 = pre @ k # butlast post"
        using that(1) by (metis butlast.simps(2) butlast_append butlast_snoc list.distinct(1))
      then show False using un that(2) by (simp add: unsent_def)
    qed
    then show ?thesis using Some tr un q2 by (auto simp: flush_send_def behind_def unsent_def)
  qed
  from run_behind [OF this, of after] show ?thesis
    using assms s1 by (simp add: behind_def)
qed

end

end
