(* ===== verification/Audit_Store.thy ===== *)
theory Audit_Store
  imports Audit_Buffer Valkey
begin

text \<open>
  \<open>internal/audit/clickhouse.go\<close> and the header queries of \<open>dashboard_queries.go\<close>: the ClickHouse
  writer, the schema bootstrap, and the resolution of an image reference to a push.

  ClickHouse is a parameter: a connection is a record of calls, one per kind of statement the code
  sends, with what the code binds to it as arguments. The text of each query is fixed; its meaning
  is stated by the locale \<open>clickhouse\<close>, of which the tables below are an instance.
\<close>

section \<open>The connection\<close>

text \<open>The three statements that resolve a push (newest row first, one row) and the alias query.\<close>

datatype id_query =
    PushByRef string string     \<comment> \<open>\<open>WHERE image_repo = ? AND (image_tag = ? OR image_digest = ?)\<close>\<close>
  | DigestByAlias string string \<comment> \<open>\<open>FROM tag_aliases WHERE image_repo = ? AND image_tag = ?\<close>\<close>
  | PushByDigest string string  \<comment> \<open>\<open>WHERE image_repo = ? AND image_digest = ?\<close>\<close>
  | PushByRepo string           \<comment> \<open>\<open>WHERE image_repo = ?\<close>\<close>

record finding_row =
  fr_push_id :: string
  fr_digest :: string
  fr_repo :: string
  fr_finding :: finding
  fr_base_image_id :: string
  fr_identity :: string

text \<open>\<open>None\<close> in the answer of a one-row query is \<open>sql.ErrNoRows\<close>.\<close>

record 'w clickhouse_conn =
  cc_insert_decision :: "decision \<Rightarrow> 'w \<Rightarrow> goerr option \<times> 'w"
  cc_insert_alias :: "tag_alias \<Rightarrow> 'w \<Rightarrow> goerr option \<times> 'w"
  cc_prepare_batch :: "'w \<Rightarrow> goerr option \<times> 'w"
  cc_append :: "finding_row \<Rightarrow> finding_row list \<Rightarrow> finding_row list res"
  cc_send :: "finding_row list \<Rightarrow> 'w \<Rightarrow> goerr option \<times> 'w"
  cc_query_id :: "id_query \<Rightarrow> 'w \<Rightarrow> string option res \<times> 'w"
  cc_query_header :: "string \<Rightarrow> 'w \<Rightarrow> (gotime \<times> decision) option res \<times> 'w"
  cc_query_findings :: "string \<Rightarrow> 'w \<Rightarrow> finding list res \<times> 'w"
  cc_exec :: "string \<Rightarrow> 'w \<Rightarrow> goerr option \<times> 'w"

section \<open>The writer\<close>

fun append_findings ::
  "'w clickhouse_conn \<Rightarrow> decision \<Rightarrow> finding list \<Rightarrow> finding_row list \<Rightarrow> finding_row list res" where
  "append_findings c d [] batch = Inr batch"
| "append_findings c d (f # fs) batch =
     (case cc_append c \<lparr>fr_push_id = ad_push_id d, fr_digest = ad_digest d, fr_repo = ad_repo d, fr_finding = f,
             fr_base_image_id = ad_base_image_id d, fr_identity = ad_identity d\<rparr> batch of
        Inl e \<Rightarrow> Inl (ErrWrap ''append finding: '' e [])
      | Inr batch1 \<Rightarrow> append_findings c d fs batch1)"

definition write_findings :: "'w clickhouse_conn \<Rightarrow> decision \<Rightarrow> finding list \<Rightarrow> 'w \<Rightarrow> goerr option \<times> 'w" where
  "write_findings c d fs w =
     (case cc_prepare_batch c w of
        (Some e, w1) \<Rightarrow> (Some (ErrWrap ''prepare findings batch: '' e []), w1)
      | (None, w1) \<Rightarrow>
          (case append_findings c d fs [] of
             Inl e \<Rightarrow> (Some e, w1)
           | Inr batch \<Rightarrow> cc_send c batch w1))"

definition clickhouse_writer :: "'w clickhouse_conn \<Rightarrow> 'w writer" where
  "clickhouse_writer c =
     \<lparr>wr_decision = cc_insert_decision c, wr_findings = write_findings c, wr_alias = Some (cc_insert_alias c)\<rparr>"

section \<open>The bootstrap\<close>

record bootstrap_group =
  bg_label :: string
  bg_stmts :: "string list"

definition database_group :: "string \<Rightarrow> bootstrap_group" where
  "database_group db =
     \<lparr>bg_label = ''create database '' @ fmt_q db, bg_stmts = [''CREATE DATABASE IF NOT EXISTS '' @ db]\<rparr>"

definition sql_comment :: "string \<Rightarrow> bool" where
  "sql_comment line = has_prefix (trim_space line) ''--''"

definition split_statements :: "string \<Rightarrow> string list" where
  "split_statements sql =
     (let body = concat (map (\<lambda>l. l @ newline) (filter (\<lambda>l. \<not> sql_comment l) (str_split (CHR 0x0A) sql)))
      in filter (\<lambda>p. p \<noteq> []) (map trim_space (str_split (CHR '';'') body)))"

definition schema_groups :: "string \<Rightarrow> int \<Rightarrow> bootstrap_group list" where
  "schema_groups schema_sql retention_days =
     [\<lparr>bg_label = ''exec schema statement'', bg_stmts = split_statements schema_sql\<rparr>,
      \<lparr>bg_label = ''exec ttl statement'', bg_stmts = ttl_statements retention_days\<rparr>]"

fun exec_statements :: "'w clickhouse_conn \<Rightarrow> string \<Rightarrow> string list \<Rightarrow> 'w \<Rightarrow> goerr option \<times> 'w" where
  "exec_statements c label [] w = (None, w)"
| "exec_statements c label (s # ss) w =
     (case cc_exec c s w of
        (Some e, w1) \<Rightarrow> (Some (ErrWrap (label @ '': '') e []), w1)
      | (None, w1) \<Rightarrow> exec_statements c label ss w1)"

fun exec_group_list :: "'w clickhouse_conn \<Rightarrow> bootstrap_group list \<Rightarrow> 'w \<Rightarrow> goerr option \<times> 'w" where
  "exec_group_list c [] w = (None, w)"
| "exec_group_list c (g # gs) w =
     (case exec_statements c (bg_label g) (bg_stmts g) w of
        (Some e, w1) \<Rightarrow> (Some e, w1)
      | (None, w1) \<Rightarrow> exec_group_list c gs w1)"

text \<open>\<open>open_db\<close> is \<open>clickhouse.Open\<close> for a connection scoped to a database.\<close>

definition exec_groups ::
  "(string \<Rightarrow> 'w \<Rightarrow> 'w clickhouse_conn res \<times> 'w) \<Rightarrow> string \<Rightarrow> string \<Rightarrow> bootstrap_group list \<Rightarrow> 'w \<Rightarrow> goerr option \<times> 'w" where
  "exec_groups open_db db scope gs w =
     (case open_db db w of
        (Inl e, w1) \<Rightarrow> (Some (ErrWrap (''open '' @ scope @ '' connection: '') e []), w1)
      | (Inr c, w1) \<Rightarrow> exec_group_list c gs w1)"

definition bootstrap_schema ::
  "(string \<Rightarrow> 'w \<Rightarrow> 'w clickhouse_conn res \<times> 'w) \<Rightarrow> string \<Rightarrow> string \<Rightarrow> int \<Rightarrow> 'w \<Rightarrow> goerr option \<times> 'w" where
  "bootstrap_schema open_db schema_sql target_db retention_days w =
     (if target_db = [] then (Some (ErrMsg ''target database not specified in DSN''), w)
      else case exec_groups open_db ''default'' ''bootstrap'' [database_group target_db] w of
        (Some e, w1) \<Rightarrow> (Some e, w1)
      | (None, w1) \<Rightarrow> exec_groups open_db target_db ''target'' (schema_groups schema_sql retention_days) w1)"

section \<open>The reader\<close>

text \<open>The last query of \<open>pushIDByRef\<close>, for a digest reference only.\<close>

definition repo_fallback :: "'w clickhouse_conn \<Rightarrow> string \<Rightarrow> string \<Rightarrow> 'w \<Rightarrow> string res \<times> 'w" where
  "repo_fallback c repo ref w =
     (if \<not> ref_allows_repo_fallback ref then (Inr [], w)
      else case cc_query_id c (PushByRepo repo) w of
        (Inl e, w1) \<Rightarrow> (Inl e, w1)
      | (Inr None, w1) \<Rightarrow> (Inr [], w1)
      | (Inr (Some i), w1) \<Rightarrow> (Inr i, w1))"

definition push_id_by_ref :: "'w clickhouse_conn \<Rightarrow> string \<Rightarrow> string \<Rightarrow> 'w \<Rightarrow> string res \<times> 'w" where
  "push_id_by_ref c repo ref w =
     (case cc_query_id c (PushByRef repo ref) w of
        (Inl e, w1) \<Rightarrow> (Inl e, w1)
      | (Inr (Some i), w1) \<Rightarrow> (Inr i, w1)
      | (Inr None, w1) \<Rightarrow>
          (if has_prefix ref ''sha256:'' then repo_fallback c repo ref w1
           else case cc_query_id c (DigestByAlias repo ref) w1 of
             (Inl e, w2) \<Rightarrow> (Inl e, w2)
           | (Inr None, w2) \<Rightarrow> repo_fallback c repo ref w2
           | (Inr (Some digest), w2) \<Rightarrow>
               (case cc_query_id c (PushByDigest repo digest) w2 of
                  (Inl e, w3) \<Rightarrow> (Inl e, w3)
                | (Inr (Some i), w3) \<Rightarrow> (Inr i, w3)
                | (Inr None, w3) \<Rightarrow> repo_fallback c repo ref w3)))"

definition findings_by_push :: "'w clickhouse_conn \<Rightarrow> string \<Rightarrow> 'w \<Rightarrow> finding list res \<times> 'w" where
  "findings_by_push c push_id w = cc_query_findings c push_id w"

definition findings_by_image_ref :: "'w clickhouse_conn \<Rightarrow> string \<Rightarrow> string \<Rightarrow> 'w \<Rightarrow> finding list res \<times> 'w" where
  "findings_by_image_ref c repo ref w =
     (case push_id_by_ref c repo ref w of
        (Inl e, w1) \<Rightarrow> (Inl e, w1)
      | (Inr i, w1) \<Rightarrow> (if i = [] then (Inr [], w1) else findings_by_push c i w1))"

definition header_by_push :: "'w clickhouse_conn \<Rightarrow> string \<Rightarrow> 'w \<Rightarrow> decision_header res \<times> 'w" where
  "header_by_push c push_id w =
     (case cc_query_header c push_id w of
        (Inl e, w1) \<Rightarrow> (Inl e, w1)
      | (Inr None, w1) \<Rightarrow> (Inr no_header, w1)
      | (Inr (Some r), w1) \<Rightarrow> (Inr (header_of r), w1))"

definition header_by_ref :: "'w clickhouse_conn \<Rightarrow> string \<Rightarrow> string \<Rightarrow> 'w \<Rightarrow> decision_header res \<times> 'w" where
  "header_by_ref c repo ref w =
     (case push_id_by_ref c repo ref w of
        (Inl e, w1) \<Rightarrow> (Inl e, w1)
      | (Inr i, w1) \<Rightarrow> (if i = [] then (Inr no_header, w1) else header_by_push c i w1))"

section \<open>What the queries mean\<close>

text \<open>\<open>ORDER BY ts DESC LIMIT 1\<close>: one of the newest rows that match, if any does.\<close>

definition newest_row :: "('a \<Rightarrow> bool) \<Rightarrow> (gotime \<times> 'a) list \<Rightarrow> (gotime \<times> 'a) option \<Rightarrow> bool" where
  "newest_row P rows r \<longleftrightarrow>
     (case r of
        None \<Rightarrow> (\<forall>(t, d)\<in>set rows. \<not> P d)
      | Some (t, d) \<Rightarrow> (t, d) \<in> set rows \<and> P d \<and> (\<forall>(t', d')\<in>set rows. P d' \<longrightarrow> t' \<le> t))"

definition by_ref :: "string \<Rightarrow> string \<Rightarrow> decision \<Rightarrow> bool" where
  "by_ref repo ref d \<longleftrightarrow> ad_repo d = repo \<and> (ad_tag d = ref \<or> ad_digest d = ref)"

definition by_digest :: "string \<Rightarrow> string \<Rightarrow> decision \<Rightarrow> bool" where
  "by_digest repo digest d \<longleftrightarrow> ad_repo d = repo \<and> ad_digest d = digest"

definition by_repo :: "string \<Rightarrow> decision \<Rightarrow> bool" where
  "by_repo repo d \<longleftrightarrow> ad_repo d = repo"

definition by_tag :: "string \<Rightarrow> string \<Rightarrow> tag_alias \<Rightarrow> bool" where
  "by_tag repo tag al \<longleftrightarrow> ta_repo al = repo \<and> ta_tag al = tag"

definition answers :: "('a \<Rightarrow> string) \<Rightarrow> ('a \<Rightarrow> bool) \<Rightarrow> (gotime \<times> 'a) list \<Rightarrow> string option \<Rightarrow> bool" where
  "answers col P rows x \<longleftrightarrow> (\<exists>r. newest_row P rows r \<and> x = map_option (\<lambda>(t, d). col d) r)"

fun id_answer :: "id_query \<Rightarrow> (gotime \<times> decision) list \<Rightarrow> (gotime \<times> tag_alias) list \<Rightarrow> string option \<Rightarrow> bool" where
  "id_answer (PushByRef repo ref) ds als x = answers ad_push_id (by_ref repo ref) ds x"
| "id_answer (DigestByAlias repo tag) ds als x = answers ta_digest (by_tag repo tag) als x"
| "id_answer (PushByDigest repo digest) ds als x = answers ad_push_id (by_digest repo digest) ds x"
| "id_answer (PushByRepo repo) ds als x = answers ad_push_id (by_repo repo) ds x"

lemma answers_None: "answers col P rows None \<longleftrightarrow> (\<forall>(t, d)\<in>set rows. \<not> P d)"
  by (auto simp: answers_def newest_row_def split: option.splits)

lemma answers_Some:
  "answers col P rows (Some i) \<longleftrightarrow>
   (\<exists>t d. (t, d) \<in> set rows \<and> P d \<and> col d = i \<and> (\<forall>(t', d')\<in>set rows. P d' \<longrightarrow> t' \<le> t))"
  (is "_ \<longleftrightarrow> ?rhs")
proof
  assume "answers col P rows (Some i)"
  then obtain r where r: "newest_row P rows r" "Some i = map_option (\<lambda>(t, d). col d) r" by (auto simp: answers_def)
  then obtain t d where td: "r = Some (t, d)" "col d = i" by (cases r) auto
  have "(t, d) \<in> set rows \<and> P d \<and> (\<forall>(t', d')\<in>set rows. P d' \<longrightarrow> t' \<le> t)"
    using r(1) td(1) by (simp add: newest_row_def)
  then show ?rhs using td(2) by blast
next
  assume ?rhs
  then obtain t d where "newest_row P rows (Some (t, d))" "col d = i" by (auto simp: newest_row_def)
  then show "answers col P rows (Some i)" unfolding answers_def by (intro exI [of _ "Some (t, d)"]) simp
qed

locale clickhouse =
  fixes c :: "'w clickhouse_conn"
    and decisions :: "'w \<Rightarrow> (gotime \<times> decision) list"
    and aliases :: "'w \<Rightarrow> (gotime \<times> tag_alias) list"
  assumes query_keeps: "cc_query_id c q w = (r, w') \<Longrightarrow> decisions w' = decisions w \<and> aliases w' = aliases w"
    and query_answer: "cc_query_id c q w = (Inr x, w') \<Longrightarrow> id_answer q (decisions w) (aliases w) x"
    and inserted: "cc_insert_decision c d w = (None, w') \<Longrightarrow>
      \<exists>t. decisions w' = decisions w @ [(t, d)] \<and> aliases w' = aliases w"
    and insert_failed: "cc_insert_decision c d w = (Some e, w') \<Longrightarrow>
      decisions w' = decisions w \<or> (\<exists>t. decisions w' = decisions w @ [(t, d)])"
    and alias_inserted: "cc_insert_alias c al w = (oe, w') \<Longrightarrow> decisions w' = decisions w"
    and batch_kept: "cc_prepare_batch c w = (oe, w') \<Longrightarrow> decisions w' = decisions w"
      "cc_send c fs w = (oe, w') \<Longrightarrow> decisions w' = decisions w"
begin

lemma fallback_answer:
  assumes "repo_fallback c repo ref w = (Inr i, w')"
  shows "i = [] \<and> \<not> has_prefix ref ''sha256:'' \<or>
    has_prefix ref ''sha256:'' \<and> (\<exists>x. answers ad_push_id (by_repo repo) (decisions w) x \<and> i = (case x of None \<Rightarrow> [] | Some j \<Rightarrow> j))"
proof (cases "has_prefix ref ''sha256:''")
  case True
  obtain x w1 where x: "cc_query_id c (PushByRepo repo) w = (x, w1)" by (rule prod.exhaust)
  obtain y where y: "x = Inr y" using assms True x
    by (cases x) (auto simp: repo_fallback_def ref_allows_repo_fallback_def)
  have "id_answer (PushByRepo repo) (decisions w) (aliases w) y" by (rule query_answer [OF x [unfolded y]])
  moreover have "i = (case y of None \<Rightarrow> [] | Some j \<Rightarrow> j)"
    using assms True x y by (auto simp: repo_fallback_def ref_allows_repo_fallback_def split: option.splits)
  ultimately show ?thesis using True by auto
qed (use assms in \<open>simp add: repo_fallback_def ref_allows_repo_fallback_def\<close>)

text \<open>What \<open>pushIDByRef\<close> resolves a reference to, when it returns no error.\<close>

definition resolves :: "string \<Rightarrow> string \<Rightarrow> 'w \<Rightarrow> string \<Rightarrow> bool" where
  "resolves repo ref w i \<longleftrightarrow>
     answers ad_push_id (by_ref repo ref) (decisions w) (Some i)
     \<or> answers ad_push_id (by_ref repo ref) (decisions w) None \<and>
       (if has_prefix ref ''sha256:''
        then \<exists>x. answers ad_push_id (by_repo repo) (decisions w) x \<and> i = (case x of None \<Rightarrow> [] | Some j \<Rightarrow> j)
        else answers ta_digest (by_tag repo ref) (aliases w) None \<and> i = []
          \<or> (\<exists>dg. answers ta_digest (by_tag repo ref) (aliases w) (Some dg)
               \<and> (\<exists>x. answers ad_push_id (by_digest repo dg) (decisions w) x \<and> i = (case x of None \<Rightarrow> [] | Some j \<Rightarrow> j))))"

lemma push_id_resolves:
  assumes "push_id_by_ref c repo ref w = (Inr i, w')"
  shows "resolves repo ref w i"
proof -
  obtain x w1 where x: "cc_query_id c (PushByRef repo ref) w = (x, w1)" by (rule prod.exhaust)
  obtain y where y: "x = Inr y" using assms x by (cases x) (auto simp: push_id_by_ref_def)
  have ans: "answers ad_push_id (by_ref repo ref) (decisions w) y" using query_answer [OF x [unfolded y]] by simp
  have kept: "decisions w1 = decisions w" "aliases w1 = aliases w" using query_keeps [OF x] by simp_all
  show ?thesis
  proof (cases y)
    case (Some j)
    then show ?thesis using ans assms x y by (simp add: push_id_by_ref_def resolves_def)
  next
    case None
    note first = ans [unfolded None]
    show ?thesis
    proof (cases "has_prefix ref ''sha256:''")
      case True
      then have "repo_fallback c repo ref w1 = (Inr i, w')" using assms x y None by (simp add: push_id_by_ref_def)
      from fallback_answer [OF this] show ?thesis using True first kept by (auto simp: resolves_def)
    next
      case False
      obtain a w2 where a: "cc_query_id c (DigestByAlias repo ref) w1 = (a, w2)" by (rule prod.exhaust)
      obtain b where b: "a = Inr b" using assms x y None False a by (cases a) (auto simp: push_id_by_ref_def)
      have al: "answers ta_digest (by_tag repo ref) (aliases w) b" using query_answer [OF a [unfolded b]] kept by simp
      have kept2: "decisions w2 = decisions w" "aliases w2 = aliases w" using query_keeps [OF a] kept by simp_all
      show ?thesis
      proof (cases b)
        case None
        then have "repo_fallback c repo ref w2 = (Inr i, w')"
          using assms x y \<open>y = None\<close> False a b by (simp add: push_id_by_ref_def)
        from fallback_answer [OF this] show ?thesis using False first al None by (auto simp: resolves_def)
      next
        case (Some dg)
        obtain u w3 where u: "cc_query_id c (PushByDigest repo dg) w2 = (u, w3)" by (rule prod.exhaust)
        obtain v where v: "u = Inr v"
          using assms x y None False a b Some u by (cases u) (auto simp: push_id_by_ref_def)
        have dg: "answers ad_push_id (by_digest repo dg) (decisions w) v" using query_answer [OF u [unfolded v]] kept2 by simp
        have "i = (case v of None \<Rightarrow> [] | Some j \<Rightarrow> j)"
          using assms x y None False a b Some u v
          by (auto simp: push_id_by_ref_def repo_fallback_def ref_allows_repo_fallback_def split: option.splits)
        then show ?thesis using False first al Some dg by (auto simp: resolves_def)
      qed
    qed
  qed
qed

end

section \<open>Tables\<close>

text \<open>
  A concrete store for the laws: tables that append rows stamped with the server's clock, which
  moves on with every row, behind a connection that may fail. \<open>tb_log\<close> is the operator's log.
\<close>

record tables =
  tb_decisions :: "(gotime \<times> decision) list"
  tb_aliases :: "(gotime \<times> tag_alias) list"
  tb_findings :: "finding_row list"
  tb_clock :: gotime
  tb_ddl :: "string list"
  tb_log :: "(decision \<times> goerr) list"

definition empty_tables :: tables where
  "empty_tables = \<lparr>tb_decisions = [], tb_aliases = [], tb_findings = [], tb_clock = 1, tb_ddl = [], tb_log = []\<rparr>"

fun newest :: "(gotime \<times> 'a) list \<Rightarrow> (gotime \<times> 'a) option" where
  "newest [] = None"
| "newest (r # rs) = (case newest rs of None \<Rightarrow> Some r | Some r' \<Rightarrow> if fst r' < fst r then Some r else Some r')"

fun run_id_query :: "id_query \<Rightarrow> tables \<Rightarrow> string option" where
  "run_id_query (PushByRef repo ref) tb =
     map_option (\<lambda>(t, d). ad_push_id d) (newest (filter (\<lambda>(t, d). by_ref repo ref d) (tb_decisions tb)))"
| "run_id_query (DigestByAlias repo tag) tb =
     map_option (\<lambda>(t, d). ta_digest d) (newest (filter (\<lambda>(t, d). by_tag repo tag d) (tb_aliases tb)))"
| "run_id_query (PushByDigest repo digest) tb =
     map_option (\<lambda>(t, d). ad_push_id d) (newest (filter (\<lambda>(t, d). by_digest repo digest d) (tb_decisions tb)))"
| "run_id_query (PushByRepo repo) tb =
     map_option (\<lambda>(t, d). ad_push_id d) (newest (filter (\<lambda>(t, d). by_repo repo d) (tb_decisions tb)))"

definition table_insert :: "decision \<Rightarrow> tables \<Rightarrow> tables" where
  "table_insert d tb = tb\<lparr>tb_decisions := tb_decisions tb @ [(tb_clock tb, d)], tb_clock := tb_clock tb + 1\<rparr>"

definition table_insert_alias :: "tag_alias \<Rightarrow> tables \<Rightarrow> tables" where
  "table_insert_alias al tb = tb\<lparr>tb_aliases := tb_aliases tb @ [(tb_clock tb, al)], tb_clock := tb_clock tb + 1\<rparr>"

definition table_conn :: "tables conn clickhouse_conn" where
  "table_conn =
     \<lparr>cc_insert_decision = (\<lambda>d. call_err (vk_do (table_insert d))),
      cc_insert_alias = (\<lambda>al. call_err (vk_do (table_insert_alias al))),
      cc_prepare_batch = call_err (vk_do (\<lambda>tb. tb)),
      cc_append = (\<lambda>r batch. Inr (batch @ [r])),
      cc_send = (\<lambda>batch. call_err (vk_do (\<lambda>tb. tb\<lparr>tb_findings := tb_findings tb @ batch\<rparr>))),
      cc_query_id = (\<lambda>q. vk_call (vk_ask (run_id_query q))),
      cc_query_header = (\<lambda>i. vk_call (vk_ask (\<lambda>tb. newest (filter (\<lambda>(t, d). ad_push_id d = i) (tb_decisions tb))))),
      cc_query_findings = (\<lambda>i. vk_call (vk_ask (\<lambda>tb. map fr_finding (filter (\<lambda>r. fr_push_id r = i) (tb_findings tb))))),
      cc_exec = (\<lambda>stmt. call_err (vk_do (\<lambda>tb. tb\<lparr>tb_ddl := tb_ddl tb @ [stmt]\<rparr>)))\<rparr>"

text \<open>The drop callback of the application only logs.\<close>

definition log_drop :: "decision \<Rightarrow> goerr \<Rightarrow> tables conn \<Rightarrow> tables conn" where
  "log_drop d e w = w\<lparr>cn_db := (cn_db w)\<lparr>tb_log := (d, e) # tb_log (cn_db w)\<rparr>\<rparr>"

definition table_auditor :: "nat \<Rightarrow> tables conn auditor" where
  "table_auditor n = \<lparr>au_writer = clickhouse_writer table_conn, au_queue_size = n, au_on_drop = log_drop,
     au_sleep = (\<lambda>t w. w\<lparr>cn_now := cn_now w + t\<rparr>)\<rparr>"

lemma newest_spec: "newest_row P rows (newest (filter (\<lambda>(t, d). P d) rows))"
proof (induction rows)
  case (Cons r rows)
  obtain t d where r: "r = (t, d)" by (rule prod.exhaust)
  show ?case
  proof (cases "newest (filter (\<lambda>(t, d). P d) rows)")
    case None
    then show ?thesis using Cons r by (auto simp: newest_row_def)
  next
    case (Some x)
    obtain t' d' where "x = (t', d')" by (rule prod.exhaust)
    then show ?thesis using Cons r Some by (fastforce simp: newest_row_def)
  qed
qed (simp add: newest_row_def)

lemma run_id_answer: "id_answer q (tb_decisions tb) (tb_aliases tb) (run_id_query q tb)"
  by (cases q) (auto simp: answers_def intro: newest_spec)

lemma ask_kept: "vk_call (vk_ask f) w = (r, w') \<Longrightarrow> cn_db w' = cn_db w"
  by (erule vk_call_cases) (auto simp: vk_ask_def)

lemma do_either:
  assumes "call_err (vk_do f) w = (oe, w')"
  shows "cn_db w' = f (cn_db w) \<or> oe \<noteq> None \<and> cn_db w' = cn_db w"
proof -
  obtain r where r: "vk_call (vk_do f) w = (r, w')" "oe = (case r of Inl e \<Rightarrow> Some e | Inr _ \<Rightarrow> None)"
    using assms by (auto simp: call_err_def split: prod.splits sum.splits)
  from r(1) show ?thesis by (cases rule: vk_call_cases) (auto simp: vk_do_def r(2))
qed

interpretation tables: clickhouse table_conn "\<lambda>w. tb_decisions (cn_db w)" "\<lambda>w. tb_aliases (cn_db w)"
proof (unfold_locales, goal_cases)
  case (1 q w r w')
  then show ?case using ask_kept by (fastforce simp: table_conn_def)
next
  case (2 q w x w')
  then have "vk_call (vk_ask (run_id_query q)) w = (Inr x, w')" by (simp add: table_conn_def)
  then have "x = run_id_query q (cn_db w)" by (cases rule: vk_call_cases) (auto simp: vk_ask_def)
  then show ?case using run_id_answer by simp
next
  case (3 d w w')
  then show ?case using do_either by (fastforce simp: table_conn_def table_insert_def)
next
  case (4 d w e w')
  then show ?case using do_either by (fastforce simp: table_conn_def table_insert_def)
next
  case (5 al w oe w')
  then show ?case using do_either by (fastforce simp: table_conn_def table_insert_alias_def)
next
  case (6 w oe w')
  then show ?case using do_either by (fastforce simp: table_conn_def)
next
  case (7 fs w oe w')
  then show ?case using do_either by (fastforce simp: table_conn_def)
qed

text \<open>The rows the tables hold and the rows the operator was told are lost.\<close>

definition stored_rows :: "tables conn \<Rightarrow> decision multiset" where
  "stored_rows w = mset (map snd (tb_decisions (cn_db w)))"

definition logged_rows :: "tables conn \<Rightarrow> decision multiset" where
  "logged_rows w = mset (map fst (tb_log (cn_db w)))"

lemma table_log_kept:
  "cc_insert_decision table_conn d w = (oe, w') \<Longrightarrow> tb_log (cn_db w') = tb_log (cn_db w)"
  "cc_insert_alias table_conn al w = (oe, w') \<Longrightarrow> tb_log (cn_db w') = tb_log (cn_db w)"
  "cc_prepare_batch table_conn w = (oe, w') \<Longrightarrow> tb_log (cn_db w') = tb_log (cn_db w)"
  "cc_send table_conn fs w = (oe, w') \<Longrightarrow> tb_log (cn_db w') = tb_log (cn_db w)"
  using do_either by (fastforce simp: table_conn_def table_insert_def table_insert_alias_def)+

lemma findings_kept:
  assumes "write_findings table_conn d fs w = (oe, w')"
  shows "tb_decisions (cn_db w') = tb_decisions (cn_db w) \<and> tb_log (cn_db w') = tb_log (cn_db w)"
proof -
  obtain x w1 where x: "cc_prepare_batch table_conn w = (x, w1)" by (rule prod.exhaust)
  note p = tables.batch_kept(1) [OF x] table_log_kept(3) [OF x]
  show ?thesis
  proof (cases x)
    case None
    show ?thesis
    proof (cases "append_findings table_conn d fs []")
      case (Inr batch)
      then have "cc_send table_conn batch w1 = (oe, w')" using assms x None by (simp add: write_findings_def)
      from tables.batch_kept(2) [OF this] table_log_kept(4) [OF this] show ?thesis using p by simp
    qed (use assms x None p in \<open>simp add: write_findings_def\<close>)
  qed (use assms x p in \<open>simp add: write_findings_def\<close>)
qed

interpretation table_sink: audit_sink "table_auditor n" stored_rows logged_rows for n
proof (unfold_locales, goal_cases)
  case (1 d w w')
  then have i: "cc_insert_decision table_conn d w = (None, w')"
    by (simp add: table_auditor_def clickhouse_writer_def)
  show ?case using tables.inserted [OF i] table_log_kept(1) [OF i] by (auto simp: stored_rows_def logged_rows_def)
next
  case (2 d w e w')
  then have i: "cc_insert_decision table_conn d w = (Some e, w')"
    by (simp add: table_auditor_def clickhouse_writer_def)
  show ?case using tables.insert_failed [OF i] table_log_kept(1) [OF i] by (auto simp: stored_rows_def logged_rows_def)
next
  case (3 d fs w r w')
  then show ?case using findings_kept [of d fs w r w']
    by (simp add: table_auditor_def clickhouse_writer_def stored_rows_def logged_rows_def)
next
  case (4 f al w r w')
  then have i: "cc_insert_alias table_conn al w = (r, w')"
    by (simp add: table_auditor_def clickhouse_writer_def)
  show ?case using tables.alias_inserted [OF i] table_log_kept(2) [OF i] by (simp add: stored_rows_def logged_rows_def)
qed (simp_all add: table_auditor_def log_drop_def stored_rows_def logged_rows_def)

section \<open>Properties\<close>

text \<open>
  C22: No audit row is lost silently and the auditor never blocks a push. For every schedule of requests
  and worker rounds, every queue size and every behaviour of the connection, the queue stays within
  its size, and each decision recorded so far is in the queue, in the table, or was reported to the
  operator as lost. After \<open>Close\<close> the queue is empty, so each is in the table or reported; and when
  a \<open>Flush\<close> returns on its marker, this holds for everything recorded before it.
\<close>

theorem no_audit_row_lost_silently:
  "\<exists>q w'. audit_run (table_auditor n) ops (new_audit_state, w) = (q, w')
     \<and> length (as_queue q) \<le> n
     \<and> recorded ops \<subseteq># queued (as_queue q) + (stored_rows w' + logged_rows w')
     \<and> (\<exists>q2 w2. audit_close (table_auditor n) (q, w') = (q2, w2) \<and> as_queue q2 = []
          \<and> recorded ops \<subseteq># stored_rows w2 + logged_rows w2)
     \<and> (\<forall>before m after. ops = before @ OpFlush m # after \<and> OpFlush m \<notin> set (before @ after)
          \<and> m \<in> set (as_flushed q) \<longrightarrow> recorded before \<subseteq># stored_rows w' + logged_rows w')"
proof -
  let ?a = "table_auditor n" and ?s = "audit_run (table_auditor n) ops (new_audit_state, w)"
  obtain q w' where s: "?s = (q, w')" by (rule prod.exhaust)
  obtain q2 w2 where c: "audit_close ?a (q, w') = (q2, w2)" by (rule prod.exhaust)
  have size: "au_queue_size ?a = n" by (simp add: table_auditor_def)
  have b: "length (as_queue q) \<le> n"
    using run_bounded [of "(new_audit_state, w)" ?a ops] s size by (simp add: new_audit_state_def)
  have t: "recorded ops \<subseteq># table_sink.tracked (q, w')"
    using table_sink.run_tracked [of ops "(new_audit_state, w)" n] s
    by (metis mset_subset_eq_add_left subset_mset.order_trans)
  have e: "as_queue q2 = []" using close_drains [of ?a "(q, w')"] c by simp
  have t2: "recorded ops \<subseteq># table_sink.tracked (q2, w2)"
    using t table_sink.close_tracked [of "(q, w')" n] c by (metis subset_mset.order_trans)
  have f: "recorded before \<subseteq># stored_rows w' + logged_rows w'"
    if "ops = before @ OpFlush m # after" "OpFlush m \<notin> set (before @ after)" "m \<in> set (as_flushed q)" for before m after
  proof -
    have "(q, w') = audit_run ?a after (flush_send ?a m (audit_run ?a before (new_audit_state, w)))"
      using s that(1) by (simp add: audit_run_def audit_step_def)
    from table_sink.flush_waits [OF that(2) this] show ?thesis using that(3) by (simp add: table_sink.accounted_def)
  qed
  show ?thesis
    using s b t c e t2 f by (auto simp: table_sink.tracked_def table_sink.accounted_def)
qed

definition table_world :: "fault list \<Rightarrow> tables conn" where
  "table_world fs = \<lparr>cn_db = empty_tables, cn_now = 0, cn_faults = fs\<rparr>"

lemma no_audit_row_lost_silently_witness:
  "let (q, w') = audit_run (table_auditor 1) [OpRecord zero_decision [], OpWork, OpFlush 7, OpWork]
       (new_audit_state, table_world [FailBefore True [], FailBefore True [], FailBefore True []])
   in as_flushed q = [7] \<and> {#zero_decision#} \<subseteq># stored_rows w' + logged_rows w'"
proof -
  let ?ops = "[OpRecord zero_decision [], OpWork] @ OpFlush 7 # [OpWork]"
  let ?w = "table_world [FailBefore True [], FailBefore True [], FailBefore True []]"
  have fl: "as_flushed (fst (audit_run (table_auditor 1) ?ops (new_audit_state, ?w))) = [7]" by code_simp
  obtain q w' where r: "audit_run (table_auditor 1) ?ops (new_audit_state, ?w) = (q, w')"
    and f: "\<forall>before m after. ?ops = before @ OpFlush m # after \<and> OpFlush m \<notin> set (before @ after)
          \<and> m \<in> set (as_flushed q) \<longrightarrow> recorded before \<subseteq># stored_rows w' + logged_rows w'"
    using no_audit_row_lost_silently [of 1 ?ops ?w] by blast
  have "recorded [OpRecord zero_decision [], OpWork] \<subseteq># stored_rows w' + logged_rows w'"
    using f [rule_format, of "[OpRecord zero_decision [], OpWork]" 7 "[OpWork]"] fl r by simp
  then show ?thesis using r fl by simp
qed

end
