(* ===== verification/Report_Lookup.thy ===== *)
theory Report_Lookup
  imports Audit_Store Docker_Server
begin

text \<open>
  From a pushed index to the report of its tag: the aliases the ingress records when it forwards an
  index, the tables they end up in, and what a report by tag or digest is resolved to.
\<close>

section \<open>The reader as a report source\<close>

definition reader_source :: "'w clickhouse_conn \<Rightarrow> 'w pod report_source" where
  "reader_source c =
     \<lparr>rp_findings_by_push = (\<lambda>i. on_shared (findings_by_push c i)),
      rp_findings_by_image_ref = (\<lambda>repo ref. on_shared (findings_by_image_ref c repo ref)),
      rp_header_by_push = (\<lambda>i. on_shared (header_by_push c i)),
      rp_header_by_image_ref = (\<lambda>repo ref. on_shared (header_by_ref c repo ref))\<rparr>"

section \<open>Which push a reference names\<close>

lemma table_query_calm:
  "cn_faults w = [] \<Longrightarrow> cc_query_id table_conn q w = (Inr (run_id_query q (cn_db w)), w)"
  by (simp add: table_conn_def vk_call_calm vk_ask_def)

text \<open>\<open>pushIDByRef\<close> on the tables of a working connection.\<close>

definition resolved :: "string \<Rightarrow> string \<Rightarrow> tables \<Rightarrow> string" where
  "resolved repo ref tb =
     (let orelse = (\<lambda>x y. case x of Some i \<Rightarrow> i | None \<Rightarrow> y);
          fallback = (if has_prefix ref ''sha256:'' then orelse (run_id_query (PushByRepo repo) tb) [] else [])
      in orelse (run_id_query (PushByRef repo ref) tb)
           (if has_prefix ref ''sha256:'' then fallback
            else case run_id_query (DigestByAlias repo ref) tb of
              None \<Rightarrow> fallback
            | Some dg \<Rightarrow> orelse (run_id_query (PushByDigest repo dg) tb) fallback))"

lemma push_id_calm:
  "cn_faults w = [] \<Longrightarrow> push_id_by_ref table_conn repo ref w = (Inr (resolved repo ref (cn_db w)), w)"
  by (simp add: push_id_by_ref_def repo_fallback_def ref_allows_repo_fallback_def table_query_calm resolved_def Let_def
      del: run_id_query.simps split: option.split)


text \<open>One push recorded under a digest, and an alias of a tag to it.\<close>

definition row :: "string \<Rightarrow> string \<Rightarrow> string \<Rightarrow> string \<Rightarrow> decision" where
  "row i repo tag digest = zero_decision\<lparr>ad_push_id := i, ad_repo := repo, ad_tag := tag, ad_digest := digest\<rparr>"

definition alias_row :: "string \<Rightarrow> string \<Rightarrow> string \<Rightarrow> tag_alias" where
  "alias_row repo tag digest = \<lparr>ta_repo = repo, ta_tag = tag, ta_digest = digest\<rparr>"

definition world_of :: "tables \<Rightarrow> tables conn" where
  "world_of tb = \<lparr>cn_db = tb, cn_now = 0, cn_faults = []\<rparr>"


section \<open>The tag of an attested index\<close>

definition alias_rows :: "string \<Rightarrow> string \<Rightarrow> parsed_manifest \<Rightarrow> tag_alias list" where
  "alias_rows repo tag m = map (\<lambda>sm. alias_row repo tag (dc_digest sm)) (filter (\<lambda>sm. dc_digest sm \<noteq> []) (pm_manifests m))"

lemma record_aliases_rows:
  "tag_alias_recorder h = Some f \<Longrightarrow> record_aliases h repo tag m p = fold f (alias_rows repo tag m) p"
proof -
  assume f: "tag_alias_recorder h = Some f"
  have "fold (\<lambda>sm q. if dc_digest sm = [] then q
                  else f \<lparr>ta_repo = repo, ta_tag = tag, ta_digest = dc_digest sm\<rparr> q) sms q
      = fold f (map (\<lambda>sm. alias_row repo tag (dc_digest sm)) (filter (\<lambda>sm. dc_digest sm \<noteq> []) sms)) q" for sms q
    by (induction sms arbitrary: q) (simp_all add: alias_row_def)
  then show ?thesis by (simp add: record_aliases_def f alias_rows_def)
qed

definition write_alias :: "tag_alias \<Rightarrow> tables conn pod \<Rightarrow> tables conn pod" where
  "write_alias al p = ((fst p)\<lparr>cn_db := table_insert_alias al (cn_db (fst p))\<rparr>, snd p)"

lemma unresolved_report:
  assumes "cn_faults w = []" "resolved repo ref (cn_db w) = []" "split_image_ref i = Some (repo, ref)"
  shows "fetch_report (reader_source table_conn) i (w, fs) = (Inr (no_header, []), (w, fs))"
  using push_id_calm [OF assms(1), of repo ref] assms(2,3)
  by (simp add: fetch_report_def reader_source_def on_shared_def header_by_ref_def findings_by_image_ref_def)

text \<open>
  C18: An image pushed with an attestation has no report under its tag. Forwarding the index records an
  alias of the tag for every manifest it lists, attestations included, and a report by tag follows
  only the newest alias. When that is the attestation's, for which there is no gate decision, the
  tag resolves to nothing and the report is "not found", although the image the same index
  names was gated and its decision is in the table.
\<close>

theorem attested_tag_has_no_report:
  assumes "tag_alias_recorder h = Some write_alias" "cn_faults w = []"
    and "pm_manifests m = [img, att]" "dc_digest img \<noteq> []" "dc_digest att \<noteq> []"
    and "(t, d) \<in> set (tb_decisions (cn_db w))" "by_digest repo (dc_digest img) d"
    and "\<forall>(t, d)\<in>set (tb_decisions (cn_db w)). \<not> by_digest repo (dc_digest att) d \<and> \<not> by_ref repo tag d"
    and "\<forall>(t, al)\<in>set (tb_aliases (cn_db w)). t < tb_clock (cn_db w)"
    and "\<not> has_prefix tag ''sha256:''" "split_image_ref i = Some (repo, tag)"
  shows "\<exists>p'. record_aliases h repo tag m (w, fs) = p'
    \<and> fetch_report (reader_source table_conn) i p' = (Inr (no_header, []), p')
    \<and> (\<exists>al. al \<in> set (map snd (tb_aliases (cn_db (fst p')))) \<and> by_tag repo tag al \<and> by_digest repo (ta_digest al) d)"
proof -
  let ?db = "cn_db w"
  let ?a1 = "alias_row repo tag (dc_digest img)" and ?a2 = "alias_row repo tag (dc_digest att)"
  let ?db' = "table_insert_alias ?a2 (table_insert_alias ?a1 ?db)"
  let ?p' = "(w\<lparr>cn_db := ?db'\<rparr>, fs)"
  have rec: "record_aliases h repo tag m (w, fs) = ?p'"
    using assms(3-5) by (simp add: record_aliases_rows [OF assms(1)] alias_rows_def write_alias_def)
  have als: "tb_aliases ?db' = tb_aliases ?db @ [(tb_clock ?db, ?a1), (tb_clock ?db + 1, ?a2)]"
    "tb_decisions ?db' = tb_decisions ?db"
    by (simp_all add: table_insert_alias_def)
  have none: "newest (filter (\<lambda>(t, d). P d) (tb_decisions ?db')) = None"
    if "\<forall>(t, d)\<in>set (tb_decisions ?db). \<not> P d" for P
    using that newest_spec [of P "tb_decisions ?db'"] als(2) by (auto simp: newest_row_def split: option.splits)
  obtain t' al where n: "newest (filter (\<lambda>(t, d). by_tag repo tag d) (tb_aliases ?db')) = Some (t', al)"
  proof (cases "newest (filter (\<lambda>(t, d). by_tag repo tag d) (tb_aliases ?db'))")
    case None
    then have "\<forall>(t, d)\<in>set (tb_aliases ?db'). \<not> by_tag repo tag d"
      using newest_spec [of "by_tag repo tag" "tb_aliases ?db'"] by (simp add: newest_row_def)
    then show thesis by (simp add: table_insert_alias_def alias_row_def by_tag_def)
  next
    case (Some x)
    then show thesis using that by (cases x) simp
  qed
  have "(t', al) \<in> set (tb_aliases ?db') \<and> (\<forall>(t'', al')\<in>set (tb_aliases ?db'). by_tag repo tag al' \<longrightarrow> t'' \<le> t')"
    using newest_spec [of "by_tag repo tag" "tb_aliases ?db'"] n by (simp add: newest_row_def)
  then have "al = ?a2" using assms(9) by (auto simp: table_insert_alias_def alias_row_def by_tag_def)
  then have "run_id_query (DigestByAlias repo tag) ?db' = Some (dc_digest att)"
    using n by (simp add: alias_row_def)
  moreover have "run_id_query (PushByRef repo tag) ?db' = None"
    "run_id_query (PushByDigest repo (dc_digest att)) ?db' = None"
    using none [of "by_ref repo tag"] none [of "by_digest repo (dc_digest att)"] assms(8) by auto
  ultimately have "resolved repo tag ?db' = []"
    using assms(10) by (simp add: resolved_def Let_def del: run_id_query.simps)
  then have "fetch_report (reader_source table_conn) i ?p' = (Inr (no_header, []), ?p')"
    using assms(2,11) by (intro unresolved_report) simp_all
  moreover have "?a1 \<in> set (map snd (tb_aliases (cn_db (fst ?p'))))" "by_tag repo tag ?a1" "by_digest repo (ta_digest ?a1) d"
    using assms(7) by (simp_all add: table_insert_alias_def alias_row_def by_tag_def)
  ultimately show ?thesis using rec by blast
qed

text \<open>An index of an image and its attestation, the image gated.\<close>

definition attested_index :: parsed_manifest where
  "attested_index = \<lparr>pm_media_type = ''application/vnd.oci.image.index.v1+json'',
     pm_config = \<lparr>dc_media_type = [], dc_digest = []\<rparr>, pm_layers = [],
     pm_manifests = [\<lparr>dc_media_type = [], dc_digest = ''sha256:a''\<rparr>, \<lparr>dc_media_type = [], dc_digest = ''sha256:b''\<rparr>]\<rparr>"

definition aliasing_outcome :: "tables conn pod outcome" where
  "aliasing_outcome = \<lparr>oc_report_base_url = ''u'', oc_recorder = Some (\<lambda>d fs p. p), oc_tag_alias = Some write_alias,
     oc_id_gen = None, oc_metrics = None, oc_rand = (\<lambda>_ p. (Inr [], p)), oc_clock = (\<lambda>_. 0)\<rparr>"

lemma attested_tag_has_no_report_witness:
  "\<forall>h0. let tb = table_insert (row ''p1'' ''r'' ''sha256:a'' ''sha256:a'') empty_tables;
       p' = record_aliases (h0\<lparr>h_outcome := Some aliasing_outcome\<rparr>) ''r'' ''v1'' attested_index (world_of tb, empty_fs)
   in fetch_report (reader_source table_conn) ''r:v1'' p' = (Inr (no_header, []), p')"
proof
  fix h0 :: "tables conn handler"
  let ?tb = "table_insert (row ''p1'' ''r'' ''sha256:a'' ''sha256:a'') empty_tables"
  let ?h = "h0\<lparr>h_outcome := Some aliasing_outcome\<rparr>"
  have rec: "tag_alias_recorder ?h = Some write_alias" by (simp add: tag_alias_recorder_def aliasing_outcome_def)
  have m: "pm_manifests attested_index = [\<lparr>dc_media_type = [], dc_digest = ''sha256:a''\<rparr>,
      \<lparr>dc_media_type = [], dc_digest = ''sha256:b''\<rparr>]" by (simp add: attested_index_def)
  have tb: "tb_decisions (cn_db (world_of ?tb)) = [(1, row ''p1'' ''r'' ''sha256:a'' ''sha256:a'')]"
    "tb_aliases (cn_db (world_of ?tb)) = []" "cn_faults (world_of ?tb) = []"
    by (simp_all add: world_of_def table_insert_def empty_tables_def)
  have i: "split_image_ref ''r:v1'' = Some (''r'', ''v1'')" "\<not> has_prefix ''v1'' ''sha256:''" by code_simp+
  have d: "by_digest ''r'' ''sha256:a'' (row ''p1'' ''r'' ''sha256:a'' ''sha256:a'')"
    "\<not> by_digest ''r'' ''sha256:b'' (row ''p1'' ''r'' ''sha256:a'' ''sha256:a'')"
    "\<not> by_ref ''r'' ''v1'' (row ''p1'' ''r'' ''sha256:a'' ''sha256:a'')"
    by (simp_all add: by_digest_def by_ref_def row_def)
  show "let tb = ?tb; p' = record_aliases ?h ''r'' ''v1'' attested_index (world_of tb, empty_fs)
     in fetch_report (reader_source table_conn) ''r:v1'' p' = (Inr (no_header, []), p')"
    using attested_tag_has_no_report [OF rec tb(3) m, of 1 "row ''p1'' ''r'' ''sha256:a'' ''sha256:a''" "''r''" "''v1''" "''r:v1''" empty_fs]
      i d tb by auto
qed

end
