(* ===== verification/Config.thy ===== *)
theory Config
  imports Go_Parse
begin

text \<open>
  \<open>internal/config\<close>: the startup configuration, the defaults applied to it and the checks that
  reject it. A pointer of the YAML struct is an option (\<open>None\<close> for an omitted key). Reading the
  file, looking up the environment and unmarshalling YAML are parameters; the float64 rounding
  that \<open>time.ParseDuration\<close> does on fractions is the parameter \<open>rnd\<close>. A Go \<open>int\<close> that is only
  compared is an \<open>int\<close>; the byte-size arithmetic is on 64-bit words.
\<close>

section \<open>The configuration\<close>

record scan_cache_config =
  sc_enabled :: bool
  sc_max_db_age :: string

record grype_config =
  gc_severity_threshold :: string
  gc_enforce :: "bool option"
  gc_memory_limit :: string
  gc_scan_cache :: scan_cache_config

record base_image_config =
  bi_allowed_ids :: "string list"

record image_age_config =
  ia_enabled :: "bool option"
  ia_threshold_days :: int

record acr_config =
  ac_registry_template :: string
  ac_base_domain :: string

record tenant_auth_config =
  ta_issuer :: string
  ta_audience :: string
  ta_jwks_url :: string
  ta_tenant_id :: string

record tenant_config =
  tc_prefix :: string
  tc_acr_client_id :: string
  tc_auth :: tenant_auth_config
  tc_image_age :: "image_age_config option"

record auth_config =
  ah_service :: string
  ah_registry_token_secret :: string
  ah_registry_token_ttl :: string

record staging_config =
  sg_blob_conn_string :: string
  sg_blob_account_url :: string
  sg_blob_container :: string
  sg_valkey_addr :: string
  sg_scratch_dir :: string
  sg_scan_pool_size :: int
  sg_session_ttl :: string

record audit_config =
  ad_clickhouse_dsn :: string
  ad_queue_size :: int
  ad_retention_days :: int

record alerts_config =
  al_slack_webhook_url :: string
  al_environment :: string
  al_interval :: string
  al_recent_window :: string
  al_baseline_window :: string
  al_cooldown :: string
  al_killed_scan_threshold :: "64 word"
  al_max_novel_per_run :: int

record server_config =
  sv_addr :: string
  sv_metrics_addr :: string
  sv_dashboard_addr :: string
  sv_external_url :: string
  sv_max_upload_bytes :: int
  sv_upload_concurrency :: int
  sv_gate_timeout :: string
  sv_shutdown_timeout :: string

record config =
  cf_grype :: grype_config
  cf_base_image :: base_image_config
  cf_image_age :: image_age_config
  cf_acr :: acr_config
  cf_tenants :: "tenant_config list"
  cf_auth :: auth_config
  cf_staging :: staging_config
  cf_audit :: audit_config
  cf_alerts :: alerts_config
  cf_server :: server_config

section \<open>Byte sizes\<close>

definition binary_suffixes :: "(string \<times> int64) list" where
  "binary_suffixes = [(''ki'', 2 ^ 10), (''mi'', 2 ^ 20), (''gi'', 2 ^ 30), (''ti'', 2 ^ 40)]"

definition size_error :: "string \<Rightarrow> string \<Rightarrow> goerr" where
  "size_error s what = ErrMsg (''parse byte size '' @ fmt_q s @ '': '' @ what)"

definition scaled_size :: "string \<Rightarrow> string \<Rightarrow> int64 \<Rightarrow> int64 res" where
  "scaled_size s digits scale =
     (case parse_int64 (trim_space digits) of
        None \<Rightarrow> Inl (ErrWrap (''parse byte size '' @ fmt_q s @ '': '')
                  (ErrMsg (''strconv.ParseInt: parsing '' @ fmt_q (trim_space digits))) [])
      | Some n \<Rightarrow>
          (if sint n < 0 then Inl (size_error s ''must not be negative'')
           else if 2 ^ 62 div sint scale < sint n then Inl (size_error s ''overflows int64'')
           else Inr (n * scale)))"

fun suffixed_size :: "(string \<times> int64) list \<Rightarrow> string \<Rightarrow> string \<Rightarrow> int64 res option" where
  "suffixed_size [] s lower = None"
| "suffixed_size ((suffix, scale) # us) s lower =
     (if has_suffix lower suffix
      then Some (scaled_size s (take (length lower - length suffix) lower) scale)
      else suffixed_size us s lower)"

definition parse_byte_size :: "string \<Rightarrow> int64 res" where
  "parse_byte_size s0 =
     (let s = trim_space s0; lower = to_lower s in
      if s = [] then Inr 0
      else case suffixed_size binary_suffixes s lower of
        Some r \<Rightarrow> r
      | None \<Rightarrow>
          (case parse_int64 lower of
             None \<Rightarrow> Inl (size_error s ''want a byte count or a binary suffix (Ki, Mi, Gi, Ti)'')
           | Some n \<Rightarrow> (if sint n < 0 then Inl (size_error s ''must not be negative'') else Inr n)))"

definition memory_limit_bytes :: "grype_config \<Rightarrow> int64 res" where
  "memory_limit_bytes g =
     (case parse_byte_size (gc_memory_limit g) of
        Inl e \<Rightarrow> Inl (ErrWrap ''grype.memory_limit: '' e [])
      | Inr n \<Rightarrow> Inr n)"

section \<open>Defaults\<close>

definition default_max_db_age :: string where
  "default_max_db_age = ''24h''"

definition max_scan_cache_db_age :: duration where
  "max_scan_cache_db_age = 48 * hour"

definition max_db_age_duration :: "(real \<Rightarrow> real) \<Rightarrow> scan_cache_config \<Rightarrow> duration res" where
  "max_db_age_duration rnd s =
     (let v = (if sc_max_db_age s = [] then default_max_db_age else sc_max_db_age s) in
      case parse_duration rnd v of
        Inl e \<Rightarrow> Inl (ErrWrap (''grype.scan_cache.max_db_age '' @ fmt_q v
                   @ '' is not a duration (e.g. 24h, 90m): '') e [])
      | Inr d \<Rightarrow>
          (if d \<le> 0 then Inl (ErrMsg (''grype.scan_cache.max_db_age must be > 0, got '' @ v))
           else if max_scan_cache_db_age < d
           then Inl (ErrMsg (''grype.scan_cache.max_db_age '' @ v @ '' exceeds the ''
                   @ fmt_duration max_scan_cache_db_age
                   @ '' maximum; the vulnerability DB is rebuilt daily, so a longer window would ''
                   @ ''keep admitting images on a superseded feed''))
           else Inr d))"

definition tenant_registry :: "tenant_config \<Rightarrow> string \<Rightarrow> string" where
  "tenant_registry t template = replace_all ''{prefix}'' (tc_prefix t) template"

definition alerts_enabled :: "alerts_config \<Rightarrow> bool" where
  "alerts_enabled a \<longleftrightarrow> al_slack_webhook_url a \<noteq> []"

text \<open>The keys in the order the check sorts them into.\<close>

definition alert_durations :: "alerts_config \<Rightarrow> (string \<times> string) list" where
  "alert_durations a =
     [(''baseline_window'', al_baseline_window a), (''cooldown'', al_cooldown a),
      (''interval'', al_interval a), (''recent_window'', al_recent_window a)]"

definition or_default :: "string \<Rightarrow> string \<Rightarrow> string" where
  "or_default v d = (if v = [] then d else v)"

definition or_default_int :: "int \<Rightarrow> int \<Rightarrow> int" where
  "or_default_int v d = (if v = 0 then d else v)"

definition or_true :: "bool option \<Rightarrow> bool option" where
  "or_true b = (case b of None \<Rightarrow> Some True | Some v \<Rightarrow> Some v)"

definition apply_defaults :: "config \<Rightarrow> config" where
  "apply_defaults c = c\<lparr>
     cf_grype := (cf_grype c)\<lparr>
       gc_severity_threshold := or_default (gc_severity_threshold (cf_grype c)) ''CRITICAL'',
       gc_enforce := or_true (gc_enforce (cf_grype c)),
       gc_scan_cache := (gc_scan_cache (cf_grype c))\<lparr>
         sc_max_db_age := or_default (sc_max_db_age (gc_scan_cache (cf_grype c))) default_max_db_age\<rparr>\<rparr>,
     cf_image_age := (cf_image_age c)\<lparr>
       ia_threshold_days := or_default_int (ia_threshold_days (cf_image_age c)) 60,
       ia_enabled := or_true (ia_enabled (cf_image_age c))\<rparr>,
     cf_staging := (cf_staging c)\<lparr>
       sg_scan_pool_size := or_default_int (sg_scan_pool_size (cf_staging c)) 4,
       sg_session_ttl := or_default (sg_session_ttl (cf_staging c)) ''24h''\<rparr>,
     cf_audit := (cf_audit c)\<lparr>
       ad_queue_size := or_default_int (ad_queue_size (cf_audit c)) 1024,
       ad_retention_days := or_default_int (ad_retention_days (cf_audit c)) 30\<rparr>,
     cf_server := (cf_server c)\<lparr>
       sv_addr := or_default (sv_addr (cf_server c)) '':5000'',
       sv_metrics_addr := or_default (sv_metrics_addr (cf_server c)) '':9090'',
       sv_dashboard_addr := or_default (sv_dashboard_addr (cf_server c)) '':8080'',
       sv_max_upload_bytes := or_default_int (sv_max_upload_bytes (cf_server c)) (512 * 2 ^ 20),
       sv_upload_concurrency := or_default_int (sv_upload_concurrency (cf_server c)) 4,
       sv_gate_timeout := or_default (sv_gate_timeout (cf_server c)) ''5m'',
       sv_shutdown_timeout := or_default (sv_shutdown_timeout (cf_server c)) ''6m''\<rparr>,
     cf_auth := (cf_auth c)\<lparr>
       ah_service := or_default (ah_service (cf_auth c)) ''merlin'',
       ah_registry_token_ttl := or_default (ah_registry_token_ttl (cf_auth c)) ''5m''\<rparr>\<rparr>"

section \<open>Validation\<close>

definition valid_severities :: "string list" where
  "valid_severities = [''NEGLIGIBLE'', ''UNKNOWN'', ''LOW'', ''MEDIUM'', ''HIGH'', ''CRITICAL'']"

definition config_error :: "string \<Rightarrow> goerr" where
  "config_error m = ErrMsg (''config: '' @ m)"

definition tenant_label :: "nat \<Rightarrow> tenant_config \<Rightarrow> string" where
  "tenant_label i t = ''tenants['' @ fmt_nat i @ ''] ('' @ tc_prefix t @ '')''"

fun validate_tenants :: "nat \<Rightarrow> string list \<Rightarrow> tenant_config list \<Rightarrow> unit res" where
  "validate_tenants i seen [] = Inr ()"
| "validate_tenants i seen (t # ts) =
     (if tc_prefix t = [] then Inl (config_error (''tenants['' @ fmt_nat i @ ''].prefix is required''))
      else if tc_prefix t \<in> set seen
      then Inl (config_error (''duplicate tenant prefix '' @ fmt_q (tc_prefix t)))
      else if tc_acr_client_id t = []
      then Inl (config_error (tenant_label i t @ '' acr_client_id is required''))
      else if ta_issuer (tc_auth t) = [] \<or> ta_audience (tc_auth t) = []
           \<or> ta_jwks_url (tc_auth t) = [] \<or> ta_tenant_id (tc_auth t) = []
      then Inl (config_error (tenant_label i t
              @ '' auth block requires issuer, audience, jwks_url, tenant_id''))
      else validate_tenants (Suc i) (tc_prefix t # seen) ts)"

fun validate_tenant_ages :: "nat \<Rightarrow> tenant_config list \<Rightarrow> unit res" where
  "validate_tenant_ages i [] = Inr ()"
| "validate_tenant_ages i (t # ts) =
     (case tc_image_age t of
        Some a \<Rightarrow>
          (if ia_threshold_days a < 0
           then Inl (config_error (tenant_label i t @ '' image_age.threshold_days must be >= 0''))
           else validate_tenant_ages (Suc i) ts)
      | None \<Rightarrow> validate_tenant_ages (Suc i) ts)"

definition validate_scan_cache :: "(real \<Rightarrow> real) \<Rightarrow> config \<Rightarrow> unit res" where
  "validate_scan_cache rnd c =
     (if \<not> sc_enabled (gc_scan_cache (cf_grype c)) then Inr ()
      else case max_db_age_duration rnd (gc_scan_cache (cf_grype c)) of
        Inl e \<Rightarrow> Inl (ErrWrap ''config: '' e [])
      | Inr _ \<Rightarrow>
          (if sg_valkey_addr (cf_staging c) = []
           then Inl (config_error (''grype.scan_cache.enabled is true but staging.valkey_addr is ''
                  @ ''empty; the scan cache is shared across replicas''))
           else Inr ()))"

fun validate_durations :: "(real \<Rightarrow> real) \<Rightarrow> (string \<times> string) list \<Rightarrow> unit res" where
  "validate_durations rnd [] = Inr ()"
| "validate_durations rnd ((k, v) # kvs) =
     (if v = [] then validate_durations rnd kvs
      else case parse_duration rnd v of
        Inl e \<Rightarrow> Inl (ErrWrap (''config: alerts.'' @ k @ '' '' @ fmt_q v
                   @ '' is not a duration (e.g. 15m, 1h, 168h): '') e [])
      | Inr d \<Rightarrow> (if d \<le> 0 then Inl (config_error (''alerts.'' @ k @ '' must be > 0, got '' @ v))
                  else validate_durations rnd kvs))"

definition validate_alerts :: "(real \<Rightarrow> real) \<Rightarrow> config \<Rightarrow> unit res" where
  "validate_alerts rnd c =
     (if \<not> alerts_enabled (cf_alerts c) then Inr ()
      else if ad_clickhouse_dsn (cf_audit c) = []
      then Inl (config_error (''alerts.slack_webhook_url is set but audit.clickhouse_dsn is empty; ''
             @ ''the alerter reads the audit table''))
      else case validate_durations rnd (alert_durations (cf_alerts c)) of
        Inl e \<Rightarrow> Inl e
      | Inr _ \<Rightarrow> (if al_max_novel_per_run (cf_alerts c) < 0
                  then Inl (config_error ''alerts.max_novel_per_run must be >= 0'') else Inr ()))"

text \<open>The checks in the order the code makes them; the first one that fails is reported.\<close>

fun first_error :: "unit res list \<Rightarrow> unit res" where
  "first_error [] = Inr ()"
| "first_error (r # rs) = (case r of Inl e \<Rightarrow> Inl e | Inr _ \<Rightarrow> first_error rs)"

definition require :: "bool \<Rightarrow> string \<Rightarrow> unit res" where
  "require ok m = (if ok then Inr () else Inl (config_error m))"

definition validate :: "(real \<Rightarrow> real) \<Rightarrow> config \<Rightarrow> unit res" where
  "validate rnd c = first_error
     [require (ac_registry_template (cf_acr c) \<noteq> []) ''acr.registry_template is required'',
      require (str_contains (ac_registry_template (cf_acr c)) ''{prefix}'')
        ''acr.registry_template must contain {prefix}'',
      require (ac_base_domain (cf_acr c) \<noteq> []) ''acr.base_domain is required'',
      require (cf_tenants c \<noteq> []) ''at least one tenant is required'',
      validate_tenants 0 [] (cf_tenants c),
      require (bi_allowed_ids (cf_base_image c) \<noteq> []) ''base_image.allowed_ids must not be empty'',
      require (gc_severity_threshold (cf_grype c) \<in> set valid_severities)
        (''grype.severity_threshold '' @ fmt_q (gc_severity_threshold (cf_grype c))
          @ '' is not a valid severity (NEGLIGIBLE, UNKNOWN, LOW, MEDIUM, HIGH, CRITICAL)''),
      (case memory_limit_bytes (cf_grype c) of
         Inl e \<Rightarrow> Inl (ErrWrap ''config: '' e []) | Inr _ \<Rightarrow> Inr ()),
      require (0 \<le> ia_threshold_days (cf_image_age c)) ''image_age.threshold_days must be >= 0'',
      require (0 \<le> sv_upload_concurrency (cf_server c)) ''server.upload_concurrency must be >= 1'',
      require (0 \<le> sv_max_upload_bytes (cf_server c)) ''server.max_upload_bytes must be >= 0'',
      validate_tenant_ages 0 (cf_tenants c),
      validate_scan_cache rnd c,
      validate_alerts rnd c]"

section \<open>Loading\<close>

definition expand_env_strict :: "(string \<Rightarrow> string option) \<Rightarrow> string \<Rightarrow> string res" where
  "expand_env_strict env s =
     (let (out, names) = expand_vars (\<lambda>k. case env k of Some v \<Rightarrow> v | None \<Rightarrow> []) s;
          missing = filter (\<lambda>k. env k = None) names
      in if missing = [] then Inr out
         else Inl (ErrMsg (''unset config env var(s): '' @ str_join '', '' missing)))"

definition load ::
  "(real \<Rightarrow> real) \<Rightarrow> (string \<Rightarrow> string res) \<Rightarrow> (string \<Rightarrow> string option) \<Rightarrow> (string \<Rightarrow> config res)
   \<Rightarrow> string \<Rightarrow> config res" where
  "load rnd readfile env unmarshal path =
     (case readfile path of
        Inl e \<Rightarrow> Inl (ErrWrap ''read config: '' e [])
      | Inr raw \<Rightarrow>
          (case expand_env_strict env raw of
             Inl e \<Rightarrow> Inl (ErrWrap ''expand config env: '' e [])
           | Inr text \<Rightarrow>
               (case unmarshal text of
                  Inl e \<Rightarrow> Inl (ErrWrap ''parse config: '' e [])
                | Inr c \<Rightarrow>
                    (case validate rnd (apply_defaults c) of
                       Inl e \<Rightarrow> Inl e
                     | Inr _ \<Rightarrow> Inr (apply_defaults c)))))"

end
