(* ===== verification/Config_Laws.thy ===== *)
theory Config_Laws
  imports Config Grype_Policy
begin

text \<open>
  What a configuration that loaded is guaranteed to satisfy, and that a byte size is read exactly.
\<close>

section \<open>Byte sizes\<close>

lemma sint_pow2:
  "sint ((2::int64) ^ 10) = 2 ^ 10" "sint ((2::int64) ^ 20) = 2 ^ 20"
  "sint ((2::int64) ^ 30) = 2 ^ 30" "sint ((2::int64) ^ 40) = 2 ^ 40"
  by simp_all

lemma sint_small: "- (2 ^ 63) \<le> i \<Longrightarrow> i < 2 ^ 63 \<Longrightarrow> sint (word_of_int i :: int64) = i"
  by (simp add: sint_sbintrunc' signed_take_bit_int_eq_self)

lemma parse_int64_sint: "parse_int64 s = Some n \<Longrightarrow> parse_int s = Some (sint n)"
  by (auto simp: parse_int64_def sint_small split: option.splits if_splits)

lemma scaled_size_exact:
  assumes "scaled_size s digits scale = Inr n" and "0 < sint scale"
  shows "\<exists>k. parse_int (trim_space digits) = Some k \<and> 0 \<le> k \<and> sint n = k * sint scale
       \<and> sint n \<le> 2 ^ 62"
proof -
  from assms(1) obtain m where m: "parse_int64 (trim_space digits) = Some m" "0 \<le> sint m"
    "sint m \<le> 2 ^ 62 div sint scale" "n = m * scale"
    by (auto simp: scaled_size_def split: option.splits if_splits)
  from m(3) assms(2) have le: "sint m * sint scale \<le> 2 ^ 62"
  proof -
    have "sint m * sint scale \<le> (2 ^ 62 div sint scale) * sint scale"
      using m(3) assms(2) by (intro mult_right_mono) simp_all
    also have "\<dots> \<le> 2 ^ 62"
      using assms(2) by (simp add: minus_mod_eq_div_mult [symmetric])
    finally show ?thesis .
  qed
  have "0 \<le> sint m * sint scale" using m(2) assms(2) by simp
  with le have "sint (m * scale) = sint m * sint scale"
    using sint_small [of "sint m * sint scale"] by simp
  with m le parse_int64_sint [OF m(1)] show ?thesis by auto
qed

lemma has_suffix_two: "has_suffix (d @ [a, b]) [x, y] \<longleftrightarrow> a = x \<and> b = y"
  by (simp add: has_suffix_def)

text \<open>The binary units, as they may be written, with their exponents.\<close>

definition unit_exponents :: "(string \<times> nat) list" where
  "unit_exponents = [(''Ki'', 10), (''Mi'', 20), (''Gi'', 30), (''Ti'', 40)]"

lemma lower_units:
  "to_lower ''Ki'' = ''ki''" "to_lower ''Mi'' = ''mi''" "to_lower ''Gi'' = ''gi''" "to_lower ''Ti'' = ''ti''"
  by code_simp+

lemma suffixed_size_unit:
  assumes "(u, e) \<in> set unit_exponents"
  shows "suffixed_size binary_suffixes s (fmt_nat k @ to_lower u) = Some (scaled_size s (fmt_nat k) (2 ^ e))"
  using assms
  by (auto simp: unit_exponents_def binary_suffixes_def has_suffix_two lower_units
      simp del: to_lower_Cons)

lemma fmt_nat_ends [simp]: "\<not> is_space (hd (fmt_nat k))" "\<not> is_space (last (fmt_nat k))"
  using fmt_nat_digits [of "hd (fmt_nat k)" k] fmt_nat_digits [of "last (fmt_nat k)" k] digit_not_space
  by simp_all

lemma scaled_size_fmt:
  assumes "e \<in> {10, 20, 30, 40}"
  shows "(\<exists>n. scaled_size s (fmt_nat k) (2 ^ e) = Inr n \<and> sint n = int k * 2 ^ e)
           \<longleftrightarrow> int k * 2 ^ e \<le> 2 ^ 62" (is "?l \<longleftrightarrow> ?r")
proof -
  have trim: "trim_space (fmt_nat k) = fmt_nat k"
    by (rule trim_space_id) simp
  have e: "sint ((2::int64) ^ e) = 2 ^ e" using assms sint_pow2 by auto
  have parsed: "parse_int (fmt_nat k) = Some (int k)"
    using parse_fmt_int [of "int k"] by (simp add: fmt_int_def)
  show ?thesis
  proof
    assume ?l
    then obtain n where "scaled_size s (fmt_nat k) (2 ^ e) = Inr n" "sint n = int k * 2 ^ e" by blast
    with scaled_size_exact [of s "fmt_nat k" "2 ^ e" n] e show ?r by simp
  next
    assume r: ?r
    have "int k * 1 \<le> int k * 2 ^ e" by (intro mult_left_mono) simp_all
    with r have "int k < 2 ^ 63" by simp
    then have "parse_int64 (fmt_nat k) = Some (word_of_int (int k))"
      "sint (word_of_int (int k) :: int64) = int k"
      using sint_small [of "int k"] by (simp_all add: parse_int64_def parsed)
    moreover have "int k \<le> 2 ^ 62 div 2 ^ e"
      using r by (simp add: zdiv_mono1 [of "int k * 2 ^ e" "2 ^ 62" "2 ^ e", simplified])
    ultimately have "scaled_size s (fmt_nat k) (2 ^ e) = Inr (word_of_int (int k) * 2 ^ e)"
      by (simp add: scaled_size_def trim e)
    moreover obtain j where "parse_int (trim_space (fmt_nat k)) = Some j"
      "sint (word_of_int (int k) * 2 ^ e :: int64) = j * sint ((2::int64) ^ e)"
      using scaled_size_exact [OF calculation] e by auto
    ultimately show ?l by (auto simp: trim parsed e)
  qed
qed

lemma written_size:
  assumes "(u, e) \<in> set unit_exponents"
  shows "(\<exists>n. parse_byte_size (fmt_nat k @ u) = Inr n \<and> sint n = int k * 2 ^ e)
           \<longleftrightarrow> int k * 2 ^ e \<le> 2 ^ 62"
proof -
  have "trim_space (fmt_nat k @ u) = fmt_nat k @ u"
    using assms by (intro trim_space_id)
      (auto simp: unit_exponents_def, simp_all add: is_space_def)
  then have "parse_byte_size (fmt_nat k @ u) = scaled_size (fmt_nat k @ u) (fmt_nat k) (2 ^ e)"
    by (simp add: parse_byte_size_def Let_def suffixed_size_unit [OF assms])
  moreover have "e \<in> {10, 20, 30, 40}" using assms by (auto simp: unit_exponents_def)
  ultimately show ?thesis by (simp add: scaled_size_fmt)
qed

text \<open>Whatever size is accepted, it is the number the text names.\<close>

definition names_size :: "string \<Rightarrow> int \<Rightarrow> bool" where
  "names_size s v \<longleftrightarrow>
     trim_space s = [] \<and> v = 0
   \<or> parse_int (to_lower (trim_space s)) = Some v
   \<or> (\<exists>u e digits k. (u, e) \<in> set unit_exponents
        \<and> to_lower (trim_space s) = digits @ to_lower u \<and> parse_int (trim_space digits) = Some k
        \<and> v = k * 2 ^ e)"

lemma suffixed_size_names:
  assumes "suffixed_size us s lower = Some (Inr n)" and "\<forall>(u, sc) \<in> set us. 0 < sint sc"
  shows "\<exists>u sc digits k. (u, sc) \<in> set us \<and> lower = digits @ u
       \<and> parse_int (trim_space digits) = Some k \<and> 0 \<le> k \<and> sint n = k * sint sc"
  using assms
proof (induction us s lower rule: suffixed_size.induct)
  case (2 suffix scale us s lower)
  show ?case
  proof (cases "has_suffix lower suffix")
    case True
    then obtain d where d: "lower = d @ suffix" by (auto simp: has_suffix_iff)
    with 2(2) have "scaled_size s d scale = Inr n" by simp
    from scaled_size_exact [OF this] 2(3) d show ?thesis by auto
  next
    case False
    with 2 show ?thesis by auto
  qed
qed simp

lemma binary_suffix_exponent:
  assumes "(u, sc) \<in> set binary_suffixes"
  shows "\<exists>v e. (v, e) \<in> set unit_exponents \<and> u = to_lower v \<and> sint sc = 2 ^ e"
proof -
  consider "(u, sc) = (''ki'', 2 ^ 10)" | "(u, sc) = (''mi'', 2 ^ 20)" | "(u, sc) = (''gi'', 2 ^ 30)"
    | "(u, sc) = (''ti'', 2 ^ 40)" using assms unfolding binary_suffixes_def by auto
  then show ?thesis
  proof cases
    case 1
    then show ?thesis by (intro exI [of _ "''Ki''"] exI [of _ 10])
        (simp add: unit_exponents_def lower_units del: to_lower_Cons)
  next
    case 2
    then show ?thesis by (intro exI [of _ "''Mi''"] exI [of _ 20])
        (simp add: unit_exponents_def lower_units del: to_lower_Cons)
  next
    case 3
    then show ?thesis by (intro exI [of _ "''Gi''"] exI [of _ 30])
        (simp add: unit_exponents_def lower_units del: to_lower_Cons)
  next
    case 4
    then show ?thesis by (intro exI [of _ "''Ti''"] exI [of _ 40])
        (simp add: unit_exponents_def lower_units del: to_lower_Cons)
  qed
qed

lemma parsed_size:
  assumes "parse_byte_size s = Inr n"
  shows "0 \<le> sint n \<and> names_size s (sint n)"
proof (cases "trim_space s = []")
  case True
  with assms show ?thesis by (simp add: parse_byte_size_def names_size_def)
next
  case False
  show ?thesis
  proof (cases "suffixed_size binary_suffixes (trim_space s) (to_lower (trim_space s))")
    case None
    with False assms show ?thesis
      by (auto simp: parse_byte_size_def names_size_def Let_def dest: parse_int64_sint
          split: option.splits if_splits)
  next
    case (Some r)
    with False assms have "suffixed_size binary_suffixes (trim_space s) (to_lower (trim_space s)) = Some (Inr n)"
      by (simp add: parse_byte_size_def Let_def)
    moreover have "\<forall>(u, sc) \<in> set binary_suffixes. 0 < sint sc"
      by (simp add: binary_suffixes_def)
    ultimately have "\<exists>u sc digits k. (u, sc) \<in> set binary_suffixes \<and> to_lower (trim_space s) = digits @ u
       \<and> parse_int (trim_space digits) = Some k \<and> 0 \<le> k \<and> sint n = k * sint sc"
      by (rule suffixed_size_names)
    then obtain u sc digits k where x: "(u, sc) \<in> set binary_suffixes" "to_lower (trim_space s) = digits @ u"
      "parse_int (trim_space digits) = Some k" "0 \<le> k" "sint n = k * sint sc"
      by blast
    from x(1) obtain v e where "(v, e) \<in> set unit_exponents" "u = to_lower v" "sint sc = 2 ^ e"
      using binary_suffix_exponent by blast
    with x have "names_size s (sint n)" unfolding names_size_def by metis
    moreover have "0 \<le> sint n" using x(4,5) \<open>sint sc = 2 ^ e\<close> by simp
    ultimately show ?thesis by simp
  qed
qed

section \<open>What loading guarantees\<close>

definition complete_tenant :: "tenant_config \<Rightarrow> bool" where
  "complete_tenant t \<longleftrightarrow> tc_prefix t \<noteq> [] \<and> tc_acr_client_id t \<noteq> []
     \<and> ta_issuer (tc_auth t) \<noteq> [] \<and> ta_audience (tc_auth t) \<noteq> []
     \<and> ta_jwks_url (tc_auth t) \<noteq> [] \<and> ta_tenant_id (tc_auth t) \<noteq> []
     \<and> (case tc_image_age t of None \<Rightarrow> True | Some a \<Rightarrow> 0 \<le> ia_threshold_days a)"

definition good_duration :: "(real \<Rightarrow> real) \<Rightarrow> string \<Rightarrow> bool" where
  "good_duration rnd v \<longleftrightarrow> v = [] \<or> (case parse_duration rnd v of Inl _ \<Rightarrow> False | Inr d \<Rightarrow> 0 < d)"

definition scan_cache_ok :: "(real \<Rightarrow> real) \<Rightarrow> config \<Rightarrow> bool" where
  "scan_cache_ok rnd c \<longleftrightarrow> sg_valkey_addr (cf_staging c) \<noteq> []
     \<and> (case max_db_age_duration rnd (gc_scan_cache (cf_grype c)) of
          Inl _ \<Rightarrow> False | Inr d \<Rightarrow> 0 < d \<and> d \<le> 48 * hour)"

definition alerts_ok :: "(real \<Rightarrow> real) \<Rightarrow> config \<Rightarrow> bool" where
  "alerts_ok rnd c \<longleftrightarrow> ad_clickhouse_dsn (cf_audit c) \<noteq> []
     \<and> list_all (\<lambda>(k, v). good_duration rnd v) (alert_durations (cf_alerts c))
     \<and> 0 \<le> al_max_novel_per_run (cf_alerts c)"

definition well_formed_config :: "(real \<Rightarrow> real) \<Rightarrow> config \<Rightarrow> bool" where
  "well_formed_config rnd c \<longleftrightarrow>
     str_contains (ac_registry_template (cf_acr c)) ''{prefix}'' \<and> ac_base_domain (cf_acr c) \<noteq> []
   \<and> cf_tenants c \<noteq> [] \<and> distinct (map tc_prefix (cf_tenants c)) \<and> list_all complete_tenant (cf_tenants c)
   \<and> bi_allowed_ids (cf_base_image c) \<noteq> []
   \<and> severity_rank (gc_severity_threshold (cf_grype c)) \<noteq> None \<and> gc_enforce (cf_grype c) \<noteq> None
   \<and> (case memory_limit_bytes (cf_grype c) of Inl _ \<Rightarrow> False | Inr n \<Rightarrow> 0 \<le> sint n)
   \<and> 0 < ia_threshold_days (cf_image_age c) \<and> ia_enabled (cf_image_age c) \<noteq> None
   \<and> 0 < sv_upload_concurrency (cf_server c) \<and> 0 < sv_max_upload_bytes (cf_server c)
   \<and> (if sc_enabled (gc_scan_cache (cf_grype c)) then scan_cache_ok rnd c else True)
   \<and> (if alerts_enabled (cf_alerts c) then alerts_ok rnd c else True)
   \<and> sg_scan_pool_size (cf_staging c) \<noteq> 0 \<and> ad_queue_size (cf_audit c) \<noteq> 0
   \<and> [] \<notin> {sg_session_ttl (cf_staging c), sv_addr (cf_server c), sv_metrics_addr (cf_server c),
           sv_dashboard_addr (cf_server c), sv_gate_timeout (cf_server c),
           sv_shutdown_timeout (cf_server c), ah_service (cf_auth c), ah_registry_token_ttl (cf_auth c)}"

lemma require_ok [simp]: "require ok m = Inr u \<longleftrightarrow> ok"
  by (simp add: require_def)

lemma first_error_ok [simp]: "first_error (r # rs) = Inr u \<longleftrightarrow> (\<exists>v. r = Inr v) \<and> first_error rs = Inr u"
  by (cases r) simp_all

lemma validate_tenants_ok:
  "validate_tenants i seen ts = Inr u \<Longrightarrow>
   distinct (map tc_prefix ts) \<and> set (map tc_prefix ts) \<inter> set seen = {}
   \<and> (\<forall>t \<in> set ts. tc_prefix t \<noteq> [] \<and> tc_acr_client_id t \<noteq> [] \<and> ta_issuer (tc_auth t) \<noteq> []
        \<and> ta_audience (tc_auth t) \<noteq> [] \<and> ta_jwks_url (tc_auth t) \<noteq> [] \<and> ta_tenant_id (tc_auth t) \<noteq> [])"
proof (induction i seen ts rule: validate_tenants.induct)
  case (2 i seen t ts)
  from 2(2) have t: "tc_prefix t \<noteq> []" "tc_prefix t \<notin> set seen" "tc_acr_client_id t \<noteq> []"
    "ta_issuer (tc_auth t) \<noteq> []" "ta_audience (tc_auth t) \<noteq> []" "ta_jwks_url (tc_auth t) \<noteq> []"
    "ta_tenant_id (tc_auth t) \<noteq> []" "validate_tenants (Suc i) (tc_prefix t # seen) ts = Inr u"
    by (simp_all split: if_splits)
  from 2(1) [OF t(1,2,3) _ t(8)] t show ?case by auto
qed simp

lemma validate_tenant_ages_ok:
  "validate_tenant_ages i ts = Inr u \<Longrightarrow> t \<in> set ts \<Longrightarrow> tc_image_age t = Some a \<Longrightarrow> 0 \<le> ia_threshold_days a"
  by (induction i ts rule: validate_tenant_ages.induct) (auto split: option.splits if_splits)

lemma validated_tenants:
  "validate_tenants 0 [] ts = Inr u \<Longrightarrow> validate_tenant_ages 0 ts = Inr v \<Longrightarrow>
   distinct (map tc_prefix ts) \<and> list_all complete_tenant ts"
  using validate_tenants_ok [of 0 "[]" ts u] validate_tenant_ages_ok [of 0 ts v]
  by (auto simp: list_all_iff complete_tenant_def split: option.split)

lemma validate_durations_ok:
  "validate_durations rnd kvs = Inr u \<Longrightarrow> list_all (\<lambda>(k, v). good_duration rnd v) kvs"
  by (induction rnd kvs rule: validate_durations.induct)
    (auto simp: good_duration_def split: if_splits sum.splits)

lemma validate_scan_cache_ok:
  "validate_scan_cache rnd c = Inr u \<Longrightarrow> sc_enabled (gc_scan_cache (cf_grype c)) \<Longrightarrow> scan_cache_ok rnd c"
  by (auto simp: validate_scan_cache_def scan_cache_ok_def max_db_age_duration_def Let_def
      max_scan_cache_db_age_def split: sum.splits if_splits)

lemma validate_alerts_ok:
  "validate_alerts rnd c = Inr u \<Longrightarrow> alerts_enabled (cf_alerts c) \<Longrightarrow> alerts_ok rnd c"
  by (auto simp: validate_alerts_def alerts_ok_def dest: validate_durations_ok split: sum.splits if_splits)

lemma valid_severity_ranked: "s \<in> set valid_severities \<Longrightarrow> severity_rank s \<noteq> None"
proof -
  have "list_all (\<lambda>s. severity_rank s \<noteq> None) valid_severities" by code_simp
  then show "s \<in> set valid_severities \<Longrightarrow> severity_rank s \<noteq> None" unfolding list_all_iff by (rule bspec)
qed

lemma validated_memory:
  "(case memory_limit_bytes g of Inl e \<Rightarrow> Inl (ErrWrap m e []) | Inr _ \<Rightarrow> Inr ()) = (Inr v :: unit res) \<Longrightarrow>
   (case memory_limit_bytes g of Inl _ \<Rightarrow> False | Inr n \<Rightarrow> 0 \<le> sint n)"
  by (auto simp: memory_limit_bytes_def dest: parsed_size split: sum.splits)

lemma load_ok:
  assumes "load rnd readfile env unmarshal path = Inr c"
  obtains raw body c0 where "readfile path = Inr raw" "expand_env_strict env raw = Inr body"
    "unmarshal body = Inr c0" "c = apply_defaults c0" "validate rnd c = Inr ()"
  using assms by (auto simp: load_def split: sum.splits)

lemma validated_well_formed:
  assumes "validate rnd (apply_defaults c0) = Inr u"
  shows "well_formed_config rnd (apply_defaults c0)"
proof -
  let ?c = "apply_defaults c0"
  note v = assms [unfolded validate_def first_error_ok require_ok]
  have "ia_threshold_days (cf_image_age ?c) \<noteq> 0" "sv_upload_concurrency (cf_server ?c) \<noteq> 0"
    "sv_max_upload_bytes (cf_server ?c) \<noteq> 0" "sg_scan_pool_size (cf_staging ?c) \<noteq> 0"
    "ad_queue_size (cf_audit ?c) \<noteq> 0" "gc_enforce (cf_grype ?c) \<noteq> None"
    "ia_enabled (cf_image_age ?c) \<noteq> None"
    "[] \<notin> {sg_session_ttl (cf_staging ?c), sv_addr (cf_server ?c), sv_metrics_addr (cf_server ?c),
           sv_dashboard_addr (cf_server ?c), sv_gate_timeout (cf_server ?c),
           sv_shutdown_timeout (cf_server ?c), ah_service (cf_auth ?c), ah_registry_token_ttl (cf_auth ?c)}"
    by (auto simp: apply_defaults_def or_default_def or_default_int_def or_true_def
        split: option.splits if_splits)
  then show ?thesis
    using v validated_tenants [of "cf_tenants ?c"] validate_scan_cache_ok [of rnd ?c]
      validate_alerts_ok [of rnd ?c] valid_severity_ranked validated_memory [of "''config: ''" "cf_grype ?c"]
    unfolding well_formed_config_def by force
qed

lemma apply_defaults_idem: "apply_defaults (apply_defaults c) = apply_defaults c"
  by (simp add: apply_defaults_def or_default_def or_default_int_def or_true_def split: option.split)

lemma expand_env_all_set:
  assumes "expand_env_strict env raw = Inr out" and "k \<in> set (snd (expand_vars f raw))"
  shows "env k \<noteq> None"
proof -
  let ?g = "\<lambda>k. case env k of Some v \<Rightarrow> v | None \<Rightarrow> []"
  have "filter (\<lambda>k. env k = None) (snd (expand_vars ?g raw)) = []"
    using assms(1) by (auto simp: expand_env_strict_def Let_def split: prod.splits if_splits)
  with assms(2) expand_vars_names [of f raw ?g] show ?thesis by (simp add: filter_empty_conv)
qed

section \<open>Properties\<close>

text \<open>
  C17: A configuration that loads is well-formed: the registry template has its placeholder, there
  is at least one tenant, prefixes are unique and every tenant is complete, the severity threshold
  is one the scan policy ranks (so it is never the absent rank 0), enforcement is decided, the
  memory limit and the upload limits are not negative, the scan cache, when it is enabled, has an
  address and a window of at most 48 hours, the alerter, when it is enabled, has an audit store
  and positive durations, and no setting with a default is left empty. Loading is a fixed point:
  the result keeps its defaults and validates again. Every environment variable that the file
  names was set.
\<close>

theorem loaded_config_well_formed:
  assumes "load rnd readfile env unmarshal path = Inr c"
  shows "well_formed_config rnd c \<and> apply_defaults c = c \<and> validate rnd c = Inr ()
    \<and> (\<exists>raw. readfile path = Inr raw
         \<and> (\<forall>k \<in> set (snd (expand_vars (\<lambda>_. []) raw)). env k \<noteq> None))"
proof -
  from load_ok [OF assms] obtain raw body c0 where l: "readfile path = Inr raw"
    "expand_env_strict env raw = Inr body" "c = apply_defaults c0" "validate rnd c = Inr ()" by metis
  show ?thesis
    using l validated_well_formed [of rnd c0] expand_env_all_set [OF l(2)]
    by (auto simp: apply_defaults_idem)
qed

definition sample_tenant_config :: tenant_config where
  "sample_tenant_config = \<lparr>tc_prefix = ''team'', tc_acr_client_id = ''client'',
     tc_auth = \<lparr>ta_issuer = ''https://issuer'', ta_audience = ''api://merlin'',
       ta_jwks_url = ''https://issuer/keys'', ta_tenant_id = ''t1''\<rparr>, tc_image_age = None\<rparr>"

definition sample_config :: config where
  "sample_config = \<lparr>
     cf_grype = \<lparr>gc_severity_threshold = ''HIGH'', gc_enforce = None, gc_memory_limit = ''2Gi'',
       gc_scan_cache = \<lparr>sc_enabled = True, sc_max_db_age = ''36h''\<rparr>\<rparr>,
     cf_base_image = \<lparr>bi_allowed_ids = [''debian'']\<rparr>,
     cf_image_age = \<lparr>ia_enabled = None, ia_threshold_days = 0\<rparr>,
     cf_acr = \<lparr>ac_registry_template = ''{prefix}.azurecr.io'', ac_base_domain = ''merlin.dev''\<rparr>,
     cf_tenants = [sample_tenant_config],
     cf_auth = \<lparr>ah_service = [], ah_registry_token_secret = ''s'', ah_registry_token_ttl = []\<rparr>,
     cf_staging = \<lparr>sg_blob_conn_string = [], sg_blob_account_url = [], sg_blob_container = [],
       sg_valkey_addr = ''valkey:6379'', sg_scratch_dir = [], sg_scan_pool_size = 0, sg_session_ttl = []\<rparr>,
     cf_audit = \<lparr>ad_clickhouse_dsn = ''clickhouse://db'', ad_queue_size = 0, ad_retention_days = 0\<rparr>,
     cf_alerts = \<lparr>al_slack_webhook_url = ''https://hooks'', al_environment = [], al_interval = ''15m'',
       al_recent_window = [], al_baseline_window = [], al_cooldown = ''1h'',
       al_killed_scan_threshold = 0, al_max_novel_per_run = 0\<rparr>,
     cf_server = \<lparr>sv_addr = [], sv_metrics_addr = [], sv_dashboard_addr = [], sv_external_url = [],
       sv_max_upload_bytes = 0, sv_upload_concurrency = 0, sv_gate_timeout = [], sv_shutdown_timeout = []\<rparr>\<rparr>"

lemma sample_durations:
  "parse_duration (\<lambda>x. x) ''36h'' = Inr (36 * hour)"
  "parse_duration (\<lambda>x. x) ''15m'' = Inr (15 * minute)"
  "parse_duration (\<lambda>x. x) ''1h'' = Inr hour"
  by (simp_all add: duration_eval duration_units)

lemma sample_size: "trim_space ''2Gi'' = ''2Gi''" "to_lower ''2Gi'' = ''2gi''" "trim_space ''2'' = ''2''"
  by code_simp+

lemma sample_memory: "parse_byte_size ''2Gi'' = Inr (2 ^ 31)"
  by (simp add: parse_byte_size_def sample_size binary_suffixes_def has_suffix_def scaled_size_def
      parse_int64_def parse_int_def parse_nat_def add_digit_def digit_val_def Let_def
      del: to_lower_Cons)

lemma sample_config_valid: "validate (\<lambda>x. x) (apply_defaults sample_config) = Inr ()"
  by (simp add: validate_def apply_defaults_def sample_config_def sample_tenant_config_def or_default_def
      or_default_int_def or_true_def str_contains_def valid_severities_def memory_limit_bytes_def
      sample_memory validate_scan_cache_def max_db_age_duration_def sample_durations
      max_scan_cache_db_age_def duration_units require_def validate_alerts_def alerts_enabled_def alert_durations_def
      del: to_lower_Cons)

theorem loaded_config_well_formed_witness:
  "well_formed_config (\<lambda>x. x) (apply_defaults sample_config)"
  using loaded_config_well_formed
    [of "\<lambda>x. x" "\<lambda>_. Inr ''dsn: $DSN''" "\<lambda>_. Some ''x''" "\<lambda>_. Inr sample_config" "''merlin.yaml''"
        "apply_defaults sample_config"]
  by (simp add: load_def expand_env_strict_def sample_config_valid split: prod.split)

text \<open>
  A byte size is read exactly or rejected. What is accepted is the number the text names,
  times its unit, as an integer: the 64-bit product never wraps. A whole number with a binary unit
  is accepted iff its value is at most \<open>2 ^ 62\<close>, in whatever unit it is written.
\<close>

theorem byte_size_exact:
  "(case parse_byte_size s of Inl _ \<Rightarrow> True | Inr n \<Rightarrow> 0 \<le> sint n \<and> names_size s (sint n))
   \<and> list_all (\<lambda>(u, e). (\<exists>n. parse_byte_size (fmt_nat k @ u) = Inr n \<and> sint n = int k * 2 ^ e)
        = (int k * 2 ^ e \<le> 2 ^ 62)) unit_exponents"
proof -
  have "list_all (\<lambda>(u, e). (\<exists>n. parse_byte_size (fmt_nat k @ u) = Inr n \<and> sint n = int k * 2 ^ e)
        = (int k * 2 ^ e \<le> 2 ^ 62)) unit_exponents"
    unfolding list_all_iff by (rule ballI) (simp only: case_prod_beta written_size prod.collapse)
  then show ?thesis using parsed_size [of s] by (cases "parse_byte_size s") simp_all
qed

end
