(* ===== verification/App_Wiring.thy ===== *)
theory App_Wiring
  imports Config_Laws Base_Image Tenants Gate_Router Docker_Handler "HOL-Library.AList"
begin

text \<open>
  \<open>internal/app\<close>, the composition root: how a loaded configuration becomes tenants, a policy
  engine and the ingress handler. What the constructors of other packages need from outside (the
  JWKS key functions, the ACR push client, the scanner process, the host's files, the clock) are
  fields of the records \<open>auth_env\<close> and \<open>scan_env\<close>. Log lines are left out.
\<close>

section \<open>The checks before any client is built\<close>

definition production_error :: "string \<Rightarrow> goerr" where
  "production_error f = ErrMsg (''production config: '' @ f)"

definition validate_production_config :: "config \<Rightarrow> goerr option" where
  "validate_production_config c =
     (if ac_registry_template (cf_acr c) = [] then Some (production_error ''ACR.RegistryTemplate is required'')
      else if ac_base_domain (cf_acr c) = [] then Some (production_error ''ACR.BaseDomain is required'')
      else if cf_tenants c = [] then Some (production_error ''at least one tenant is required'')
      else if ah_registry_token_secret (cf_auth c) = []
      then Some (production_error ''Auth.RegistryTokenSecret is required'')
      else if sv_external_url (cf_server c) = [] then Some (production_error ''Server.ExternalURL is required'')
      else if sg_blob_account_url (cf_staging c) = []
      then Some (production_error ''Staging.BlobAccountURL is required'')
      else if sg_valkey_addr (cf_staging c) = [] then Some (production_error ''Staging.ValkeyAddr is required'')
      else if ad_clickhouse_dsn (cf_audit c) = []
      then Some (production_error ''Audit.ClickHouseDSN is required'')
      else None)"

section \<open>Tenants and tokens\<close>

text \<open>
  \<open>ae_keyfunc\<close> is the JWT library with the keys of a JWKS URL, \<open>ae_pusher\<close> the push client for a
  registry and an identity, \<open>ae_entra\<close> the HTTP side of the client-credentials check.
\<close>

record 'w auth_env =
  ae_keyfunc :: "string \<Rightarrow> jwt_lib res"
  ae_pusher :: "string \<Rightarrow> string \<Rightarrow> 'w pusher res"
  ae_entra :: "'w entra_credentials"
  ae_token_lib :: jwt_lib
  ae_clock :: "'w \<Rightarrow> gotime"

record 'w auth_components =
  at_tenants :: "string \<Rightarrow> 'w tenant option"
  at_resolver :: "'w tenant static_resolver"
  at_issuer :: registry_issuer
  at_client_creds :: "'w entra_credentials"

text \<open>The authenticator of a tenant, bound to its issuer, audience and keys.\<close>

definition tenant_authn :: "jwt_lib \<Rightarrow> ('w \<Rightarrow> gotime) \<Rightarrow> tenant_config \<Rightarrow> string \<Rightarrow> 'w \<Rightarrow> string res \<times> 'w" where
  "tenant_authn lib clk tc tok w =
     (jwt_validate lib (new_jwt_authenticator (ta_issuer (tc_auth tc)) (ta_audience (tc_auth tc)))
        (clk w) tok, w)"

fun build_tenants ::
  "'w auth_env \<Rightarrow> string \<Rightarrow> tenant_config list \<Rightarrow> (string \<Rightarrow> 'w tenant option)
   \<Rightarrow> (string \<Rightarrow> 'w tenant option) res" where
  "build_tenants env template [] m = Inr m"
| "build_tenants env template (tc # tcs) m =
     (let registry = tenant_registry tc template in
      case ae_keyfunc env (ta_jwks_url (tc_auth tc)) of
        Inl e \<Rightarrow> Inl (ErrWrap (''tenant '' @ tc_prefix tc @ '': JWKS keyfunc: '') e [])
      | Inr lib \<Rightarrow>
          (case ae_pusher env registry (tc_acr_client_id tc) of
             Inl e \<Rightarrow> Inl (ErrWrap (''tenant '' @ tc_prefix tc @ '': ACR pusher: '') e [])
           | Inr pusher \<Rightarrow>
               build_tenants env template tcs
                 (m(tc_prefix tc \<mapsto>
                    \<lparr>tn_prefix = tc_prefix tc, tn_registry = registry, tn_pusher = pusher,
                     tn_authn = tenant_authn lib (ae_clock env) tc\<rparr>))))"

definition build_auth ::
  "(real \<Rightarrow> real) \<Rightarrow> 'w auth_env \<Rightarrow> config \<Rightarrow> 'w auth_components res" where
  "build_auth rnd env c =
     (case build_tenants env (ac_registry_template (cf_acr c)) (cf_tenants c) Map.empty of
        Inl e \<Rightarrow> Inl e
      | Inr tenants \<Rightarrow>
          (case parse_duration rnd (ah_registry_token_ttl (cf_auth c)) of
             Inl e \<Rightarrow> Inl (ErrWrap ''parse registry_token_ttl: '' e [])
           | Inr ttl \<Rightarrow>
               (let first = tc_auth (hd (cf_tenants c)) in
                Inr \<lparr>at_tenants = tenants,
                     at_resolver = new_static_resolver (ac_base_domain (cf_acr c)) tenants,
                     at_issuer = \<lparr>ri_secret = ah_registry_token_secret (cf_auth c),
                       ri_service = ah_service (cf_auth c), ri_ttl = ttl\<rparr>,
                     at_client_creds = (ae_entra env)\<lparr>ec_token_url := entra_token_url (ta_tenant_id first),
                       ec_scope := ta_audience first @ ''/.default''\<rparr>\<rparr>)))"

text \<open>How the promotion worker finds the push client of a job.\<close>

definition worker_pusher :: "(string \<Rightarrow> 'w tenant option) \<Rightarrow> string \<Rightarrow> 'w pusher res" where
  "worker_pusher tenants pfx =
     (case tenants pfx of
        None \<Rightarrow> Inl (ErrMsg (''unknown tenant prefix '' @ fmt_q pfx))
      | Some t \<Rightarrow> Inr (tn_pusher t))"

section \<open>The policies\<close>

text \<open>
  \<open>se_exec\<close> is the scanner process under a memory limit (0 for none); \<open>se_readfile\<close> reads the
  assembled root filesystem.
\<close>

record 'w scan_env =
  se_exec :: "int64 \<Rightarrow> string \<Rightarrow> 'w \<Rightarrow> report res \<times> 'w"
  se_clock :: "'w \<Rightarrow> gotime"
  se_encode :: "cached_report \<Rightarrow> string res"
  se_decode :: "string \<Rightarrow> cached_report res"
  se_readfile :: "string \<Rightarrow> string res"
  se_rfc3339 :: "gotime \<Rightarrow> string"

record 'w policy_deps =
  pd_db_age :: "(real \<Rightarrow> 'w \<Rightarrow> 'w) option"
  pd_scan_cache :: "'w report_store option"
  pd_cache_obs :: "(bool \<Rightarrow> 'w \<Rightarrow> 'w) option"

definition with_db_age_observer :: "(real \<Rightarrow> 'w \<Rightarrow> 'w) option \<Rightarrow> 'w grype_policy \<Rightarrow> 'w grype_policy" where
  "with_db_age_observer o1 p = p\<lparr>g_db_age := o1\<rparr>"

definition with_scan_cache_observer :: "(bool \<Rightarrow> 'w \<Rightarrow> 'w) option \<Rightarrow> 'w grype_policy \<Rightarrow> 'w grype_policy" where
  "with_scan_cache_observer o1 p = p\<lparr>g_cache_observer := o1\<rparr>"

definition observe_only :: "'w grype_policy \<Rightarrow> 'w grype_policy" where
  "observe_only p = p\<lparr>g_observe := True\<rparr>"

definition new_grype ::
  "(real \<Rightarrow> real) \<Rightarrow> 'w scan_env \<Rightarrow> (string \<Rightarrow> 'w \<Rightarrow> report res \<times> 'w) \<Rightarrow> string
   \<Rightarrow> ('w grype_policy \<Rightarrow> 'w grype_policy) list \<Rightarrow> 'w grype_policy" where
  "new_grype rnd env runner threshold opts =
     fold (\<lambda>opt p. opt p) opts
       \<lparr>g_scan = runner, g_threshold = threshold, g_observe = False, g_db_age = None,
        g_clock = se_clock env, g_cache = None, g_cache_max_db_age = 0, g_cache_observer = None,
        g_encode = se_encode env, g_decode = se_decode env, g_round = rnd\<rparr>"

definition grype_options ::
  "(real \<Rightarrow> real) \<Rightarrow> config \<Rightarrow> 'w policy_deps \<Rightarrow> ('w grype_policy \<Rightarrow> 'w grype_policy) list" where
  "grype_options rnd c deps =
     (let opts = [with_db_age_observer (pd_db_age deps)]
            @ (case pd_scan_cache deps of
                 None \<Rightarrow> []
               | Some store \<Rightarrow>
                   (case max_db_age_duration rnd (gc_scan_cache (cf_grype c)) of
                      Inl e \<Rightarrow> []
                    | Inr d \<Rightarrow> [with_report_cache (Some store) d,
                                 with_scan_cache_observer (pd_cache_obs deps)]))
      in if gc_enforce (cf_grype c) = Some False then opts @ [observe_only] else opts)"

definition tenant_rule :: "age_rule \<Rightarrow> image_age_config \<Rightarrow> age_rule" where
  "tenant_rule def a =
     \<lparr>rule_enabled = (case ia_enabled a of Some b \<Rightarrow> b | None \<Rightarrow> rule_enabled def),
      rule_threshold_days =
        (if ia_threshold_days a \<noteq> 0 then ia_threshold_days a else rule_threshold_days def)\<rparr>"

definition default_rule :: "config \<Rightarrow> age_rule" where
  "default_rule c = \<lparr>rule_enabled = (ia_enabled (cf_image_age c) \<noteq> Some False),
                     rule_threshold_days = ia_threshold_days (cf_image_age c)\<rparr>"

definition image_age_rules :: "config \<Rightarrow> age_rule \<times> (string \<times> age_rule) list" where
  "image_age_rules c =
     (default_rule c,
      fold (\<lambda>tc per. case tc_image_age tc of
              None \<Rightarrow> per
            | Some a \<Rightarrow> AList.update (tc_prefix tc) (tenant_rule (default_rule c) a) per)
        (cf_tenants c) [])"

definition grype_runner :: "'w scan_env \<Rightarrow> config \<Rightarrow> (string \<Rightarrow> 'w \<Rightarrow> report res \<times> 'w) res" where
  "grype_runner env c =
     (case memory_limit_bytes (cf_grype c) of Inl e \<Rightarrow> Inl e | Inr limit \<Rightarrow> Inr (se_exec env limit))"

definition grype_gate :: "'w grype_policy \<Rightarrow> 'w gate_policy" where
  "grype_gate p = \<lparr>p_name = ''grype'', p_evaluate = grype_evaluate p\<rparr>"

definition base_gate :: "'w scan_env \<Rightarrow> base_policy \<Rightarrow> 'w gate_policy" where
  "base_gate env p =
     \<lparr>p_name = ''baseimage'', p_evaluate = (\<lambda>img w. (base_evaluate p (se_readfile env) img, w))\<rparr>"

definition age_gate :: "(real \<Rightarrow> real) \<Rightarrow> 'w scan_env \<Rightarrow> age_policy \<Rightarrow> 'w gate_policy" where
  "age_gate rnd env p =
     \<lparr>p_name = ''imageage'',
      p_evaluate = (\<lambda>img w. (age_evaluate rnd (se_rfc3339 env) p (se_clock env w) img, w))\<rparr>"

definition build_policy_engine ::
  "(real \<Rightarrow> real) \<Rightarrow> 'w scan_env \<Rightarrow> config \<Rightarrow> 'w policy_deps \<Rightarrow> 'w gate_policy list res" where
  "build_policy_engine rnd env c deps =
     (case grype_runner env c of
        Inl e \<Rightarrow> Inl e
      | Inr runner \<Rightarrow>
          (let (def, per) = image_age_rules c in
           Inr [grype_gate (new_grype rnd env runner (gc_severity_threshold (cf_grype c)) (grype_options rnd c deps)),
                base_gate env (new_base_policy (bi_allowed_ids (cf_base_image c))),
                age_gate rnd env \<lparr>ap_default_rule = def, ap_per_tenant = per\<rparr>]))"

section \<open>The outcome and the ingress\<close>

text \<open>\<open>rand\<close> and \<open>clk\<close> are what the docker package reads from the process.\<close>

definition build_outcome ::
  "(nat \<Rightarrow> 'w \<Rightarrow> bytes res \<times> 'w) \<Rightarrow> ('w \<Rightarrow> gotime) \<Rightarrow> 'w recorder option
   \<Rightarrow> (tag_alias \<Rightarrow> 'w \<Rightarrow> 'w) option \<Rightarrow> 'w metrics_observer option \<Rightarrow> ('w \<Rightarrow> string \<times> 'w) option
   \<Rightarrow> 'w outcome" where
  "build_outcome rand clk recorder aliases metrics id_gen =
     \<lparr>oc_report_base_url = ''/reports'', oc_recorder = recorder, oc_tag_alias = aliases,
      oc_id_gen = id_gen, oc_metrics = metrics, oc_rand = rand, oc_clock = clk\<rparr>"

record 'w ingress_deps =
  id_auth :: "'w pod auth_components"
  id_store :: "'w staging"
  id_reports :: "'w pod report_source"
  id_router :: "'w pod gate_policy list"
  id_outcome :: "'w pod outcome"
  id_requests :: "string \<Rightarrow> string \<Rightarrow> string \<Rightarrow> 'w pod \<Rightarrow> 'w pod"
  id_queue :: "'w pod promote_queue"
  id_gate_timeout :: duration
  id_token_service :: "'w pod token_service"
  id_token_json :: "string \<Rightarrow> int \<Rightarrow> string"

definition build_ingress ::
  "'w runtime \<Rightarrow> (int \<Rightarrow> 'w pod slots) \<Rightarrow> config \<Rightarrow> 'w ingress_deps \<Rightarrow> 'w handler res" where
  "build_ingress rt make_slots c d =
     new_handler rt make_slots
       \<lparr>hc_resolver = Some (for_host (at_resolver (id_auth d))), hc_router = id_router d,
        hc_outcome = Some (id_outcome d), hc_store = id_store d, hc_reports = Some (id_reports d),
        hc_requests = Some (id_requests d), hc_promoter = Some (queue_promoter (id_queue d)),
        hc_max_pending = default_max_pending_promotions,
        hc_max_upload_bytes = sv_max_upload_bytes (cf_server c),
        hc_upload_concurrency = sv_upload_concurrency (cf_server c), hc_upload_wait = 0,
        hc_pool = Some (make_slots (int (pl_cap (new_pool (sg_scan_pool_size (cf_staging c))))), id_router d),
        hc_gate_timeout = id_gate_timeout d, hc_scratch_base_dir = sg_scratch_dir (cf_staging c),
        hc_registry_issuer = Some (id_token_service d),
        hc_token_realm = sv_external_url (cf_server c) @ ''/token'',
        hc_service = ah_service (cf_auth c),
        hc_token_handler = Some
          \<lparr>th_resolver = for_host (at_resolver (id_auth d)),
           th_client_creds = credentials_validate (at_client_creds (id_auth d)),
           th_issuer = id_token_service d, th_encode = id_token_json d\<rparr>\<rparr>"

end
