(* ===== verification/App_Wiring_Laws.thy ===== *)
theory App_Wiring_Laws
  imports App_Wiring
begin

text \<open>
  What the composition root guarantees for a configuration that loaded: tenants cannot reach each
  other's registries, and the gate that runs is the one the configuration describes.
\<close>

section \<open>Tenants\<close>

definition configured_tenant :: "'w auth_env \<Rightarrow> string \<Rightarrow> tenant_config \<Rightarrow> 'w tenant \<Rightarrow> bool" where
  "configured_tenant env template tc t \<longleftrightarrow>
     tn_prefix t = tc_prefix tc \<and> tn_registry t = tenant_registry tc template
   \<and> ae_pusher env (tenant_registry tc template) (tc_acr_client_id tc) = Inr (tn_pusher t)
   \<and> (case ae_keyfunc env (ta_jwks_url (tc_auth tc)) of
        Inl _ \<Rightarrow> False | Inr lib \<Rightarrow> tn_authn t = tenant_authn lib (ae_clock env) tc)"

lemma build_tenants_entry:
  "build_tenants env template tcs m = Inr m' \<Longrightarrow> m' p = Some t \<Longrightarrow>
   m p = Some t \<or> (\<exists>tc \<in> set tcs. tc_prefix tc = p \<and> configured_tenant env template tc t)"
proof (induction env template tcs m rule: build_tenants.induct)
  case (2 env template tc tcs m)
  from 2(2) obtain lib pusher where l: "ae_keyfunc env (ta_jwks_url (tc_auth tc)) = Inr lib"
    and p: "ae_pusher env (tenant_registry tc template) (tc_acr_client_id tc) = Inr pusher"
    by (auto simp: Let_def split: sum.splits)
  let ?t = "\<lparr>tn_prefix = tc_prefix tc, tn_registry = tenant_registry tc template, tn_pusher = pusher,
             tn_authn = tenant_authn lib (ae_clock env) tc\<rparr>"
  have "build_tenants env template tcs (m(tc_prefix tc \<mapsto> ?t)) = Inr m'"
    using 2(2) l p by (simp add: Let_def)
  from 2(1) [OF HOL.refl l p this 2(3)] l p show ?case
    by (auto simp: configured_tenant_def split: if_splits)
qed simp

lemma build_authD:
  assumes "build_auth rnd env c = Inr a"
  shows "build_tenants env (ac_registry_template (cf_acr c)) (cf_tenants c) Map.empty = Inr (at_tenants a)
    \<and> at_resolver a = new_static_resolver (ac_base_domain (cf_acr c)) (at_tenants a)"
  using assms by (auto simp: build_auth_def Let_def split: sum.splits)

lemma host_tenant:
  assumes "build_auth rnd env c = Inr a" and "for_host (at_resolver a) h = Inr t"
  obtains tc where "tc \<in> set (cf_tenants c)"
    "host_name h = tc_prefix tc @ ''.'' @ to_lower (ac_base_domain (cf_acr c))"
    "configured_tenant env (ac_registry_template (cf_acr c)) tc t" "at_tenants a (tc_prefix tc) = Some t"
proof -
  note a = build_authD [OF assms(1)]
  from assms(2) a obtain p where p: "host_name h = p @ ''.'' @ to_lower (ac_base_domain (cf_acr c))"
    "at_tenants a p = Some t" by (auto simp: for_host_iff)
  from build_tenants_entry [OF conjunct1 [OF a] p(2)] obtain tc where "tc \<in> set (cf_tenants c)"
    "tc_prefix tc = p" "configured_tenant env (ac_registry_template (cf_acr c)) tc t" by auto
  with p that show thesis by simp
qed

lemma registry_determines_prefix:
  assumes "str_contains template ''{prefix}''" and "tenant_registry tc template = tenant_registry tc' template"
  shows "tc_prefix tc = tc_prefix tc'"
  by (rule replace_all_inject [OF assms(1) _ assms(2) [unfolded tenant_registry_def]]) simp

section \<open>The gate of a loaded configuration\<close>

definition configured_scan ::
  "(real \<Rightarrow> real) \<Rightarrow> 'w scan_env \<Rightarrow> config \<Rightarrow> 'w policy_deps \<Rightarrow> int64 \<Rightarrow> 'w grype_policy" where
  "configured_scan rnd env c deps limit =
     new_grype rnd env (se_exec env limit) (gc_severity_threshold (cf_grype c)) (grype_options rnd c deps)"

lemma configured_scan_fields [simp]:
  "g_threshold (configured_scan rnd env c deps limit) = gc_severity_threshold (cf_grype c)"
  "g_observe (configured_scan rnd env c deps limit) = (gc_enforce (cf_grype c) = Some False)"
  "g_scan (configured_scan rnd env c deps limit) = se_exec env limit"
  by (auto simp: configured_scan_def new_grype_def grype_options_def with_db_age_observer_def
      with_scan_cache_observer_def observe_only_def with_report_cache_def Let_def
      split: option.splits sum.splits)

definition scan_admits :: "'w grype_policy \<Rightarrow> staged_image \<Rightarrow> 'w \<Rightarrow> bool" where
  "scan_admits p img w \<longleftrightarrow> si_oci_path img \<noteq> []
     \<and> (case fst (scan_or_reuse p img w) of
          Inl _ \<Rightarrow> False
        | Inr rep \<Rightarrow> g_observe p \<or> list_all (\<lambda>f. \<not> blocking (threshold_rank (g_threshold p)) f) (rep_findings rep))"

definition base_admits :: "string list \<Rightarrow> (string \<Rightarrow> string res) \<Rightarrow> staged_image \<Rightarrow> bool" where
  "base_admits ids readfile img \<longleftrightarrow>
     (case read_first readfile (si_fs_path img) os_release_paths (Inr []) of
        Inl e \<Rightarrow> False
      | Inr raw \<Rightarrow> osr_id (parse_os_release raw) \<noteq> [] \<and> osr_id (parse_os_release raw) \<in> to_lower ` set ids)"

definition age_admits :: "(real \<Rightarrow> real) \<Rightarrow> age_rule \<Rightarrow> gotime \<Rightarrow> staged_image \<Rightarrow> bool" where
  "age_admits rnd rule now img \<longleftrightarrow> \<not> rule_enabled rule
     \<or> \<not> is_zero_time (si_created img) \<and> age_days rnd (si_created img) now \<le> rule_threshold_days rule"

text \<open>The rule that holds for a tenant: its own fields where it sets them, the default elsewhere.\<close>

definition effective_rule :: "config \<Rightarrow> string \<Rightarrow> age_rule" where
  "effective_rule c pfx =
     (case map_of (map (\<lambda>tc. (tc_prefix tc, tc_image_age tc)) (cf_tenants c)) pfx of
        Some (Some a) \<Rightarrow> tenant_rule (default_rule c) a
      | _ \<Rightarrow> default_rule c)"

lemma age_rules_of:
  "distinct (map tc_prefix tcs) \<Longrightarrow>
   map_of (fold (\<lambda>tc per. case tc_image_age tc of None \<Rightarrow> per
             | Some a \<Rightarrow> AList.update (tc_prefix tc) (tenant_rule d a) per) tcs per) pfx =
   (case map_of (map (\<lambda>tc. (tc_prefix tc, tc_image_age tc)) tcs) pfx of
      Some (Some a) \<Rightarrow> Some (tenant_rule d a)
    | _ \<Rightarrow> map_of per pfx)"
proof (induction tcs arbitrary: per)
  case (Cons tc tcs)
  have "tc_prefix tc = pfx \<Longrightarrow> map_of (map (\<lambda>tc. (tc_prefix tc, tc_image_age tc)) tcs) pfx = None"
    using Cons.prems by (force simp: map_of_eq_None_iff)
  with Cons show ?case by (auto simp: update_conv' split: option.splits)
qed simp

lemma rule_for_configured:
  assumes "distinct (map tc_prefix (cf_tenants c))" and "image_age_rules c = (d, per)"
  shows "rule_for \<lparr>ap_default_rule = d, ap_per_tenant = per\<rparr> pfx = effective_rule c pfx"
  using assms age_rules_of [OF assms(1), of "default_rule c" "[]" pfx]
  by (auto simp: rule_for_def image_age_rules_def effective_rule_def split: option.splits)

lemma grype_gate_answer:
  "(case fst (grype_evaluate p img w) of Inl _ \<Rightarrow> False | Inr v \<Rightarrow> v_passed v) = scan_admits p img w"
  using reasons_empty [of "threshold_rank (g_threshold p)"]
  by (auto simp: grype_evaluate_def scan_admits_def Let_def list_all_iff split: sum.splits prod.splits)

lemma base_gate_answer:
  "(case base_evaluate (new_base_policy ids) readfile img of Inl _ \<Rightarrow> False | Inr v \<Rightarrow> v_passed v)
     = base_admits ids readfile img"
  by (auto simp: base_evaluate_def base_admits_def new_base_policy_def zero_verdict_def Let_def
      split: sum.splits)

lemma age_gate_answer:
  "(case age_evaluate rnd fmt p now img of Inl _ \<Rightarrow> False | Inr v \<Rightarrow> v_passed v)
     = age_admits rnd (rule_for p (si_prefix img)) now img"
  by (auto simp: age_evaluate_def age_admits_def zero_verdict_def Let_def)

definition configured_answers ::
  "(real \<Rightarrow> real) \<Rightarrow> 'w scan_env \<Rightarrow> config \<Rightarrow> 'w policy_deps \<Rightarrow> int64 \<Rightarrow> staged_image \<Rightarrow> 'w
   \<Rightarrow> (string \<times> verdict res) list \<times> 'w" where
  "configured_answers rnd env c deps limit img w =
     (let p = configured_scan rnd env c deps limit; (r, w1) = grype_evaluate p img w in
        ([(''grype'', r),
          (''baseimage'', base_evaluate (new_base_policy (bi_allowed_ids (cf_base_image c))) (se_readfile env) img),
          (''imageage'', age_evaluate rnd (se_rfc3339 env)
             \<lparr>ap_default_rule = fst (image_age_rules c), ap_per_tenant = snd (image_age_rules c)\<rparr>
             (se_clock env w1) img)], w1))"

lemma configured_engine:
  assumes "memory_limit_bytes (cf_grype c) = Inr limit" and "distinct (map tc_prefix (cf_tenants c))"
  obtains ps where "build_policy_engine rnd env c deps = Inr ps"
    "map p_name ps = [''grype'', ''baseimage'', ''imageage'']"
    "eval_all ps = configured_answers rnd env c deps limit"
  using assms
  by (auto simp: fun_eq_iff configured_answers_def build_policy_engine_def grype_runner_def configured_scan_def grype_gate_def
      base_gate_def age_gate_def Let_def split_beta)

text \<open>An infrastructure error of the gate is a scan that could not be made.\<close>

definition scan_ran :: "'w grype_policy \<Rightarrow> staged_image \<Rightarrow> 'w \<Rightarrow> bool" where
  "scan_ran p img w \<longleftrightarrow> is_ok (fst (grype_evaluate p img w))"

lemma always_answers:
  "is_ok (base_evaluate p readfile img)" "is_ok (age_evaluate rnd fmt q now img)"
  by (auto simp: base_evaluate_def age_evaluate_def is_ok_def Let_def split: sum.splits)

lemma configured_gate:
  assumes "well_formed_config rnd c"
  shows "\<exists>limit ps. memory_limit_bytes (cf_grype c) = Inr limit \<and> build_policy_engine rnd env c deps = Inr ps
    \<and> map p_name ps = [''grype'', ''baseimage'', ''imageage'']
    \<and> (\<forall>img w. case engine_run ps img w of ((res, err), w') \<Rightarrow>
         let p = configured_scan rnd env c deps limit in
         r_passed res = (scan_admits p img w
              \<and> base_admits (bi_allowed_ids (cf_base_image c)) (se_readfile env) img
              \<and> age_admits rnd (effective_rule c (si_prefix img)) (se_clock env w') img)
         \<and> (err = None) = scan_ran p img w)"
proof -
  from assms obtain limit where limit: "memory_limit_bytes (cf_grype c) = Inr limit"
    by (auto simp: well_formed_config_def split: sum.splits)
  from assms have dist: "distinct (map tc_prefix (cf_tenants c))" by (simp add: well_formed_config_def)
  obtain ps
    where ps: "build_policy_engine rnd env c deps = Inr ps"
      "map p_name ps = [''grype'', ''baseimage'', ''imageage'']"
      "eval_all ps = configured_answers rnd env c deps limit"
    by (rule configured_engine [where rnd = rnd and env = env and deps = deps, OF limit dist])
  let ?p = "configured_scan rnd env c deps limit"
  have "case engine_run ps img w of ((res, err), w') \<Rightarrow>
      r_passed res = (scan_admits ?p img w
           \<and> base_admits (bi_allowed_ids (cf_base_image c)) (se_readfile env) img
           \<and> age_admits rnd (effective_rule c (si_prefix img)) (se_clock env w') img)
      \<and> (err = None) = scan_ran ?p img w" for img w
  proof -
    obtain r w1 where r: "grype_evaluate ?p img w = (r, w1)" by fastforce
    obtain res err w' where run: "engine_run ps img w = ((res, err), w')" by (metis prod.collapse)
    let ?a = "age_evaluate rnd (se_rfc3339 env)
        \<lparr>ap_default_rule = fst (image_age_rules c), ap_per_tenant = snd (image_age_rules c)\<rparr> (se_clock env w1) img"
    let ?b = "base_evaluate (new_base_policy (bi_allowed_ids (cf_base_image c))) (se_readfile env) img"
    have all: "eval_all ps img w = ([(''grype'', r), (''baseimage'', ?b), (''imageage'', ?a)], w1)"
      using ps(3) r by (simp add: configured_answers_def Let_def)
    note e = engine_run_cases [OF all run]
    have "r_passed res = (scan_admits ?p img w
        \<and> base_admits (bi_allowed_ids (cf_base_image c)) (se_readfile env) img
        \<and> age_admits rnd (effective_rule c (si_prefix img)) (se_clock env w1) img)"
      unfolding e(3) using grype_gate_answer [of ?p img w] r
        base_gate_answer [of "bi_allowed_ids (cf_base_image c)" "se_readfile env" img]
        age_gate_answer [of rnd "se_rfc3339 env" "\<lparr>ap_default_rule = fst (image_age_rules c),
           ap_per_tenant = snd (image_age_rules c)\<rparr>" "se_clock env w1" img]
        rule_for_configured [OF dist, of "fst (image_age_rules c)" "snd (image_age_rules c)" "si_prefix img"]
      by (simp add: answer_passes_def)
    moreover have "(err = None) = scan_ran ?p img w"
      unfolding e(2) by (simp add: scan_ran_def r always_answers)
    ultimately show ?thesis using run e(1) by simp
  qed
  with limit ps(1,2) show ?thesis by (auto simp: Let_def)
qed

section \<open>Properties\<close>

text \<open>
  C7: Tenants are isolated. In a configuration that loaded, the tenant a host reaches is the one
  configured under that host's label: its registry is the template with its own prefix, it pushes
  with its own client id, and it authenticates against its own issuer, audience and keys. The
  promotion worker, which looks the pusher up by prefix, pushes with the same pusher. Two hosts
  reach the same registry iff their names without the port are equal, and then they reach the same
  tenant.
\<close>

theorem tenants_isolated:
  assumes "load rnd readfile getenv unmarshal path = Inr c" and "build_auth rnd env c = Inr a"
    and "for_host (at_resolver a) h = Inr t" and "for_host (at_resolver a) h' = Inr t'"
  shows "(\<exists>tc \<in> set (cf_tenants c).
       host_name h = tc_prefix tc @ ''.'' @ to_lower (ac_base_domain (cf_acr c))
       \<and> configured_tenant env (ac_registry_template (cf_acr c)) tc t)
    \<and> worker_pusher (at_tenants a) (tn_prefix t) = Inr (tn_pusher t)
    \<and> (tn_registry t = tn_registry t') = (host_name h = host_name h')
    \<and> (host_name h = host_name h') = (t = t')"
proof -
  obtain raw body c0 where "c = apply_defaults c0" "validate rnd c = Inr ()"
    by (rule load_ok [OF assms(1)])
  then have tpl: "str_contains (ac_registry_template (cf_acr c)) ''{prefix}''"
    using validated_well_formed [of rnd c0] by (auto simp: well_formed_config_def)
  obtain tc where tc: "tc \<in> set (cf_tenants c)"
    "host_name h = tc_prefix tc @ ''.'' @ to_lower (ac_base_domain (cf_acr c))"
    "configured_tenant env (ac_registry_template (cf_acr c)) tc t" "at_tenants a (tc_prefix tc) = Some t"
    by (rule host_tenant [OF assms(2,3)])
  obtain tc' where tc': "tc' \<in> set (cf_tenants c)"
    "host_name h' = tc_prefix tc' @ ''.'' @ to_lower (ac_base_domain (cf_acr c))"
    "configured_tenant env (ac_registry_template (cf_acr c)) tc' t'" "at_tenants a (tc_prefix tc') = Some t'"
    by (rule host_tenant [OF assms(2,4)])
  have "(host_name h = host_name h') = (tc_prefix tc = tc_prefix tc')" using tc(2) tc'(2) by simp
  moreover have "(tn_registry t = tn_registry t') = (tc_prefix tc = tc_prefix tc')"
    using tc(3) tc'(3) registry_determines_prefix [OF tpl, of tc tc']
    by (auto simp: configured_tenant_def tenant_registry_def)
  moreover have "(tc_prefix tc = tc_prefix tc') = (t = t')"
    using tc(3,4) tc'(3,4) by (auto simp: configured_tenant_def)
  moreover have "worker_pusher (at_tenants a) (tn_prefix t) = Inr (tn_pusher t)"
    using tc(3,4) by (simp add: worker_pusher_def configured_tenant_def)
  ultimately show ?thesis using tc by auto
qed

definition sample_auth_env :: "unit auth_env" where
  "sample_auth_env =
     (let lib = \<lparr>jw_sign = (\<lambda>_ _. Inr []), jw_parse = (\<lambda>_ _ _ _. Inl RedisNil),
                 jw_parse_sub = (\<lambda>_ _ _. Inr None), jw_date = id\<rparr> in
      \<lparr>ae_keyfunc = (\<lambda>_. Inr lib),
       ae_pusher = (\<lambda>registry client. Inr
         \<lparr>ps_push = (\<lambda>_ _ w. (None, w)), ps_push_manifest = (\<lambda>_ _ _ w. (None, w)),
          ps_push_blob = (\<lambda>_ _ _ w. (None, w))\<rparr>),
       ae_entra = \<lparr>ec_token_url = [], ec_scope = [], ec_new_request = (\<lambda>_. None),
         ec_do = (\<lambda>_ _ w. (Inl RedisNil, w)), ec_access_token = (\<lambda>_. Inr [])\<rparr>,
       ae_token_lib = lib, ae_clock = (\<lambda>_. 0)\<rparr>)"

lemma sample_load:
  "load (\<lambda>x. x) (\<lambda>_. Inr ''x'') (\<lambda>_. None) (\<lambda>_. Inr sample_config) ''merlin.yaml''
     = Inr (apply_defaults sample_config)"
  by (simp add: load_def expand_env_strict_def sample_config_valid)

lemma sample_auth:
  "\<exists>a t. build_auth (\<lambda>x. x) sample_auth_env (apply_defaults sample_config) = Inr a
     \<and> for_host (at_resolver a) ''team.merlin.dev:443'' = Inr t \<and> tn_prefix t = ''team''"
proof -
  have five: "parse_duration (\<lambda>x. x) ''5m'' = Inr (5 * minute)"
    by (simp add: duration_eval duration_units)
  have host: "host_name ''team.merlin.dev:443'' = ''team.merlin.dev''" by code_simp
  have base: "to_lower ''merlin.dev'' = ''merlin.dev''" by code_simp
  show ?thesis
    by (simp add: build_auth_def apply_defaults_def sample_config_def sample_tenant_config_def sample_auth_env_def
        or_default_def five for_host_iff host base Let_def del: to_lower_Cons)
qed

theorem tenants_isolated_witness:
  "\<exists>a t. build_auth (\<lambda>x. x) sample_auth_env (apply_defaults sample_config) = Inr a
     \<and> for_host (at_resolver a) ''team.merlin.dev:443'' = Inr t
     \<and> worker_pusher (at_tenants a) ''team'' = Inr (tn_pusher t)"
proof -
  obtain a t where a: "build_auth (\<lambda>x. x) sample_auth_env (apply_defaults sample_config) = Inr a"
    "for_host (at_resolver a) ''team.merlin.dev:443'' = Inr t" "tn_prefix t = ''team''"
    using sample_auth by blast
  show ?thesis using tenants_isolated [OF sample_load a(1,2,2)] a by auto
qed

text \<open>
  C6: The gate that runs is the one the configuration describes. For every configuration that loads,
  the engine builds, with the scan, base-image and image-age policies in this order. An image passes
  iff the scan could be made and has no blocking finding under the configured threshold, its
  operating system is on the allow-list, and its age satisfies the rule of its tenant: the tenant's
  own fields where it sets them, the default's elsewhere. Findings do not block only if the
  configuration says \<open>enforce: false\<close>, and the threshold is always one that the severity table ranks.
  The gate reports an infrastructure error iff the scan could not be made.
\<close>

theorem loaded_gate_admits:
  assumes "load rnd readfile getenv unmarshal path = Inr c"
  shows "\<exists>limit ps. memory_limit_bytes (cf_grype c) = Inr limit \<and> build_policy_engine rnd env c deps = Inr ps
    \<and> map p_name ps = [''grype'', ''baseimage'', ''imageage'']
    \<and> (let p = configured_scan rnd env c deps limit in
         g_observe p = (gc_enforce (cf_grype c) = Some False)
         \<and> severity_rank (g_threshold p) = Some (threshold_rank (gc_severity_threshold (cf_grype c)))
         \<and> (\<forall>img w. case engine_run ps img w of ((res, err), w') \<Rightarrow>
              r_passed res = (scan_admits p img w
                \<and> base_admits (bi_allowed_ids (cf_base_image c)) (se_readfile env) img
                \<and> age_admits rnd (effective_rule c (si_prefix img)) (se_clock env w') img)
              \<and> (err = None) = scan_ran p img w))"
proof -
  obtain raw body c0 where "c = apply_defaults c0" "validate rnd c = Inr ()"
    by (rule load_ok [OF assms])
  then have wfc: "well_formed_config rnd c" using validated_well_formed [of rnd c0] by auto
  then have "severity_rank (gc_severity_threshold (cf_grype c))
      = Some (threshold_rank (gc_severity_threshold (cf_grype c)))"
    by (auto simp: well_formed_config_def threshold_rank_def)
  with configured_gate [OF wfc, of env deps] show ?thesis by (simp add: Let_def)
qed

definition sample_scan_env :: "unit scan_env" where
  "sample_scan_env = \<lparr>se_exec = (\<lambda>_ _ w. (Inr \<lparr>rep_db_version = [], rep_db_built = 0, rep_findings = []\<rparr>, w)),
     se_clock = (\<lambda>_. 10), se_encode = (\<lambda>_. Inr []), se_decode = (\<lambda>_. Inl RedisNil),
     se_readfile = (\<lambda>_. Inr ''ID=debian''), se_rfc3339 = (\<lambda>_. [])\<rparr>"

theorem loaded_gate_admits_witness:
  "\<exists>ps. build_policy_engine (\<lambda>x. x) sample_scan_env (apply_defaults sample_config)
          \<lparr>pd_db_age = None, pd_scan_cache = None, pd_cache_obs = None\<rparr> = Inr ps
     \<and> map p_name ps = [''grype'', ''baseimage'', ''imageage'']"
  using loaded_gate_admits [OF sample_load, of sample_scan_env
      "\<lparr>pd_db_age = None, pd_scan_cache = None, pd_cache_obs = None\<rparr>"]
  by (elim exE conjE, intro exI conjI)

section \<open>The ingress\<close>

text \<open>The couplings the handler's constructor checks hold for every configuration that was validated.\<close>

lemma ingress_builds:
  assumes "well_formed_config rnd c"
  shows "\<exists>h. build_ingress rt make_slots c d = Inr h \<and> h_store h = id_store d
    \<and> h_upload_slots h = Some (make_slots (sv_upload_concurrency (cf_server c)))
    \<and> h_reg_issuer h = Some (id_token_service d) \<and> h_promoter h = Some (queue_promoter (id_queue d))
    \<and> h_max_pending h = default_max_pending_promotions"
proof -
  from assms have "0 < sv_upload_concurrency (cf_server c)" "ah_service (cf_auth c) \<noteq> []"
    by (auto simp: well_formed_config_def)
  then show ?thesis by (simp add: build_ingress_def new_handler_def default_max_pending_promotions_def)
qed

end
