(* ===== verification/Alert_Signature.thy ===== *)
theory Alert_Signature
  imports Go_Errors
begin

text \<open>
  \<open>internal/alert/signature.go\<close>: reducing an error detail to a stable class. The regular expressions
  are values of a small datatype, matched as Go's \<open>regexp\<close> matches (leftmost, and among the matches
  at a position the one a backtracking search prefers). The text is a list of bytes: the classes used
  treat the bytes of a multi-byte rune alike, so matching bytes agrees with matching runes.
\<close>

section \<open>Regular expressions\<close>

datatype re =
    Cls "char \<Rightarrow> bool"         \<comment> \<open>one byte of a class\<close>
  | Lit string                  \<comment> \<open>a literal text\<close>
  | Cat "re list"
  | Alts "re list"              \<comment> \<open>alternatives, preferred from the left\<close>
  | Opt re                      \<comment> \<open>greedy\<close>
  | Many nat re                 \<comment> \<open>at least so many times, greedy\<close>
  | Group re                    \<comment> \<open>the one capturing group\<close>
  | WordB                       \<comment> \<open>\<open>\b\<close>\<close>

text \<open>Where a match is: the bytes before (the nearest first), the bytes after, what the group holds.\<close>

type_synonym place = "string \<times> string \<times> string"

definition is_hex :: "char \<Rightarrow> bool" where
  "is_hex c \<longleftrightarrow> (let n = (of_char c :: nat) in
     48 \<le> n \<and> n \<le> 57 \<or> 97 \<le> n \<and> n \<le> 102 \<or> 65 \<le> n \<and> n \<le> 70)"

definition is_word_char :: "char \<Rightarrow> bool" where
  "is_word_char c \<longleftrightarrow> (let n = (of_char c :: nat) in
     c = CHR ''_'' \<or> 48 \<le> n \<and> n \<le> 57 \<or> 65 \<le> n \<and> n \<le> 90 \<or> 97 \<le> n \<and> n \<le> 122)"

text \<open>\<open>\s\<close> is \<open>[\t\n\f\r ]\<close>.\<close>

definition is_re_space :: "char \<Rightarrow> bool" where
  "is_re_space c \<longleftrightarrow> c \<in> set [CHR 0x09, CHR 0x0A, CHR 0x0C, CHR 0x0D, CHR '' '']"

definition edge_word :: "string \<Rightarrow> bool" where
  "edge_word s = (s \<noteq> [] \<and> is_word_char (hd s))"

definition match_lit :: "string \<Rightarrow> place \<Rightarrow> place list" where
  "match_lit l p = (case p of (pre, s, g) \<Rightarrow>
     if has_prefix s l then [(rev l @ pre, drop (length l) s, g)] else [])"

text \<open>Up to \<open>fuel\<close> repetitions, the longest first; each must advance.\<close>

fun match_star :: "nat \<Rightarrow> (place \<Rightarrow> place list) \<Rightarrow> place \<Rightarrow> place list" where
  "match_star 0 m p = [p]"
| "match_star (Suc n) m p =
     concat (map (\<lambda>q. if length (fst (snd q)) < length (fst (snd p)) then match_star n m q else []) (m p)) @ [p]"

fun match_times :: "nat \<Rightarrow> (place \<Rightarrow> place list) \<Rightarrow> place \<Rightarrow> place list" where
  "match_times 0 m p = [p]"
| "match_times (Suc n) m p = concat (map (match_times n m) (m p))"

fun match_re :: "re \<Rightarrow> place \<Rightarrow> place list" where
  "match_re (Cls f) p = (case p of (pre, s, g) \<Rightarrow>
     (case s of [] \<Rightarrow> [] | c # cs \<Rightarrow> if f c then [(c # pre, cs, g)] else []))"
| "match_re (Lit l) p = match_lit l p"
| "match_re (Cat []) p = [p]"
| "match_re (Cat (r # rs)) p = concat (map (match_re (Cat rs)) (match_re r p))"
| "match_re (Alts rs) p = concat (map (\<lambda>r. match_re r p) rs)"
| "match_re (Opt r) p = match_re r p @ [p]"
| "match_re (Many n r) p =
     concat (map (\<lambda>q. match_star (length (fst (snd q))) (match_re r) q) (match_times n (match_re r) p))"
| "match_re (Group r) p =
     map (\<lambda>(pre, s, g). (pre, s, take (length (fst (snd p)) - length s) (fst (snd p)))) (match_re r p)"
| "match_re WordB p = (case p of (pre, s, g) \<Rightarrow> if edge_word pre = edge_word s then [] else [p])"

text \<open>What a match is replaced by: a text, or the group and a text.\<close>

datatype replacement = Const string | GroupThen string

fun expand_match :: "replacement \<Rightarrow> string \<Rightarrow> string" where
  "expand_match (Const t) g = t"
| "expand_match (GroupThen t) g = g @ t"

text \<open>
  \<open>ReplaceAllString\<close> for an expression that does not match the empty text: the first preferred match
  at the leftmost position is replaced, and the search goes on after it.
\<close>

function replace_re :: "re \<Rightarrow> replacement \<Rightarrow> string \<Rightarrow> string \<Rightarrow> string" where
  "replace_re r w pre [] = []"
| "replace_re r w pre (c # cs) =
     (case match_re r (pre, c # cs, []) of
        (pre', rest, g) # _ \<Rightarrow>
          (if length rest < length (c # cs) then expand_match w g @ replace_re r w pre' rest
           else c # replace_re r w (c # pre) cs)
      | [] \<Rightarrow> c # replace_re r w (c # pre) cs)"
  by pat_completeness auto
termination by (relation "measure (\<lambda>(r, w, pre, s). length s)") auto

section \<open>The substitutions\<close>

definition max_signature_len :: nat where
  "max_signature_len = 200"

definition hex_run :: "nat \<Rightarrow> re" where
  "hex_run n = Many n (Cls is_hex)"

definition digit_run :: "nat \<Rightarrow> re" where
  "digit_run n = Many n (Cls is_digit)"

definition hex_exact :: "nat \<Rightarrow> re" where
  "hex_exact n = Cat (replicate n (Cls is_hex))"

definition substitutions :: "(re \<times> replacement) list" where
  "substitutions =
     [(Cat [Lit ''sha256:'', hex_run 7], Const ''sha256:*''),
      (Cat [WordB, hex_exact 8, Lit ''-'', hex_exact 4, Lit ''-'', hex_exact 4, Lit ''-'', hex_exact 4,
            Lit ''-'', hex_exact 12, WordB], Const ''*uuid*''),
      (Cat [Group (Cat [Lit ''merlin-'', Alts [Lit ''assemble'', Lit ''promote''], Lit ''-'']), digit_run 1],
       GroupThen ''*''),
      (Cat [Group (Cat [Lit ''http'', Opt (Lit ''s''), Lit ''://'',
                        Many 1 (Cls (\<lambda>c. c \<noteq> CHR ''/'' \<and> \<not> is_re_space c))]),
            Opt (Cat [Lit ''/'', Many 0 (Cls (\<lambda>c. \<not> is_re_space c))])], GroupThen ''/*''),
      (Cat [WordB, Lit ''after '', digit_run 1, Lit '' attempt'', Opt (Lit ''s''), WordB],
       Const ''after *n* attempts''),
      (Cat [WordB, digit_run 1, Opt (Cat [Lit ''.'', digit_run 1]),
            Alts [Lit ''ns'', Lit [CHR 0xC2, CHR 0xB5, CHR ''s''], Lit ''us'', Lit ''ms'', Lit ''s'', Lit ''m'', Lit ''h''],
            WordB], Const ''*dur*''),
      (Cat [WordB, hex_run 12, WordB], Const ''*hex*''),
      (Cat [WordB, digit_run 4, WordB], Const ''*n*'')]"

definition squeeze :: "string \<Rightarrow> string" where
  "squeeze s = replace_re (Many 1 (Cls is_re_space)) (Const '' '') [] s"

definition signature :: "string \<Rightarrow> string" where
  "signature detail =
     (let s0 = squeeze (trim_space detail) in
      if s0 = [] then []
      else let s1 = fold (\<lambda>(r, w) s. replace_re r w [] s) substitutions s0;
               s2 = trim_space (squeeze s1)
           in if max_signature_len < length s2 then trim_space (take max_signature_len s2) else s2)"

section \<open>Size and blankness\<close>

lemma trim_space_length: "length (trim_space s) \<le> length s"
  unfolding trim_space_def length_rev
  by (rule order_trans [OF length_dropWhile_le]) (simp add: length_dropWhile_le)

lemma signature_length: "length (signature d) \<le> max_signature_len"
  by (auto simp: signature_def Let_def intro: order_trans [OF trim_space_length])

text \<open>Only blank details have no signature: a replacement never removes the last visible byte.\<close>

definition visible :: "string \<Rightarrow> bool" where
  "visible s \<longleftrightarrow> (\<exists>c \<in> set s. \<not> is_space c)"

lemma trim_space_empty: "trim_space s = [] \<longleftrightarrow> (\<forall>c \<in> set s. is_space c)"
proof (cases "dropWhile is_space s")
  case Nil
  then have "\<forall>c \<in> set s. is_space c" by (simp add: dropWhile_eq_Nil_conv)
  moreover have "trim_space s = []" by (simp only: trim_space_def Nil rev.simps dropWhile.simps)
  ultimately show ?thesis by simp
next
  case (Cons c cs)
  have c: "\<not> is_space c" using hd_dropWhile [of is_space s] Cons by simp
  moreover have "c \<in> set s" using set_dropWhileD [of c is_space s] Cons by simp
  moreover have "dropWhile is_space (rev cs @ [c]) \<noteq> []" using c by (auto simp: dropWhile_eq_Nil_conv)
  ultimately show ?thesis using Cons by (auto simp: trim_space_def)
qed

lemma visible_trim: "visible s \<longleftrightarrow> trim_space s \<noteq> []"
  by (auto simp: visible_def trim_space_empty)

lemma trim_space_hd: "trim_space s \<noteq> [] \<Longrightarrow> \<not> is_space (hd (trim_space s))"
proof -
  assume ne: "trim_space s \<noteq> []"
  let ?d = "dropWhile is_space s"
  have d: "?d \<noteq> []" using ne unfolding trim_space_def by (metis dropWhile.simps(1) rev.simps(1))
  then have h: "\<not> is_space (hd ?d)" by (rule hd_dropWhile)
  obtain c cs where c: "?d = c # cs" using d by (cases ?d) simp_all
  have "dropWhile is_space (rev ?d) = dropWhile is_space (rev cs) @ [c]"
    using h c by (simp add: dropWhile_append)
  then have "trim_space s = c # rev (dropWhile is_space (rev cs))" by (simp add: trim_space_def)
  with h c show ?thesis by simp
qed

lemma visible_trimmed: "trim_space s \<noteq> [] \<Longrightarrow> visible (trim_space s)"
  using trim_space_hd [of s] by (cases "trim_space s") (auto simp: visible_def)

lemma visible_append [simp]: "visible (a @ b) \<longleftrightarrow> visible a \<or> visible b"
  by (auto simp: visible_def)

lemma visible_Cons: "visible (c # s) \<longleftrightarrow> \<not> is_space c \<or> visible s"
  by (simp add: visible_def)

text \<open>A rewriting is harmless when every match yields visible text or consumes only blanks.\<close>

definition keeps_visible :: "re \<Rightarrow> replacement \<Rightarrow> bool" where
  "keeps_visible r w \<longleftrightarrow> (\<forall>pre s. \<forall>(pre', rest, g) \<in> set (match_re r (pre, s, [])).
     visible (expand_match w g) \<or> (\<exists>k. rest = drop k s \<and> \<not> visible (take k s)))"

lemma keeps_visibleD:
  "keeps_visible r w \<Longrightarrow> (pre', rest, g) \<in> set (match_re r (pre, s, [])) \<Longrightarrow>
   visible (expand_match w g) \<or> (\<exists>k. rest = drop k s \<and> \<not> visible (take k s))"
  unfolding keeps_visible_def by fast

lemma replace_visible:
  "keeps_visible r w \<Longrightarrow> visible s \<Longrightarrow> visible (replace_re r w pre s)"
proof (induction r w pre s rule: replace_re.induct)
  case (2 r w pre c cs)
  show ?case
  proof (cases "match_re r (pre, c # cs, [])")
    case Nil
    with "2.IH"(1) [OF Nil "2.prems"(1)] "2.prems"(2) show ?thesis by (auto simp: visible_Cons)
  next
    case (Cons q qs)
    obtain pre' rest g where q: "q = (pre', rest, g)" by (rule prod_cases3)
    show ?thesis
    proof (cases "length rest < length (c # cs)")
      case True
      have "(pre', rest, g) \<in> set (match_re r (pre, c # cs, []))" using Cons q by simp
      from keeps_visibleD [OF "2.prems"(1) this] consider "visible (expand_match w g)"
        | k where "rest = drop k (c # cs)" "\<not> visible (take k (c # cs))"
        by blast
      then show ?thesis
      proof cases
        case 1
        with True Cons q show ?thesis by simp
      next
        case (2 k)
        then have "visible rest" using "2.prems"(2) by (metis append_take_drop_id visible_append)
        with "2.IH"(2) [OF Cons q [symmetric] HOL.refl True "2.prems"(1)] True Cons q show ?thesis by simp
      qed
    next
      case False
      with "2.IH"(3) [OF Cons q [symmetric] HOL.refl False "2.prems"(1)] Cons q "2.prems"(2) show ?thesis
        by (auto simp: visible_Cons)
    qed
  qed
qed simp

lemma keeps_visible_const: "visible t \<Longrightarrow> keeps_visible r (Const t)"
  by (auto simp: keeps_visible_def)

lemma keeps_visible_group: "visible t \<Longrightarrow> keeps_visible r (GroupThen t)"
  by (auto simp: keeps_visible_def)

lemma star_of_class:
  assumes "\<forall>pre s g. \<forall>q \<in> set (m (pre, s, g)). \<exists>c cs. s = c # cs \<and> f c \<and> q = (c # pre, cs, g)"
  shows "(pre', rest, g') \<in> set (match_star n m (pre, s, g)) \<Longrightarrow>
   \<exists>k. rest = drop k s \<and> list_all f (take k s)"
proof (induction n arbitrary: pre s)
  case (Suc n)
  show ?case
  proof (cases "(pre', rest, g') = (pre, s, g)")
    case True
    then show ?thesis by (auto intro: exI [of _ 0])
  next
    case False
    with Suc.prems obtain q where q: "q \<in> set (m (pre, s, g))" "(pre', rest, g') \<in> set (match_star n m q)"
      by (auto split: if_splits)
    with assms obtain c cs where s: "s = c # cs" "f c" "q = (c # pre, cs, g)" by blast
    from Suc.IH [OF q(2) [unfolded s(3)]] obtain k where "rest = drop k cs" "list_all f (take k cs)" by blast
    with s show ?thesis by (intro exI [of _ "Suc k"]) simp
  qed
qed (auto intro: exI [of _ 0])

lemma keeps_visible_space: "keeps_visible (Many 1 (Cls is_re_space)) w"
proof -
  have sp: "is_re_space c \<Longrightarrow> is_space c" for c
    by (auto simp: is_re_space_def is_space_def)
  have "\<exists>k. rest = drop k s \<and> \<not> visible (take k s)"
    if m: "(pre', rest, g) \<in> set (match_re (Many 1 (Cls is_re_space)) (pre, s, []))" for pre s pre' rest g
  proof -
    from m obtain c cs n where s: "s = c # cs" "is_re_space c"
      and st: "(pre', rest, g) \<in> set (match_star n (match_re (Cls is_re_space)) (c # pre, cs, []))"
      by (cases s) (auto split: if_splits)
    have "\<forall>pre s g. \<forall>q \<in> set (match_re (Cls is_re_space) (pre, s, g)).
        \<exists>c cs. s = c # cs \<and> is_re_space c \<and> q = (c # pre, cs, g)" by (auto split: list.splits)
    from star_of_class [OF this st] obtain k where "rest = drop k cs" "list_all is_re_space (take k cs)" by blast
    with s sp show ?thesis
      by (intro exI [of _ "Suc k"]) (auto simp: visible_def list_all_iff)
  qed
  then show ?thesis unfolding keeps_visible_def by blast
qed

lemma substitutions_visible: "(r, w) \<in> set substitutions \<Longrightarrow> keeps_visible r w"
  unfolding substitutions_def
  by (auto intro!: keeps_visible_const keeps_visible_group simp: visible_def is_space_def)

lemma fold_visible:
  "list_all (\<lambda>(r, w). keeps_visible r w) rws \<Longrightarrow> visible s \<Longrightarrow>
   visible (fold (\<lambda>(r, w) s. replace_re r w [] s) rws s)"
  by (induction rws arbitrary: s) (auto simp: replace_visible)

lemma signature_blank: "signature d = [] \<longleftrightarrow> trim_space d = []"
proof (cases "trim_space d = []")
  case True
  then show ?thesis by (simp add: signature_def squeeze_def)
next
  case False
  let ?s0 = "squeeze (trim_space d)"
  let ?s1 = "fold (\<lambda>(r, w) s. replace_re r w [] s) substitutions ?s0"
  let ?s2 = "trim_space (squeeze ?s1)"
  have "visible (trim_space d)" using False visible_trimmed by blast
  then have v0: "visible ?s0" unfolding squeeze_def by (rule replace_visible [OF keeps_visible_space])
  have "list_all (\<lambda>(r, w). keeps_visible r w) substitutions"
    using substitutions_visible by (auto simp: list_all_iff)
  then have "visible ?s1" using v0 by (rule fold_visible)
  then have "visible (squeeze ?s1)" unfolding squeeze_def by (rule replace_visible [OF keeps_visible_space])
  then have v2: "?s2 \<noteq> []" "\<not> is_space (hd ?s2)" by (auto simp: visible_trim trim_space_hd)
  then have "visible (take max_signature_len ?s2)"
    by (cases ?s2) (auto simp: visible_def max_signature_len_def)
  moreover have "?s0 \<noteq> []" using v0 by (auto simp: visible_def)
  ultimately show ?thesis using v2 False by (simp add: signature_def Let_def visible_trim)
qed

text \<open>
  A signature groups the failures it should. It has at most 200 bytes, whatever the scanner
  printed, and a failure has no signature, and so is not reported, only if its detail is blank.
\<close>

theorem signature_bounded:
  "length (signature d) \<le> 200 \<and> (signature d = []) = list_all is_space d"
  using signature_length [of d] signature_blank [of d] by (simp add: max_signature_len_def trim_space_empty list_all_iff)

end
