(* ===== verification/Go_Sort.thy ===== *)
theory Go_Sort
  imports Merlin_Prelude
begin

text \<open>
  \<open>sort.SliceStable\<close>: a stable sort by a strict weak order. Every stable sort gives the same result,
  so the insertion sort below stands for the library's.
\<close>

fun insert_stable :: "('a \<Rightarrow> 'a \<Rightarrow> bool) \<Rightarrow> 'a \<Rightarrow> 'a list \<Rightarrow> 'a list" where
  "insert_stable before x [] = [x]"
| "insert_stable before x (y # ys) = (if before y x then y # insert_stable before x ys else x # y # ys)"

definition sort_stable :: "('a \<Rightarrow> 'a \<Rightarrow> bool) \<Rightarrow> 'a list \<Rightarrow> 'a list" where
  "sort_stable before xs = foldr (insert_stable before) xs []"

lemma mset_insert_stable [simp]: "mset (insert_stable before x ys) = add_mset x (mset ys)"
  by (induction ys) auto

lemma set_insert_stable [simp]: "set (insert_stable before x ys) = insert x (set ys)"
  by (induction ys) auto

lemma mset_sort_stable [simp]: "mset (sort_stable before xs) = mset xs"
  by (induction xs) (simp_all add: sort_stable_def)

definition weak_order :: "('a \<Rightarrow> 'a \<Rightarrow> bool) \<Rightarrow> bool" where
  "weak_order before \<longleftrightarrow> (\<forall>a b. before a b \<longrightarrow> \<not> before b a)
     \<and> (\<forall>a b c. \<not> before b a \<longrightarrow> \<not> before c b \<longrightarrow> \<not> before c a)"

lemma weak_order_trans: "weak_order before \<Longrightarrow> \<not> before b a \<Longrightarrow> \<not> before c b \<Longrightarrow> \<not> before c a"
  by (metis weak_order_def)

lemma weak_order_asym: "weak_order before \<Longrightarrow> before a b \<Longrightarrow> \<not> before b a"
  by (metis weak_order_def)

lemma sorted_insert_stable:
  assumes "weak_order before" and "sorted_wrt (\<lambda>a b. \<not> before b a) ys"
  shows "sorted_wrt (\<lambda>a b. \<not> before b a) (insert_stable before x ys)"
  using assms(2)
proof (induction ys)
  case (Cons y ys)
  show ?case
  proof (cases "before y x")
    case True
    moreover have "\<not> before x y" by (rule weak_order_asym [OF assms(1) True])
    ultimately show ?thesis using Cons by simp
  next
    case False
    have "\<forall>z \<in> set ys. \<not> before z x"
    proof
      fix z assume "z \<in> set ys"
      with Cons.prems have "\<not> before z y" by simp
      then show "\<not> before z x" by (rule weak_order_trans [OF assms(1) False])
    qed
    with False Cons.prems show ?thesis by simp
  qed
qed simp

lemma sorted_sort_stable: "weak_order before \<Longrightarrow> sorted_wrt (\<lambda>a b. \<not> before b a) (sort_stable before xs)"
  by (induction xs) (simp_all add: sort_stable_def sorted_insert_stable)

text \<open>Elements that neither precede the other keep their order.\<close>

definition tied :: "('a \<Rightarrow> 'a \<Rightarrow> bool) \<Rightarrow> 'a \<Rightarrow> 'a \<Rightarrow> bool" where
  "tied before a b \<longleftrightarrow> \<not> before a b \<and> \<not> before b a"

lemma insert_stable_tied:
  assumes "weak_order before"
  shows "filter (tied before k) (insert_stable before x ys) = filter (tied before k) (x # ys)"
proof (induction ys)
  case (Cons y ys)
  have "before y x \<Longrightarrow> \<not> (tied before k x \<and> tied before k y)"
    using assms unfolding weak_order_def tied_def by blast
  with Cons show ?case by auto
qed simp

lemma sort_stable_tied:
  assumes "weak_order before"
  shows "filter (tied before k) (sort_stable before xs) = filter (tied before k) xs"
  by (induction xs) (simp_all add: sort_stable_def insert_stable_tied [OF assms])

end
