(* ===== verification/Alert_Detect.thy ===== *)
theory Alert_Detect
  imports Alert_Signature Go_Sort
begin

text \<open>
  \<open>internal/alert/detect.go\<close>: the three predicates over the audit window. Counts are 64-bit words, as
  in the code; \<open>rnd\<close> rounds to a float64 and \<open>fmt1\<close> is \<open>%.1f\<close>. Of the texts, the summaries are kept:
  they carry the numbers a signature must not.
\<close>

type_synonym uint64 = "64 word"

record detail_count =
  dt_detail :: string
  dt_count :: uint64
  dt_first :: gotime
  dt_last :: gotime

record decision_counts =
  dn_total :: uint64
  dn_infra_errors :: uint64

record alert_finding =
  af_detector :: string
  af_signature :: string
  af_summary :: string
  af_count :: uint64
  af_evidence :: string
  af_first_seen :: gotime
  af_last_seen :: gotime

record rate_thresholds =
  rh_min_samples :: uint64
  rh_min_rate :: real
  rh_min_factor :: real

definition detector_novel_error :: string where "detector_novel_error = ''novel_error''"
definition detector_infra_error_rate :: string where "detector_infra_error_rate = ''infra_error_rate''"
definition detector_killed_scan :: string where "detector_killed_scan = ''killed_scan''"

lemmas detector_names = detector_novel_error_def detector_infra_error_rate_def detector_killed_scan_def

definition error_rate :: "(real \<Rightarrow> real) \<Rightarrow> decision_counts \<Rightarrow> real" where
  "error_rate rnd c = (if dn_total c = 0 then 0
     else rnd (rnd (real (unat (dn_infra_errors c))) / rnd (real (unat (dn_total c)))))"

section \<open>Novel signatures\<close>

definition known_signatures :: "detail_count list \<Rightarrow> string list" where
  "known_signatures baseline = filter (\<lambda>s. s \<noteq> []) (map (\<lambda>b. signature (dt_detail b)) baseline)"

text \<open>One row of the recent window, added to the groups in order of first appearance.\<close>

fun add_to_group :: "string \<Rightarrow> detail_count \<Rightarrow> alert_finding list \<Rightarrow> alert_finding list" where
  "add_to_group sig r [] =
     [\<lparr>af_detector = detector_novel_error, af_signature = sig, af_summary = [], af_count = dt_count r,
       af_evidence = dt_detail r, af_first_seen = dt_first r, af_last_seen = dt_last r\<rparr>]"
| "add_to_group sig r (f # fs) =
     (if af_signature f = sig
      then f\<lparr>af_count := af_count f + dt_count r,
             af_first_seen := (if dt_first r < af_first_seen f then dt_first r else af_first_seen f),
             af_last_seen := (if af_last_seen f < dt_last r then dt_last r else af_last_seen f)\<rparr> # fs
      else f # add_to_group sig r fs)"

definition group_detail :: "string list \<Rightarrow> detail_count \<Rightarrow> alert_finding list \<Rightarrow> alert_finding list" where
  "group_detail known r fs =
     (let sig = signature (dt_detail r) in
      if sig = [] \<or> sig \<in> set known then fs else add_to_group sig r fs)"

definition novel_summary :: "alert_finding \<Rightarrow> alert_finding" where
  "novel_summary f = f\<lparr>af_summary := ''new failure signature, '' @ fmt_nat (unat (af_count f))
                          @ '' occurrence(s): '' @ af_signature f\<rparr>"

definition louder :: "alert_finding \<Rightarrow> alert_finding \<Rightarrow> bool" where
  "louder a b \<longleftrightarrow> af_count b < af_count a"

definition novel_errors ::
  "detail_count list \<Rightarrow> detail_count list \<Rightarrow> int \<Rightarrow> alert_finding list \<times> int" where
  "novel_errors recent baseline cap =
     (let grouped = fold (group_detail (known_signatures baseline)) recent [];
          out = sort_stable louder (map novel_summary grouped)
      in if 0 < cap \<and> cap < int (length out) then (take (nat cap) out, int (length out) - cap)
         else (out, 0))"

section \<open>The error rate\<close>

definition rate_summary :: "(real \<Rightarrow> string) \<Rightarrow> (real \<Rightarrow> real) \<Rightarrow> real \<Rightarrow> decision_counts \<Rightarrow> real \<Rightarrow> string" where
  "rate_summary fmt1 rnd rate recent base =
     ''infra-error rate '' @ fmt1 (rnd (rate * 100)) @ ''% of '' @ fmt_nat (unat (dn_total recent))
       @ '' pushes, up from '' @ fmt1 (rnd (base * 100)) @ ''% in the baseline window''"

definition infra_error_step_change ::
  "(real \<Rightarrow> string) \<Rightarrow> (real \<Rightarrow> real) \<Rightarrow> decision_counts \<Rightarrow> decision_counts \<Rightarrow> rate_thresholds
   \<Rightarrow> alert_finding list" where
  "infra_error_step_change fmt1 rnd recent baseline h =
     (let rate = error_rate rnd recent; base = error_rate rnd baseline in
      if dn_total recent < rh_min_samples h then []
      else if rate < rh_min_rate h then []
      else if 0 < base \<and> rate < rnd (base * rh_min_factor h) then []
      else [\<lparr>af_detector = detector_infra_error_rate, af_signature = ''infra error rate step change'',
             af_summary = rate_summary fmt1 rnd rate recent base, af_count = dn_infra_errors recent,
             af_evidence = [], af_first_seen = 0, af_last_seen = 0\<rparr>])"

section \<open>Killed scans\<close>

definition kill_signature :: re where
  "kill_signature = Alts [Cat [Lit ''signal: '', Alts [Lit ''killed'', Lit ''SIGKILL'']],
                          Lit ''exit status 137'']"

text \<open>\<open>MatchString\<close>: somewhere in the text.\<close>

fun search_re :: "re \<Rightarrow> string \<Rightarrow> string \<Rightarrow> bool" where
  "search_re r pre [] = (match_re r (pre, [], []) \<noteq> [])"
| "search_re r pre (c # cs) = (match_re r (pre, c # cs, []) \<noteq> [] \<or> search_re r (c # pre) cs)"

definition was_killed :: "string \<Rightarrow> bool" where
  "was_killed detail = search_re kill_signature [] detail"

text \<open>The running total, evidence and interval of the loop.\<close>

definition add_killed ::
  "detail_count \<Rightarrow> uint64 \<times> string \<times> gotime \<times> gotime \<Rightarrow> uint64 \<times> string \<times> gotime \<times> gotime" where
  "add_killed r acc = (case acc of (n, ev, lo, hi) \<Rightarrow>
     if \<not> was_killed (dt_detail r) then acc
     else if ev = [] then (n + dt_count r, dt_detail r, dt_first r, dt_last r)
     else (n + dt_count r, ev, if dt_first r < lo then dt_first r else lo,
           if hi < dt_last r then dt_last r else hi))"

definition killed_summary :: "uint64 \<Rightarrow> string" where
  "killed_summary n = fmt_nat (unat n) @ '' scan(s) killed rather than failed ''
     @ [CHR 0xE2, CHR 0x80, CHR 0x94]
     @ '' the per-scan memory bound or the pod cgroup limit is being hit''"

definition killed_scans :: "detail_count list \<Rightarrow> uint64 \<Rightarrow> alert_finding list" where
  "killed_scans recent threshold =
     (case fold add_killed recent (0, [], 0, 0) of (n, ev, lo, hi) \<Rightarrow>
        if n = 0 \<or> n < threshold then []
        else [\<lparr>af_detector = detector_killed_scan, af_signature = ''scan killed (SIGKILL/137)'',
               af_summary = killed_summary n, af_count = n, af_evidence = ev,
               af_first_seen = lo, af_last_seen = hi\<rparr>])"

section \<open>What the novelty detector groups\<close>

text \<open>
  Group by group: the signatures are those of the recent window that the baseline lacks, each once,
  and a group's count is the total of its rows.
\<close>

definition row_signatures :: "string list \<Rightarrow> detail_count list \<Rightarrow> string list" where
  "row_signatures known rows =
     filter (\<lambda>s. s \<noteq> [] \<and> s \<notin> set known) (map (\<lambda>r. signature (dt_detail r)) rows)"

definition signature_count :: "string \<Rightarrow> detail_count list \<Rightarrow> uint64" where
  "signature_count sig rows = sum_list (map dt_count (filter (\<lambda>r. signature (dt_detail r) = sig) rows))"

definition groups_rows :: "string list \<Rightarrow> detail_count list \<Rightarrow> alert_finding list \<Rightarrow> bool" where
  "groups_rows known rows fs \<longleftrightarrow> distinct (map af_signature fs)
     \<and> set (map af_signature fs) = set (row_signatures known rows)
     \<and> (\<forall>f \<in> set fs. af_detector f = detector_novel_error \<and> af_count f = signature_count (af_signature f) rows)"

lemma add_to_group_signatures:
  "map af_signature (add_to_group sig r fs)
     = map af_signature fs @ (if sig \<in> set (map af_signature fs) then [] else [sig])"
  by (induction sig r fs rule: add_to_group.induct) auto

lemma add_to_group_counts:
  "distinct (map af_signature fs) \<Longrightarrow> g \<in> set (add_to_group sig r fs) \<Longrightarrow>
   (if af_signature g = sig
    then (\<exists>f \<in> set fs. af_signature f = sig \<and> af_count g = af_count f + dt_count r \<and> af_detector g = af_detector f)
       \<or> sig \<notin> set (map af_signature fs) \<and> af_count g = dt_count r \<and> af_detector g = detector_novel_error
    else g \<in> set fs)"
proof (induction sig r fs rule: add_to_group.induct)
  case (2 sig r f fs)
  show ?case
  proof (cases "af_signature f = sig")
    case True
    have "\<forall>h \<in> set fs. af_signature h \<noteq> sig"
    proof
      fix h assume "h \<in> set fs"
      then have "af_signature h \<in> set (map af_signature fs)" by simp
      then show "af_signature h \<noteq> sig" using 2(2) True by (metis distinct.simps(2) list.simps(9))
    qed
    then show ?thesis using True 2(3) by auto
  next
    case False
    then show ?thesis using 2 by (auto split: if_splits)
  qed
qed simp

lemma group_detail_groups:
  assumes "groups_rows known rows fs"
  shows "groups_rows known (rows @ [r]) (group_detail known r fs)"
proof -
  let ?sig = "signature (dt_detail r)"
  note g = assms [unfolded groups_rows_def]
  have cnt: "signature_count s (rows @ [r]) = signature_count s rows + (if s = ?sig then dt_count r else 0)" for s
    by (simp add: signature_count_def)
  have absent: "?sig \<notin> set (map af_signature fs) \<Longrightarrow> ?sig \<noteq> [] \<Longrightarrow> ?sig \<notin> set known \<Longrightarrow> signature_count ?sig rows = 0"
  proof -
    assume "?sig \<notin> set (map af_signature fs)" "?sig \<noteq> []" "?sig \<notin> set known"
    with g have no: "?sig \<notin> set (row_signatures known rows)" "?sig \<noteq> []" "?sig \<notin> set known" by simp_all
    have "\<forall>q \<in> set rows. signature (dt_detail q) \<noteq> ?sig"
    proof (intro ballI notI)
      fix q assume "q \<in> set rows" "signature (dt_detail q) = ?sig"
      then have "?sig \<in> set (row_signatures known rows)"
        using no(2,3) by (auto simp: row_signatures_def intro: rev_image_eqI)
      with no(1) show False by simp
    qed
    then have "filter (\<lambda>q. signature (dt_detail q) = ?sig) rows = []" by (simp add: filter_empty_conv)
    then show ?thesis by (simp add: signature_count_def)
  qed
  show ?thesis
  proof (cases "?sig = [] \<or> ?sig \<in> set known")
    case True
    then have "?sig \<notin> set (map af_signature fs)" using g by (auto simp: row_signatures_def)
    then have "\<forall>f \<in> set fs. af_signature f \<noteq> ?sig" by (metis image_eqI list.set_map)
    with True g show ?thesis
      by (auto simp: groups_rows_def group_detail_def Let_def row_signatures_def cnt)
  next
    case False
    have "\<forall>f \<in> set (add_to_group ?sig r fs). af_detector f = detector_novel_error
        \<and> af_count f = signature_count (af_signature f) (rows @ [r])"
    proof
      fix f assume "f \<in> set (add_to_group ?sig r fs)"
      from add_to_group_counts [OF conjunct1 [OF g] this] g absent False
      show "af_detector f = detector_novel_error \<and> af_count f = signature_count (af_signature f) (rows @ [r])"
        by (auto simp: cnt split: if_splits)
    qed
    moreover have "distinct (map af_signature (add_to_group ?sig r fs))"
      using g by (simp add: add_to_group_signatures)
    moreover have "set (map af_signature (add_to_group ?sig r fs)) = set (row_signatures known (rows @ [r]))"
      using g False by (auto simp: add_to_group_signatures row_signatures_def)
    ultimately show ?thesis using False by (simp add: groups_rows_def group_detail_def Let_def)
  qed
qed

lemma fold_groups: "groups_rows known rows (fold (group_detail known) rows [])"
proof (induction rows rule: rev_induct)
  case Nil
  then show ?case by (simp add: groups_rows_def row_signatures_def)
next
  case (snoc r rows)
  then show ?case using group_detail_groups by simp
qed

end
