(* ===== verification/Alert_Runner.thy ===== *)
theory Alert_Runner
  imports Alert_Detect Config
begin

text \<open>
  \<open>internal/alert/runner.go\<close>, the store of \<open>clickhouse.go\<close>, and \<open>app/alerts.go\<close>: the schedule, the
  windows, the cooldown of a finding class and where it is remembered. A run reads the audit window,
  loads the cooldowns, and announces what is due. Log lines are left out; \<open>ctx\<close> is part of what the
  source, the store and the notifier answer.
\<close>

section \<open>Configuration\<close>

record alert_config =
  an_interval :: duration
  an_recent_window :: duration
  an_baseline_window :: duration
  an_cooldown :: duration
  an_rate :: rate_thresholds
  an_killed_scan_threshold :: uint64
  an_max_novel_per_run :: int
  an_detail_limit :: int

definition default_interval :: duration where "default_interval = 15 * minute"
definition default_recent_window :: duration where "default_recent_window = hour"
definition default_baseline_window :: duration where "default_baseline_window = 7 * 24 * hour"
definition default_cooldown :: duration where "default_cooldown = 6 * hour"

lemmas alert_defaults = default_interval_def default_recent_window_def default_baseline_window_def
  default_cooldown_def

definition config_with_defaults :: "alert_config \<Rightarrow> alert_config" where
  "config_with_defaults c =
     \<lparr>an_interval = (if an_interval c \<le> 0 then default_interval else an_interval c),
      an_recent_window = (if an_recent_window c \<le> 0 then default_recent_window else an_recent_window c),
      an_baseline_window = (if an_baseline_window c \<le> 0 then default_baseline_window else an_baseline_window c),
      an_cooldown = (if an_cooldown c \<le> 0 then default_cooldown else an_cooldown c),
      an_rate = \<lparr>rh_min_samples = (if rh_min_samples (an_rate c) = 0 then 20 else rh_min_samples (an_rate c)),
                 rh_min_rate = (if rh_min_rate (an_rate c) \<le> 0 then 1 / 10 else rh_min_rate (an_rate c)),
                 rh_min_factor = (if rh_min_factor (an_rate c) \<le> 0 then 2 else rh_min_factor (an_rate c))\<rparr>,
      an_killed_scan_threshold =
        (if an_killed_scan_threshold c = 0 then 5 else an_killed_scan_threshold c),
      an_max_novel_per_run = (if an_max_novel_per_run c \<le> 0 then 5 else an_max_novel_per_run c),
      an_detail_limit = (if an_detail_limit c \<le> 0 then 500 else an_detail_limit c)\<rparr>"

text \<open>From the YAML block; an empty duration is left to the defaults.\<close>

definition optional_duration :: "(real \<Rightarrow> real) \<Rightarrow> string \<Rightarrow> string \<Rightarrow> duration res" where
  "optional_duration rnd field v =
     (if v = [] then Inr 0
      else case parse_duration rnd v of
        Inl e \<Rightarrow> Inl (ErrWrap (''alerts.'' @ field @ '' '' @ fmt_q v @ '': '') e [])
      | Inr d \<Rightarrow> Inr d)"

definition alert_config_of :: "(real \<Rightarrow> real) \<Rightarrow> alerts_config \<Rightarrow> alert_config res" where
  "alert_config_of rnd a =
     (case optional_duration rnd ''interval'' (al_interval a) of Inl e \<Rightarrow> Inl e | Inr i \<Rightarrow>
      case optional_duration rnd ''recent_window'' (al_recent_window a) of Inl e \<Rightarrow> Inl e | Inr r \<Rightarrow>
      case optional_duration rnd ''baseline_window'' (al_baseline_window a) of Inl e \<Rightarrow> Inl e | Inr b \<Rightarrow>
      case optional_duration rnd ''cooldown'' (al_cooldown a) of Inl e \<Rightarrow> Inl e | Inr cd \<Rightarrow>
        (let c = config_with_defaults
               \<lparr>an_interval = i, an_recent_window = r, an_baseline_window = b, an_cooldown = cd,
                an_rate = \<lparr>rh_min_samples = 0, rh_min_rate = 0, rh_min_factor = 0\<rparr>,
                an_killed_scan_threshold = al_killed_scan_threshold a,
                an_max_novel_per_run = al_max_novel_per_run a, an_detail_limit = 0\<rparr>
         in if an_recent_window c < an_interval c
            then Inl (ErrMsg (''alerts: recent_window ('' @ fmt_duration (an_recent_window c)
                   @ '') must be >= interval ('' @ fmt_duration (an_interval c)
                   @ ''), or findings between runs fall in no window''))
            else if an_baseline_window c \<le> an_recent_window c
            then Inl (ErrMsg (''alerts: baseline_window ('' @ fmt_duration (an_baseline_window c)
                   @ '') must exceed recent_window ('' @ fmt_duration (an_recent_window c)
                   @ ''), or novelty has nothing to compare against''))
            else Inr c))"

section \<open>The runner\<close>

definition cooldown_key :: "alert_finding \<Rightarrow> string" where
  "cooldown_key f = af_detector f @ ''|'' @ af_signature f"

record 'w runner =
  ru_details :: "gotime \<Rightarrow> gotime \<Rightarrow> int \<Rightarrow> 'w \<Rightarrow> detail_count list res \<times> 'w"
  ru_counts :: "gotime \<Rightarrow> gotime \<Rightarrow> 'w \<Rightarrow> decision_counts res \<times> 'w"
  ru_last_notified :: "'w \<Rightarrow> (string \<Rightarrow> gotime option) res \<times> 'w"
  ru_record_notified :: "alert_finding \<Rightarrow> gotime \<Rightarrow> 'w \<Rightarrow> goerr option \<times> 'w"
  ru_notify :: "alert_finding \<Rightarrow> 'w \<Rightarrow> goerr option \<times> 'w"
  ru_config :: alert_config
  ru_clock :: "'w \<Rightarrow> gotime"
  ru_fmt1 :: "real \<Rightarrow> string"
  ru_round :: "real \<Rightarrow> real"

text \<open>The four queries and the detectors: what there is to say.\<close>

definition evaluate_window :: "'w runner \<Rightarrow> gotime \<Rightarrow> 'w \<Rightarrow> alert_finding list res \<times> 'w" where
  "evaluate_window ru now w0 =
     (let cfg = config_with_defaults (ru_config ru);
          recent_since = now - an_recent_window cfg;
          baseline_since = recent_since - an_baseline_window cfg in
      case ru_details ru recent_since now (an_detail_limit cfg) w0 of
        (Inl e, w1) \<Rightarrow> (Inl (ErrWrap ''query recent error details: '' e []), w1)
      | (Inr recent, w1) \<Rightarrow>
      case ru_details ru baseline_since recent_since (an_detail_limit cfg) w1 of
        (Inl e, w2) \<Rightarrow> (Inl (ErrWrap ''query baseline error details: '' e []), w2)
      | (Inr baseline, w2) \<Rightarrow>
      case ru_counts ru recent_since now w2 of
        (Inl e, w3) \<Rightarrow> (Inl (ErrWrap ''query recent decision counts: '' e []), w3)
      | (Inr recent_counts, w3) \<Rightarrow>
      case ru_counts ru baseline_since recent_since w3 of
        (Inl e, w4) \<Rightarrow> (Inl (ErrWrap ''query baseline decision counts: '' e []), w4)
      | (Inr baseline_counts, w4) \<Rightarrow>
          (Inr (fst (novel_errors recent baseline (an_max_novel_per_run cfg))
              @ infra_error_step_change (ru_fmt1 ru) (ru_round ru) recent_counts baseline_counts (an_rate cfg)
              @ killed_scans recent (an_killed_scan_threshold cfg)), w4))"

definition suppressed :: "duration \<Rightarrow> gotime \<Rightarrow> (string \<Rightarrow> gotime option) \<Rightarrow> alert_finding \<Rightarrow> bool" where
  "suppressed cooldown now notified f =
     (case notified (cooldown_key f) of None \<Rightarrow> False | Some at1 \<Rightarrow> time_sub now at1 < cooldown)"

fun announce ::
  "'w runner \<Rightarrow> gotime \<Rightarrow> (string \<Rightarrow> gotime option) \<Rightarrow> alert_finding list \<Rightarrow> 'w \<Rightarrow> goerr list \<times> 'w" where
  "announce ru now notified [] w = ([], w)"
| "announce ru now notified (f # fs) w =
     (if suppressed (an_cooldown (config_with_defaults (ru_config ru))) now notified f
      then announce ru now notified fs w
      else case ru_notify ru f w of
        (Some e, w1) \<Rightarrow>
          (let (errs, w2) = announce ru now notified fs w1
           in (ErrWrap (''notify '' @ cooldown_key f @ '': '') e [] # errs, w2))
      | (None, w1) \<Rightarrow>
          (case ru_record_notified ru f now w1 of
             (None, w2) \<Rightarrow> announce ru now notified fs w2
           | (Some e, w2) \<Rightarrow>
               (let (errs, w3) = announce ru now notified fs w2
                in (ErrWrap (''record cooldown '' @ cooldown_key f @ '': '') e [] # errs, w3))))"

definition run_once :: "'w runner \<Rightarrow> 'w \<Rightarrow> goerr option \<times> 'w" where
  "run_once ru w =
     (let now = ru_clock ru w in
      case evaluate_window ru now w of
        (Inl e, w1) \<Rightarrow> (Some e, w1)
      | (Inr fs, w1) \<Rightarrow>
          (if fs = [] then (None, w1)
           else case ru_last_notified ru w1 of
             (Inl e, w2) \<Rightarrow> (Some (ErrWrap ''load cooldowns: '' e []), w2)
           | (Inr notified, w2) \<Rightarrow>
               (case announce ru now notified fs w2 of
                  (errs, w3) \<Rightarrow> (if errs = [] then None else Some (ErrJoin newline errs), w3))))"

text \<open>
  \<open>Run\<close>: each tick is given what happened before it and whether the context had ended by then;
  an evaluation that fails ends the loop only if the context has ended.
\<close>

fun runner_loop :: "'w runner \<Rightarrow> (('w \<Rightarrow> 'w) \<times> bool \<times> bool) list \<Rightarrow> 'w \<Rightarrow> 'w" where
  "runner_loop ru [] w = w"
| "runner_loop ru ((before, ended, ended_during) # ticks) w =
     (if ended then before w
      else case run_once ru (before w) of
        (None, w1) \<Rightarrow> runner_loop ru ticks w1
      | (Some e, w1) \<Rightarrow> (if ended_during then w1 else runner_loop ru ticks w1))"

section \<open>The store\<close>

text \<open>
  The queries over the audit window answer from outside; of \<open>alert_notifications\<close> the store inserts
  rows and reads, per detector and signature, the newest stamp.
\<close>

type_synonym notification = "string \<times> string \<times> gotime"

record 'w alert_conn =
  ac_details :: "gotime \<Rightarrow> gotime \<Rightarrow> int \<Rightarrow> 'w \<Rightarrow> detail_count list res \<times> 'w"
  ac_counts :: "gotime \<Rightarrow> gotime \<Rightarrow> 'w \<Rightarrow> decision_counts res \<times> 'w"
  ac_newest :: "'w \<Rightarrow> notification list res \<times> 'w"
  ac_insert :: "notification \<Rightarrow> uint64 \<Rightarrow> string \<Rightarrow> 'w \<Rightarrow> goerr option \<times> 'w"

definition infra_error_details ::
  "'w alert_conn \<Rightarrow> gotime \<Rightarrow> gotime \<Rightarrow> int \<Rightarrow> 'w \<Rightarrow> detail_count list res \<times> 'w" where
  "infra_error_details c since until limit w =
     ac_details c since until (if limit \<le> 0 then 500 else limit) w"

definition decision_counts_in :: "'w alert_conn \<Rightarrow> gotime \<Rightarrow> gotime \<Rightarrow> 'w \<Rightarrow> decision_counts res \<times> 'w" where
  "decision_counts_in c since until w = ac_counts c since until w"

definition stamps_by_key :: "notification list \<Rightarrow> string \<Rightarrow> gotime option" where
  "stamps_by_key ns = fold (\<lambda>(d, s, t) m. m(d @ ''|'' @ s \<mapsto> t)) ns Map.empty"

definition last_notified :: "'w alert_conn \<Rightarrow> 'w \<Rightarrow> (string \<Rightarrow> gotime option) res \<times> 'w" where
  "last_notified c w =
     (case ac_newest c w of
        (Inl e, w1) \<Rightarrow> (Inl e, w1)
      | (Inr rows, w1) \<Rightarrow> (Inr (stamps_by_key rows), w1))"

definition record_notified :: "'w alert_conn \<Rightarrow> alert_finding \<Rightarrow> gotime \<Rightarrow> 'w \<Rightarrow> goerr option \<times> 'w" where
  "record_notified c f at1 w =
     ac_insert c (af_detector f, af_signature f, at1) (af_count f) (af_summary f) w"

text \<open>The runner as the application wires it.\<close>

definition store_runner ::
  "'w alert_conn \<Rightarrow> (alert_finding \<Rightarrow> 'w \<Rightarrow> goerr option \<times> 'w) \<Rightarrow> alert_config \<Rightarrow> ('w \<Rightarrow> gotime)
   \<Rightarrow> (real \<Rightarrow> string) \<Rightarrow> (real \<Rightarrow> real) \<Rightarrow> 'w runner" where
  "store_runner c notify cfg clk fmt1 rnd =
     \<lparr>ru_details = infra_error_details c, ru_counts = decision_counts_in c,
      ru_last_notified = last_notified c, ru_record_notified = record_notified c,
      ru_notify = notify, ru_config = cfg, ru_clock = clk, ru_fmt1 = fmt1, ru_round = rnd\<rparr>"

end
