(* ===== verification/App_Lifecycle.thy ===== *)
theory App_Lifecycle
  imports App_Wiring Alert_Runner Staging_Sweep Promote_Valkey Scan_Cache
begin

text \<open>
  \<open>internal/app\<close>, the life of a process: \<open>closerStack\<close>, the builders that dial the live back ends,
  \<open>BuildWithBackends\<close>, and \<open>Run\<close> with its drain. The state is what the libraries and the network will
  answer, next to a log of what was opened, closed, started and stopped; the log is read by the
  theorems only. Log lines of the program are left out.
\<close>

section \<open>What a process opens\<close>

datatype part = SessionConn | QueueConn | WriterConn | AuditQueue | ReaderConn | CacheConn | AlertConn

datatype task = PromotionWorker | Samplers | Alerter

datatype listener = GateServer | MetricsServer | DashboardServer

datatype lifecycle_event =
    Opened part | Closed part | Started task | Cancelled | Serving listener | ShutDown listener

record 'x process =
  ps_events :: "lifecycle_event list"
  ps_rest :: 'x

definition log_event :: "lifecycle_event \<Rightarrow> 'x process \<Rightarrow> 'x process" where
  "log_event ev p = p\<lparr>ps_events := ps_events p @ [ev]\<rparr>"

definition ask :: "('x \<Rightarrow> 'a \<times> 'x) \<Rightarrow> 'x process \<Rightarrow> 'a \<times> 'x process" where
  "ask f p = (case f (ps_rest p) of (a, x) \<Rightarrow> (a, p\<lparr>ps_rest := x\<rparr>))"

text \<open>
  What is outside: parsing a data source name, \<open>clickhouse.Open\<close>, the first ping of a client, the schema
  statements, and closing (for the audit queue: draining it into its writer).
\<close>

record 'x backends =
  bk_parse_dsn :: "string \<Rightarrow> goerr option"
  bk_open :: "part \<Rightarrow> string \<Rightarrow> 'x \<Rightarrow> goerr option \<times> 'x"
  bk_ping :: "part \<Rightarrow> 'x \<Rightarrow> goerr option \<times> 'x"
  bk_bootstrap :: "string \<Rightarrow> int \<Rightarrow> 'x \<Rightarrow> goerr option \<times> 'x"
  bk_alert_schema :: "'x \<Rightarrow> goerr option \<times> 'x"
  bk_close :: "part \<Rightarrow> 'x \<Rightarrow> 'x"
  bk_sweep :: "string \<Rightarrow> duration \<Rightarrow> 'x \<Rightarrow> 'x"

definition release :: "'x backends \<Rightarrow> part \<Rightarrow> 'x process \<Rightarrow> 'x process" where
  "release b c p = log_event (Closed c) (p\<lparr>ps_rest := bk_close b c (ps_rest p)\<rparr>)"

section \<open>The closer stack\<close>

type_synonym 'p closer = "'p \<Rightarrow> 'p"

definition push_closer :: "'p closer option \<Rightarrow> 'p closer list \<Rightarrow> 'p closer list" where
  "push_closer fn fns = (case fn of None \<Rightarrow> fns | Some f \<Rightarrow> fns @ [f])"

definition close_all :: "'p closer list \<Rightarrow> 'p \<Rightarrow> 'p" where
  "close_all fns p = fold (\<lambda>f q. f q) (rev fns) p"

section \<open>Constructors of clients\<close>

text \<open>
  \<open>redis.NewClient\<close> does not fail; the first ping may, and then only the scan cache's constructor
  closes its client again.
\<close>

definition dial_sessions :: "'x backends \<Rightarrow> 'x process \<Rightarrow> unit res \<times> 'x process" where
  "dial_sessions b p =
     (case ask (bk_ping b SessionConn) (log_event (Opened SessionConn) p) of
        (Some e, p1) \<Rightarrow> (Inl (ErrWrap ''connect valkey: '' e []), p1)
      | (None, p1) \<Rightarrow> (Inr (), p1))"

definition dial_queue :: "'x backends \<Rightarrow> 'x process \<Rightarrow> unit res \<times> 'x process" where
  "dial_queue b p =
     (case ask (bk_ping b QueueConn) (log_event (Opened QueueConn) p) of
        (Some e, p1) \<Rightarrow> (Inl (ErrWrap ''connect valkey for promote queue: '' e []), p1)
      | (None, p1) \<Rightarrow> (Inr (), p1))"

definition dial_cache :: "'x backends \<Rightarrow> 'x process \<Rightarrow> unit res \<times> 'x process" where
  "dial_cache b p =
     (case ask (bk_ping b CacheConn) (log_event (Opened CacheConn) p) of
        (Some e, p1) \<Rightarrow> (Inl (ErrWrap ''connect valkey for scan cache: '' e []), release b CacheConn p1)
      | (None, p1) \<Rightarrow> (Inr (), p1))"

definition parse_dsn_error :: "goerr \<Rightarrow> goerr" where
  "parse_dsn_error e = ErrWrap ''parse clickhouse dsn: '' e []"

text \<open>\<open>clickhouse.Open\<close> and \<open>Ping\<close>; the flag says whether a failed ping closes the connection.\<close>

definition open_clickhouse ::
  "'x backends \<Rightarrow> part \<Rightarrow> bool \<Rightarrow> string \<Rightarrow> 'x process \<Rightarrow> unit res \<times> 'x process" where
  "open_clickhouse b c close_on_error dsn p =
     (case ask (bk_open b c dsn) p of
        (Some e, p1) \<Rightarrow> (Inl (ErrWrap ''open clickhouse: '' e []), p1)
      | (None, p1) \<Rightarrow>
          (case ask (bk_ping b c) (log_event (Opened c) p1) of
             (Some e, p2) \<Rightarrow> (Inl (ErrWrap ''ping clickhouse: '' e []),
                              if close_on_error then release b c p2 else p2)
           | (None, p2) \<Rightarrow> (Inr (), p2)))"

definition new_clickhouse_writer :: "'x backends \<Rightarrow> string \<Rightarrow> int \<Rightarrow> 'x process \<Rightarrow> unit res \<times> 'x process" where
  "new_clickhouse_writer b dsn days p =
     (case bk_parse_dsn b dsn of
        Some e \<Rightarrow> (Inl (parse_dsn_error e), p)
      | None \<Rightarrow>
          (case ask (bk_bootstrap b dsn days) p of
             (Some e, p1) \<Rightarrow> (Inl (ErrWrap ''bootstrap schema: '' e []), p1)
           | (None, p1) \<Rightarrow> open_clickhouse b WriterConn True dsn p1))"

definition new_clickhouse_reader :: "'x backends \<Rightarrow> string \<Rightarrow> 'x process \<Rightarrow> unit res \<times> 'x process" where
  "new_clickhouse_reader b dsn p =
     (case bk_parse_dsn b dsn of
        Some e \<Rightarrow> (Inl (parse_dsn_error e), p)
      | None \<Rightarrow> open_clickhouse b ReaderConn False dsn p)"

definition new_clickhouse_store :: "'x backends \<Rightarrow> string \<Rightarrow> 'x process \<Rightarrow> unit res \<times> 'x process" where
  "new_clickhouse_store b dsn p =
     (case bk_parse_dsn b dsn of
        Some e \<Rightarrow> (Inl (parse_dsn_error e), p)
      | None \<Rightarrow>
          (case open_clickhouse b AlertConn True dsn p of
             (Inl e, p1) \<Rightarrow> (Inl e, p1)
           | (Inr _, p1) \<Rightarrow>
               (case ask (bk_alert_schema b) p1 of
                  (Some e, p2) \<Rightarrow> (Inl (ErrWrap ''create alert_notifications: '' e []), release b AlertConn p2)
                | (None, p2) \<Rightarrow> (Inr (), p2))))"

section \<open>The builders\<close>

text \<open>The values the clients become, given what they were built from, and the process's runtime.\<close>

record ('w, 'x) live_env =
  le_backends :: "'x backends"
  le_round :: "real \<Rightarrow> real"
  le_fetch_keys :: "config \<Rightarrow> 'x \<Rightarrow> 'w pod auth_env \<times> 'x"
  le_blobs :: "string \<Rightarrow> string \<Rightarrow> 'w blob_store res"
  le_sessions :: "string \<Rightarrow> duration \<Rightarrow> 'w session_store"
  le_staging :: "'w blob_store \<Rightarrow> 'w session_store \<Rightarrow> 'w staging"
  le_queue :: "string \<Rightarrow> string \<Rightarrow> 'w pod promote_queue"
  le_auditor :: "string \<Rightarrow> int \<Rightarrow> int \<Rightarrow> 'w pod recorder \<times> (tag_alias \<Rightarrow> 'w pod \<Rightarrow> 'w pod)"
  le_reports :: "string \<Rightarrow> 'w pod report_source"
  le_cache :: "string \<Rightarrow> duration \<Rightarrow> 'w pod report_store"
  le_scan :: "'w pod scan_env"
  le_metrics :: "'w pod metrics_observer"
  le_db_age :: "real \<Rightarrow> 'w pod \<Rightarrow> 'w pod"
  le_cache_obs :: "bool \<Rightarrow> 'w pod \<Rightarrow> 'w pod"
  le_requests :: "string \<Rightarrow> string \<Rightarrow> string \<Rightarrow> 'w pod \<Rightarrow> 'w pod"
  le_tee :: "'w pod recorder \<Rightarrow> 'w pod recorder"
  le_renderer :: bool
  le_push_id :: "'w pod \<Rightarrow> string \<times> 'w pod"
  le_rand :: "nat \<Rightarrow> 'w pod \<Rightarrow> bytes res \<times> 'w pod"
  le_clock :: "'w pod \<Rightarrow> gotime"
  le_runtime :: "'w runtime"
  le_slots :: "int \<Rightarrow> 'w pod slots"
  le_token_service :: "registry_issuer \<Rightarrow> 'w pod token_service"
  le_token_json :: "string \<Rightarrow> int \<Rightarrow> string"

definition build_staging :: "('w, 'x) live_env \<Rightarrow> config \<Rightarrow> 'x process \<Rightarrow> 'w staging res \<times> 'x process" where
  "build_staging env c p =
     (case le_blobs env (sg_blob_account_url (cf_staging c)) (sg_blob_container (cf_staging c)) of
        Inl e \<Rightarrow> (Inl (ErrWrap ''create blob store: '' e []), p)
      | Inr blobs \<Rightarrow>
          (case parse_duration (le_round env) (sg_session_ttl (cf_staging c)) of
             Inl e \<Rightarrow> (Inl (ErrWrap ''parse staging.session_ttl: '' e []), p)
           | Inr ttl \<Rightarrow>
               (case dial_sessions (le_backends env) p of
                  (Inl e, p1) \<Rightarrow> (Inl (ErrWrap ''create session store: '' e []), p1)
                | (Inr _, p1) \<Rightarrow>
                    (Inr (le_staging env blobs (le_sessions env (sg_valkey_addr (cf_staging c)) ttl)), p1))))"

definition build_promotion ::
  "('w, 'x) live_env \<Rightarrow> config \<Rightarrow> 'x process \<Rightarrow> 'w pod promote_queue res \<times> 'x process" where
  "build_promotion env c p =
     (case dial_queue (le_backends env) p of
        (Inl e, p1) \<Rightarrow> (Inl (ErrWrap ''create promote queue: '' e []), p1)
      | (Inr _, p1) \<Rightarrow> (Inr (le_queue env (sg_valkey_addr (cf_staging c)) default_key_prefix), p1))"

text \<open>The sink and the reader of the audit trail, and the closer of all three.\<close>

record 'w audit_components =
  ac_recorder :: "'w recorder"
  ac_alias :: "tag_alias \<Rightarrow> 'w \<Rightarrow> 'w"
  ac_reports :: "'w report_source"

definition build_audit ::
  "('w, 'x) live_env \<Rightarrow> config \<Rightarrow> 'x process
   \<Rightarrow> ('w pod audit_components \<times> 'x process closer) res \<times> 'x process" where
  "build_audit env c p =
     (let b = le_backends env; a = cf_audit c; dsn = ad_clickhouse_dsn a in
      case new_clickhouse_writer b dsn (ad_retention_days a) p of
        (Inl e, p1) \<Rightarrow> (Inl (ErrWrap ''create audit writer: '' e []), p1)
      | (Inr _, p1) \<Rightarrow>
          (let stack = push_closer (Some (release b WriterConn)) [];
               (recorder, alias1) = le_auditor env dsn (ad_retention_days a) (ad_queue_size a);
               p2 = log_event (Opened AuditQueue) p1;
               stack1 = push_closer (Some (release b AuditQueue)) stack
           in case new_clickhouse_reader b dsn p2 of
                (Inl e, p3) \<Rightarrow> (Inl (ErrWrap ''create audit reader: '' e []), close_all stack1 p3)
              | (Inr _, p3) \<Rightarrow>
                  (Inr (\<lparr>ac_recorder = recorder, ac_alias = alias1, ac_reports = le_reports env dsn\<rparr>,
                        close_all (push_closer (Some (release b ReaderConn)) stack1)), p3)))"

definition build_scan_cache ::
  "('w, 'x) live_env \<Rightarrow> config \<Rightarrow> 'x process
   \<Rightarrow> ('w pod report_store option \<times> 'x process closer option) res \<times> 'x process" where
  "build_scan_cache env c p =
     (if \<not> sc_enabled (gc_scan_cache (cf_grype c)) then (Inr (None, None), p)
      else case max_db_age_duration (le_round env) (gc_scan_cache (cf_grype c)) of
        Inl e \<Rightarrow> (Inl (ErrWrap ''scan cache: '' e []), p)
      | Inr _ \<Rightarrow>
          (if sg_valkey_addr (cf_staging c) = []
           then (Inl (ErrMsg ''scan cache: staging.valkey_addr is empty; the store is shared across replicas''), p)
           else case dial_cache (le_backends env) p of
             (Inl e, p1) \<Rightarrow> (Inl e, p1)
           | (Inr _, p1) \<Rightarrow>
               (Inr (Some (le_cache env (sg_valkey_addr (cf_staging c)) default_op_timeout),
                     Some (release (le_backends env) CacheConn)), p1)))"

text \<open>The recorder decisions go through, and the address of the dashboard if it is served.\<close>

definition build_dashboard ::
  "('w, 'x) live_env \<Rightarrow> config \<Rightarrow> 'w pod recorder \<Rightarrow> string option \<times> 'w pod recorder" where
  "build_dashboard env c recorder =
     (let addr = sv_dashboard_addr (cf_server c) in
      if to_lower addr = ''off'' \<or> addr = [] then (None, recorder)
      else if \<not> le_renderer env then (None, le_tee env recorder)
      else (Some addr, le_tee env recorder))"

definition sweep_scratch_at_startup :: "('w, 'x) live_env \<Rightarrow> config \<Rightarrow> 'x process \<Rightarrow> 'x process" where
  "sweep_scratch_at_startup env c p =
     (if sg_scratch_dir (cf_staging c) = [] then p
      else p\<lparr>ps_rest := bk_sweep (le_backends env) (sg_scratch_dir (cf_staging c)) default_scratch_max_age (ps_rest p)\<rparr>)"

definition start_alerter ::
  "('w, 'x) live_env \<Rightarrow> config \<Rightarrow> 'x process \<Rightarrow> 'x process closer option res \<times> 'x process" where
  "start_alerter env c p =
     (if \<not> alerts_enabled (cf_alerts c) then (Inr None, p)
      else case alert_config_of (le_round env) (cf_alerts c) of
        Inl e \<Rightarrow> (Inl e, p)
      | Inr _ \<Rightarrow>
          (case new_clickhouse_store (le_backends env) (ad_clickhouse_dsn (cf_audit c)) p of
             (Inl e, p1) \<Rightarrow> (Inl (ErrWrap ''create alert store: '' e []), p1)
           | (Inr _, p1) \<Rightarrow> (Inr (Some (release (le_backends env) AlertConn)), log_event (Started Alerter) p1)))"

section \<open>The build\<close>

record ('w, 'x) servers =
  sr_gate_addr :: string
  sr_gate :: "'w handler"
  sr_metrics_addr :: string
  sr_dashboard :: "string option"
  sr_close :: "'x process closer"

definition build_servers :: "config \<Rightarrow> 'w handler \<Rightarrow> string option \<Rightarrow> 'x process closer \<Rightarrow> ('w, 'x) servers" where
  "build_servers c gate dash closer =
     \<lparr>sr_gate_addr = sv_addr (cf_server c), sr_gate = gate, sr_metrics_addr = sv_metrics_addr (cf_server c),
      sr_dashboard = dash, sr_close = closer\<rparr>"

definition fail_build :: "'x process closer list \<Rightarrow> goerr \<Rightarrow> 'x process \<Rightarrow> 'a res \<times> 'x process" where
  "fail_build closers e p = (Inl e, close_all closers (log_event Cancelled p))"

definition or_fail ::
  "'x process closer list \<Rightarrow> 'a res \<times> 'x process \<Rightarrow> ('a \<Rightarrow> 'x process \<Rightarrow> 'b res \<times> 'x process)
   \<Rightarrow> 'b res \<times> 'x process" where
  "or_fail closers r k =
     (case r of (Inl e, p) \<Rightarrow> fail_build closers e p | (Inr a, p) \<Rightarrow> k a p)"

text \<open>
  The build is a sequence; its last two stages, from the policy engine on and from the goroutines on,
  have names of their own.
\<close>

definition build_tail ::
  "('w, 'x) live_env \<Rightarrow> config \<Rightarrow> 'w handler \<Rightarrow> string option \<Rightarrow> 'x process closer list \<Rightarrow> 'x process
   \<Rightarrow> ('w, 'x) servers res \<times> 'x process" where
  "build_tail env c gate dash closers p =
     (let p1 = log_event (Started Samplers) (log_event (Started PromotionWorker) p) in
      or_fail closers (case start_alerter env c p1 of
          (Inl e, p2) \<Rightarrow> (Inl (ErrWrap ''start alerter: '' e []), p2) | (Inr cl, p2) \<Rightarrow> (Inr cl, p2))
        (\<lambda>close_alerts p2.
          (Inr (build_servers c gate dash
             (\<lambda>q. close_all (push_closer close_alerts closers) (log_event Cancelled q))), p2)))"

definition build_gate ::
  "('w, 'x) live_env \<Rightarrow> config \<Rightarrow> duration \<Rightarrow> 'w pod auth_components \<Rightarrow> 'w staging \<Rightarrow> 'w pod promote_queue
   \<Rightarrow> 'w pod audit_components \<Rightarrow> 'w pod report_store option \<Rightarrow> 'x process closer list \<Rightarrow> 'x process
   \<Rightarrow> ('w, 'x) servers res \<times> 'x process" where
  "build_gate env c gate_timeout authc store queue auditc cache closers p =
     or_fail closers (build_policy_engine (le_round env) (le_scan env) c
         \<lparr>pd_db_age = Some (le_db_age env), pd_scan_cache = cache, pd_cache_obs = Some (le_cache_obs env)\<rparr>, p)
       (\<lambda>engine p1.
         let (dash, recorder) = build_dashboard env c (ac_recorder auditc);
             outcome1 = build_outcome (le_rand env) (le_clock env) (Some recorder) (Some (ac_alias auditc))
                          (Some (le_metrics env)) (Some (le_push_id env))
         in or_fail closers (build_ingress (le_runtime env) (le_slots env) c
              \<lparr>id_auth = authc, id_store = store, id_reports = ac_reports auditc, id_router = engine,
               id_outcome = outcome1, id_requests = le_requests env, id_queue = queue,
               id_gate_timeout = gate_timeout, id_token_service = le_token_service env (at_issuer authc),
               id_token_json = le_token_json env\<rparr>, sweep_scratch_at_startup env c p1)
            (\<lambda>gate p2. build_tail env c gate dash closers p2))"

definition build_with_backends ::
  "('w, 'x) live_env \<Rightarrow> config \<Rightarrow> 'x process \<Rightarrow> ('w, 'x) servers res \<times> 'x process" where
  "build_with_backends env c p0 =
     (case validate_production_config c of
        Some e \<Rightarrow> (Inl e, p0)
      | None \<Rightarrow>
      case parse_duration (le_round env) (sv_gate_timeout (cf_server c)) of
        Inl e \<Rightarrow> (Inl (ErrWrap (''parse gate timeout '' @ fmt_q (sv_gate_timeout (cf_server c)) @ '': '') e []), p0)
      | Inr gate_timeout \<Rightarrow>
          or_fail [] (case ask (le_fetch_keys env c) p0 of (ae, p) \<Rightarrow> (build_auth (le_round env) ae c, p)) (\<lambda>authc p1.
          or_fail [] (build_staging env c p1) (\<lambda>store p2.
          or_fail [] (build_promotion env c p2) (\<lambda>queue p3.
          or_fail [] (build_audit env c p3) (\<lambda>(auditc, close_audit) p4.
          or_fail (push_closer (Some close_audit) []) (build_scan_cache env c p4) (\<lambda>(cache, close_cache) p5.
            build_gate env c gate_timeout authc store queue auditc cache
              (push_closer close_cache (push_closer (Some close_audit) [])) p5))))))"

section \<open>Run\<close>

definition drain :: "('w, 'x) servers \<Rightarrow> 'x process \<Rightarrow> 'x process" where
  "drain s p =
     (let p1 = log_event (ShutDown MetricsServer) (log_event (ShutDown GateServer) p)
      in if sr_dashboard s = None then p1 else log_event (ShutDown DashboardServer) p1)"

text \<open>
  \<open>wait\<close> is the select on the shutdown signal and on the two fatal listeners: the error of a listener,
  or none. What \<open>Shutdown\<close> reports is only logged, so a drain that ran out of time ends like any other.
\<close>

definition run_app ::
  "(real \<Rightarrow> real) \<Rightarrow> ('x \<Rightarrow> goerr option \<times> 'x)
   \<Rightarrow> (config \<Rightarrow> 'x process \<Rightarrow> ('w, 'x) servers res \<times> 'x process) \<Rightarrow> config \<Rightarrow> 'x process
   \<Rightarrow> goerr option \<times> 'x process" where
  "run_app rnd wait build c p =
     (case parse_duration rnd (sv_shutdown_timeout (cf_server c)) of
        Inl e \<Rightarrow> (Some (ErrWrap (''parse shutdown_timeout '' @ fmt_q (sv_shutdown_timeout (cf_server c)) @ '': '') e []), p)
      | Inr budget \<Rightarrow>
          (case build c p of
             (Inl e, p1) \<Rightarrow> (Some e, p1)
           | (Inr s, p1) \<Rightarrow>
               (let p2 = log_event (Serving GateServer) (log_event (Serving MetricsServer) p1);
                    p3 = (if sr_dashboard s = None then p2 else log_event (Serving DashboardServer) p2)
                in case ask wait p3 of (cause, p4) \<Rightarrow> (cause, sr_close s (drain s p4)))))"

end
