(* ===== verification/App_Lifecycle_Laws.thy ===== *)
theory App_Lifecycle_Laws
  imports App_Lifecycle
begin

text \<open>
  What a process releases: on every path of \<open>BuildWithBackends\<close> and \<open>Run\<close>, what is left open, and in
  which order the rest was closed.
\<close>

section \<open>Logs\<close>

fun open_parts :: "lifecycle_event list \<Rightarrow> part list \<Rightarrow> part list" where
  "open_parts [] s = s"
| "open_parts (Opened c # es) s = open_parts es (c # s)"
| "open_parts (Closed c # es) s = open_parts es (remove1 c s)"
| "open_parts (ev # es) s = open_parts es s"

definition left_open :: "lifecycle_event list \<Rightarrow> part list" where
  "left_open evs = open_parts evs []"

text \<open>
  A part may be closed when it is open, the queue of decisions is drained before its writer goes, the
  goroutines that use it were told to stop, and the gate no longer accepts requests. (The alerter's own
  connection is closed by its constructor when the schema cannot be created.)
\<close>

definition may_close :: "lifecycle_event list \<Rightarrow> part \<Rightarrow> bool" where
  "may_close past c \<longleftrightarrow> c \<in> set (left_open past) \<and> (c = WriterConn \<longrightarrow> AuditQueue \<notin> set (left_open past))
     \<and> (c \<noteq> AlertConn \<longrightarrow> Started PromotionWorker \<in> set past \<longrightarrow> Cancelled \<in> set past)
     \<and> (Serving GateServer \<in> set past \<longrightarrow> ShutDown GateServer \<in> set past)"

fun orderly :: "lifecycle_event list \<Rightarrow> lifecycle_event list \<Rightarrow> bool" where
  "orderly past [] = True"
| "orderly past (ev # es) =
     ((case ev of Closed c \<Rightarrow> may_close past c | _ \<Rightarrow> True) \<and> orderly (past @ [ev]) es)"

lemmas log_eval = left_open_def may_close_def

section \<open>The log of each step\<close>

lemma log_event_events [simp]: "ps_events (log_event ev p) = ps_events p @ [ev]"
  by (simp add: log_event_def)

lemma release_events [simp]: "ps_events (release b c p) = ps_events p @ [Closed c]"
  by (simp add: release_def)

lemma ask_events: "ask f p = (a, p') \<Longrightarrow> ps_events p' = ps_events p"
  by (auto simp: ask_def split: prod.splits)

text \<open>A step that ends with \<open>r\<close> added \<open>es\<close>.\<close>

definition adds :: "lifecycle_event list \<Rightarrow> 'x process \<Rightarrow> 'x process \<Rightarrow> bool" where
  "adds es p p' \<longleftrightarrow> ps_events p' = ps_events p @ es"

definition closes :: "part list \<Rightarrow> ('x process \<Rightarrow> 'x process) \<Rightarrow> bool" where
  "closes cs f \<longleftrightarrow> (\<forall>p. ps_events (f p) = ps_events p @ map Closed cs)"

lemma closes_release: "closes [c] (release b c)"
  by (simp add: closes_def)

lemma close_all_Nil [simp]: "close_all [] p = p"
  by (simp add: close_all_def)

lemma close_all_snoc [simp]: "close_all (fs @ [f]) p = close_all fs (f p)"
  by (simp add: close_all_def)

lemma close_all_single [simp]: "close_all [f] p = f p"
  by (simp add: close_all_def)

lemma close_all_pair [simp]: "close_all [f, g] p = f (g p)"
  by (simp add: close_all_def)

lemma close_all_triple [simp]: "close_all [f, g, h] p = f (g (h p))"
  by (simp add: close_all_def)

lemma dial_sessions_log: "dial_sessions b p = (r, p') \<Longrightarrow> adds [Opened SessionConn] p p'"
  by (auto simp: dial_sessions_def adds_def split: prod.splits option.splits dest!: ask_events)

lemma dial_queue_log: "dial_queue b p = (r, p') \<Longrightarrow> adds [Opened QueueConn] p p'"
  by (auto simp: dial_queue_def adds_def split: prod.splits option.splits dest!: ask_events)

lemma dial_cache_log:
  "dial_cache b p = (r, p') \<Longrightarrow> adds (Opened CacheConn # (if isl r then [Closed CacheConn] else [])) p p'"
  by (auto simp: dial_cache_def adds_def split: prod.splits option.splits dest!: ask_events)

lemma open_clickhouse_log:
  assumes "open_clickhouse b c fl dsn p = (r, p')"
  shows "if isl r then \<exists>es \<in> {[], Opened c # (if fl then [Closed c] else [])}. adds es p p'
         else adds [Opened c] p p'"
  using assms
  by (auto simp: open_clickhouse_def adds_def split: prod.splits option.splits if_splits dest!: ask_events)

lemma writer_log:
  assumes "new_clickhouse_writer b dsn days p = (r, p')"
  shows "if isl r then \<exists>es \<in> {[], [Opened WriterConn, Closed WriterConn]}. adds es p p'
         else adds [Opened WriterConn] p p'"
proof -
  have "\<exists>r1 p1. new_clickhouse_writer b dsn days p = (r1, p1) \<and> isl r1 \<and> ps_events p1 = ps_events p
     \<or> (\<exists>p1. ps_events p1 = ps_events p \<and> open_clickhouse b WriterConn True dsn p1 = (r, p'))"
    using assms by (auto simp: new_clickhouse_writer_def split: option.splits prod.splits dest: ask_events)
  then show ?thesis
    using assms by (auto simp: adds_def split: if_splits dest!: open_clickhouse_log)
qed

lemma reader_log:
  assumes "new_clickhouse_reader b dsn p = (r, p')"
  shows "if isl r then \<exists>es \<in> {[], [Opened ReaderConn]}. adds es p p' else adds [Opened ReaderConn] p p'"
  using assms
  by (auto simp: new_clickhouse_reader_def adds_def split: option.splits if_splits dest!: open_clickhouse_log)

lemma alert_store_log:
  assumes "new_clickhouse_store b dsn p = (r, p')"
  shows "if isl r then \<exists>es \<in> {[], [Opened AlertConn, Closed AlertConn]}. adds es p p'
         else adds [Opened AlertConn] p p'"
  using assms
  by (auto simp: new_clickhouse_store_def adds_def split: option.splits prod.splits sum.splits if_splits
      dest!: open_clickhouse_log ask_events)

section \<open>The log of each builder\<close>

lemma build_staging_log:
  assumes "build_staging env c p = (r, p')"
  shows "if isl r then \<exists>es \<in> {[], [Opened SessionConn]}. adds es p p' else adds [Opened SessionConn] p p'"
  using assms
  by (auto simp: build_staging_def adds_def split: sum.splits prod.splits dest!: dial_sessions_log)

lemma build_promotion_log:
  assumes "build_promotion env c p = (r, p')" shows "adds [Opened QueueConn] p p'"
  using assms by (auto simp: build_promotion_def adds_def split: sum.splits prod.splits dest!: dial_queue_log)

lemma build_audit_log:
  assumes "build_audit env c p = (r, p')"
  shows "case r of
      Inl e \<Rightarrow> (\<exists>es \<in> {[], [Opened WriterConn, Closed WriterConn],
          [Opened WriterConn, Opened AuditQueue, Closed AuditQueue, Closed WriterConn],
          [Opened WriterConn, Opened AuditQueue, Opened ReaderConn, Closed AuditQueue, Closed WriterConn]}.
        adds es p p')
    | Inr (a, cl) \<Rightarrow> adds [Opened WriterConn, Opened AuditQueue, Opened ReaderConn] p p'
        \<and> closes [ReaderConn, AuditQueue, WriterConn] cl"
  using assms
  by (auto simp: build_audit_def Let_def adds_def closes_def push_closer_def
      split: sum.splits prod.splits if_splits dest!: writer_log reader_log)

lemma build_scan_cache_log:
  assumes "build_scan_cache env c p = (r, p')"
  shows "case r of
      Inl e \<Rightarrow> (\<exists>es \<in> {[], [Opened CacheConn, Closed CacheConn]}. adds es p p')
    | Inr (s, None) \<Rightarrow> adds [] p p'
    | Inr (s, Some cl) \<Rightarrow> adds [Opened CacheConn] p p' \<and> closes [CacheConn] cl"
  using assms
  by (auto simp: build_scan_cache_def adds_def closes_release split: sum.splits prod.splits if_splits option.splits
      dest!: dial_cache_log)

lemma start_alerter_log:
  assumes "start_alerter env c p = (r, p')"
  shows "case r of
      Inl e \<Rightarrow> (\<exists>es \<in> {[], [Opened AlertConn, Closed AlertConn]}. adds es p p')
    | Inr None \<Rightarrow> adds [] p p'
    | Inr (Some cl) \<Rightarrow> adds [Opened AlertConn, Started Alerter] p p' \<and> closes [AlertConn] cl"
  using assms
  by (auto simp: start_alerter_def adds_def closes_release split: sum.splits prod.splits if_splits option.splits
      dest!: alert_store_log)

lemma sweep_log: "ps_events (sweep_scratch_at_startup env c p) = ps_events p"
  by (simp add: sweep_scratch_at_startup_def)

section \<open>The log of the build\<close>

lemma or_fail_cases:
  assumes "or_fail cl x k = (r, p')"
  obtains (failed) e p1 where "x = (Inl e, p1)" "r = Inl e" "p' = close_all cl (log_event Cancelled p1)"
  | (went_on) a p1 where "x = (Inr a, p1)" "k a p1 = (r, p')"
  using assms by (auto simp: or_fail_def fail_build_def split: prod.splits sum.splits)

definition failed_log :: "lifecycle_event list \<Rightarrow> bool" where
  "failed_log es \<longleftrightarrow> orderly [] es \<and> set (left_open es) \<subseteq> {SessionConn, QueueConn, ReaderConn}
     \<and> Serving GateServer \<notin> set es"

text \<open>What a successful build opened and started, with or without the scan cache and the alerter.\<close>

definition opened_log :: "bool \<Rightarrow> bool \<Rightarrow> lifecycle_event list" where
  "opened_log cache alerts =
     [Opened SessionConn, Opened QueueConn, Opened WriterConn, Opened AuditQueue, Opened ReaderConn]
     @ (if cache then [Opened CacheConn] else []) @ [Started PromotionWorker, Started Samplers]
     @ (if alerts then [Opened AlertConn, Started Alerter] else [])"

definition closing_log :: "bool \<Rightarrow> bool \<Rightarrow> lifecycle_event list" where
  "closing_log cache alerts =
     [Cancelled] @ (if alerts then [Closed AlertConn] else []) @ (if cache then [Closed CacheConn] else [])
     @ [Closed ReaderConn, Closed AuditQueue, Closed WriterConn]"

definition built_log :: "('w, 'x) servers res \<Rightarrow> lifecycle_event list \<Rightarrow> bool" where
  "built_log r es =
     (case r of
        Inl e \<Rightarrow> failed_log es
      | Inr s \<Rightarrow> (\<exists>cache alerts. es = opened_log cache alerts
          \<and> (\<forall>q. ps_events (sr_close s q) = ps_events q @ closing_log cache alerts)))"

abbreviation audit_opened :: "lifecycle_event list" where
  "audit_opened \<equiv> [Opened SessionConn, Opened QueueConn, Opened WriterConn, Opened AuditQueue, Opened ReaderConn]"

text \<open>The closers a build holds once the audit trail and the scan cache are open.\<close>

definition holds_closers ::
  "('x process \<Rightarrow> 'x process) \<Rightarrow> ('x process \<Rightarrow> 'x process) option \<Rightarrow> ('x process \<Rightarrow> 'x process) list \<Rightarrow> bool" where
  "holds_closers close_audit close_cache cls \<longleftrightarrow> cls = push_closer close_cache [close_audit]
     \<and> closes [ReaderConn, AuditQueue, WriterConn] close_audit
     \<and> (case close_cache of None \<Rightarrow> True | Some f \<Rightarrow> closes [CacheConn] f)"

lemma built_failed: "failed_log es \<Longrightarrow> built_log (Inl e) es"
  by (simp add: built_log_def)

lemma build_tail_log:
  assumes tail: "build_tail env c gate dash cls p = (r, p')"
    and cls: "holds_closers close_audit close_cache cls"
    and ev: "ps_events p = audit_opened @ (if close_cache = None then [] else [Opened CacheConn])"
  shows "built_log r (ps_events p')"
  using tail [unfolded build_tail_def Let_def]
proof (cases rule: or_fail_cases)
  case (failed e p1)
  then obtain e' where "start_alerter env c (log_event (Started Samplers) (log_event (Started PromotionWorker) p)) = (Inl e', p1)" by (auto split: prod.splits sum.splits)
  with failed ev cls show ?thesis
    by (cases close_cache) (auto simp: holds_closers_def built_log_def failed_log_def adds_def closes_def push_closer_def log_eval
        dest!: start_alerter_log)
next
  case (went_on a p1)
  then have "start_alerter env c (log_event (Started Samplers) (log_event (Started PromotionWorker) p)) = (Inr a, p1)" by (auto split: prod.splits sum.splits)
  with went_on ev cls obtain sv where "r = Inr sv" "ps_events p' = opened_log (close_cache \<noteq> None) (a \<noteq> None)"
    "\<forall>q. ps_events (sr_close sv q) = ps_events q @ closing_log (close_cache \<noteq> None) (a \<noteq> None)"
    by (cases close_cache; cases a)
      (auto simp: holds_closers_def adds_def closes_def push_closer_def build_servers_def opened_log_def
        closing_log_def dest!: start_alerter_log)
  then show ?thesis unfolding built_log_def by auto
qed

lemma cancelled_log:
  assumes "holds_closers close_audit close_cache cls"
    and "ps_events p = audit_opened @ (if close_cache = None then [] else [Opened CacheConn])"
  shows "failed_log (ps_events (close_all cls (log_event Cancelled p)))"
  using assms by (cases close_cache) (auto simp: holds_closers_def failed_log_def closes_def push_closer_def log_eval)

lemma build_gate_log:
  assumes "build_gate env c tmo authc store queue auditc cache cls p = (r, p')"
    and cls: "holds_closers close_audit close_cache cls"
    and ev: "ps_events p = audit_opened @ (if close_cache = None then [] else [Opened CacheConn])"
  shows "built_log r (ps_events p')"
  using assms(1) [unfolded build_gate_def]
proof (cases rule: or_fail_cases)
  case (failed e p1)
  with cancelled_log [OF cls ev] show ?thesis by (auto intro!: built_failed)
next
  case (went_on engine p1)
  obtain dash recorder where d: "build_dashboard env c (ac_recorder auditc) = (dash, recorder)"
    by (rule prod.exhaust)
  have ev1: "ps_events (sweep_scratch_at_startup env c p1)
      = audit_opened @ (if close_cache = None then [] else [Opened CacheConn])"
    using went_on(1) ev by (simp add: sweep_log)
  from went_on(2) [unfolded d prod.case Let_def] show ?thesis
  proof (cases rule: or_fail_cases)
    case (failed e p2)
    with cancelled_log [OF cls ev1] show ?thesis by (auto intro!: built_failed)
  next
    case (went_on gate p2)
    with build_tail_log [OF _ cls, of env c gate dash p2] ev1 show ?thesis by auto
  qed
qed

lemma build_log:
  assumes "build_with_backends env c p0 = (r, p')" and "ps_events p0 = []"
  shows "built_log r (ps_events p')"
proof (cases "validate_production_config c")
  case (Some e)
  with assms show ?thesis by (auto simp: build_with_backends_def built_log_def failed_log_def log_eval)
next
  case None
  note valid = this
  show ?thesis
  proof (cases "parse_duration (le_round env) (sv_gate_timeout (cf_server c))")
    case (Inl e)
    with assms valid show ?thesis
      by (auto simp: build_with_backends_def built_log_def failed_log_def log_eval)
  next
    case (Inr tmo)
    note b = assms(1) [unfolded build_with_backends_def valid option.case Inr sum.case]
    from b show ?thesis
    proof (cases rule: or_fail_cases)
      case (failed e p1)
      then have "ps_events p1 = []" using assms(2) by (auto split: prod.splits dest: ask_events)
      with failed show ?thesis by (auto simp: failed_log_def log_eval intro!: built_failed)
    next
      case (went_on authc p1)
      then have p1: "ps_events p1 = []" using assms(2) by (auto split: prod.splits dest: ask_events)
      from went_on(2) show ?thesis
      proof (cases rule: or_fail_cases)
        case (failed e p2)
        with p1 show ?thesis
          by (auto simp: failed_log_def log_eval adds_def dest!: build_staging_log intro!: built_failed)
      next
        case (went_on store p2)
        then have p2: "ps_events p2 = [Opened SessionConn]"
          using p1 by (auto simp: adds_def dest!: build_staging_log)
        from went_on(2) show ?thesis
        proof (cases rule: or_fail_cases)
          case (failed e p3)
          with p2 show ?thesis
            by (auto simp: failed_log_def log_eval adds_def dest!: build_promotion_log intro!: built_failed)
        next
          case (went_on queue p3)
          then have p3: "ps_events p3 = [Opened SessionConn, Opened QueueConn]"
            using p2 by (auto simp: adds_def dest!: build_promotion_log)
          from went_on(2) show ?thesis
          proof (cases rule: or_fail_cases)
            case (failed e p4)
            with p3 show ?thesis
              by (auto simp: failed_log_def log_eval adds_def dest!: build_audit_log intro!: built_failed)
          next
            case (went_on ac p4)
            obtain auditc close_audit where ac: "ac = (auditc, close_audit)" by (rule prod.exhaust)
            have p4: "ps_events p4 = audit_opened" "closes [ReaderConn, AuditQueue, WriterConn] close_audit"
              using build_audit_log [OF went_on(1)] p3 by (auto simp: ac adds_def)
            from went_on(2) [unfolded ac prod.case] show ?thesis
            proof (cases rule: or_fail_cases)
              case (failed e p5)
              with p4 show ?thesis
                by (auto simp: failed_log_def log_eval adds_def closes_def push_closer_def
                    dest!: build_scan_cache_log intro!: built_failed)
            next
              case (went_on sc p5)
              obtain cache close_cache where sc: "sc = (cache, close_cache)" by (rule prod.exhaust)
              have "holds_closers close_audit close_cache (push_closer close_cache [close_audit])"
                "ps_events p5 = audit_opened @ (if close_cache = None then [] else [Opened CacheConn])"
                using build_scan_cache_log [OF went_on(1)] p4
                by (auto simp: sc holds_closers_def adds_def split: option.splits)
              from build_gate_log [OF _ this] went_on(2) show ?thesis
                by (auto simp: sc push_closer_def [of "Some close_audit"])
            qed
          qed
        qed
      qed
    qed
  qed
qed

section \<open>Every run\<close>

text \<open>What \<open>Run\<close> adds between the build and the release.\<close>

definition served_log :: "bool \<Rightarrow> lifecycle_event list" where
  "served_log dash =
     [Serving MetricsServer, Serving GateServer] @ (if dash then [Serving DashboardServer] else [])
     @ [ShutDown GateServer, ShutDown MetricsServer] @ (if dash then [ShutDown DashboardServer] else [])"

lemma run_log:
  assumes "run_app rnd wait build c p = (r, p')"
  shows "(\<exists>e p1. build c p = (Inl e, p1) \<and> p' = p1 \<and> r = Some e) \<or> (p' = p \<and> r \<noteq> None)
    \<or> (\<exists>s p1 q. build c p = (Inr s, p1) \<and> p' = sr_close s q
         \<and> ps_events q = ps_events p1 @ served_log (sr_dashboard s \<noteq> None))"
proof -
  have q: "ps_events (drain s p4) = ps_events p1 @ served_log (sr_dashboard s \<noteq> None)"
    if "ask wait (if sr_dashboard s = None then log_event (Serving GateServer) (log_event (Serving MetricsServer) p1)
        else log_event (Serving DashboardServer) (log_event (Serving GateServer) (log_event (Serving MetricsServer) p1)))
      = (cause, p4)" for s :: "('b, 'a) servers" and cause p1 p4
    using ask_events [OF that] by (auto simp: drain_def served_log_def Let_def)
  from assms show ?thesis
    by (auto simp: run_app_def Let_def split: sum.splits prod.splits dest!: q)
qed

lemma whole_log:
  "orderly [] (opened_log cache alerts @ served_log dash @ closing_log cache alerts)"
  "left_open (opened_log cache alerts @ served_log dash @ closing_log cache alerts) = [QueueConn, SessionConn]"
  by (cases cache; cases alerts; cases dash;
      simp add: opened_log_def served_log_def closing_log_def log_eval)+


text \<open>What leaves the reader's connection open: its constructor does not close it when the ping fails.\<close>

lemma reader_ping_leaks:
  assumes "bk_parse_dsn b dsn = None" and "bk_open b ReaderConn dsn (ps_rest p) = (None, x1)"
    and "bk_ping b ReaderConn x1 = (Some e, x2)"
  shows "new_clickhouse_reader b dsn p
    = (Inl (ErrWrap ''ping clickhouse: '' e []), \<lparr>ps_events = ps_events p @ [Opened ReaderConn], ps_rest = x2\<rparr>)"
  using assms by (cases p) (simp add: new_clickhouse_reader_def open_clickhouse_def ask_def log_event_def)

end
