(* ===== verification/Dashboard_Feed.thy ===== *)
theory Dashboard_Feed
  imports Audit_Decision "HOL-Library.Sublist"
begin

text \<open>
  The live feed of the dashboard (\<open>dashboard/stream.go\<close>, \<open>recorder.go\<close> and the event stream of
  \<open>server.go\<close>): a broadcaster with one buffered channel per subscriber, the recorder that tees gate
  decisions into it, and the server-sent-event frames a subscriber is written. Each operation holds
  the broadcaster's lock, so an execution is a sequence of operations; a receive takes from one
  channel only.
\<close>

record decision_summary =
  ds_ts :: gotime
  ds_push_id :: string
  ds_repo :: string
  ds_tag :: string
  ds_digest :: string
  ds_identity :: string
  ds_passed :: bool
  ds_reasons :: "string list"

section \<open>The broadcaster\<close>

record chan =
  ch_queue :: "decision_summary list"
  ch_closed :: bool

text \<open>
  \<open>bc_chans\<close> is the heap of channels ever made, \<open>bc_subs\<close> the identifiers the \<open>subs\<close> map holds. A
  \<open>cancel\<close> function is identified by the subscription it belongs to; it runs once.
\<close>

record broadcaster =
  bc_chans :: "nat \<Rightarrow> chan option"
  bc_subs :: "nat list"
  bc_next_id :: nat
  bc_buffer :: nat

definition new_broadcaster :: "int \<Rightarrow> broadcaster" where
  "new_broadcaster buffer =
     \<lparr>bc_chans = Map.empty, bc_subs = [], bc_next_id = 0,
      bc_buffer = nat (if buffer < 1 then 16 else buffer)\<rparr>"

definition subscribe :: "broadcaster \<Rightarrow> nat \<times> broadcaster" where
  "subscribe b =
     (let i = bc_next_id b in
      (i, b\<lparr>bc_next_id := Suc i, bc_chans := (bc_chans b)(i \<mapsto> \<lparr>ch_queue = [], ch_closed = False\<rparr>),
            bc_subs := i # bc_subs b\<rparr>))"

definition unsubscribe :: "nat \<Rightarrow> broadcaster \<Rightarrow> broadcaster" where
  "unsubscribe i b =
     (if i \<in> set (bc_subs b)
      then b\<lparr>bc_subs := removeAll i (bc_subs b),
             bc_chans := (bc_chans b)(i := map_option (\<lambda>c. c\<lparr>ch_closed := True\<rparr>) (bc_chans b i))\<rparr>
      else b)"

text \<open>A send that does not block: it appends, or drops when the buffer is full.\<close>

definition offer :: "nat \<Rightarrow> decision_summary \<Rightarrow> chan \<Rightarrow> chan" where
  "offer cap d c = (if length (ch_queue c) < cap then c\<lparr>ch_queue := ch_queue c @ [d]\<rparr> else c)"

fun publish_to :: "decision_summary \<Rightarrow> nat list \<Rightarrow> broadcaster \<Rightarrow> broadcaster" where
  "publish_to d [] b = b"
| "publish_to d (i # is) b =
     publish_to d is
       (b\<lparr>bc_chans := (bc_chans b)(i := map_option (offer (bc_buffer b) d) (bc_chans b i))\<rparr>)"

definition publish :: "decision_summary \<Rightarrow> broadcaster \<Rightarrow> broadcaster" where
  "publish d b = publish_to d (bc_subs b) b"

definition subscriber_count :: "broadcaster \<Rightarrow> nat" where
  "subscriber_count b = length (bc_subs b)"

text \<open>What a receive finds: a decision, the end of the channel, or nothing yet.\<close>

datatype received = Got decision_summary | Ended | Waiting

definition receive :: "nat \<Rightarrow> broadcaster \<Rightarrow> received \<times> broadcaster" where
  "receive i b =
     (case bc_chans b i of
        None \<Rightarrow> (Waiting, b)
      | Some c \<Rightarrow>
          (case ch_queue c of
             d # ds \<Rightarrow> (Got d, b\<lparr>bc_chans := (bc_chans b)(i \<mapsto> c\<lparr>ch_queue := ds\<rparr>)\<rparr>)
           | [] \<Rightarrow> (if ch_closed c then Ended else Waiting, b)))"

section \<open>The tee\<close>

definition summary_of :: "decision \<Rightarrow> decision_summary" where
  "summary_of d =
     \<lparr>ds_ts = 0, ds_push_id = ad_push_id d, ds_repo = ad_repo d, ds_tag = ad_tag d, ds_digest = ad_digest d,
      ds_identity = ad_identity d, ds_passed = ad_passed d, ds_reasons = ad_reasons d\<rparr>"

text \<open>The state is the inner recorder's and the broadcaster's; either may be absent.\<close>

record 'w tee =
  te_inner :: "'w recorder option"
  te_alias :: "(tag_alias \<Rightarrow> 'w \<Rightarrow> 'w) option"
  te_live :: bool

definition tee_record :: "'w tee \<Rightarrow> decision \<Rightarrow> finding list \<Rightarrow> 'w \<times> broadcaster \<Rightarrow> 'w \<times> broadcaster" where
  "tee_record t d fs s =
     (let w1 = (case te_inner t of None \<Rightarrow> fst s | Some rec \<Rightarrow> rec d fs (fst s))
      in (w1, if te_live t then publish (summary_of d) (snd s) else snd s))"

definition tee_record_tag_alias :: "'w tee \<Rightarrow> tag_alias \<Rightarrow> 'w \<times> broadcaster \<Rightarrow> 'w \<times> broadcaster" where
  "tee_record_tag_alias t al s =
     (case te_inner t of
        None \<Rightarrow> s
      | Some _ \<Rightarrow> (case te_alias t of None \<Rightarrow> s | Some f \<Rightarrow> (f al (fst s), snd s)))"

section \<open>The event stream\<close>

text \<open>\<open>strings.TrimRight\<close> with a newline, which the wrapped writer applies to what the encoder writes.\<close>

definition trim_right_newlines :: "string \<Rightarrow> string" where
  "trim_right_newlines s = rev (dropWhile (\<lambda>c. c = CHR 0x0A) (rev s))"

text \<open>
  \<open>encode\<close> is \<open>json.Marshal\<close> of the frame's payload; \<open>Encoder.Encode\<close> appends a newline to it.
\<close>

definition no_newline_write :: "string \<Rightarrow> string" where
  "no_newline_write p = trim_right_newlines p"

definition sse_frame :: "(decision_summary \<Rightarrow> string) \<Rightarrow> decision_summary \<Rightarrow> string" where
  "sse_frame encode d = ''data: '' @ no_newline_write (encode d @ newline) @ newline"

text \<open>
  The loop of \<open>handleStream\<close>. Each round is given what the rest of the process did to the
  broadcaster before it, and whether the request has ended by then; a receive that would wait
  goes to the next round.
\<close>

fun stream_loop ::
  "(decision_summary \<Rightarrow> string) \<Rightarrow> nat \<Rightarrow> ((broadcaster \<Rightarrow> broadcaster) \<times> bool) list \<Rightarrow> broadcaster
   \<Rightarrow> string \<times> broadcaster" where
  "stream_loop encode i [] b = ([], b)"
| "stream_loop encode i ((others, gone) # sched) b =
     (if gone then ([], unsubscribe i (others b))
      else case receive i (others b) of
        (Got d, b1) \<Rightarrow>
          (let (out, b2) = stream_loop encode i sched b1 in (sse_frame encode d @ out, b2))
      | (Ended, b1) \<Rightarrow> ([], unsubscribe i b1)
      | (Waiting, b1) \<Rightarrow> stream_loop encode i sched b1)"

definition handle_stream ::
  "(decision_summary \<Rightarrow> string) \<Rightarrow> ((broadcaster \<Rightarrow> broadcaster) \<times> bool) list \<Rightarrow> broadcaster
   \<Rightarrow> string \<times> broadcaster" where
  "handle_stream encode sched b =
     (let (i, b1) = subscribe b in stream_loop encode i sched b1)"

end
