(* ===== verification/Dashboard_Feed_Laws.thy ===== *)
theory Dashboard_Feed_Laws
  imports Dashboard_Feed
begin

text \<open>
  The broadcaster refines independent bounded lines, one per subscriber; and the frames it is
  drained into never reach a browser's event handler.
\<close>

section \<open>Executions of the broadcaster\<close>

datatype feed_op = Subscribe | Unsubscribe nat | Publish decision_summary | Receive nat

definition feed_step :: "feed_op \<Rightarrow> broadcaster \<Rightarrow> (nat \<times> received) list \<times> broadcaster" where
  "feed_step x b =
     (case x of
        Subscribe \<Rightarrow> ([], snd (subscribe b))
      | Unsubscribe i \<Rightarrow> ([], unsubscribe i b)
      | Publish d \<Rightarrow> ([], publish d b)
      | Receive i \<Rightarrow> (case receive i b of (r, b1) \<Rightarrow> ([(i, r)], b1)))"

fun feed_run :: "feed_op list \<Rightarrow> broadcaster \<Rightarrow> (nat \<times> received) list \<times> broadcaster" where
  "feed_run [] b = ([], b)"
| "feed_run (x # xs) b =
     (let (o1, b1) = feed_step x b; (o2, b2) = feed_run xs b1 in (o1 @ o2, b2))"

section \<open>The abstract line of one subscriber\<close>

text \<open>
  A line is not there yet, live with at most \<open>cap\<close> undelivered decisions, or over with the
  decisions that are left to drain. It is paired with the number of subscriptions so far, which
  tells which subscription is its own.
\<close>

datatype line = Unborn | Live "decision_summary list" | Over "decision_summary list"

fun line_queue :: "line \<Rightarrow> decision_summary list" where
  "line_queue Unborn = []"
| "line_queue (Live q) = q"
| "line_queue (Over q) = q"

fun line_step :: "nat \<Rightarrow> nat \<Rightarrow> feed_op \<Rightarrow> nat \<times> line \<Rightarrow> received list \<times> nat \<times> line" where
  "line_step cap i Subscribe (n, l) = ([], Suc n, if n = i then Live [] else l)"
| "line_step cap i (Unsubscribe j) (n, l) =
     ([], n, case l of Live q \<Rightarrow> (if j = i then Over q else Live q) | _ \<Rightarrow> l)"
| "line_step cap i (Publish d) (n, l) =
     ([], n, case l of Live q \<Rightarrow> (if length q < cap then Live (q @ [d]) else Live q) | _ \<Rightarrow> l)"
| "line_step cap i (Receive j) (n, l) =
     (if j \<noteq> i then ([], n, l)
      else case l of
        Unborn \<Rightarrow> ([Waiting], n, l)
      | Live q \<Rightarrow> (case q of [] \<Rightarrow> ([Waiting], n, l) | d # ds \<Rightarrow> ([Got d], n, Live ds))
      | Over q \<Rightarrow> (case q of [] \<Rightarrow> ([Ended], n, l) | d # ds \<Rightarrow> ([Got d], n, Over ds)))"

fun line_run :: "nat \<Rightarrow> nat \<Rightarrow> feed_op list \<Rightarrow> nat \<times> line \<Rightarrow> received list \<times> nat \<times> line" where
  "line_run cap i [] s = ([], s)"
| "line_run cap i (x # xs) s =
     (let (o1, s1) = line_step cap i x s; (o2, s2) = line_run cap i xs s1 in (o1 @ o2, s2))"

section \<open>The refinement\<close>

definition line_of :: "nat \<Rightarrow> broadcaster \<Rightarrow> nat \<times> line" where
  "line_of i b =
     (bc_next_id b,
      case bc_chans b i of
        None \<Rightarrow> Unborn
      | Some c \<Rightarrow> (if ch_closed c then Over (ch_queue c) else Live (ch_queue c)))"

definition feed_inv :: "broadcaster \<Rightarrow> bool" where
  "feed_inv b \<longleftrightarrow> distinct (bc_subs b)
     \<and> (\<forall>i. (i \<in> set (bc_subs b)) = (\<exists>c. bc_chans b i = Some c \<and> \<not> ch_closed c))
     \<and> (\<forall>i. (bc_chans b i \<noteq> None) = (i < bc_next_id b))"

lemma feed_inv_subs: "feed_inv b \<Longrightarrow> (i \<in> set (bc_subs b)) = (\<exists>c. bc_chans b i = Some c \<and> \<not> ch_closed c)"
  by (simp add: feed_inv_def)

lemma publish_to_fields [simp]:
  "bc_subs (publish_to d is b) = bc_subs b" "bc_next_id (publish_to d is b) = bc_next_id b"
  "bc_buffer (publish_to d is b) = bc_buffer b"
  by (induction d "is" b rule: publish_to.induct) simp_all

lemma publish_to_chans:
  "distinct is \<Longrightarrow> bc_chans (publish_to d is b) i
     = (if i \<in> set is then map_option (offer (bc_buffer b) d) (bc_chans b i) else bc_chans b i)"
  by (induction d "is" b rule: publish_to.induct) auto

lemma offer_closed [simp]: "ch_closed (offer cap d c) = ch_closed c"
  by (simp add: offer_def)

lemma feed_step_inv: "feed_inv b \<Longrightarrow> feed_inv (snd (feed_step x b))"
proof (cases x)
  case Subscribe
  assume "feed_inv b"
  with Subscribe show ?thesis
    by (auto simp: feed_step_def subscribe_def feed_inv_def Let_def less_Suc_eq split: option.splits)
next
  case (Unsubscribe i)
  assume "feed_inv b"
  with Unsubscribe show ?thesis
    by (auto simp: feed_step_def unsubscribe_def feed_inv_def distinct_removeAll split: option.splits)
next
  case (Publish d)
  assume "feed_inv b"
  with Publish show ?thesis
    by (auto simp: feed_step_def publish_def feed_inv_def publish_to_chans split: option.splits)
next
  case (Receive i)
  assume "feed_inv b"
  with Receive show ?thesis
    by (auto simp: feed_step_def receive_def feed_inv_def split: option.splits list.splits)
qed

lemma feed_step_buffer: "bc_buffer (snd (feed_step x b)) = bc_buffer b"
  by (auto simp: feed_step_def subscribe_def unsubscribe_def publish_def receive_def Let_def
      split: feed_op.splits option.splits list.splits)

lemma feed_step_line:
  assumes "feed_inv b"
  shows "line_step (bc_buffer b) i x (line_of i b)
       = (map snd (filter (\<lambda>r. fst r = i) (fst (feed_step x b))), line_of i (snd (feed_step x b)))"
proof (cases x)
  case Subscribe
  with assms show ?thesis
    by (auto simp: feed_step_def subscribe_def line_of_def Let_def)
next
  case (Unsubscribe j)
  with assms show ?thesis
    by (auto simp: feed_step_def unsubscribe_def line_of_def feed_inv_subs split: option.splits)
next
  case (Publish d)
  with assms show ?thesis
    by (auto simp: feed_step_def publish_def line_of_def publish_to_chans feed_inv_def offer_def
        split: option.splits)
next
  case (Receive j)
  then show ?thesis
    by (auto simp: feed_step_def receive_def line_of_def split: option.splits list.splits)
qed

lemma feed_run_line:
  "feed_inv b \<Longrightarrow> line_run (bc_buffer b) i xs (line_of i b)
     = (map snd (filter (\<lambda>r. fst r = i) (fst (feed_run xs b))), line_of i (snd (feed_run xs b)))"
proof (induction xs arbitrary: b)
  case (Cons x xs)
  obtain o1 b1 where x: "feed_step x b = (o1, b1)" by fastforce
  have "feed_inv b1" "bc_buffer b1 = bc_buffer b"
    using feed_step_inv [OF Cons.prems, of x] feed_step_buffer [of x b] x by simp_all
  with Cons.IH [of b1] feed_step_line [OF Cons.prems, of i x] x show ?case
    by (simp add: Let_def split_beta)
qed simp

text \<open>What a line hands out, with what it still holds, is a subsequence of what was published.\<close>

definition delivered :: "received list \<Rightarrow> decision_summary list" where
  "delivered rs = concat (map (\<lambda>r. case r of Got d \<Rightarrow> [d] | _ \<Rightarrow> []) rs)"

definition published :: "feed_op list \<Rightarrow> decision_summary list" where
  "published xs = concat (map (\<lambda>x. case x of Publish d \<Rightarrow> [d] | _ \<Rightarrow> []) xs)"

lemma line_step_bounded:
  "length (line_queue (snd s)) \<le> cap \<Longrightarrow> length (line_queue (snd (snd (line_step cap i x s)))) \<le> cap"
  by (cases s; cases x) (auto split: line.splits list.splits)

lemma line_run_bounded:
  "length (line_queue (snd s)) \<le> cap \<Longrightarrow> length (line_queue (snd (snd (line_run cap i xs s)))) \<le> cap"
proof (induction xs arbitrary: s)
  case (Cons x xs)
  then show ?case using line_step_bounded [of s cap i x] by (auto simp: Let_def split_beta)
qed simp

lemma line_step_order:
  assumes "fst s \<le> i \<longrightarrow> snd s = Unborn"
  shows "subseq (delivered (fst (line_step cap i x s)) @ line_queue (snd (snd (line_step cap i x s))))
           (line_queue (snd s) @ published [x])
       \<and> (fst (snd (line_step cap i x s)) \<le> i \<longrightarrow> snd (snd (line_step cap i x s)) = Unborn)"
  using assms
  by (cases s; cases x) (auto simp: delivered_def published_def split: line.splits list.splits)

lemma line_run_order:
  "fst s \<le> i \<longrightarrow> snd s = Unborn \<Longrightarrow>
   subseq (delivered (fst (line_run cap i xs s)) @ line_queue (snd (snd (line_run cap i xs s))))
     (line_queue (snd s) @ published xs)"
proof (induction xs arbitrary: s)
  case (Cons x xs)
  obtain o1 s1 where x: "line_step cap i x s = (o1, s1)" by (rule prod.exhaust)
  obtain o2 s2 where xs: "line_run cap i xs s1 = (o2, s2)" by (rule prod.exhaust)
  note a = line_step_order [where cap = cap and x = x and i = i, OF Cons.prems, unfolded x fst_conv snd_conv]
  have "subseq (delivered o2 @ line_queue (snd s2)) (line_queue (snd s1) @ published xs)"
    using Cons.IH [of s1] a xs by simp
  then have "subseq (delivered o1 @ delivered o2 @ line_queue (snd s2))
      ((delivered o1 @ line_queue (snd s1)) @ published xs)"
    by (simp add: list_emb_append_mono)
  also have "subseq \<dots> ((line_queue (snd s) @ published [x]) @ published xs)"
    by (rule list_emb_append_mono [OF conjunct1 [OF a]]) simp
  finally show ?case by (simp add: x xs delivered_def published_def)
qed (simp add: delivered_def published_def)

section \<open>What a browser makes of the stream\<close>

text \<open>
  The interpretation of an event stream that the HTML standard prescribes for \<open>EventSource\<close>,
  restricted to data fields: a data line is added to the event under construction, an empty line
  dispatches it, and an event that the stream does not terminate is discarded.
\<close>

fun sse_dispatch :: "string list \<Rightarrow> string list \<Rightarrow> string list" where
  "sse_dispatch buf [] = []"
| "sse_dispatch buf (l # ls) =
     (if l = [] then (if buf = [] then sse_dispatch [] ls else str_join newline buf # sse_dispatch [] ls)
      else if has_prefix l ''data:''
      then sse_dispatch (buf @ [trim_prefix (drop 5 l) '' '']) ls
      else sse_dispatch buf ls)"

definition browser_events :: "string \<Rightarrow> string list" where
  "browser_events s = sse_dispatch [] (butlast (str_split (CHR 0x0A) s))"

definition one_line :: "(decision_summary \<Rightarrow> string) \<Rightarrow> bool" where
  "one_line encode \<longleftrightarrow> (\<forall>d. CHR 0x0A \<notin> set (encode d))"

definition data_line :: "(decision_summary \<Rightarrow> string) \<Rightarrow> decision_summary \<Rightarrow> string" where
  "data_line encode d = ''data: '' @ encode d"

lemma frame_line:
  assumes "one_line encode"
  shows "sse_frame encode d = data_line encode d @ [CHR 0x0A]" "CHR 0x0A \<notin> set (data_line encode d)"
proof -
  have no: "CHR 0x0A \<notin> set (rev (encode d))" using assms by (simp add: one_line_def)
  then have "dropWhile (\<lambda>c. c = CHR 0x0A) (rev (encode d)) = rev (encode d)"
    by (cases "rev (encode d)") auto
  then have "trim_right_newlines (encode d @ newline) = encode d"
    by (simp add: trim_right_newlines_def newline_def)
  then show "sse_frame encode d = data_line encode d @ [CHR 0x0A]"
    by (simp add: sse_frame_def no_newline_write_def data_line_def newline_def)
  show "CHR 0x0A \<notin> set (data_line encode d)" using no by (simp add: data_line_def)
qed

lemma split_frames:
  assumes "one_line encode"
  shows "str_split (CHR 0x0A) (concat (map (sse_frame encode) ds)) = map (data_line encode) ds @ [[]]"
  by (induction ds) (simp_all add: frame_line [OF assms] str_split_append)

lemma frames_dispatch_nothing: "sse_dispatch buf (map (data_line encode) ds) = []"
  by (induction ds arbitrary: buf) (simp_all add: data_line_def)

lemma split_terminated:
  assumes "one_line encode"
  shows "str_split (CHR 0x0A) (concat (map (\<lambda>d. sse_frame encode d @ newline) ds))
       = concat (map (\<lambda>d. [data_line encode d, []]) ds) @ [[]]"
  by (induction ds) (simp_all add: frame_line [OF assms] str_split_append newline_def)

lemma terminated_dispatch:
  "sse_dispatch [] (concat (map (\<lambda>d. [data_line encode d, []]) ds)) = map encode ds"
  by (induction ds) (simp_all add: trim_prefix_def data_line_def)

lemma stream_is_frames: "\<exists>ds. fst (stream_loop encode i sched b) = concat (map (sse_frame encode) ds)"
proof (induction encode i sched b rule: stream_loop.induct)
  case (2 encode i others gone sched b)
  show ?case
  proof (cases "gone")
    case False
    obtain r b1 where r: "receive i (others b) = (r, b1)" by fastforce
    show ?thesis
    proof (cases r)
      case (Got d)
      with 2(1) [OF False r [symmetric] Got] obtain ds
        where "fst (stream_loop encode i sched b1) = concat (map (sse_frame encode) ds)" by blast
      then have "fst (stream_loop encode i ((others, gone) # sched) b) = concat (map (sse_frame encode) (d # ds))"
        using False r Got by (simp add: split_beta Let_def)
      then show ?thesis by blast
    next
      case Ended
      with False r show ?thesis by (auto intro: exI [of _ "[]"])
    next
      case Waiting
      with 2(2) [OF False r [symmetric] Waiting] False r show ?thesis by simp
    qed
  qed (auto intro: exI [of _ "[]"])
qed (auto intro: exI [of _ "[]"])

section \<open>Properties\<close>

text \<open>
  C26: The live feed refines independent bounded lines. Whatever a number of subscribers,
  publishers and unsubscriptions do, in whatever order, what subscriber \<open>i\<close> receives is what its
  own line would hand out, so nothing another subscriber does, or fails to do, can delay it,
  starve it or block the publisher, which is the gate's audit path. A line holds at most as many
  decisions as its buffer, and hands out a subsequence of the published decisions, in order.
\<close>

theorem feed_refines_lines:
  "let b0 = new_broadcaster n; cap = bc_buffer b0; (outs, b) = feed_run xs b0;
       mine = map snd (filter (\<lambda>r. fst r = i) outs)
   in (mine, line_of i b) = line_run cap i xs (0, Unborn)
      \<and> 0 < cap \<and> length (line_queue (snd (line_of i b))) \<le> cap
      \<and> subseq (delivered mine @ line_queue (snd (line_of i b))) (published xs)"
proof -
  let ?b = "new_broadcaster n"
  have inv: "feed_inv ?b" and l: "line_of i ?b = (0, Unborn)"
    by (simp_all add: new_broadcaster_def feed_inv_def line_of_def)
  obtain outs b where run: "feed_run xs ?b = (outs, b)" by fastforce
  have eq: "line_run (bc_buffer ?b) i xs (0, Unborn) = (map snd (filter (\<lambda>r. fst r = i) outs), line_of i b)"
    using feed_run_line [OF inv, of i xs] l run by simp
  have "length (line_queue (snd (line_of i b))) \<le> bc_buffer ?b"
    using line_run_bounded [of "(0, Unborn)" "bc_buffer ?b" i xs] eq by simp
  moreover have "subseq (delivered (map snd (filter (\<lambda>r. fst r = i) outs)) @ line_queue (snd (line_of i b)))
      (published xs)"
    using line_run_order [of "(0, Unborn)" i "bc_buffer ?b" xs] eq by simp
  moreover have "0 < bc_buffer ?b" by (simp add: new_broadcaster_def)
  ultimately show ?thesis using eq run by (simp add: Let_def)
qed

text \<open>
  C19: The live feed never reaches the page. A frame ends with a single newline, so the event a
  browser is building is never terminated: whatever is published, when, and however long the
  stream runs, an \<open>EventSource\<close> dispatches no event. One more newline per frame would dispatch each
  decision exactly once, in order.
\<close>

theorem live_feed_dispatches_nothing:
  assumes "one_line encode"
  shows "browser_events (fst (handle_stream encode sched b)) = []
    \<and> browser_events (concat (map (\<lambda>d. sse_frame encode d @ newline) ds)) = map encode ds"
proof -
  obtain ds' where "fst (handle_stream encode sched b) = concat (map (sse_frame encode) ds')"
    using stream_is_frames [of encode "fst (subscribe b)" sched "snd (subscribe b)"]
    by (auto simp: handle_stream_def split_beta)
  then show ?thesis
    by (simp add: browser_events_def split_frames [OF assms] frames_dispatch_nothing
        butlast_append split_terminated [OF assms] terminated_dispatch)
qed

theorem live_feed_dispatches_nothing_witness:
  "let d = summary_of zero_decision; encode = (\<lambda>_. ''{}'');
       out = fst (handle_stream encode [(publish d, False), (publish d, True)] (new_broadcaster 1))
   in out = ''data: {}'' @ newline \<and> browser_events out = []"
  using live_feed_dispatches_nothing [of "\<lambda>_. ''{}''" "[(publish (summary_of zero_decision), False),
      (publish (summary_of zero_decision), True)]" "new_broadcaster 1"]
  by (simp add: one_line_def Let_def handle_stream_def subscribe_def new_broadcaster_def publish_def
      receive_def offer_def sse_frame_def no_newline_write_def trim_right_newlines_def newline_def)

end
