(* ===== verification/Dashboard_View.thy ===== *)
theory Dashboard_View
  imports Docker_Manifest Audit_Decision Go_Parse Go_Sort
begin

text \<open>
  The pages of the dashboard (\<open>dashboard/server.go\<close>, \<open>data.go\<close>, \<open>view.go\<close>, \<open>viewmodel.go\<close>,
  \<open>percent.go\<close>): query parameters, the data service over the audit reader and the metrics gatherer,
  and the view models. HTML templates and JSON encoding are left out. A Go \<open>int\<close> that arithmetic is
  done on is a 64-bit word; \<open>rnd\<close> rounds to a float64. Contexts only bound the queries, so they
  belong to the reader.
\<close>

section \<open>Percentages\<close>

definition pct :: "(real \<Rightarrow> real) \<Rightarrow> real \<Rightarrow> real \<Rightarrow> real" where
  "pct rnd part whole = (if whole \<le> 0 then 0 else rnd (rnd (part / whole) * 100))"

definition pass_rate :: "(real \<Rightarrow> real) \<Rightarrow> 64 word \<Rightarrow> 64 word \<Rightarrow> real" where
  "pass_rate rnd ok all = pct rnd (rnd (real (unat ok))) (rnd (real (unat all)))"

section \<open>Parameters\<close>

datatype time_range = Range1d | Range7d | Range30d

definition range_length :: "time_range \<Rightarrow> duration" where
  "range_length r = (case r of Range1d \<Rightarrow> 24 * hour | Range7d \<Rightarrow> 7 * 24 * hour | Range30d \<Rightarrow> 30 * 24 * hour)"

definition parse_range :: "string \<Rightarrow> gotime \<Rightarrow> time_range \<times> gotime" where
  "parse_range s now =
     (let r = (if s = ''7d'' then Range7d else if s = ''30d'' then Range30d else Range1d)
      in (r, now - range_length r))"

definition since_for :: "time_range \<Rightarrow> gotime \<Rightarrow> gotime" where
  "since_for r now = now - range_length r"

text \<open>\<open>strconv.Atoi\<close> is \<open>ParseInt\<close> for the width of an \<open>int\<close>.\<close>

definition page_param :: "string \<Rightarrow> int64" where
  "page_param s = (case parse_int64 s of Some n \<Rightarrow> (if 0 < sint n then n else 1) | None \<Rightarrow> 1)"

record image_filter =
  if_text :: string
  if_has_critical :: bool
  if_rejected_only :: bool

definition image_filter_of :: "(string \<Rightarrow> string) \<Rightarrow> image_filter" where
  "image_filter_of q = \<lparr>if_text = q ''q'', if_has_critical = (q ''crit'' = ''1''),
                         if_rejected_only = (q ''rejected'' = ''1'')\<rparr>"

definition dash_split_image_ref :: "string \<Rightarrow> (string \<times> string) option" where
  "dash_split_image_ref i =
     (if i = [] then None
      else case str_index i ''@'' of
        Some k \<Rightarrow> Some (take k i, drop (Suc k) i)
      | None \<Rightarrow>
          (let sl = (case last_index i (CHR ''/'') of Some k \<Rightarrow> int k | None \<Rightarrow> - 1);
               colon = (case last_index i (CHR '':'') of Some k \<Rightarrow> int k | None \<Rightarrow> - 1)
           in if sl < colon then Some (take (nat colon) i, drop (Suc (nat colon)) i) else None))"

section \<open>View models\<close>

record image_row =
  ir_ts :: gotime
  ir_push_id :: string
  ir_repo :: string
  ir_tag :: string
  ir_digest :: string
  ir_identity :: string
  ir_passed :: bool
  ir_crit :: "64 word"
  ir_high :: "64 word"
  ir_med :: "64 word"
  ir_low :: "64 word"

record image_page =
  ip_rows :: "image_row list"
  ip_total :: "64 word"

record decision_stats =
  st_total :: "64 word"
  st_passed :: "64 word"
  st_rejected :: "64 word"
  st_p50 :: real
  st_p95 :: real
  st_p99 :: real
  st_reject_reasons :: "(string \<times> 64 word) list"

record stats_vm =
  sv_total :: "64 word"
  sv_passed :: "64 word"
  sv_rejected :: "64 word"
  sv_pass_rate :: real
  sv_p50 :: real
  sv_p95 :: real
  sv_p99 :: real
  sv_reject_reasons :: "(string \<times> 64 word \<times> real) list"

record severity_vm =
  sev_critical :: "64 word"
  sev_high :: "64 word"
  sev_medium :: "64 word"
  sev_low :: "64 word"
  sev_unknown :: "64 word"

record finding_vm =
  fv_cve :: string
  fv_severity :: string
  fv_pkg :: string
  fv_version :: string
  fv_fixed_version :: string

record report_vm =
  rv_found :: bool
  rv_errored :: bool
  rv_header :: decision_header
  rv_findings :: "finding_vm list"
  rv_counts :: severity_vm
  rv_image_created :: gotime
  rv_image_age_days :: int
  rv_image_age_known :: bool
  rv_age_threshold :: int
  rv_age_compliant :: bool

record images_vm =
  iv_range :: time_range
  iv_images :: "image_row list"
  iv_page :: int64
  iv_per_page :: int64
  iv_total :: "64 word"
  iv_has_prev :: bool
  iv_has_next :: bool
  iv_errored :: bool

record overview_vm =
  ov_stats :: stats_vm
  ov_scanner_db_age_days :: real
  ov_acr_push_success :: real
  ov_images :: images_vm
  ov_errored :: bool

definition no_counts :: severity_vm where
  "no_counts = \<lparr>sev_critical = 0, sev_high = 0, sev_medium = 0, sev_low = 0, sev_unknown = 0\<rparr>"

definition zero_report :: report_vm where
  "zero_report = \<lparr>rv_found = False, rv_errored = False, rv_header = no_header, rv_findings = [],
     rv_counts = no_counts, rv_image_created = 0, rv_image_age_days = 0, rv_image_age_known = False,
     rv_age_threshold = 0, rv_age_compliant = False\<rparr>"

definition zero_stats :: stats_vm where
  "zero_stats = \<lparr>sv_total = 0, sv_passed = 0, sv_rejected = 0, sv_pass_rate = 0, sv_p50 = 0,
     sv_p95 = 0, sv_p99 = 0, sv_reject_reasons = []\<rparr>"

definition to_stats_vm :: "(real \<Rightarrow> real) \<Rightarrow> decision_stats \<Rightarrow> stats_vm" where
  "to_stats_vm rnd st =
     \<lparr>sv_total = st_total st, sv_passed = st_passed st, sv_rejected = st_rejected st,
      sv_pass_rate = pass_rate rnd (st_passed st) (st_total st), sv_p50 = st_p50 st,
      sv_p95 = st_p95 st, sv_p99 = st_p99 st,
      sv_reject_reasons = map (\<lambda>(label, n). (label, n, pass_rate rnd n (st_rejected st))) (st_reject_reasons st)\<rparr>"

section \<open>Findings\<close>

definition sev_rank :: "string \<Rightarrow> nat" where
  "sev_rank s = (let u = to_upper s in
     if u = ''CRITICAL'' then 4 else if u = ''HIGH'' then 3
     else if u = ''MEDIUM'' then 2 else if u = ''LOW'' then 1 else 0)"

definition tally_severity :: "finding \<Rightarrow> severity_vm \<Rightarrow> severity_vm" where
  "tally_severity f c = (let u = to_upper (f_severity f) in
     if u = ''CRITICAL'' then c\<lparr>sev_critical := sev_critical c + 1\<rparr>
     else if u = ''HIGH'' then c\<lparr>sev_high := sev_high c + 1\<rparr>
     else if u = ''MEDIUM'' then c\<lparr>sev_medium := sev_medium c + 1\<rparr>
     else if u = ''LOW'' then c\<lparr>sev_low := sev_low c + 1\<rparr>
     else c\<lparr>sev_unknown := sev_unknown c + 1\<rparr>)"

definition finding_view :: "finding \<Rightarrow> finding_vm" where
  "finding_view f = \<lparr>fv_cve = f_cve f, fv_severity = f_severity f, fv_pkg = f_pkg f,
                     fv_version = f_version f, fv_fixed_version = f_fixed_version f\<rparr>"

text \<open>The order findings are shown in.\<close>

definition shown_before :: "finding_vm \<Rightarrow> finding_vm \<Rightarrow> bool" where
  "shown_before a b =
     (let ra = sev_rank (fv_severity a); rb = sev_rank (fv_severity b)
      in if ra \<noteq> rb then rb < ra else fv_cve a < fv_cve b)"

definition finding_vms :: "finding list \<Rightarrow> finding_vm list \<times> severity_vm" where
  "finding_vms fs = (sort_stable shown_before (map finding_view fs), fold tally_severity fs no_counts)"

definition new_report_vm :: "decision_header \<Rightarrow> finding list \<Rightarrow> report_vm" where
  "new_report_vm hdr fs =
     (let known = dh_image_age_known hdr; (views, counts) = finding_vms fs in
      \<lparr>rv_found = True, rv_errored = False, rv_header = hdr, rv_findings = views, rv_counts = counts,
       rv_image_created = (if known then dh_image_created hdr else 0),
       rv_image_age_days = (if known then uint (dh_image_age_days hdr) else 0),
       rv_image_age_known = known,
       rv_age_threshold = (if known then uint (dh_image_age_threshold_days hdr) else 0),
       rv_age_compliant = (known \<and> uint (dh_image_age_days hdr) \<le> uint (dh_image_age_threshold_days hdr))\<rparr>)"

section \<open>The data service\<close>

record 'w dash_reader =
  dr_stats_since :: "gotime \<Rightarrow> 'w \<Rightarrow> decision_stats res \<times> 'w"
  dr_header_by_ref :: "string \<Rightarrow> string \<Rightarrow> 'w \<Rightarrow> decision_header res \<times> 'w"
  dr_header_by_push :: "string \<Rightarrow> 'w \<Rightarrow> decision_header res \<times> 'w"
  dr_findings_by_push :: "string \<Rightarrow> 'w \<Rightarrow> finding list res \<times> 'w"
  dr_findings_by_ref :: "string \<Rightarrow> string \<Rightarrow> 'w \<Rightarrow> finding list res \<times> 'w"
  dr_images_page :: "gotime \<Rightarrow> image_filter \<Rightarrow> int64 \<Rightarrow> int64 \<Rightarrow> 'w \<Rightarrow> image_page res \<times> 'w"

text \<open>A gathered series: labels, and the value if it is a gauge or a counter.\<close>

record series =
  sr_labels :: "(string \<times> string) list"
  sr_gauge :: "real option"
  sr_counter :: "real option"

record 'w dash_service =
  sc_reader :: "'w dash_reader"
  sc_gather :: "'w \<Rightarrow> (string \<times> series list) list res"
  sc_now :: "'w \<Rightarrow> gotime"
  sc_round :: "real \<Rightarrow> real"

definition images_per_page :: int64 where
  "images_per_page = 10"

definition fetch_dash_report ::
  "'w dash_service \<Rightarrow> string \<Rightarrow> string \<Rightarrow> string \<Rightarrow> 'w \<Rightarrow> (decision_header \<times> finding list) res \<times> 'w" where
  "fetch_dash_report s repo ref push_id w =
     (case (if push_id \<noteq> [] then dr_header_by_push (sc_reader s) push_id w
            else dr_header_by_ref (sc_reader s) repo ref w) of
        (Inl e, w1) \<Rightarrow> (Inl e, w1)
      | (Inr hdr, w1) \<Rightarrow>
          (if \<not> dh_found hdr then (Inr (hdr, []), w1)
           else case (if push_id \<noteq> [] then dr_findings_by_push (sc_reader s) (dh_push_id hdr) w1
                      else dr_findings_by_ref (sc_reader s) repo ref w1) of
             (Inl e, w2) \<Rightarrow> (Inl e, w2)
           | (Inr fs, w2) \<Rightarrow> (Inr (hdr, fs), w2)))"

definition dash_report :: "'w dash_service \<Rightarrow> string \<Rightarrow> string \<Rightarrow> string \<Rightarrow> 'w \<Rightarrow> report_vm res \<times> 'w" where
  "dash_report s repo ref push_id w =
     (case fetch_dash_report s repo ref push_id w of
        (Inl e, w1) \<Rightarrow> (Inl e, w1)
      | (Inr (hdr, fs), w1) \<Rightarrow> (Inr (if dh_found hdr then new_report_vm hdr fs else zero_report), w1))"

definition gauge_value :: "'w dash_service \<Rightarrow> string \<Rightarrow> 'w \<Rightarrow> real" where
  "gauge_value s name w =
     (case sc_gather s w of
        Inl e \<Rightarrow> 0
      | Inr mfs \<Rightarrow>
          (case concat (map (\<lambda>(n, ms). if n = name then List.map_filter sr_gauge ms else []) mfs) of
             [] \<Rightarrow> 0 | v # _ \<Rightarrow> v))"

definition counter_sum_where ::
  "'w dash_service \<Rightarrow> string \<Rightarrow> string \<Rightarrow> string \<Rightarrow> bool \<Rightarrow> 'w \<Rightarrow> real" where
  "counter_sum_where s name label val equal w =
     (case sc_gather s w of
        Inl e \<Rightarrow> 0
      | Inr mfs \<Rightarrow>
          fold (\<lambda>v acc. sc_round s (acc + v))
            (concat (map (\<lambda>(n, ms). if n = name
                 then List.map_filter sr_counter (filter (\<lambda>m. ((label, val) \<in> set (sr_labels m)) = equal) ms)
                 else []) mfs)) 0)"

definition dash_images ::
  "'w dash_service \<Rightarrow> time_range \<Rightarrow> image_filter \<Rightarrow> int64 \<Rightarrow> 'w \<Rightarrow> images_vm \<times> 'w" where
  "dash_images s rng f page0 w =
     (let page = (if sint page0 < 1 then 1 else page0);
          vm = \<lparr>iv_range = rng, iv_images = [], iv_page = page, iv_per_page = images_per_page, iv_total = 0,
                iv_has_prev = False, iv_has_next = False, iv_errored = False\<rparr>
      in case dr_images_page (sc_reader s) (since_for rng (sc_now s w)) f images_per_page
                ((page - 1) * images_per_page) w of
           (Inl e, w1) \<Rightarrow> (vm\<lparr>iv_errored := True\<rparr>, w1)
         | (Inr pg, w1) \<Rightarrow>
             (vm\<lparr>iv_total := ip_total pg, iv_has_prev := 1 < sint page,
                 iv_has_next := page * images_per_page < ip_total pg, iv_images := ip_rows pg\<rparr>, w1))"

definition dash_overview :: "'w dash_service \<Rightarrow> time_range \<Rightarrow> 'w \<Rightarrow> overview_vm \<times> 'w" where
  "dash_overview s rng w =
     (let (st, w1) = dr_stats_since (sc_reader s) (since_for rng (sc_now s w)) w;
          good = counter_sum_where s ''merlin_acr_push_total'' ''result'' ''ok'' True w1;
          failed = counter_sum_where s ''merlin_acr_push_total'' ''result'' ''ok'' False w1;
          db_age = gauge_value s ''merlin_scanner_db_age_days'' w1;
          (img, w2) = dash_images s rng \<lparr>if_text = [], if_has_critical = False, if_rejected_only = False\<rparr> 1 w1
      in (\<lparr>ov_stats = (case st of Inl e \<Rightarrow> zero_stats | Inr x \<Rightarrow> to_stats_vm (sc_round s) x),
           ov_scanner_db_age_days = db_age,
           ov_acr_push_success = pct (sc_round s) good (sc_round s (good + failed)),
           ov_images = img, ov_errored = (\<not> is_ok st \<or> iv_errored img)\<rparr>, w2))"

section \<open>The handlers\<close>

definition report_page :: "'w dash_service \<Rightarrow> (string \<Rightarrow> string) \<Rightarrow> 'w \<Rightarrow> report_vm \<times> 'w" where
  "report_page s q w =
     (let answer = (\<lambda>(r, w1). (case r of Inl e \<Rightarrow> zero_report\<lparr>rv_errored := True\<rparr> | Inr vm \<Rightarrow> vm, w1))
      in if q ''push_id'' \<noteq> [] then answer (dash_report s [] [] (q ''push_id'') w)
         else case dash_split_image_ref (q ''ref'') of
           None \<Rightarrow> (zero_report, w)
         | Some (repo, ref) \<Rightarrow> answer (dash_report s repo ref [] w))"

definition overview_page :: "'w dash_service \<Rightarrow> (string \<Rightarrow> string) \<Rightarrow> 'w \<Rightarrow> overview_vm \<times> 'w" where
  "overview_page s q w =
     (let rng = fst (parse_range (q ''range'') (sc_now s w));
          (vm, w1) = dash_overview s rng w; p = page_param (q ''page'')
      in if sint p \<le> 1 then (vm, w1)
         else let (iv, w2) = dash_images s (fst (parse_range (q ''range'') (sc_now s w1))) (image_filter_of q) p w1
              in (vm\<lparr>ov_images := iv\<lparr>iv_range := iv_range (ov_images vm), iv_per_page := iv_per_page (ov_images vm),
                                 iv_errored := iv_errored (ov_images vm)\<rparr>\<rparr>, w2))"

definition images_json :: "'w dash_service \<Rightarrow> (string \<Rightarrow> string) \<Rightarrow> 'w \<Rightarrow> images_vm \<times> 'w" where
  "images_json s q w =
     dash_images s (fst (parse_range (q ''range'') (sc_now s w))) (image_filter_of q) (page_param (q ''page'')) w"

end
