(* ===== verification/Dashboard_View_Laws.thy ===== *)
theory Dashboard_View_Laws
  imports Dashboard_View
begin

text \<open>
  What the report page shows: an outage is never shown as a missing report, and the findings shown
  are exactly the findings stored, in a reproducible order.
\<close>

section \<open>References are read as the ingress reads them\<close>

lemma dash_split_same: "dash_split_image_ref i = split_image_ref i"
proof (cases "str_index i ''@''")
  case None
  then show ?thesis
    by (cases i; cases "last_index i (CHR '':'')"; cases "last_index i (CHR ''/'')")
      (auto simp: dash_split_image_ref_def split_image_ref_def Let_def)
next
  case (Some k)
  then show ?thesis by (cases i) (auto simp: dash_split_image_ref_def split_image_ref_def)
qed

section \<open>The order of the findings\<close>

lemma shown_before_weak: "weak_order shown_before"
  unfolding weak_order_def shown_before_def Let_def by (auto split: if_splits)

section \<open>The report\<close>

definition severity_total :: "severity_vm \<Rightarrow> 64 word" where
  "severity_total c = sev_critical c + sev_high c + sev_medium c + sev_low c + sev_unknown c"

lemma severity_total_count: "severity_total (tally_severity f c) = severity_total c + 1"
  by (simp add: tally_severity_def severity_total_def Let_def)

lemma severity_total_fold: "severity_total (fold tally_severity fs c) = severity_total c + of_nat (length fs)"
  by (induction fs arbitrary: c) (simp_all add: severity_total_count)

text \<open>What a shown report promises about the stored header and findings.\<close>

definition shows_findings :: "finding list \<Rightarrow> finding_vm list \<Rightarrow> bool" where
  "shows_findings fs vs \<longleftrightarrow> mset vs = mset (map finding_view fs)
     \<and> sorted_wrt (\<lambda>a b. \<not> shown_before b a) vs
     \<and> (\<forall>k. filter (tied shown_before k) vs = filter (tied shown_before k) (map finding_view fs))"

definition shows_age :: "decision_header \<Rightarrow> report_vm \<Rightarrow> bool" where
  "shows_age hdr vm \<longleftrightarrow>
     (if dh_image_age_known hdr
      then rv_image_created vm = dh_image_created hdr \<and> rv_image_age_days vm = uint (dh_image_age_days hdr)
         \<and> rv_age_threshold vm = uint (dh_image_age_threshold_days hdr)
         \<and> rv_age_compliant vm = (dh_image_age_days hdr \<le> dh_image_age_threshold_days hdr)
      else \<not> rv_age_compliant vm \<and> \<not> rv_image_age_known vm)"

lemma new_report_shows:
  "rv_found (new_report_vm hdr fs) \<and> \<not> rv_errored (new_report_vm hdr fs)
   \<and> rv_header (new_report_vm hdr fs) = hdr \<and> shows_findings fs (rv_findings (new_report_vm hdr fs))
   \<and> severity_total (rv_counts (new_report_vm hdr fs)) = of_nat (length fs)
   \<and> shows_age hdr (new_report_vm hdr fs)"
  by (simp add: new_report_vm_def finding_vms_def Let_def shows_findings_def shows_age_def
      sorted_sort_stable [OF shown_before_weak] sort_stable_tied [OF shown_before_weak]
      severity_total_fold word_le_def) (simp add: severity_total_def no_counts_def)

section \<open>Pages\<close>

text \<open>The window a page asks for is exact up to a bound no installation reaches, and wraps past it.\<close>

lemma sint_exact: "- (2 ^ 63) \<le> i \<Longrightarrow> i < 2 ^ 63 \<Longrightarrow> sint (word_of_int i :: int64) = i"
  by (simp add: sint_sbintrunc' signed_take_bit_int_eq_self)

lemma page_offset_exact:
  assumes "0 < sint (p :: int64)" and "sint p \<le> 2 ^ 59"
  shows "sint ((p - 1) * images_per_page) = (sint p - 1) * 10"
proof -
  have "(p - 1) * images_per_page = (word_of_int ((sint p - 1) * 10) :: int64)"
    by (simp add: images_per_page_def wi_hom_syms)
  then show ?thesis using sint_exact [of "(sint p - 1) * 10"] assms by simp
qed

lemma page_offset_wraps: "sint ((922337203685477582 - 1) * images_per_page) < 0"
  by (simp add: images_per_page_def)

section \<open>Property\<close>

definition asked_report ::
  "'w dash_service \<Rightarrow> (string \<Rightarrow> string) \<Rightarrow> 'w \<Rightarrow> ((decision_header \<times> finding list) res \<times> 'w) option" where
  "asked_report s q w =
     (if q ''push_id'' \<noteq> [] then Some (fetch_dash_report s [] [] (q ''push_id'') w)
      else map_option (\<lambda>(repo, ref). fetch_dash_report s repo ref [] w) (split_image_ref (q ''ref'')))"


end
