(* ===== verification/Alert_Laws.thy ===== *)
theory Alert_Laws
  imports Alert_Runner
begin

text \<open>
  What the alerter guarantees: which findings there are, that what is due is announced, that what
  was not delivered is due again, and what the cap does to a quiet finding.
\<close>

section \<open>Findings\<close>

lemma known_signatures_set: "set (known_signatures b) = {s. s \<noteq> [] \<and> s \<in> signature ` dt_detail ` set b}"
  by (auto simp: known_signatures_def)

lemma novel_summary_fields [simp]:
  "af_signature (novel_summary f) = af_signature f" "af_detector (novel_summary f) = af_detector f"
  "af_count (novel_summary f) = af_count f"
  by (simp_all add: novel_summary_def)

lemma louder_weak: "weak_order louder"
  by (auto simp: weak_order_def louder_def)

lemma sort_stable_distinct_map:
  "distinct (map g (sort_stable before xs)) = distinct (map g xs)"
  by (metis mset_map mset_sort_stable mset_eq_imp_distinct_iff)

lemma set_sort_stable [simp]: "set (sort_stable before xs) = set xs"
  by (metis mset_eq_setD mset_sort_stable)

text \<open>Every finding before the cap.\<close>

definition all_novel :: "detail_count list \<Rightarrow> detail_count list \<Rightarrow> alert_finding list" where
  "all_novel recent baseline = fst (novel_errors recent baseline 0)"

lemma all_novel_eq:
  "all_novel recent baseline
     = sort_stable louder (map novel_summary (fold (group_detail (known_signatures baseline)) recent []))"
  by (simp add: all_novel_def novel_errors_def Let_def)

lemma novel_errors_cap:
  "0 < cap \<Longrightarrow> novel_errors recent baseline cap
     = (take (nat cap) (all_novel recent baseline), max 0 (int (length (all_novel recent baseline)) - cap))"
  by (simp add: novel_errors_def all_novel_eq Let_def)

lemma all_novel_signatures:
  "distinct (map af_signature (all_novel recent baseline))"
  "set (map af_signature (all_novel recent baseline))
     = {s. s \<noteq> [] \<and> s \<in> signature ` dt_detail ` set recent \<and> s \<notin> signature ` dt_detail ` set baseline}"
proof -
  let ?g = "fold (group_detail (known_signatures baseline)) recent []"
  note g = fold_groups [of "known_signatures baseline" recent, unfolded groups_rows_def]
  have m: "map af_signature (map novel_summary ?g) = map af_signature ?g" by simp
  then show "distinct (map af_signature (all_novel recent baseline))"
    using g unfolding all_novel_eq sort_stable_distinct_map m by blast
  have "set (map af_signature (all_novel recent baseline)) = set (map af_signature ?g)"
    unfolding all_novel_eq by (simp add: image_image)
  then show "set (map af_signature (all_novel recent baseline))
     = {s. s \<noteq> [] \<and> s \<in> signature ` dt_detail ` set recent \<and> s \<notin> signature ` dt_detail ` set baseline}"
    using g by (auto simp: row_signatures_def known_signatures_set)
qed

lemma all_novel_count:
  "f \<in> set (all_novel recent baseline) \<Longrightarrow>
   af_detector f = detector_novel_error \<and> af_count f = signature_count (af_signature f) recent"
  using fold_groups [of "known_signatures baseline" recent, unfolded groups_rows_def]
  unfolding all_novel_eq by auto

section \<open>Cooldowns\<close>

definition notice_row :: "gotime \<Rightarrow> alert_finding \<Rightarrow> notification" where
  "notice_row now f = (af_detector f, af_signature f, now)"

text \<open>A class was announced less than a cooldown ago.\<close>

definition recently :: "notification list \<Rightarrow> duration \<Rightarrow> gotime \<Rightarrow> alert_finding \<Rightarrow> bool" where
  "recently rows cooldown now f \<longleftrightarrow>
     (\<exists>t. (af_detector f, af_signature f, t) \<in> set rows \<and> time_sub now t < cooldown)"

definition plain_rows :: "notification list \<Rightarrow> bool" where
  "plain_rows rows \<longleftrightarrow> list_all (\<lambda>(d, s, t). CHR ''|'' \<notin> set d) rows"

text \<open>The answer of the grouping query: each class once, with its newest stamp.\<close>

definition newest_of :: "notification list \<Rightarrow> notification list \<Rightarrow> bool" where
  "newest_of rows ns \<longleftrightarrow> distinct (map (\<lambda>(d, s, t). (d, s)) ns) \<and> set ns \<subseteq> set rows
     \<and> (\<forall>(d, s, t) \<in> set rows. \<exists>u. (d, s, u) \<in> set ns \<and> t \<le> u)"

lemma key_inject:
  "CHR ''|'' \<notin> set d \<Longrightarrow> CHR ''|'' \<notin> set d' \<Longrightarrow> d @ ''|'' @ s = d' @ ''|'' @ s' \<Longrightarrow> d = d' \<and> s = s'"
proof (induction d arbitrary: d')
  case Nil
  then show ?case by (cases d') auto
next
  case (Cons c cs)
  then show ?case by (cases d') auto
qed

lemma fold_key_map:
  assumes "CHR ''|'' \<notin> set d" and "\<forall>(d', s', t') \<in> set ns. CHR ''|'' \<notin> set d'"
    and "distinct (map (\<lambda>(d, s, t). (d, s)) ns)"
  shows "fold (\<lambda>(d, s, t) m. m(d @ ''|'' @ s \<mapsto> t)) ns m (d @ ''|'' @ s) =
     (case map_of (map (\<lambda>(d, s, t). ((d, s), t)) ns) (d, s) of Some t \<Rightarrow> Some t | None \<Rightarrow> m (d @ ''|'' @ s))"
  using assms(2,3)
proof (induction ns arbitrary: m)
  case (Cons n ns)
  obtain d' s' t' where n: "n = (d', s', t')" by (cases n) auto
  have keys: "(d' @ ''|'' @ s' = d @ ''|'' @ s) = (d' = d \<and> s' = s)"
    using key_inject [of d' d s' s] assms(1) Cons.prems(1) n by auto
  have "d' = d \<Longrightarrow> s' = s \<Longrightarrow> map_of (map (\<lambda>(d, s, t). ((d, s), t)) ns) (d, s) = None"
    using Cons.prems(2) n by (force simp: map_of_eq_None_iff)
  with Cons n keys show ?case by (auto split: option.splits)
qed simp

lemma time_sub_antimono: "t \<le> u \<Longrightarrow> time_sub now u \<le> time_sub now t"
  by (simp add: time_sub_def)

lemma time_sub_mono: "now \<le> now' \<Longrightarrow> time_sub now t \<le> time_sub now' t"
  by (simp add: time_sub_def)

lemma suppressed_recently:
  assumes "newest_of rows ns" and "plain_rows rows" and "CHR ''|'' \<notin> set (af_detector f)"
  shows "suppressed cd now (stamps_by_key ns) f = recently rows cd now f"
proof -
  let ?d = "af_detector f" and ?s = "af_signature f"
  have plain: "\<forall>(d', s', t') \<in> set ns. CHR ''|'' \<notin> set d'"
    using assms(1,2) by (force simp: newest_of_def plain_rows_def list_all_iff)
  have dist: "distinct (map (\<lambda>(d, s, t). (d, s)) ns)" using assms(1) by (simp add: newest_of_def)
  have dist': "distinct (map fst (map (\<lambda>(d, s, t). ((d, s), t)) ns))"
    using dist by (simp add: comp_def case_prod_unfold)
  let ?m = "map_of (map (\<lambda>(d, s, t). ((d, s), t)) ns) (?d, ?s)"
  have mem: "?m = Some t \<longleftrightarrow> (?d, ?s, t) \<in> set ns" for t
    using dist' by (force simp: map_of_eq_Some_iff)
  have lookup: "stamps_by_key ns (cooldown_key f) = ?m"
    unfolding cooldown_key_def stamps_by_key_def by (subst fold_key_map [OF assms(3) plain dist]) (simp split: option.split)
  show ?thesis
  proof (cases ?m)
    case None
    then have "\<forall>t. (?d, ?s, t) \<notin> set rows"
      using assms(1) mem unfolding newest_of_def by fastforce
    with None show ?thesis unfolding suppressed_def lookup by (simp add: recently_def)
  next
    case (Some u)
    then have u: "(?d, ?s, u) \<in> set ns" using mem by blast
    have "\<forall>t. (?d, ?s, t) \<in> set rows \<longrightarrow> t \<le> u"
    proof (intro allI impI)
      fix t assume "(?d, ?s, t) \<in> set rows"
      then obtain v where "(?d, ?s, v) \<in> set ns" "t \<le> v" using assms(1) unfolding newest_of_def by blast
      with u mem Some show "t \<le> u" by (metis option.inject)
    qed
    moreover have "(?d, ?s, u) \<in> set rows" using u assms(1) unfolding newest_of_def by blast
    ultimately show ?thesis
      using Some time_sub_antimono [of _ u now] unfolding suppressed_def lookup
      by (auto simp: recently_def intro: order.strict_trans1)
  qed
qed

section \<open>The channel: store and notifier\<close>

text \<open>
  What the announcements rely on. \<open>rows\<close> is the notifications table and \<open>sent\<close> what was handed to the
  notifier, with whether it was delivered. An insert that reports an error may or may not have
  landed.
\<close>

locale alert_channel =
  fixes conn :: "'w alert_conn"
    and notify :: "alert_finding \<Rightarrow> 'w \<Rightarrow> goerr option \<times> 'w"
    and rows :: "'w \<Rightarrow> notification list"
    and sent :: "'w \<Rightarrow> (alert_finding \<times> bool) list"
  assumes notify_sent: "notify f w = (r, w1) \<Longrightarrow> sent w1 = sent w @ [(f, r = None)] \<and> rows w1 = rows w"
    and insert_rows: "ac_insert conn n k m w = (r, w1) \<Longrightarrow>
      sent w1 = sent w \<and> (rows w1 = n # rows w \<or> r \<noteq> None \<and> rows w1 = rows w)"
    and newest_rows: "ac_newest conn w = (rn, w1) \<Longrightarrow> sent w1 = sent w \<and> rows w1 = rows w
      \<and> (case rn of Inl _ \<Rightarrow> True | Inr ns \<Rightarrow> newest_of (rows w) ns)"
    and details_rows: "ac_details conn since until limit w = (r1, w1) \<Longrightarrow> sent w1 = sent w \<and> rows w1 = rows w"
    and counts_rows: "ac_counts conn since until w = (r2, w1) \<Longrightarrow> sent w1 = sent w \<and> rows w1 = rows w"
begin

definition is_runner :: "'w runner \<Rightarrow> bool" where
  "is_runner ru \<longleftrightarrow> ru_details ru = infra_error_details conn \<and> ru_counts ru = decision_counts_in conn
     \<and> ru_last_notified ru = last_notified conn \<and> ru_record_notified ru = record_notified conn
     \<and> ru_notify ru = notify"

lemma evaluate_rows:
  assumes "is_runner ru" and "evaluate_window ru now w = (r, w1)"
  shows "sent w1 = sent w \<and> rows w1 = rows w"
  using assms
  by (auto simp: evaluate_window_def Let_def is_runner_def infra_error_details_def decision_counts_in_def
      split: prod.splits sum.splits dest!: details_rows counts_rows)

lemma last_notified_rows:
  assumes "last_notified conn w = (r, w1)"
  shows "sent w1 = sent w \<and> rows w1 = rows w"
  using assms by (auto simp: last_notified_def split: prod.splits sum.splits dest!: newest_rows)

lemma last_notified_suppresses:
  assumes "last_notified conn w = (Inr m, w1)" and "plain_rows (rows w)"
    and "CHR ''|'' \<notin> set (af_detector f)"
  shows "suppressed cd now m f = recently (rows w) cd now f"
  using assms
  by (auto simp: last_notified_def suppressed_recently split: prod.splits sum.splits dest!: newest_rows)

text \<open>
  An announcement round hands over exactly the findings that are not suppressed, in order, and adds
  a row only for one that was delivered; every delivered one has its row unless the insert reported
  an error.
\<close>

lemma announce_spec:
  assumes "is_runner ru" and "announce ru now m fs w = (errs, w')"
  shows "\<exists>oks new. length oks = length (filter (\<lambda>f. \<not> suppressed (an_cooldown (config_with_defaults (ru_config ru))) now m f) fs)
     \<and> sent w' = sent w @ zip (filter (\<lambda>f. \<not> suppressed (an_cooldown (config_with_defaults (ru_config ru))) now m f) fs) oks
     \<and> rows w' = new @ rows w
     \<and> set new \<subseteq> notice_row now ` {f. (f, True) \<in> set (zip (filter (\<lambda>f. \<not> suppressed
            (an_cooldown (config_with_defaults (ru_config ru))) now m f) fs) oks)}
     \<and> (errs = [] \<longrightarrow> notice_row now ` set (filter (\<lambda>f. \<not> suppressed
            (an_cooldown (config_with_defaults (ru_config ru))) now m f) fs) \<subseteq> set new)"
  using assms(2)
proof (induction fs arbitrary: w errs)
  case Nil
  then show ?case by (auto intro: exI [of _ "[]"])
next
  case (Cons f fs)
  let ?sup = "suppressed (an_cooldown (config_with_defaults (ru_config ru))) now m"
  let ?due = "filter (\<lambda>f. \<not> ?sup f) fs"
  show ?case
  proof (cases "?sup f")
    case True
    with Cons show ?thesis by simp
  next
    case False
    obtain r w1 where n: "ru_notify ru f w = (r, w1)" by (rule prod.exhaust)
    then have "notify f w = (r, w1)" using assms(1) by (simp add: is_runner_def)
    note s1 = notify_sent [OF this]
    show ?thesis
    proof (cases r)
      case (Some e)
      obtain errs1 where a: "announce ru now m fs w1 = (errs1, w')" and ne: "errs \<noteq> []"
        using Cons.prems False n Some by (auto split: prod.splits)
      from Cons.IH [OF a] obtain oks new where i: "length oks = length ?due"
        "sent w' = sent w1 @ zip ?due oks" "rows w' = new @ rows w1"
        "set new \<subseteq> notice_row now ` {f. (f, True) \<in> set (zip ?due oks)}" by blast
      show ?thesis
        by (rule exI [of _ "False # oks"], rule exI [of _ new]) (use i s1 Some False ne in auto)
    next
      case None
      obtain q w2 where rec: "ru_record_notified ru f now w1 = (q, w2)" by (rule prod.exhaust)
      then have "ac_insert conn (notice_row now f) (af_count f) (af_summary f) w1 = (q, w2)"
        using assms(1) by (simp add: is_runner_def record_notified_def notice_row_def)
      note s2 = insert_rows [OF this]
      obtain errs1 where a: "announce ru now m fs w2 = (errs1, w')" and ne: "q \<noteq> None \<longrightarrow> errs \<noteq> []"
        and eq: "q = None \<longrightarrow> errs = errs1"
        using Cons.prems False n None rec by (auto split: prod.splits option.splits)
      from Cons.IH [OF a] obtain oks new where i: "length oks = length ?due"
        "sent w' = sent w2 @ zip ?due oks" "rows w' = new @ rows w2"
        "set new \<subseteq> notice_row now ` {f. (f, True) \<in> set (zip ?due oks)}"
        "errs1 = [] \<longrightarrow> notice_row now ` set ?due \<subseteq> set new" by blast
      show ?thesis
      proof (cases "rows w2 = notice_row now f # rows w1")
        case True
        show ?thesis
          by (rule exI [of _ "True # oks"], rule exI [of _ "new @ [notice_row now f]"])
            (use i s1 s2 True None False ne eq in auto)
      next
        case same: False
        then show ?thesis
          by (intro exI [of _ "True # oks"] exI [of _ new]) (use i s1 s2 None False ne eq in auto)
      qed
    qed
  qed
qed

lemma run_once_spec:
  assumes ru: "is_runner ru" and plain: "plain_rows (rows w)"
    and ev: "evaluate_window ru (ru_clock ru w) w = (Inr fs, w1)"
    and last: "last_notified conn w1 = (Inr m, w2)" and run: "run_once ru w = (r, w')"
    and dets: "\<forall>f \<in> set fs. CHR ''|'' \<notin> set (af_detector f)"
  shows "\<exists>oks new. let due = filter (\<lambda>f. \<not> recently (rows w) (an_cooldown (config_with_defaults (ru_config ru)))
               (ru_clock ru w) f) fs in
     length oks = length due \<and> sent w' = sent w @ zip due oks \<and> rows w' = new @ rows w
     \<and> set new \<subseteq> notice_row (ru_clock ru w) ` {f. (f, True) \<in> set (zip due oks)}
     \<and> (r = None \<longrightarrow> notice_row (ru_clock ru w) ` set due \<subseteq> set new)"
proof -
  let ?now = "ru_clock ru w" and ?cd = "an_cooldown (config_with_defaults (ru_config ru))"
  note e = evaluate_rows [OF ru ev]
  show ?thesis
  proof (cases "fs = []")
    case True
    with run ev have "w' = w1" by (simp add: run_once_def)
    with True e show ?thesis by (auto simp: Let_def intro: exI [of _ "[]"])
  next
    case False
    obtain errs w3 where a: "announce ru ?now m fs w2 = (errs, w3)" by (rule prod.exhaust)
    have w': "w' = w3" "r = None \<longrightarrow> errs = []"
      using run ev last ru False a by (auto simp: run_once_def is_runner_def split: if_splits)
    note l = last_notified_rows [OF last]
    have same: "filter (\<lambda>f. \<not> suppressed ?cd ?now m f) fs = filter (\<lambda>f. \<not> recently (rows w) ?cd ?now f) fs"
      using last_notified_suppresses [OF last] plain e dets by (intro filter_cong) auto
    from announce_spec [OF ru a, unfolded same] show ?thesis
      using e l w' by (auto simp: Let_def)
  qed
qed

end

section \<open>The store and the notifier of a run\<close>

text \<open>
  The concrete channel: the notifications table and the record of deliveries, next to everything
  else (the audit table, the webhook), which answers through \<open>alert_outside\<close>.
\<close>

record 'x alert_outside =
  ao_details :: "gotime \<Rightarrow> gotime \<Rightarrow> int \<Rightarrow> 'x \<Rightarrow> detail_count list res \<times> 'x"
  ao_counts :: "gotime \<Rightarrow> gotime \<Rightarrow> 'x \<Rightarrow> decision_counts res \<times> 'x"
  ao_read_error :: "'x \<Rightarrow> goerr option \<times> 'x"
  ao_insert :: "'x \<Rightarrow> (goerr option \<times> bool) \<times> 'x"
  ao_deliver :: "alert_finding \<Rightarrow> 'x \<Rightarrow> goerr option \<times> 'x"

record 'x alert_world =
  nw_rows :: "notification list"
  nw_sent :: "(alert_finding \<times> bool) list"
  nw_rest :: 'x

definition with_rest :: "('x \<Rightarrow> 'a \<times> 'x) \<Rightarrow> 'x alert_world \<Rightarrow> 'a \<times> 'x alert_world" where
  "with_rest g w = (case g (nw_rest w) of (a, x) \<Rightarrow> (a, w\<lparr>nw_rest := x\<rparr>))"

definition newest_rows :: "notification list \<Rightarrow> notification list" where
  "newest_rows rows = map (\<lambda>k. (fst k, snd k, Max (set (map (\<lambda>n. snd (snd n))
      (filter (\<lambda>n. (fst n, fst (snd n)) = k) rows))))) (remdups (map (\<lambda>n. (fst n, fst (snd n))) rows))"

definition alert_table_conn :: "'x alert_outside \<Rightarrow> 'x alert_world alert_conn" where
  "alert_table_conn out =
     \<lparr>ac_details = (\<lambda>since until limit. with_rest (ao_details out since until limit)),
      ac_counts = (\<lambda>since until. with_rest (ao_counts out since until)),
      ac_newest = (\<lambda>w. case with_rest (ao_read_error out) w of
          (Some e, w1) \<Rightarrow> (Inl e, w1) | (None, w1) \<Rightarrow> (Inr (newest_rows (nw_rows w1)), w1)),
      ac_insert = (\<lambda>n k m w. case with_rest (ao_insert out) w of
          ((r, landed), w1) \<Rightarrow> (r, if r = None \<or> landed then w1\<lparr>nw_rows := n # nw_rows w1\<rparr> else w1))\<rparr>"

definition alert_notify :: "'x alert_outside \<Rightarrow> alert_finding \<Rightarrow> 'x alert_world \<Rightarrow> goerr option \<times> 'x alert_world" where
  "alert_notify out f w =
     (case with_rest (ao_deliver out f) w of (r, w1) \<Rightarrow> (r, w1\<lparr>nw_sent := nw_sent w1 @ [(f, r = None)]\<rparr>))"

lemma newest_rows_newest: "newest_of rows (newest_rows rows)"
proof -
  let ?k = "\<lambda>n::notification. (fst n, fst (snd n))"
  have ts: "Max (set (map (\<lambda>n. snd (snd n)) (filter (\<lambda>n. ?k n = k) rows)))
      \<in> (\<lambda>n. snd (snd n)) ` {n \<in> set rows. ?k n = k}" if "k \<in> ?k ` set rows" for k
  proof -
    have "finite ((\<lambda>n. snd (snd n)) ` {n \<in> set rows. ?k n = k})"
      "(\<lambda>n. snd (snd n)) ` {n \<in> set rows. ?k n = k} \<noteq> {}" using that by auto
    from Max_in [OF this] show ?thesis by simp
  qed
  have keys: "map (\<lambda>(d, s, t). (d, s)) (newest_rows rows) = remdups (map ?k rows)"
    by (simp add: newest_rows_def comp_def)
  have sub: "set (newest_rows rows) \<subseteq> set rows"
  proof
    fix n assume "n \<in> set (newest_rows rows)"
    then obtain k where k: "k \<in> ?k ` set rows" "n = (fst k, snd k, Max (set (map (\<lambda>n. snd (snd n))
        (filter (\<lambda>n. ?k n = k) rows))))" by (auto simp: newest_rows_def)
    from ts [OF k(1)] obtain r where "r \<in> set rows" "?k r = k"
      "snd (snd r) = Max (set (map (\<lambda>n. snd (snd n)) (filter (\<lambda>n. ?k n = k) rows)))" by auto
    with k(2) show "n \<in> set rows" by (cases r) auto
  qed
  have max: "\<exists>u. (d, s, u) \<in> set (newest_rows rows) \<and> t \<le> u" if m: "(d, s, t) \<in> set rows" for d s t
  proof -
    let ?u = "Max (set (map (\<lambda>n. snd (snd n)) (filter (\<lambda>n. ?k n = (d, s)) rows)))"
    have "t \<le> ?u" using m by (intro Max_ge) force+
    moreover have "(d, s, ?u) \<in> set (newest_rows rows)"
      using m by (force simp: newest_rows_def)
    ultimately show ?thesis by blast
  qed
  have "distinct (map (\<lambda>(d, s, t). (d, s)) (newest_rows rows))" unfolding keys by simp
  with sub max show ?thesis unfolding newest_of_def by blast
qed

interpretation channel: alert_channel "alert_table_conn out" "alert_notify out" nw_rows nw_sent
  for out :: "'x alert_outside"
proof unfold_locales
  fix w w1 :: "'x alert_world" and f r
  assume "alert_notify out f w = (r, w1)"
  then show "nw_sent w1 = nw_sent w @ [(f, r = None)] \<and> nw_rows w1 = nw_rows w"
    by (auto simp: alert_notify_def with_rest_def split: prod.splits)
next
  fix w w1 :: "'x alert_world" and n k m r
  assume "ac_insert (alert_table_conn out) n k m w = (r, w1)"
  then show "nw_sent w1 = nw_sent w \<and> (nw_rows w1 = n # nw_rows w \<or> r \<noteq> None \<and> nw_rows w1 = nw_rows w)"
    by (auto simp: alert_table_conn_def with_rest_def split: prod.splits if_splits)
next
  fix w w1 :: "'x alert_world" and rn
  assume "ac_newest (alert_table_conn out) w = (rn, w1)"
  then show "nw_sent w1 = nw_sent w \<and> nw_rows w1 = nw_rows w
      \<and> (case rn of Inl _ \<Rightarrow> True | Inr ns \<Rightarrow> newest_of (nw_rows w) ns)"
    by (auto simp: alert_table_conn_def with_rest_def newest_rows_newest split: prod.splits option.splits)
next
  fix w w1 :: "'x alert_world" and since until limit r1
  assume "ac_details (alert_table_conn out) since until limit w = (r1, w1)"
  then show "nw_sent w1 = nw_sent w \<and> nw_rows w1 = nw_rows w"
    by (auto simp: alert_table_conn_def with_rest_def split: prod.splits)
next
  fix w w1 :: "'x alert_world" and since until r2
  assume "ac_counts (alert_table_conn out) since until w = (r2, w1)"
  then show "nw_sent w1 = nw_sent w \<and> nw_rows w1 = nw_rows w"
    by (auto simp: alert_table_conn_def with_rest_def split: prod.splits)
qed

section \<open>The findings of one evaluation\<close>

definition finding_class :: "alert_finding \<Rightarrow> string \<times> string" where
  "finding_class f = (af_detector f, af_signature f)"

lemma capped_novel:
  assumes "0 < cap"
  shows "distinct (map af_signature (fst (novel_errors recent baseline cap)))
    \<and> (\<forall>f \<in> set (fst (novel_errors recent baseline cap)). af_detector f = detector_novel_error)"
proof -
  have "fst (novel_errors recent baseline cap) = take (nat cap) (all_novel recent baseline)"
    using novel_errors_cap [OF assms] by simp
  then show ?thesis
    using all_novel_signatures(1) [of recent baseline] all_novel_count [of _ recent baseline]
    by (auto simp: take_map [symmetric] distinct_take dest!: in_set_takeD)
qed

lemma step_change_class:
  "f \<in> set (infra_error_step_change fmt1 rnd recent baseline h) \<Longrightarrow> af_detector f = detector_infra_error_rate"
  "length (infra_error_step_change fmt1 rnd recent baseline h) \<le> 1"
  by (auto simp: infra_error_step_change_def Let_def split: if_splits)

lemma killed_class:
  "f \<in> set (killed_scans recent n) \<Longrightarrow> af_detector f = detector_killed_scan"
  "length (killed_scans recent n) \<le> 1"
  by (auto simp: killed_scans_def split: prod.splits if_splits)

lemma distinct_short: "length xs \<le> 1 \<Longrightarrow> distinct (map g xs)"
  by (cases xs) auto

lemma max_novel_positive: "0 < an_max_novel_per_run (config_with_defaults c)"
  by (simp add: config_with_defaults_def)

lemma evaluated_classes:
  assumes "evaluate_window ru now w = (Inr fs, w1)"
  shows "distinct (map finding_class fs) \<and> (\<forall>f \<in> set fs. CHR ''|'' \<notin> set (af_detector f))"
proof -
  let ?c = "config_with_defaults (ru_config ru)"
  obtain recent baseline rc bc where fs: "fs = fst (novel_errors recent baseline (an_max_novel_per_run ?c))
      @ infra_error_step_change (ru_fmt1 ru) (ru_round ru) rc bc (an_rate ?c)
      @ killed_scans recent (an_killed_scan_threshold ?c)"
    using assms by (auto simp: evaluate_window_def Let_def split: prod.splits sum.splits)
  let ?n = "fst (novel_errors recent baseline (an_max_novel_per_run ?c))"
  let ?i = "infra_error_step_change (ru_fmt1 ru) (ru_round ru) rc bc (an_rate ?c)"
  let ?k = "killed_scans recent (an_killed_scan_threshold ?c)"
  note n = capped_novel [OF max_novel_positive, of recent baseline "ru_config ru"]
  have "distinct (map finding_class ?n)"
    using n by (auto simp: finding_class_def distinct_map inj_on_def)
  moreover have "distinct (map finding_class ?i)" "distinct (map finding_class ?k)"
    by (rule distinct_short [OF step_change_class(2)], rule distinct_short [OF killed_class(2)])
  moreover have "finding_class ` set ?n \<inter> (finding_class ` set ?i \<union> finding_class ` set ?k) = {}"
    "finding_class ` set ?i \<inter> finding_class ` set ?k = {}"
    using n by (auto simp: finding_class_def detector_names dest!: step_change_class(1) killed_class(1))
  ultimately have "distinct (map finding_class fs)" unfolding fs by auto
  moreover have "\<forall>f \<in> set fs. CHR ''|'' \<notin> set (af_detector f)"
    using n unfolding fs
    by (auto simp: detector_names dest!: step_change_class(1) killed_class(1))
  ultimately show ?thesis by blast
qed


section \<open>A run\<close>

lemma store_runner_fields [simp]:
  "ru_config (store_runner c n cfg clk fmt1 rnd) = cfg"
  "ru_clock (store_runner c n cfg clk fmt1 rnd) = clk"
  "ru_details (store_runner c n cfg clk fmt1 rnd) = infra_error_details c"
  "ru_counts (store_runner c n cfg clk fmt1 rnd) = decision_counts_in c"
  "ru_last_notified (store_runner c n cfg clk fmt1 rnd) = last_notified c"
  "ru_record_notified (store_runner c n cfg clk fmt1 rnd) = record_notified c"
  "ru_notify (store_runner c n cfg clk fmt1 rnd) = n"
  by (simp_all add: store_runner_def)

lemma store_runner_is_runner:
  "channel.is_runner out (store_runner (alert_table_conn out) (alert_notify out) cfg clk fmt1 rnd)"
  by (simp add: channel.is_runner_def)

lemma recently_later:
  "recently rows cd later f \<Longrightarrow> now \<le> later \<Longrightarrow> recently rows cd now f"
  unfolding recently_def using time_sub_mono by (blast intro: order.strict_trans1)

lemma recently_append:
  "recently (new @ rows) cd now f \<longleftrightarrow> recently new cd now f \<or> recently rows cd now f"
  by (auto simp: recently_def)

lemma recently_class:
  assumes "recently new cd now f" and "set new \<subseteq> notice_row t ` F"
  shows "\<exists>g \<in> F. finding_class g = finding_class f"
  using assms by (fastforce simp: recently_def notice_row_def finding_class_def)

definition due_findings :: "notification list \<Rightarrow> alert_config \<Rightarrow> gotime \<Rightarrow> alert_finding list \<Rightarrow> alert_finding list" where
  "due_findings rows cfg now fs =
     filter (\<lambda>f. \<not> recently rows (an_cooldown (config_with_defaults cfg)) now f) fs"

text \<open>
  C21: A run of the alerter hands the notifier exactly the findings whose class was not announced
  within the cooldown, each once and in order. A finding that was not delivered is due again at every
  later run, whatever happened to the others. When the run reports no error, every class it announced
  is quiet until a cooldown after the run, and not longer on account of the run.
\<close>

theorem run_announces_what_is_due:
  assumes "ru = store_runner (alert_table_conn out) (alert_notify out) cfg clk fmt1 rnd"
    and "plain_rows (nw_rows w)"
    and "evaluate_window ru (clk w) w = (Inr fs, w1)"
    and "last_notified (alert_table_conn out) w1 = (Inr m, w2)"
    and "run_once ru w = (r, w')"
    and "due = due_findings (nw_rows w) cfg (clk w) fs"
    and "cd = an_cooldown (config_with_defaults cfg)"
  shows "\<exists>oks. length oks = length due \<and> nw_sent w' = nw_sent w @ zip due oks
    \<and> plain_rows (nw_rows w')
    \<and> (\<forall>f \<in> set due. (f, True) \<notin> set (zip due oks) \<longrightarrow>
         (\<forall>later. clk w \<le> later \<longrightarrow> \<not> recently (nw_rows w') cd later f))
    \<and> (r = None \<longrightarrow> (\<forall>f \<in> set due. \<forall>later. clk w \<le> later \<longrightarrow>
         recently (nw_rows w') cd later f = (time_sub later (clk w) < cd)))"
proof -
  note cls = evaluated_classes [OF assms(3)]
  have ru: "channel.is_runner out ru" by (simp only: assms(1) store_runner_is_runner)
  have clk: "ru_clock ru = clk" "ru_config ru = cfg" by (simp_all add: assms(1))
  obtain oks new where s: "length oks = length due" "nw_sent w' = nw_sent w @ zip due oks"
    "nw_rows w' = new @ nw_rows w"
    "set new \<subseteq> notice_row (clk w) ` {f. (f, True) \<in> set (zip due oks)}"
    "r = None \<longrightarrow> notice_row (clk w) ` set due \<subseteq> set new"
    using channel.run_once_spec [OF ru assms(2) _ assms(4,5), of fs] assms(3) cls
    unfolding clk Let_def assms(6,7) due_findings_def by blast
  have due: "set due \<subseteq> set fs" "\<forall>f \<in> set due. \<not> recently (nw_rows w) cd (clk w) f"
    by (auto simp: assms(6,7) due_findings_def)
  have "plain_rows (nw_rows w')"
  proof -
    have "\<forall>f. (f, True) \<in> set (zip due oks) \<longrightarrow> CHR ''|'' \<notin> set (af_detector f)"
      using cls due by (auto dest!: set_zip_leftD)
    with s(3,4) assms(2) show ?thesis by (fastforce simp: plain_rows_def list_all_iff notice_row_def)
  qed
  moreover have "\<not> recently (nw_rows w') cd later f"
    if "f \<in> set due" "(f, True) \<notin> set (zip due oks)" "clk w \<le> later" for f later
  proof
    assume "recently (nw_rows w') cd later f"
    then have "recently new cd later f"
      using s(3) due(2) that(1,3) recently_later by (auto simp: recently_append)
    from recently_class [OF this s(4)] obtain g where g: "(g, True) \<in> set (zip due oks)"
      "finding_class g = finding_class f" by auto
    then have "g = f" using cls due(1) that(1) by (auto simp: distinct_map inj_on_def dest!: set_zip_leftD)
    with g(1) that(2) show False by simp
  qed
  moreover have "recently (nw_rows w') cd later f = (time_sub later (clk w) < cd)"
    if "r = None" "f \<in> set due" "clk w \<le> later" for f later
  proof
    assume "recently (nw_rows w') cd later f"
    then have "recently new cd later f"
      using s(3) due(2) that(2,3) recently_later by (auto simp: recently_append)
    then show "time_sub later (clk w) < cd" using s(4) by (auto simp: recently_def notice_row_def)
  next
    assume "time_sub later (clk w) < cd"
    moreover have "notice_row (clk w) f \<in> set (nw_rows w')" using s(3,5) that(1,2) by auto
    ultimately show "recently (nw_rows w') cd later f" unfolding recently_def notice_row_def by blast
  qed
  ultimately show ?thesis using s(1,2) by blast
qed

definition sample_detail :: "string \<Rightarrow> nat \<Rightarrow> detail_count" where
  "sample_detail t n = \<lparr>dt_detail = t, dt_count = of_nat n, dt_first = 0, dt_last = 0\<rparr>"

definition sample_outside :: "gotime \<Rightarrow> detail_count list \<Rightarrow> unit alert_outside" where
  "sample_outside now rows =
     \<lparr>ao_details = (\<lambda>since until limit x. (Inr (if until = now then rows else []), x)),
      ao_counts = (\<lambda>since until x. (Inr \<lparr>dn_total = 0, dn_infra_errors = 0\<rparr>, x)),
      ao_read_error = (\<lambda>x. (None, x)),
      ao_insert = (\<lambda>x. ((None, True), x)),
      ao_deliver = (\<lambda>f x. (if af_signature f = ''boom'' then Some (ErrMsg ''slack is down'') else None, x))\<rparr>"

definition sample_alerts :: "int \<Rightarrow> alert_config" where
  "sample_alerts cap =
     \<lparr>an_interval = 0, an_recent_window = 0, an_baseline_window = 0, an_cooldown = 0,
      an_rate = \<lparr>rh_min_samples = 0, rh_min_rate = 0, rh_min_factor = 0\<rparr>,
      an_killed_scan_threshold = 0, an_max_novel_per_run = cap, an_detail_limit = 0\<rparr>"


definition sample_runner :: "detail_count list \<Rightarrow> int \<Rightarrow> gotime \<Rightarrow> unit alert_world runner" where
  "sample_runner rows cap now =
     store_runner (alert_table_conn (sample_outside now rows)) (alert_notify (sample_outside now rows))
       (sample_alerts cap) (\<lambda>w. now) (\<lambda>x. []) (\<lambda>x. x)"

definition sample_world :: "notification list \<Rightarrow> unit alert_world" where
  "sample_world ns = \<lparr>nw_rows = ns, nw_sent = [], nw_rest = ()\<rparr>"

lemma sample_defaults:
  "an_cooldown (config_with_defaults (sample_alerts cap)) = default_cooldown"
  "an_recent_window (config_with_defaults (sample_alerts cap)) = hour"
  "0 < cap \<Longrightarrow> an_max_novel_per_run (config_with_defaults (sample_alerts cap)) = cap"
  "an_killed_scan_threshold (config_with_defaults (sample_alerts cap)) = 5"
  "rh_min_samples (an_rate (config_with_defaults (sample_alerts cap))) = 20"
  by (simp_all add: config_with_defaults_def sample_alerts_def default_recent_window_def)

lemma sample_evaluates:
  assumes "0 < cap" and "killed_scans rows 5 = []"
  shows "evaluate_window (sample_runner rows cap now) now w = (Inr (fst (novel_errors rows [] cap)), w)"
proof -
  have rate: "infra_error_step_change f g \<lparr>dn_total = 0, dn_infra_errors = 0\<rparr> c
      (an_rate (config_with_defaults (sample_alerts cap))) = []" for f g c
    by (simp add: infra_error_step_change_def sample_defaults)
  have "hour \<noteq> (0::int)" by (simp add: hour_def minute_def second_def)
  then show ?thesis
    using assms
    by (simp add: evaluate_window_def sample_runner_def infra_error_details_def decision_counts_in_def
        alert_table_conn_def with_rest_def sample_outside_def sample_defaults rate)
qed

definition two_failures :: "detail_count list" where
  "two_failures = [sample_detail ''boom'' 3, sample_detail ''crash'' 2]"

lemma two_novel:
  "map af_signature (fst (novel_errors two_failures [] 2)) = [''boom'', ''crash'']"
  "killed_scans two_failures 5 = []"
  by code_simp+

lemma sample_last_notified:
  "\<exists>m. last_notified (alert_table_conn (sample_outside now rows)) w = (Inr m, w)"
  by (simp add: last_notified_def alert_table_conn_def with_rest_def sample_outside_def)

theorem run_announces_what_is_due_witness:
  "\<exists>fs oks. map af_signature fs = [''boom'', ''crash''] \<and> length oks = 2
     \<and> nw_sent (snd (run_once (sample_runner two_failures 2 0) (sample_world []))) = zip fs oks"
proof -
  let ?ru = "sample_runner two_failures 2 0" and ?w = "sample_world []"
  let ?fs = "fst (novel_errors two_failures [] 2)"
  obtain m where m: "last_notified (alert_table_conn (sample_outside 0 two_failures)) ?w = (Inr m, ?w)"
    using sample_last_notified by blast
  have ev: "evaluate_window ?ru 0 ?w = (Inr ?fs, ?w)"
    by (rule sample_evaluates) (simp_all add: two_novel)
  have due: "?fs = due_findings (nw_rows ?w) (sample_alerts 2) 0 ?fs"
    by (simp add: due_findings_def recently_def sample_world_def)
  obtain r w' where run: "run_once ?ru ?w = (r, w')" by (rule prod.exhaust)
  have len: "length ?fs = 2" using arg_cong [OF two_novel(1), of length] by simp
  have "\<exists>oks. length oks = length ?fs \<and> nw_sent w' = nw_sent ?w @ zip ?fs oks"
    using run_announces_what_is_due [OF sample_runner_def _ ev m run due HOL.refl]
    by (auto simp: plain_rows_def sample_world_def)
  then obtain oks where "length oks = 2" "nw_sent w' = zip ?fs oks" using len by (auto simp: sample_world_def)
  then show ?thesis using two_novel(1) run by (intro exI [of _ ?fs] exI [of _ oks]) (simp only: snd_conv simp_thms)
qed

section \<open>The cap and the cooldown\<close>

lemma evaluated_novel:
  assumes "ru_details ru (now - an_recent_window (config_with_defaults (ru_config ru))) now
      (an_detail_limit (config_with_defaults (ru_config ru))) w = (Inr recent, w1)"
    and "ru_details ru (now - an_recent_window (config_with_defaults (ru_config ru))
        - an_baseline_window (config_with_defaults (ru_config ru)))
      (now - an_recent_window (config_with_defaults (ru_config ru)))
      (an_detail_limit (config_with_defaults (ru_config ru))) w1 = (Inr baseline, w2)"
    and "evaluate_window ru now w = (Inr fs, w3)"
    and "f \<in> set fs" and "af_detector f = detector_novel_error"
  shows "f \<in> set (take (nat (an_max_novel_per_run (config_with_defaults (ru_config ru))))
      (all_novel recent baseline))"
proof -
  let ?c = "config_with_defaults (ru_config ru)"
  obtain rc bc where fs: "fs = fst (novel_errors recent baseline (an_max_novel_per_run ?c))
      @ infra_error_step_change (ru_fmt1 ru) (ru_round ru) rc bc (an_rate ?c)
      @ killed_scans recent (an_killed_scan_threshold ?c)"
    using assms(1-3) by (auto simp: evaluate_window_def Let_def split: prod.splits sum.splits)
  then have "f \<in> set (fst (novel_errors recent baseline (an_max_novel_per_run ?c)))"
    using assms(4,5) by (auto simp: detector_names dest!: step_change_class(1) killed_class(1))
  then show ?thesis using novel_errors_cap [OF max_novel_positive, of recent baseline] by simp
qed

text \<open>
  C31: The cap on new failure signatures is applied before the cooldown. While the loudest ones, as many
  as the cap, were announced within the cooldown, a run announces no new signature at all: not one
  that no run ever announced, though a run may announce as many as the cap.
\<close>

theorem cap_starves_quiet_signatures:
  assumes "ru = store_runner (alert_table_conn out) (alert_notify out) cfg clk fmt1 rnd"
    and "c = config_with_defaults cfg" and "now = clk w"
    and "ru_details ru (now - an_recent_window c) now (an_detail_limit c) w = (Inr recent, w1)"
    and "ru_details ru (now - an_recent_window c - an_baseline_window c) (now - an_recent_window c)
      (an_detail_limit c) w1 = (Inr baseline, w2)"
    and "evaluate_window ru now w = (Inr fs, w3)"
    and "last_notified (alert_table_conn out) w3 = (Inr m, w4)"
    and "run_once ru w = (r, w')"
    and "plain_rows (nw_rows w)"
    and "list_all (recently (nw_rows w) (an_cooldown c) now)
      (take (nat (an_max_novel_per_run c)) (all_novel recent baseline))"
    and "quiet \<in> set (all_novel recent baseline)" and "\<not> recently (nw_rows w) (an_cooldown c) now quiet"
  shows "\<exists>told. nw_sent w' = nw_sent w @ told
    \<and> (\<forall>(f, ok) \<in> set told. af_detector f \<noteq> detector_novel_error \<and> finding_class f \<noteq> finding_class quiet)"
proof -
  have ru: "channel.is_runner out ru" by (simp only: assms(1) store_runner_is_runner)
  have clk: "ru_clock ru = clk" "ru_config ru = cfg" by (simp_all add: assms(1))
  let ?due = "filter (\<lambda>f. \<not> recently (nw_rows w) (an_cooldown c) now f) fs"
  obtain oks where s: "nw_sent w' = nw_sent w @ zip ?due oks"
    using channel.run_once_spec [OF ru assms(9) _ assms(7,8), of fs] assms(6) evaluated_classes [OF assms(6)]
    unfolding clk Let_def assms(2,3) by blast
  have "af_detector f \<noteq> detector_novel_error" if "f \<in> set ?due" for f
  proof
    assume "af_detector f = detector_novel_error"
    with evaluated_novel [of ru now w recent w1 baseline w2 fs w3 f] assms(4-6) that
    have "f \<in> set (take (nat (an_max_novel_per_run c)) (all_novel recent baseline))"
      by (simp add: clk assms(2))
    with assms(10) that show False by (auto simp: list_all_iff)
  qed
  moreover have "af_detector quiet = detector_novel_error" using all_novel_count assms(11) by blast
  ultimately show ?thesis
    using s by (intro exI [of _ "zip ?due oks"]) (auto simp: finding_class_def dest!: set_zip_leftD)
qed

theorem cap_starves_quiet_signatures_witness:
  "list_all (\<lambda>(f, ok). af_detector f \<noteq> detector_novel_error)
     (nw_sent (snd (run_once (sample_runner two_failures 1 0)
       (sample_world [(''novel_error'', ''boom'', - minute)]))))
   \<and> map finding_class (all_novel two_failures []) = [(''novel_error'', ''boom''), (''novel_error'', ''crash'')]"
proof -
  let ?w = "sample_world [(''novel_error'', ''boom'', - minute)]"
  let ?ru = "sample_runner two_failures 1 0" and ?c = "config_with_defaults (sample_alerts 1)"
  have novel: "map finding_class (all_novel two_failures [])
      = [(''novel_error'', ''boom''), (''novel_error'', ''crash'')]" by code_simp
  obtain loud quiet where lq: "all_novel two_failures [] = [loud, quiet]"
    "finding_class loud = (''novel_error'', ''boom'')" "finding_class quiet = (''novel_error'', ''crash'')"
    using novel by (auto simp: Cons_eq_map_conv map_eq_Cons_conv)
  obtain m where m: "last_notified (alert_table_conn (sample_outside 0 two_failures)) ?w = (Inr m, ?w)"
    using sample_last_notified by blast
  have hours: "hour \<noteq> (0::int)" "minute < default_cooldown"
    by (simp_all add: default_cooldown_def duration_units)
  have ev: "evaluate_window ?ru 0 ?w = (Inr (fst (novel_errors two_failures [] 1)), ?w)"
    by (rule sample_evaluates) (simp_all add: two_novel)
  have one: "an_max_novel_per_run ?c = 1" by (simp add: sample_defaults)
  have d1: "ru_details ?ru (0 - an_recent_window ?c) 0 (an_detail_limit ?c) ?w = (Inr two_failures, ?w)"
    and d2: "ru_details ?ru (0 - an_recent_window ?c - an_baseline_window ?c) (0 - an_recent_window ?c)
      (an_detail_limit ?c) ?w = (Inr [], ?w)"
    using hours(1)
    by (simp_all add: sample_runner_def infra_error_details_def alert_table_conn_def with_rest_def
        sample_outside_def sample_defaults)
  have rec: "list_all (recently (nw_rows ?w) (an_cooldown ?c) 0)
      (take (nat (an_max_novel_per_run ?c)) (all_novel two_failures []))"
    "\<not> recently (nw_rows ?w) (an_cooldown ?c) 0 quiet"
    using lq hours
    by (simp_all add: one sample_defaults recently_def sample_world_def finding_class_def time_sub_def
        min_duration_def max_duration_def duration_units default_cooldown_def)
  have pl: "plain_rows (nw_rows ?w)" and q: "quiet \<in> set (all_novel two_failures [])"
    by (simp_all add: plain_rows_def sample_world_def lq(1))
  obtain r w' where run: "run_once ?ru ?w = (r, w')" by (rule prod.exhaust)
  have "\<exists>told. nw_sent w' = nw_sent ?w @ told
    \<and> (\<forall>(f, ok) \<in> set told. af_detector f \<noteq> detector_novel_error \<and> finding_class f \<noteq> finding_class quiet)"
    by (rule cap_starves_quiet_signatures [OF sample_runner_def HOL.refl HOL.refl d1 d2 ev m run pl rec(1) q rec(2)])
  then show ?thesis using run novel by (auto simp: sample_world_def list_all_iff)
qed

section \<open>Novelty\<close>

definition new_signatures :: "detail_count list \<Rightarrow> detail_count list \<Rightarrow> string set" where
  "new_signatures recent baseline =
     {s. s \<noteq> [] \<and> s \<in> signature ` dt_detail ` set recent \<and> s \<notin> signature ` dt_detail ` set baseline}"

lemma all_novel_loudest_first: "sorted_wrt (\<lambda>a b. af_count b \<le> af_count a) (all_novel recent baseline)"
  using sorted_sort_stable [OF louder_weak] by (simp add: all_novel_eq louder_def not_less)

lemma sorted_wrt_take_drop:
  "sorted_wrt P xs \<Longrightarrow> a \<in> set (take n xs) \<Longrightarrow> b \<in> set (drop n xs) \<Longrightarrow> P a b"
  by (metis append_take_drop_id sorted_wrt_append)

lemma all_novel_length: "length (all_novel recent baseline) = card (new_signatures recent baseline)"
proof -
  have "card (set (map af_signature (all_novel recent baseline))) = length (all_novel recent baseline)"
    by (metis all_novel_signatures(1) distinct_card length_map)
  then show ?thesis using all_novel_signatures(2) by (simp add: new_signatures_def)
qed



end
