(* ===== verification/Alert_Slack.thy ===== *)
theory Alert_Slack
  imports Alert_Runner
begin

text \<open>
  \<open>internal/alert/slack.go\<close> and \<open>alertEnvironment\<close>: the text of an alert and its delivery to a webhook.
  The JSON encoder, the time format and the HTTP client are parameters; a client's own errors quote
  the URL they were for.
\<close>

record slack =
  sl_url :: string
  sl_env :: string

text \<open>\<open>kc_do\<close> posts a body to a URL and gives the status and the answer's body.\<close>

record 'w slack_client =
  kc_encode :: "string \<Rightarrow> string res"
  kc_rfc3339 :: "gotime \<Rightarrow> string"
  kc_new_request :: "string \<Rightarrow> goerr option"
  kc_do :: "string \<Rightarrow> string \<Rightarrow> 'w \<Rightarrow> (nat \<times> reader) res \<times> 'w"
  kc_ctx_err :: "'w \<Rightarrow> goerr option"

definition max_slack_body :: nat where
  "max_slack_body = 8 * 1024"

definition max_evidence_len :: nat where
  "max_evidence_len = 1200"

definition alert_environment :: "string res \<Rightarrow> alerts_config \<Rightarrow> string" where
  "alert_environment hostname a =
     (if al_environment a \<noteq> [] then al_environment a
      else case hostname of
        Inr h \<Rightarrow> (if h \<noteq> [] then h else ''merlin'')
      | Inl e \<Rightarrow> ''merlin'')"

definition icon :: "string \<Rightarrow> string" where
  "icon detector =
     (if detector = detector_killed_scan \<or> detector = detector_infra_error_rate
      then '':rotating_light:'' else '':mag:'')"

definition backtick :: string where
  "backtick = [CHR 0x60]"

definition bullet :: string where
  "bullet = [CHR 0xE2, CHR 0x80, CHR 0xA2]"

definition slack_message :: "(gotime \<Rightarrow> string) \<Rightarrow> slack \<Rightarrow> alert_finding \<Rightarrow> string" where
  "slack_message rfc3339 s f =
     icon (af_detector f) @ '' *'' @ sl_env s @ ''* '' @ backtick @ af_detector f @ backtick @ newline
       @ af_summary f @ newline
     @ bullet @ '' signature: '' @ backtick @ af_signature f @ backtick @ newline
     @ bullet @ '' occurrences: '' @ fmt_nat (unat (af_count f)) @ newline
     @ (if is_zero_time (af_first_seen f) then []
        else bullet @ '' first seen: '' @ rfc3339 (af_first_seen f) @ newline)
     @ (if is_zero_time (af_last_seen f) then []
        else bullet @ '' last seen: '' @ rfc3339 (af_last_seen f) @ newline)
     @ (let ev = trim_space (af_evidence f);
            ev1 = (if max_evidence_len < length ev
                   then take max_evidence_len ev @ [CHR 0xE2, CHR 0x80, CHR 0xA6] else ev)
        in if ev = [] then []
           else backtick @ backtick @ backtick @ ev1 @ backtick @ backtick @ backtick @ newline)"

text \<open>The body of the post; a message that is too large goes without its evidence.\<close>

definition slack_body :: "'w slack_client \<Rightarrow> slack \<Rightarrow> alert_finding \<Rightarrow> string res" where
  "slack_body k s f =
     (case kc_encode k (slack_message (kc_rfc3339 k) s f) of
        Inl e \<Rightarrow> Inl (ErrWrap ''encode slack payload: '' e [])
      | Inr body \<Rightarrow>
          (if max_slack_body < length body
           then case kc_encode k (slack_message (kc_rfc3339 k) s (f\<lparr>af_evidence := []\<rparr>)
                         @ ''_(evidence omitted: message too large)_'') of
             Inl e \<Rightarrow> Inl (ErrWrap ''encode slack payload: '' e [])
           | Inr b \<Rightarrow> Inr b
           else Inr body))"

definition slack_notify :: "'w slack_client \<Rightarrow> slack \<Rightarrow> alert_finding \<Rightarrow> 'w \<Rightarrow> goerr option \<times> 'w" where
  "slack_notify k s f w =
     (case slack_body k s f of
        Inl e \<Rightarrow> (Some e, w)
      | Inr body \<Rightarrow>
          (case kc_new_request k (sl_url s) of
             Some e \<Rightarrow> (Some (ErrMsg ''slack notify: invalid webhook URL''), w)
           | None \<Rightarrow>
               (case kc_do k (sl_url s) body w of
                  (Inl e, w1) \<Rightarrow>
                    (Some (case kc_ctx_err k w1 of
                             Some ce \<Rightarrow> ErrWrap ''slack notify: '' ce []
                           | None \<Rightarrow> ErrMsg ''slack notify: request failed (webhook URL redacted)''), w1)
                | (Inr (status, answer), w1) \<Rightarrow>
                    (if status < 200 \<or> 299 < status
                     then (Some (ErrMsg (''slack notify: status '' @ fmt_nat status @ '': ''
                             @ trim_space (case answer of Inr b \<Rightarrow> take 256 b | Inl e \<Rightarrow> []))), w1)
                     else (None, w1)))))"

section \<open>The webhook URL is a secret\<close>

text \<open>Two URLs a client treats alike, whatever its errors say.\<close>

definition answers_alike :: "'w slack_client \<Rightarrow> string \<Rightarrow> string \<Rightarrow> bool" where
  "answers_alike k u v \<longleftrightarrow> (kc_new_request k u = None) = (kc_new_request k v = None)
     \<and> (\<forall>body w. snd (kc_do k u body w) = snd (kc_do k v body w)
          \<and> (case (fst (kc_do k u body w), fst (kc_do k v body w)) of
               (Inl _, Inl _) \<Rightarrow> True | (Inr x, Inr y) \<Rightarrow> x = y | _ \<Rightarrow> False))"

lemma slack_message_url: "slack_message rfc3339 (s\<lparr>sl_url := u\<rparr>) f = slack_message rfc3339 s f"
proof -
  have "sl_env (s\<lparr>sl_url := u\<rparr>) = sl_env s" by simp
  then show ?thesis by (simp only: slack_message_def)
qed

lemma slack_body_url: "slack_body k (s\<lparr>sl_url := u\<rparr>) f = slack_body k s f"
  by (simp only: slack_body_def slack_message_url)

text \<open>
  The webhook URL is never told. Between two URLs that the network treats alike, the outcome of a
  delivery - what is reported, in which words, and what happened outside - is the same, although the
  client's own errors quote the URL.
\<close>

theorem webhook_url_never_told:
  assumes "answers_alike k u v"
  shows "slack_notify k (s\<lparr>sl_url := u\<rparr>) f w = slack_notify k (s\<lparr>sl_url := v\<rparr>) f w"
proof (cases "slack_body k s f")
  case (Inr body)
  obtain r w1 where u: "kc_do k u body w = (r, w1)" by (rule prod.exhaust)
  obtain q w2 where v: "kc_do k v body w = (q, w2)" by (rule prod.exhaust)
  have req: "(kc_new_request k u = None) = (kc_new_request k v = None)"
    using assms unfolding answers_alike_def by blast
  have "snd (kc_do k u body w) = snd (kc_do k v body w)
      \<and> (case (fst (kc_do k u body w), fst (kc_do k v body w)) of
           (Inl _, Inl _) \<Rightarrow> True | (Inr x, Inr y) \<Rightarrow> x = y | _ \<Rightarrow> False)"
    using assms unfolding answers_alike_def by blast
  then have same: "w2 = w1" "(\<exists>e e'. r = Inl e \<and> q = Inl e') \<or> (\<exists>x. r = Inr x \<and> q = Inr x)"
    by (simp_all add: u v split: sum.splits)
  show ?thesis
  proof (cases "kc_new_request k u")
    case None
    with req have "kc_new_request k v = None" by simp
    with None same show ?thesis
      by (elim disjE exE conjE) (simp_all add: slack_notify_def slack_body_url Inr u v)
  next
    case (Some e)
    with req obtain e' where "kc_new_request k v = Some e'" by auto
    with Some show ?thesis by (simp add: slack_notify_def slack_body_url Inr)
  qed
qed (simp add: slack_notify_def slack_body_url)

definition quoting_client :: "unit slack_client" where
  "quoting_client = \<lparr>kc_encode = (\<lambda>s. Inr s), kc_rfc3339 = (\<lambda>t. []), kc_new_request = (\<lambda>u. None),
     kc_do = (\<lambda>u body w. (Inl (NetError False (''Post '' @ fmt_q u @ '': EOF'') []), w)),
     kc_ctx_err = (\<lambda>w. None)\<rparr>"

theorem webhook_url_never_told_witness:
  "fst (kc_do quoting_client ''secret'' b ()) \<noteq> fst (kc_do quoting_client ''other'' b ())
   \<and> slack_notify quoting_client \<lparr>sl_url = ''secret'', sl_env = e\<rparr> f ()
     = slack_notify quoting_client \<lparr>sl_url = ''other'', sl_env = e\<rparr> f ()"
proof -
  have "answers_alike quoting_client ''secret'' ''other''"
    by (simp add: answers_alike_def quoting_client_def)
  from webhook_url_never_told [OF this, of "\<lparr>sl_url = [], sl_env = e\<rparr>" f "()"]
  show ?thesis by (simp add: quoting_client_def fmt_q_def)
qed

end
