(* ===== verification/Acr_Push.thy ===== *)
theory Acr_Push
  imports Acr_Classify Auth_Tokens
begin

text \<open>
  \<open>internal/acr\<close>: the push client (\<open>push.go\<close>), its credential with the cached refresh token
  (\<open>credential.go\<close>) and the recording pusher (\<open>fake.go\<close>). go-containerregistry, azidentity and the HTTP
  client are parameters; the mutex makes a call of \<open>Authorization\<close> atomic.
\<close>

section \<open>The expiry of a refresh token\<close>

text \<open>\<open>base64.RawURLEncoding\<close>: line breaks are skipped, left-over bits ignored.\<close>

definition base64_value :: "char \<Rightarrow> nat option" where
  "base64_value c = (let n = (of_char c :: nat) in
     if 65 \<le> n \<and> n \<le> 90 then Some (n - 65)
     else if 97 \<le> n \<and> n \<le> 122 then Some (n - 71)
     else if 48 \<le> n \<and> n \<le> 57 then Some (n + 4)
     else if c = CHR ''-'' then Some 62
     else if c = CHR ''_'' then Some 63 else None)"

fun base64_groups :: "nat list \<Rightarrow> string option" where
  "base64_groups [] = Some []"
| "base64_groups [a] = None"
| "base64_groups [a, b] = Some [char_of (4 * a + b div 16)]"
| "base64_groups [a, b, c] = Some [char_of (4 * a + b div 16), char_of (16 * (b mod 16) + c div 4)]"
| "base64_groups (a # b # c # d # r) =
     map_option (\<lambda>t. char_of (4 * a + b div 16) # char_of (16 * (b mod 16) + c div 4)
                  # char_of (64 * (c mod 4) + d) # t) (base64_groups r)"

definition base64_url_decode :: "string \<Rightarrow> string option" where
  "base64_url_decode s =
     (let vs = map base64_value (filter (\<lambda>c. c \<noteq> CHR 0x0A \<and> c \<noteq> CHR 0x0D) s)
      in if None \<in> set vs then None else base64_groups (map the vs))"

text \<open>\<open>time.Unix(s, 0)\<close>, for seconds that do not wrap around.\<close>

definition time_unix :: "int \<Rightarrow> gotime" where
  "time_unix s = (s + 62135596800) * second"

text \<open>\<open>exp_claim\<close> is the JSON decoder, which gives 0 for an absent claim.\<close>

definition refresh_token_expiry :: "(string \<Rightarrow> int res) \<Rightarrow> string \<Rightarrow> gotime option" where
  "refresh_token_expiry exp_claim token =
     (case str_split (CHR ''.'') token of
        [header, payload, signature] \<Rightarrow>
          (case base64_url_decode payload of
             None \<Rightarrow> None
           | Some json \<Rightarrow>
               (case exp_claim json of
                  Inl e \<Rightarrow> None
                | Inr e \<Rightarrow> (if e = 0 then None else Some (time_unix e))))
      | _ \<Rightarrow> None)"

section \<open>The credential\<close>

text \<open>
  \<open>cr_get_token\<close> is the Azure credential (a token and when it expires); \<open>cr_do\<close> posts a form and gives
  the status and the body.
\<close>

record 'w acr_cred =
  cr_registry :: string
  cr_get_token :: "string list \<Rightarrow> 'w \<Rightarrow> (string \<times> gotime) res \<times> 'w"
  cr_exchange_url :: string
  cr_new_request :: "string \<Rightarrow> goerr option"
  cr_do :: "string \<Rightarrow> (string \<times> string) list \<Rightarrow> 'w \<Rightarrow> (nat \<times> reader) res \<times> 'w"
  cr_refresh_token :: "bytes \<Rightarrow> string res"
  cr_exp_claim :: "string \<Rightarrow> int res"
  cr_now :: "'w \<Rightarrow> gotime"

record cred_cache =
  ct_token :: string
  ct_expiry :: gotime

definition empty_cache :: cred_cache where
  "empty_cache = \<lparr>ct_token = [], ct_expiry = 0\<rparr>"

definition acr_exchange :: "'w acr_cred \<Rightarrow> string \<Rightarrow> 'w \<Rightarrow> string res \<times> 'w" where
  "acr_exchange a aad w =
     (let url = (if cr_exchange_url a = [] then ''https://'' @ cr_registry a @ ''/oauth2/exchange''
                 else cr_exchange_url a);
          form = [(''grant_type'', ''access_token''), (''service'', cr_registry a), (''access_token'', aad)] in
      case cr_new_request a url of
        Some e \<Rightarrow> (Inl (ErrWrap ''build acr exchange request: '' e []), w)
      | None \<Rightarrow>
          (case cr_do a url form w of
             (Inl e, w1) \<Rightarrow> (Inl (ErrWrap ''acr exchange request: '' e []), w1)
           | (Inr (status, body), w1) \<Rightarrow>
               (if status \<noteq> 200
                then (Inl (ErrMsg (''acr token exchange failed: status '' @ fmt_nat status)), w1)
                else case limit_reader (2 ^ 20) body of
                  Inl e \<Rightarrow> (Inl (ErrWrap ''read acr exchange response: '' e []), w1)
                | Inr raw \<Rightarrow>
                    (case cr_refresh_token a raw of
                       Inl e \<Rightarrow> (Inl (ErrWrap ''decode acr exchange response: '' e []), w1)
                     | Inr tok \<Rightarrow>
                         (if tok = [] then (Inl (ErrMsg ''acr token exchange returned empty refresh_token''), w1)
                          else (Inr tok, w1))))))"

definition acr_scope :: string where
  "acr_scope = ''https://containerregistry.azure.net/.default''"

text \<open>What is kept of a token that was exchanged against one that expires at \<open>aad_expires\<close>.\<close>

definition cache_token :: "'w acr_cred \<Rightarrow> string \<Rightarrow> gotime \<Rightarrow> cred_cache" where
  "cache_token a tok aad_expires =
     (case refresh_token_expiry (cr_exp_claim a) tok of
        Some ex1 \<Rightarrow> \<lparr>ct_token = tok, ct_expiry = (if aad_expires < ex1 then aad_expires else ex1)\<rparr>
      | None \<Rightarrow> empty_cache)"

definition cache_valid :: "cred_cache \<Rightarrow> gotime \<Rightarrow> bool" where
  "cache_valid s now \<longleftrightarrow> ct_token s \<noteq> [] \<and> now < ct_expiry s - minute"

definition authorization :: "'w acr_cred \<Rightarrow> cred_cache \<times> 'w \<Rightarrow> string res \<times> cred_cache \<times> 'w" where
  "authorization a s =
     (case s of (c, w) \<Rightarrow>
        if cache_valid c (cr_now a w) then (Inr (ct_token c), c, w)
        else case cr_get_token a [acr_scope] w of
          (Inl e, w1) \<Rightarrow> (Inl (ErrWrap ''get AAD token: '' e []), c, w1)
        | (Inr (aad, expires), w1) \<Rightarrow>
            (case acr_exchange a aad w1 of
               (Inl e, w2) \<Rightarrow> (Inl e, c, w2)
             | (Inr tok, w2) \<Rightarrow> (Inr tok, cache_token a tok expires, w2)))"

section \<open>The pusher\<close>

text \<open>
  \<open>ap_layout\<close> opens an OCI layout and gives the digests of its index, \<open>ap_image\<close> one image of it;
  \<open>ap_parse_ref\<close> is \<open>name.ParseReference\<close>; the last three send to the registry under the client's credential.
\<close>

record 'w push_client =
  ap_layout :: "string \<Rightarrow> 'w \<Rightarrow> string list res res \<times> 'w"
  ap_image :: "string \<Rightarrow> string \<Rightarrow> 'w \<Rightarrow> string res \<times> 'w"
  ap_parse_ref :: "string \<Rightarrow> goerr option"
  ap_write :: "string \<Rightarrow> string \<Rightarrow> 'w \<Rightarrow> goerr option \<times> 'w"
  ap_put :: "string \<Rightarrow> string \<Rightarrow> string \<Rightarrow> 'w \<Rightarrow> goerr option \<times> 'w"
  ap_write_layer :: "string \<Rightarrow> string \<Rightarrow> string \<Rightarrow> 'w \<Rightarrow> goerr option \<times> 'w"

text \<open>The first image of the index that can be read.\<close>

fun first_image :: "'w push_client \<Rightarrow> string \<Rightarrow> string list \<Rightarrow> 'w \<Rightarrow> string option \<times> 'w" where
  "first_image c path [] w = (None, w)"
| "first_image c path (d # ds) w =
     (case ap_image c path d w of
        (Inr img, w1) \<Rightarrow> (Some img, w1)
      | (Inl e, w1) \<Rightarrow> first_image c path ds w1)"

definition acr_push :: "'w push_client \<Rightarrow> string \<Rightarrow> string \<Rightarrow> 'w \<Rightarrow> goerr option \<times> 'w" where
  "acr_push c path target w =
     (case ap_layout c path w of
        (Inl e, w1) \<Rightarrow> (Some (ErrWrap ''read oci layout: '' e []), w1)
      | (Inr (Inl e), w1) \<Rightarrow> (Some (ErrWrap ''index manifest: '' e []), w1)
      | (Inr (Inr ds), w1) \<Rightarrow>
          (case ap_parse_ref c target of
             Some e \<Rightarrow> (Some (ErrWrap (''parse target '' @ fmt_q target @ '': '') e []), w1)
           | None \<Rightarrow>
               (case first_image c path ds w1 of
                  (None, w2) \<Rightarrow> (Some (ErrMsg (''no image in oci layout '' @ path)), w2)
                | (Some img, w2) \<Rightarrow> ap_write c target img w2)))"

definition acr_push_manifest :: "'w push_client \<Rightarrow> string \<Rightarrow> string \<Rightarrow> string \<Rightarrow> 'w \<Rightarrow> goerr option \<times> 'w" where
  "acr_push_manifest c raw media_type target w =
     (case ap_parse_ref c target of
        Some e \<Rightarrow> (Some (ErrWrap (''parse target '' @ fmt_q target @ '': '') e []), w)
      | None \<Rightarrow> ap_put c target raw
          (if media_type = [] then ''application/vnd.oci.image.manifest.v1+json'' else media_type) w)"

definition acr_push_blob :: "'w push_client \<Rightarrow> string \<Rightarrow> string \<Rightarrow> string \<Rightarrow> 'w \<Rightarrow> goerr option \<times> 'w" where
  "acr_push_blob c raw media_type repo w =
     (case ap_parse_ref c repo of
        Some e \<Rightarrow> (Some (ErrWrap (''parse repo '' @ fmt_q repo @ '': '') e []), w)
      | None \<Rightarrow> ap_write_layer c repo raw
          (if media_type = [] then ''application/vnd.oci.image.layer.v1.tar+gzip'' else media_type) w)"

definition acr_pusher :: "'w push_client \<Rightarrow> 'w pusher" where
  "acr_pusher c = \<lparr>ps_push = acr_push c, ps_push_manifest = acr_push_manifest c, ps_push_blob = acr_push_blob c\<rparr>"

text \<open>
  \<open>ambient\<close> is \<open>azidentity.NewDefaultAzureCredential\<close>, \<open>workload\<close> is
  \<open>azidentity.NewWorkloadIdentityCredential\<close>, each with the client it authenticates.
\<close>

definition pusher_with_credential :: "(string \<Rightarrow> 'w push_client res) \<Rightarrow> string \<Rightarrow> 'w pusher res" where
  "pusher_with_credential ambient registry =
     (if registry = [] then Inl (ErrMsg ''acr: registry is required'')
      else case ambient registry of
        Inl e \<Rightarrow> Inl (ErrWrap ''acr default credential: '' e [])
      | Inr c \<Rightarrow> Inr (acr_pusher c))"

definition pusher_with_client_id ::
  "(string \<Rightarrow> string \<Rightarrow> 'w push_client res) \<Rightarrow> string \<Rightarrow> string \<Rightarrow> 'w pusher res" where
  "pusher_with_client_id workload registry client_id =
     (if registry = [] then Inl (ErrMsg ''acr: registry is required'')
      else if client_id = [] then Inl (ErrMsg ''acr: client id is required'')
      else case workload registry client_id of
        Inl e \<Rightarrow> Inl (ErrWrap (''acr workload identity credential (client '' @ client_id @ ''): '') e [])
      | Inr c \<Rightarrow> Inr (acr_pusher c))"

section \<open>The recording pusher\<close>

record fake_pusher =
  fp_err :: "goerr option"
  fp_manifest_errs :: "goerr option list"
  fp_manifest_calls :: nat
  fp_pushed :: "string list"
  fp_pushed_manifest :: "string list"
  fp_pushed_blob :: "string list"

definition fake_push :: "string \<Rightarrow> string \<Rightarrow> fake_pusher \<Rightarrow> goerr option \<times> fake_pusher" where
  "fake_push path target f =
     (if fp_err f \<noteq> None then (fp_err f, f) else (None, f\<lparr>fp_pushed := fp_pushed f @ [target]\<rparr>))"

definition fake_push_manifest ::
  "string \<Rightarrow> string \<Rightarrow> string \<Rightarrow> fake_pusher \<Rightarrow> goerr option \<times> fake_pusher" where
  "fake_push_manifest raw media_type target f =
     (let f1 = f\<lparr>fp_manifest_calls := Suc (fp_manifest_calls f)\<rparr>;
          accept = (\<lambda>g. (None, g\<lparr>fp_pushed_manifest := fp_pushed_manifest g @ [target]\<rparr>)) in
      case fp_manifest_errs f1 of
        e # es \<Rightarrow>
          (let f2 = f1\<lparr>fp_manifest_errs := es\<rparr> in case e of Some er \<Rightarrow> (Some er, f2) | None \<Rightarrow> accept f2)
      | [] \<Rightarrow> (if fp_err f1 \<noteq> None then (fp_err f1, f1) else accept f1))"

definition fake_push_blob :: "string \<Rightarrow> string \<Rightarrow> string \<Rightarrow> fake_pusher \<Rightarrow> goerr option \<times> fake_pusher" where
  "fake_push_blob raw media_type repo f =
     (if fp_err f \<noteq> None then (fp_err f, f) else (None, f\<lparr>fp_pushed_blob := fp_pushed_blob f @ [repo]\<rparr>))"

section \<open>Calls of the credential\<close>

text \<open>
  Any sequence of calls, each after whatever the world did before it: the time of the call, whether
  the token was exchanged in it, and the answer.
\<close>

fun auth_calls ::
  "'w acr_cred \<Rightarrow> ('w \<Rightarrow> 'w) list \<Rightarrow> cred_cache \<times> 'w \<Rightarrow> (gotime \<times> bool \<times> string res) list" where
  "auth_calls a [] s = []"
| "auth_calls a (before # rest) (c, w) =
     (let w0 = before w; (r, s1) = authorization a (c, w0)
      in (cr_now a w0, \<not> cache_valid c (cr_now a w0), r) # auth_calls a rest s1)"

definition sound_cache :: "'w acr_cred \<Rightarrow> string list \<Rightarrow> cred_cache \<Rightarrow> bool" where
  "sound_cache a issued c \<longleftrightarrow> ct_token c = [] \<or> ct_token c \<in> set issued
     \<and> (\<exists>ex1. refresh_token_expiry (cr_exp_claim a) (ct_token c) = Some ex1 \<and> ct_expiry c \<le> ex1)"

definition call_ok :: "'w acr_cred \<Rightarrow> string list \<Rightarrow> gotime \<times> bool \<times> string res \<Rightarrow> bool" where
  "call_ok a issued k =
     (case k of (now, fresh, r) \<Rightarrow>
        fresh \<or> (\<exists>tok ex1. r = Inr tok \<and> tok \<in> set issued
          \<and> refresh_token_expiry (cr_exp_claim a) tok = Some ex1 \<and> now + minute < ex1))"

lemma cache_token_sound: "sound_cache a (tok # issued) (cache_token a tok expires)"
  by (auto simp: cache_token_def sound_cache_def empty_cache_def split: option.splits)

lemma sound_cache_more: "sound_cache a issued c \<Longrightarrow> sound_cache a (tok # issued) c"
  by (auto simp: sound_cache_def)

lemma authorization_step:
  assumes "authorization a (c, w) = (r, c', w')" and "sound_cache a issued c"
  shows "call_ok a issued (cr_now a w, \<not> cache_valid c (cr_now a w), r)
     \<and> sound_cache a (case r of Inr tok \<Rightarrow> tok # issued | Inl e \<Rightarrow> issued) c'"
proof (cases "cache_valid c (cr_now a w)")
  case True
  then show ?thesis
    using assms sound_cache_more [OF assms(2)]
    by (auto simp: authorization_def call_ok_def cache_valid_def sound_cache_def)
next
  case False
  then show ?thesis
    using assms cache_token_sound
    by (auto simp: authorization_def call_ok_def split: prod.splits sum.splits)
qed

text \<open>The tokens the calls so far returned.\<close>

fun issued_tokens :: "(gotime \<times> bool \<times> string res) list \<Rightarrow> string list" where
  "issued_tokens [] = []"
| "issued_tokens ((now, fresh, r) # ks) = (case r of Inr tok \<Rightarrow> tok # issued_tokens ks | Inl e \<Rightarrow> issued_tokens ks)"

lemma issued_append: "issued_tokens (xs @ ys) = issued_tokens xs @ issued_tokens ys"
  by (induction xs rule: issued_tokens.induct) (auto split: sum.splits)

lemma calls_ok:
  "sound_cache a issued c \<Longrightarrow> auth_calls a steps (c, w) = before @ k # after \<Longrightarrow>
   call_ok a (issued @ issued_tokens before) k"
proof (induction a steps "(c, w)" arbitrary: c w issued before rule: auth_calls.induct)
  case (2 a b rest c w)
  obtain r c1 w1 where s: "authorization a (c, b w) = (r, c1, w1)" by (metis prod.exhaust)
  note st = authorization_step [OF s 2(2)]
  let ?k = "(cr_now a (b w), \<not> cache_valid c (cr_now a (b w)), r)"
  have calls: "?k # auth_calls a rest (c1, w1) = before @ k # after" using 2(3) s by (simp add: Let_def)
  show ?case
  proof (cases before)
    case Nil
    then show ?thesis using calls st by simp
  next
    case (Cons k0 before1)
    then have tl: "auth_calls a rest (c1, w1) = before1 @ k # after" and k0: "k0 = ?k" using calls by auto
    have "call_ok a ((case r of Inr tok \<Rightarrow> tok # issued | Inl e \<Rightarrow> issued) @ issued_tokens before1) k"
      by (rule 2(1) [OF HOL.refl s [symmetric] HOL.refl _ tl]) (use st in blast)
    moreover have "set ((case r of Inr tok \<Rightarrow> tok # issued | Inl e \<Rightarrow> issued) @ issued_tokens before1)
        = set (issued @ issued_tokens before)"
      unfolding Cons k0 by (cases r) auto
    ultimately show ?thesis unfolding call_ok_def by (auto split: prod.splits)
  qed
qed simp

text \<open>
  C32: A registry credential handed out is fresh or still valid. Over any sequence of calls from a new
  client, whatever the network answers, a token that was not exchanged in the call itself was
  exchanged in an earlier one, and by its own claim it expires more than a minute after the call.
\<close>

theorem cached_token_valid:
  assumes "auth_calls a steps (empty_cache, w) = before @ (now, fresh, r) # after" and "\<not> fresh"
  shows "\<exists>tok ex1. r = Inr tok \<and> tok \<in> set (issued_tokens before)
    \<and> refresh_token_expiry (cr_exp_claim a) tok = Some ex1 \<and> now + minute < ex1"
proof -
  have "sound_cache a [] empty_cache" by (simp add: sound_cache_def empty_cache_def)
  from calls_ok [OF this assms(1)] assms(2) show ?thesis by (simp add: call_ok_def)
qed

text \<open>A registry whose tokens expire at second 1000, on a world that is a clock.\<close>

definition sample_cred :: "gotime acr_cred" where
  "sample_cred = \<lparr>cr_registry = ''r'', cr_get_token = (\<lambda>scopes w. (Inr (''aad'', time_unix 2000), w)),
     cr_exchange_url = [], cr_new_request = (\<lambda>u. None), cr_do = (\<lambda>u f w. (Inr (200, Inr []), w)),
     cr_refresh_token = (\<lambda>b. Inr ''h.QQ.s''), cr_exp_claim = (\<lambda>s. if s = ''A'' then Inr 1000 else Inr 0),
     cr_now = (\<lambda>w. w)\<rparr>"

lemma sample_expiry: "refresh_token_expiry (cr_exp_claim sample_cred) ''h.QQ.s'' = Some (time_unix 1000)"
  by code_simp

lemma sample_calls:
  "auth_calls sample_cred [(\<lambda>w. time_unix 0), (\<lambda>w. time_unix 900), (\<lambda>w. time_unix 950)] (empty_cache, 0)
   = [(time_unix 0, True, Inr ''h.QQ.s''), (time_unix 900, False, Inr ''h.QQ.s''),
      (time_unix 950, True, Inr ''h.QQ.s'')]"
proof -
  have c: "cache_token sample_cred ''h.QQ.s'' (time_unix 2000) = \<lparr>ct_token = ''h.QQ.s'', ct_expiry = time_unix 1000\<rparr>"
    unfolding cache_token_def sample_expiry by (simp add: time_unix_def second_def)
  have x: "acr_exchange sample_cred aad w = (Inr ''h.QQ.s'', w)" for aad w
    by (simp add: acr_exchange_def sample_cred_def limit_reader_def)
  have g: "cr_get_token sample_cred sc w = (Inr (''aad'', time_unix 2000), w)" "cr_now sample_cred w = w" for sc w
    by (simp_all add: sample_cred_def)
  let ?c = "\<lparr>ct_token = ''h.QQ.s'', ct_expiry = time_unix 1000\<rparr>"
  have v: "cache_valid ?c (time_unix 900)" "\<not> cache_valid ?c (time_unix 950)" "\<not> cache_valid empty_cache n" for n
    by (simp_all add: cache_valid_def time_unix_def duration_units empty_cache_def)
  show ?thesis
    by (simp add: authorization_def c x g v Let_def)
qed

theorem cached_token_valid_witness:
  "\<exists>ex1. refresh_token_expiry (cr_exp_claim sample_cred) ''h.QQ.s'' = Some ex1 \<and> time_unix 900 + minute < ex1"
proof -
  have "auth_calls sample_cred [(\<lambda>w. time_unix 0), (\<lambda>w. time_unix 900), (\<lambda>w. time_unix 950)] (empty_cache, 0)
    = [(time_unix 0, True, Inr ''h.QQ.s'')] @ (time_unix 900, False, Inr ''h.QQ.s'')
      # [(time_unix 950, True, Inr ''h.QQ.s'')]"
    unfolding sample_calls by simp
  from cached_token_valid [OF this] show ?thesis by simp
qed

text \<open>An answer other than 200 is reported by its status; its body, which may carry tokens, is not.\<close>

lemma exchange_hides_body:
  "cr_do a url form w = (Inr (status, body), w1) \<Longrightarrow> status \<noteq> 200 \<Longrightarrow> cr_exchange_url a = url \<Longrightarrow> url \<noteq> [] \<Longrightarrow>
   form = [(''grant_type'', ''access_token''), (''service'', cr_registry a), (''access_token'', aad)] \<Longrightarrow>
   cr_new_request a url = None \<Longrightarrow>
   acr_exchange a aad w = (Inl (ErrMsg (''acr token exchange failed: status '' @ fmt_nat status)), w1)"
  by (simp add: acr_exchange_def)

end
