(* ===== verification/Scan_Process.thy ===== *)
theory Scan_Process
  imports Grype_Policy Go_Parse
begin

text \<open>
  \<open>policies/grype/exec_runner.go\<close> and \<open>internal/limitexec\<close>: the scanner as a child process. With a memory
  limit Merlin starts a copy of itself that bounds its own memory and then becomes the scanner. The
  process, \<open>exec.LookPath\<close>, the system calls and the environment are parameters.
\<close>

section \<open>The trampoline\<close>

definition limit_flag :: string where
  "limit_flag = ''--limited-exec''"

definition limit_command :: "string \<Rightarrow> int64 \<Rightarrow> string \<Rightarrow> string list \<Rightarrow> string \<times> string list" where
  "limit_command self bytes binary args = (self, [limit_flag, fmt_int (sint bytes), binary] @ args)"

record limit_request =
  lq_bytes :: "64 word"
  lq_binary :: string
  lq_argv :: "string list"

text \<open>\<open>strconv.ParseUint(s, 10, 64)\<close>: digits only.\<close>

definition parse_uint64 :: "string \<Rightarrow> (64 word) option" where
  "parse_uint64 s =
     (case parse_nat s of None \<Rightarrow> None | Some n \<Rightarrow> (if n < 2 ^ 64 then Some (of_nat n) else None))"

definition parse_request :: "(string \<Rightarrow> string res) \<Rightarrow> string list \<Rightarrow> limit_request res" where
  "parse_request look_path args =
     (case args of
        sz # bin # rest \<Rightarrow>
          (case parse_uint64 sz of
             None \<Rightarrow> Inl (ErrWrap (''parse memory limit '' @ fmt_q sz @ '': '')
                       (ErrMsg (''strconv.ParseUint: parsing '' @ fmt_q sz)) [])
           | Some n \<Rightarrow>
               (if n = 0 then Inl (ErrMsg (''memory limit must be > 0, got '' @ fmt_q sz))
                else if bin = [] then Inl (ErrMsg ''empty binary path'')
                else case look_path bin of
                  Inl e \<Rightarrow> Inl (ErrWrap (''locate '' @ fmt_q bin @ '': '') e [])
                | Inr p \<Rightarrow> Inr \<lparr>lq_bytes = n, lq_binary = p, lq_argv = p # rest\<rparr>))
      | _ \<Rightarrow> Inl (ErrMsg (''usage: merlin '' @ limit_flag @ '' <bytes> <binary> [args...]'')))"

definition address_space_factor :: "64 word" where
  "address_space_factor = 4"

definition address_space_limit :: "64 word \<Rightarrow> 64 word" where
  "address_space_limit budget =
     (if (- 1) div address_space_factor < budget then - 1 else budget * address_space_factor)"

definition go_mem_limit :: string where
  "go_mem_limit = ''GOMEMLIMIT=''"

definition with_go_mem_limit :: "string list \<Rightarrow> 64 word \<Rightarrow> string list" where
  "with_go_mem_limit env bytes =
     filter (\<lambda>kv. \<not> has_prefix kv go_mem_limit) env @ [go_mem_limit @ fmt_nat (unat bytes)]"

text \<open>What the trampoline does: the address space it allows itself, and the program it becomes.\<close>

record exec_call =
  ex_limit :: "64 word"
  ex_binary :: string
  ex_argv :: "string list"
  ex_env :: "string list"

definition limit_main ::
  "(string \<Rightarrow> string res) \<Rightarrow> string list \<Rightarrow> (64 word \<Rightarrow> goerr option) \<Rightarrow> (exec_call \<Rightarrow> goerr option)
   \<Rightarrow> string list \<Rightarrow> exec_call res" where
  "limit_main look_path environ setrlimit exec args =
     (case parse_request look_path args of
        Inl e \<Rightarrow> Inl e
      | Inr req \<Rightarrow>
          (let lim = address_space_limit (lq_bytes req) in
           case setrlimit lim of
             Some e \<Rightarrow> Inl (ErrWrap (''setrlimit RLIMIT_AS='' @ fmt_nat (unat lim) @ '' (budget ''
                         @ fmt_nat (unat (lq_bytes req)) @ ''): '') e [])
           | None \<Rightarrow>
               (let call = \<lparr>ex_limit = lim, ex_binary = lq_binary req, ex_argv = lq_argv req,
                            ex_env = with_go_mem_limit environ (lq_bytes req)\<rparr> in
                case exec call of
                  Some e \<Rightarrow> Inl (ErrWrap (''exec '' @ lq_binary req @ '': '') e [])
                | None \<Rightarrow> Inr call)))"

section \<open>The runner\<close>

record exec_runner =
  er_binary :: string
  er_mem_limit :: int64
  er_self :: string
  er_self_err :: "goerr option"

definition err_self_path :: goerr where
  "err_self_path = ErrMsg ''cannot resolve merlin's own executable path''"

text \<open>\<open>executable\<close> is \<open>os.Executable\<close>.\<close>

definition with_memory_limit :: "string res \<Rightarrow> int64 \<Rightarrow> exec_runner \<Rightarrow> exec_runner" where
  "with_memory_limit executable bytes e =
     (if sint bytes \<le> 0 then e
      else case executable of
        Inr self \<Rightarrow> e\<lparr>er_mem_limit := bytes, er_self := self\<rparr>
      | Inl err \<Rightarrow> e\<lparr>er_mem_limit := bytes, er_self_err := Some (ErrWrap [] err_self_path ('': '' @ err_text err))\<rparr>)"

definition new_exec_runner :: "string \<Rightarrow> (exec_runner \<Rightarrow> exec_runner) list \<Rightarrow> exec_runner" where
  "new_exec_runner binary opts =
     fold (\<lambda>opt e. opt e) opts \<lparr>er_binary = binary, er_mem_limit = 0, er_self = [], er_self_err = None\<rparr>"

definition truncate_text :: "string \<Rightarrow> nat \<Rightarrow> string" where
  "truncate_text s n =
     (let t = trim_space s in if length t \<le> n then t else take n t @ [CHR 0xE2, CHR 0x80, CHR 0xA6])"

text \<open>The command of a scan; the arguments are those of an unbounded one.\<close>

definition scan_args :: "string \<Rightarrow> string list" where
  "scan_args oci_path = [oci_path, ''-o'', ''json'', ''-q'', ''--by-cve'']"

definition scan_command :: "exec_runner \<Rightarrow> string \<Rightarrow> (string \<times> string list) res" where
  "scan_command e oci_path =
     (if 0 < sint (er_mem_limit e)
      then case er_self_err e of
        Some err \<Rightarrow> Inl (ErrWrap ''run grype: memory-bounded exec unavailable: '' err [])
      | None \<Rightarrow> Inr (limit_command (er_self e) (er_mem_limit e) (er_binary e) (scan_args oci_path))
      else Inr (er_binary e, scan_args oci_path))"

text \<open>A process ends with its output, or with an error and, for an exit status, what it wrote to stderr.\<close>

datatype process_end = Output string | Failure goerr "string option"

definition exec_scan ::
  "(string \<Rightarrow> string list \<Rightarrow> 'w \<Rightarrow> process_end \<times> 'w) \<Rightarrow> (string \<Rightarrow> report res) \<Rightarrow> exec_runner \<Rightarrow> string
   \<Rightarrow> 'w \<Rightarrow> report res \<times> 'w" where
  "exec_scan run parse e oci_path w =
     (case scan_command e oci_path of
        Inl err \<Rightarrow> (Inl err, w)
      | Inr (name, args) \<Rightarrow>
          (case run name args w of
             (Output out, w1) \<Rightarrow> (parse out, w1)
           | (Failure err stderr, w1) \<Rightarrow>
               (Inl (case stderr of
                       Some (c # cs) \<Rightarrow> ErrWrap ''run grype: '' err ('': '' @ truncate_text (c # cs) 512)
                     | _ \<Rightarrow> ErrWrap ''run grype: '' err []), w1)))"

section \<open>Facts\<close>

lemma parse_fmt_uint64 [simp]: "parse_uint64 (fmt_nat (unat (n :: 64 word))) = Some n"
proof -
  have "unat n < 2 ^ 64" using unsigned_less [of n] by simp
  then show ?thesis by (simp add: parse_uint64_def)
qed

lemma positive_int64:
  assumes "0 < sint (n :: int64)" shows "sint n = int (unat n)"
proof -
  have "sint n < 2 ^ 63" using sint_lt [of n] by simp
  with assms have "uint n = sint n" by (simp add: uint_sint take_bit_eq_mod)
  then show ?thesis by simp
qed

lemma positive_int64_text: "0 < sint (n :: int64) \<Longrightarrow> fmt_int (sint n) = fmt_nat (unat n)"
  using positive_int64 [of n] by (simp add: fmt_int_def nat_eq_iff2)

lemma address_space_limit_value:
  "uint (address_space_limit b) = min (4 * uint b) (2 ^ 64 - 1)"
proof (cases "(- 1) div 4 < b")
  case True
  then have "2 ^ 62 \<le> uint b" by (simp add: word_less_def uint_div)
  with True show ?thesis
    by (simp add: address_space_limit_def address_space_factor_def min_def unsigned_minus_1_eq_mask mask_eq_exp_minus_1)
next
  case False
  then have "uint b < 2 ^ 62" by (simp add: word_less_def uint_div)
  with False show ?thesis
    by (simp add: address_space_limit_def address_space_factor_def uint_word_ariths min_def)
qed

lemma go_mem_limit_once:
  "filter (\<lambda>kv. has_prefix kv go_mem_limit) (with_go_mem_limit env b) = [go_mem_limit @ fmt_nat (unat b)]"
  "filter (\<lambda>kv. \<not> has_prefix kv go_mem_limit) (with_go_mem_limit env b)
     = filter (\<lambda>kv. \<not> has_prefix kv go_mem_limit) env"
  by (simp_all add: with_go_mem_limit_def)

text \<open>
  A memory limit changes how much a scan may use and nothing else. With a positive limit the
  process started is the trampoline, never the scanner itself, and it becomes the program an
  unbounded scan would run, found on the same path, with the same arguments; its Go runtime is told
  exactly the limit, whatever the environment said, the other variables are kept, and the address
  space is four times the limit or everything, never less than the limit.
\<close>

theorem limit_preserves_command:
  assumes "0 < sint limit"
    and "bin \<noteq> []" and "look_path bin = Inr program"
    and "setrlimit (address_space_limit limit) = None" and "\<And>call. exec call = None"
  shows "\<exists>flag rest call.
     scan_command (new_exec_runner bin [with_memory_limit (Inr self) limit]) path = Inr (self, flag # rest)
     \<and> flag = limit_flag
     \<and> scan_command (new_exec_runner bin []) path = Inr (bin, tl (ex_argv call))
     \<and> limit_main look_path environ setrlimit exec rest = Inr call
     \<and> ex_binary call = program \<and> hd (ex_argv call) = program
     \<and> filter (\<lambda>kv. has_prefix kv go_mem_limit) (ex_env call) = [go_mem_limit @ fmt_nat (unat limit)]
     \<and> filter (\<lambda>kv. \<not> has_prefix kv go_mem_limit) (ex_env call)
         = filter (\<lambda>kv. \<not> has_prefix kv go_mem_limit) environ
     \<and> uint (ex_limit call) = min (4 * uint limit) (2 ^ 64 - 1)"
proof -
  have "limit \<noteq> 0" using assms(1) by auto
  then show ?thesis
    using assms
    by (simp add: scan_command_def new_exec_runner_def with_memory_limit_def limit_command_def
        positive_int64_text limit_main_def parse_request_def Let_def go_mem_limit_once address_space_limit_value)
qed

theorem limit_preserves_command_witness:
  "\<exists>rest call. scan_command (new_exec_runner ''grype'' [with_memory_limit (Inr ''/merlin'') 2147483648]) ''/scratch/oci''
       = Inr (''/merlin'', limit_flag # rest)
     \<and> limit_main (\<lambda>b. Inr (''/usr/bin/'' @ b)) [''GOMEMLIMIT=1'', ''HOME=/root''] (\<lambda>n. None) (\<lambda>c. None) rest = Inr call
     \<and> ex_binary call = ''/usr/bin/grype'' \<and> uint (ex_limit call) = 8589934592"
proof -
  have "0 < sint (2147483648 :: int64)" by simp
  from limit_preserves_command [OF this, of "''grype''" "\<lambda>b. Inr (''/usr/bin/'' @ b)" "''/usr/bin/grype''"
      "\<lambda>n. None" "\<lambda>c. None" "''/merlin''" "''/scratch/oci''" "[''GOMEMLIMIT=1'', ''HOME=/root'']"]
  show ?thesis by auto
qed

text \<open>Where Merlin cannot find its own program, a bounded scan fails; it does not run unbounded.\<close>

lemma no_self_no_scan:
  "0 < sint limit \<Longrightarrow> \<exists>e1. exec_scan run parse (new_exec_runner bin [with_memory_limit (Inl e) limit]) path w = (Inl e1, w)"
  by (simp add: exec_scan_def scan_command_def new_exec_runner_def with_memory_limit_def)

end
