(* ===== verification/App_Modes.thy ===== *)
theory App_Modes
  imports App_Lifecycle App_Wiring_Laws Docker_Server Scan_Process
begin

text \<open>
  \<open>cmd/merlin/main.go\<close> and \<open>Build\<close> of \<open>internal/app/app.go\<close>: what the process does with its arguments
  and its mode, and the hermetic build, which opens nothing and admits nobody. The handler of that
  build has no store; a store that is never asked stands for it.
\<close>

section \<open>The hermetic build\<close>

text \<open>The stub key function fails, and so does every parse that asks it.\<close>

definition stub_keys :: "jwt_lib \<Rightarrow> jwt_lib" where
  "stub_keys lib = lib\<lparr>jw_parse_sub := (\<lambda>tok opts now. Inl (ErrMsg ''net/http: abort Handler''))\<rparr>"

record 'w hermetic_env =
  he_jwt :: jwt_lib
  he_anonymous :: "string \<Rightarrow> 'w pod pusher"
  he_no_store :: "'w staging"

definition hermetic_registry :: "config \<Rightarrow> string" where
  "hermetic_registry c =
     (if ac_registry_template (cf_acr c) \<noteq> []
      then replace_all ''{prefix}'' ''test'' (ac_registry_template (cf_acr c)) else ''testacr.azurecr.io'')"

definition hermetic_tenant :: "('w, 'x) live_env \<Rightarrow> 'w hermetic_env \<Rightarrow> config \<Rightarrow> 'w pod tenant" where
  "hermetic_tenant env he c =
     \<lparr>tn_prefix = ''test'', tn_registry = hermetic_registry c,
      tn_pusher = he_anonymous he (hermetic_registry c),
      tn_authn = (\<lambda>tok p. (jwt_validate (stub_keys (he_jwt he))
        (new_jwt_authenticator ''https://issuer'' ''api://merlin'') (le_clock env p) tok, p))\<rparr>"

definition build_hermetic :: "('w, 'x) live_env \<Rightarrow> 'w hermetic_env \<Rightarrow> config \<Rightarrow> ('w, 'x) servers res" where
  "build_hermetic env he c =
     (case build_policy_engine (le_round env) (le_scan env) c
             \<lparr>pd_db_age = Some (le_db_age env), pd_scan_cache = None, pd_cache_obs = Some (le_cache_obs env)\<rparr> of
        Inl e \<Rightarrow> Inl e
      | Inr engine \<Rightarrow>
          (let base_domain = (if ac_base_domain (cf_acr c) = [] then ''test.local'' else ac_base_domain (cf_acr c));
               resolver = new_static_resolver base_domain [''test'' \<mapsto> hermetic_tenant env he c] in
           case new_handler (le_runtime env) (le_slots env)
                 \<lparr>hc_resolver = Some (for_host resolver), hc_router = engine,
                  hc_outcome = Some (build_outcome (le_rand env) (le_clock env) None None (Some (le_metrics env)) None),
                  hc_store = he_no_store he, hc_reports = None, hc_requests = Some (le_requests env),
                  hc_promoter = None, hc_max_pending = 0, hc_max_upload_bytes = 0, hc_upload_concurrency = 0,
                  hc_upload_wait = 0, hc_pool = None, hc_gate_timeout = 0, hc_scratch_base_dir = [],
                  hc_registry_issuer = None, hc_token_realm = [], hc_service = [], hc_token_handler = None\<rparr> of
             Inl e \<Rightarrow> Inl e
           | Inr gate \<Rightarrow> Inr (build_servers c gate None (\<lambda>p. p))))"

section \<open>The process\<close>

definition builder ::
  "('w, 'x) live_env \<Rightarrow> 'w hermetic_env \<Rightarrow> string \<Rightarrow> config \<Rightarrow> 'x process \<Rightarrow> ('w, 'x) servers res \<times> 'x process" where
  "builder env he mode c p =
     (if mode = ''production''
      then case build_with_backends env c p of
        (Inl e, p1) \<Rightarrow> (Inl (ErrWrap ''build production: '' e []), p1)
      | (Inr s, p1) \<Rightarrow> (Inr s, p1)
      else case build_hermetic env he c of
        Inl e \<Rightarrow> (Inl (ErrWrap ''build hermetic: '' e []), p)
      | Inr s \<Rightarrow> (Inr s, p))"

text \<open>
  How the process ends: with status 0, with a fatal message, or by becoming the program of a bounded
  scan. \<open>load\<close> is \<open>config.Load\<close> on the host's files and environment, \<open>trampoline\<close> is \<open>limitexec.Main\<close>.
\<close>

datatype process_exit = Success | Fatal string | Became exec_call

definition merlin_main ::
  "(string list \<Rightarrow> exec_call res) \<Rightarrow> (string \<Rightarrow> config res) \<Rightarrow> ('x \<Rightarrow> goerr option \<times> 'x) \<Rightarrow> ('w, 'x) live_env
   \<Rightarrow> 'w hermetic_env \<Rightarrow> (string \<Rightarrow> string) \<Rightarrow> string list \<Rightarrow> 'x process \<Rightarrow> process_exit \<times> 'x process" where
  "merlin_main trampoline load_config wait env he getenv args p =
     (if 1 < length args \<and> args ! 1 = limit_flag
      then (case trampoline (drop 2 args) of
              Inl e \<Rightarrow> (Fatal (''limited-exec: '' @ err_text e), p)
            | Inr call \<Rightarrow> (Became call, p))
      else case load_config (if getenv ''MERLIN_CONFIG'' = [] then ''config.yaml'' else getenv ''MERLIN_CONFIG'') of
        Inl e \<Rightarrow> (Fatal (''config: '' @ err_text e), p)
      | Inr c \<Rightarrow>
          (case run_app (le_round env) wait (builder env he (getenv ''MERLIN_MODE'')) c p of
             (None, p1) \<Rightarrow> (Success, p1)
           | (Some e, p1) \<Rightarrow> (Fatal (err_text e), p1)))"

section \<open>Failing closed\<close>

lemma stub_keys_reject:
  "\<exists>e. jwt_validate (stub_keys lib) a now tok = Inl e"
  by (simp add: jwt_validate_def stub_keys_def)

text \<open>A handler whose tenants reject every token and that serves no tokens.\<close>

lemma closed_handler:
  assumes "h_reg_issuer h = None" and "h_token_handler h = None"
    and closed: "\<And>host t. h_resolver h host = Inr t \<Longrightarrow> \<forall>tok p. \<exists>e. tn_authn t tok p = (Inl e, p)"
  shows "\<exists>resp. mux_serve h rq p = Some (Reply resp, p) \<and> rs_status resp \<in> {301, 401, 404}"
proof (cases "h_resolver h (rq_host rq)")
  case (Inl e)
  then show ?thesis
    using assms(2) by (auto simp: mux_serve_def route_def handle_report_def Let_def redirect_to_def http_not_found_def)
next
  case (Inr t)
  obtain e where "tn_authn t (bearer_of rq) p = (Inl e, p)" using closed [OF Inr] by blast
  then show ?thesis
    using assms(1,2) Inr
    by (auto simp: mux_serve_def route_def handle_report_def authenticate_def Let_def redirect_to_def http_not_found_def)
qed

text \<open>
  C14: A misspelt mode admits nobody. In every mode but \<open>production\<close> the build opens nothing and starts
  nothing, and the gate it serves answers every request with 301, 401 or 404 and changes nothing but
  the request counter - for every configuration, and whatever the token, the registry client, the
  store and the scanner would do.
\<close>

theorem misspelt_mode_admits_nobody:
  assumes "mode \<noteq> ''production''" and "builder env he mode c p = (Inr s, p')"
  shows "p' = p \<and> sr_close s q = q \<and> sr_dashboard s = None
    \<and> (\<exists>resp. rs_status resp \<in> {301, 401, 404}
         \<and> serve_http (sr_gate s) rq pod = Some (Reply resp,
              le_requests env (rq_method rq) (route_class (rq_path rq)) (fmt_nat (rs_status resp)) pod))"
proof -
  have s: "build_hermetic env he c = Inr s" and p: "p' = p"
    using assms by (auto simp: builder_def split: sum.splits)
  obtain gate base where b: "s = build_servers c gate None (\<lambda>p. p)" "h_reg_issuer gate = None"
      "h_token_handler gate = None" "h_requests gate = Some (le_requests env)"
      "h_resolver gate = for_host (new_static_resolver base [''test'' \<mapsto> hermetic_tenant env he c])"
    using s by (auto simp: build_hermetic_def new_handler_def Let_def split: sum.splits)
  have closed: "\<forall>tok p. \<exists>e. tn_authn t tok p = (Inl e, p)" if "h_resolver gate host = Inr t" for host t
  proof -
    have "t = hermetic_tenant env he c"
      using that unfolding b(5) by (auto simp: for_host_iff split: if_splits)
    then show ?thesis using stub_keys_reject by (simp add: hermetic_tenant_def)
  qed
  have "\<exists>resp. mux_serve gate rq pod = Some (Reply resp, pod) \<and> rs_status resp \<in> {301, 401, 404}"
    by (rule closed_handler [OF b(2,3)]) (rule closed)
  then show ?thesis
    by (auto simp: p b(1,4) serve_http_def build_servers_def)
qed

lemma sample_hermetic:
  "\<exists>s. builder env he ''prod'' (apply_defaults sample_config) p = (Inr s, p)"
proof -
  have "\<not> isl (parse_byte_size ''2Gi'')" by code_simp
  then have "\<exists>n. memory_limit_bytes (cf_grype (apply_defaults sample_config)) = Inr n"
    by (cases "parse_byte_size ''2Gi''") (simp_all add: memory_limit_bytes_def apply_defaults_def sample_config_def)
  then show ?thesis
    by (auto simp: builder_def build_hermetic_def build_policy_engine_def grype_runner_def new_handler_def Let_def
        split: prod.split)
qed

theorem misspelt_mode_admits_nobody_witness:
  "\<forall>(env :: (unit, unit) live_env) he p rq pod. \<exists>s resp.
     builder env he ''prod'' (apply_defaults sample_config) p = (Inr s, p)
     \<and> rs_status resp \<in> {301, 401, 404}
     \<and> serve_http (sr_gate s) rq pod = Some (Reply resp,
          le_requests env (rq_method rq) (route_class (rq_path rq)) (fmt_nat (rs_status resp)) pod)"
proof (intro allI)
  fix env :: "(unit, unit) live_env" and he p rq pod
  obtain s where s: "builder env he ''prod'' (apply_defaults sample_config) p = (Inr s, p)"
    using sample_hermetic by blast
  show "\<exists>s resp. builder env he ''prod'' (apply_defaults sample_config) p = (Inr s, p)
     \<and> rs_status resp \<in> {301, 401, 404}
     \<and> serve_http (sr_gate s) rq pod = Some (Reply resp,
          le_requests env (rq_method rq) (route_class (rq_path rq)) (fmt_nat (rs_status resp)) pod)"
    using misspelt_mode_admits_nobody [OF _ s] s by fastforce
qed

end
