(* ===== verification/Promote_Wiring.thy ===== *)
theory Promote_Wiring
  imports App_Wiring Docker_Push_Safety Promote_Worker Staging_Sweep
begin

text \<open>
  \<open>internal/app/components.go\<close>, the background of the gate: how the promotion worker is wired to the
  staging store, the tenants and the audit trail (\<open>startPromoteWorker\<close>), and the loop that samples
  levels and sweeps scratch (\<open>startSamplers\<close>). The random name of a directory, the clock, the queue,
  what the kernel lists and the timers are parameters; the sampler's loop takes its length as fuel.
\<close>

section \<open>The worker's collaborators\<close>

definition job_manifest_ref :: "job \<Rightarrow> bytes \<Rightarrow> manifest_ref" where
  "job_manifest_ref j manifest =
     \<lparr>mr_repo = jb_repo j, mr_ref = jb_ref j, mr_manifest = manifest, mr_config_digest = jb_config_dig j,
      mr_layer_digests = jb_layers j\<rparr>"

definition promote_localize ::
  "'w staging \<Rightarrow> codecs \<Rightarrow> ('w \<Rightarrow> string \<times> 'w) \<Rightarrow> string \<Rightarrow> job \<Rightarrow> 'w pod \<Rightarrow> (string \<times> string) res \<times> 'w pod" where
  "promote_localize s cd rand_name base j p =
     (case p of (w, fs) \<Rightarrow>
      case rand_name w of (rnd, w1) \<Rightarrow>
        (case os_mkdir_temp base ''merlin-promote-'' rnd fs of
           (Inl e, fs1) \<Rightarrow> (Inl (ErrWrap ''create promote scratch dir: '' e []), (w1, fs1))
         | (Inr dir, fs1) \<Rightarrow>
             (case assemble s cd (job_manifest_ref j (jb_manifest j)) dir (w1, fs1) of
                (Inl e, (w2, fs2)) \<Rightarrow>
                  (Inl (ErrWrap (''re-assemble '' @ jb_target j @ '': '') e []), (w2, snd (os_remove_all dir fs2)))
              | (Inr img, p2) \<Rightarrow> (Inr (si_oci_path img, dir), p2))))"

definition promote_cleanup :: "'w staging \<Rightarrow> job \<Rightarrow> 'w pod \<Rightarrow> goerr option \<times> 'w pod" where
  "promote_cleanup s j p = cleanup s (job_manifest_ref j []) (jb_scratch_dir j) p"

text \<open>What the worker needs of the process: the metrics, the clock, the context and its sleep.\<close>

record 'w background =
  bg_codecs :: codecs
  bg_rand_name :: "'w \<Rightarrow> string \<times> 'w"
  bg_metrics :: "'w pod promote_metrics"
  bg_clock :: "'w pod \<Rightarrow> gotime"
  bg_ctx_done :: "'w pod \<Rightarrow> bool"
  bg_sleep :: "duration \<Rightarrow> 'w pod \<Rightarrow> bool \<times> 'w pod"

definition promote_worker ::
  "'w background \<Rightarrow> config \<Rightarrow> 'w pod promote_queue \<Rightarrow> 'w staging \<Rightarrow> (string \<Rightarrow> 'w pod tenant option)
   \<Rightarrow> 'w pod recorder option \<Rightarrow> 'w pod worker" where
  "promote_worker bg c queue s tenants recorder =
     \<lparr>wk_queue = queue, wk_pushers = (\<lambda>pfx p. (worker_pusher tenants pfx, p)),
      wk_recorder = Some (finalize_promotion recorder),
      wk_localize = Some (promote_localize s (bg_codecs bg) (bg_rand_name bg) (staging_config.sg_scratch_dir (cf_staging c))),
      wk_stat_ok = (\<lambda>path p. os_stat_ok path (snd p)),
      wk_cleanup = Some (promote_cleanup s), wk_metrics = Some (bg_metrics bg), wk_max_attempts = 0,
      wk_poll_interval = 0, wk_recover_after = 0, wk_clock = bg_clock bg, wk_ctx_done = bg_ctx_done bg,
      wk_sleep = bg_sleep bg\<rparr>"

section \<open>The samplers\<close>

definition promote_sample_interval :: duration where
  "promote_sample_interval = 15 * second"

definition scratch_sweep_interval :: duration where
  "scratch_sweep_interval = hour"

record 'w sampler =
  sm_depth :: "'w pod \<Rightarrow> int res \<times> 'w pod"
  sm_set_pending :: "int \<Rightarrow> 'w pod \<Rightarrow> 'w pod"
  sm_set_scratch :: "int64 \<Rightarrow> 'w pod \<Rightarrow> 'w pod"
  sm_clock :: "'w pod \<Rightarrow> gotime"
  sm_read_dir :: "'w pod \<Rightarrow> string \<Rightarrow> read_dir"
  sm_walk :: "'w pod \<Rightarrow> string \<Rightarrow> walk_step list"
  sm_tick :: "'w pod \<Rightarrow> bool \<times> 'w pod"

text \<open>One round: the next time a sweep is due.\<close>

definition sample_round :: "'w sampler \<Rightarrow> string \<Rightarrow> gotime \<Rightarrow> 'w pod \<Rightarrow> gotime \<times> 'w pod" where
  "sample_round sm base sweep_at p =
     (let p1 = (case sm_depth sm p of (Inl e, q) \<Rightarrow> q | (Inr depth, q) \<Rightarrow> sm_set_pending sm depth q);
          p2 = (case scratch_bytes (sm_walk sm p1) base (sm_read_dir sm p1) of
                  Inl e \<Rightarrow> p1 | Inr n \<Rightarrow> sm_set_scratch sm n p1)
      in if sm_clock sm p2 < sweep_at then (sweep_at, p2)
         else (sm_clock sm p2 + scratch_sweep_interval,
               case p2 of (w, fs) \<Rightarrow>
                 (w, snd (sweep_scratch base default_scratch_max_age (sm_clock sm p2) (sm_read_dir sm p2) fs))))"

fun sampler_rounds :: "nat \<Rightarrow> 'w sampler \<Rightarrow> string \<Rightarrow> gotime \<Rightarrow> 'w pod \<Rightarrow> 'w pod" where
  "sampler_rounds 0 sm base sweep_at p = p"
| "sampler_rounds (Suc n) sm base sweep_at p =
     (case sample_round sm base sweep_at p of
        (next, p1) \<Rightarrow>
          (case sm_tick sm p1 of
             (True, p2) \<Rightarrow> sampler_rounds n sm base next p2
           | (False, p2) \<Rightarrow> p2))"

definition start_samplers :: "nat \<Rightarrow> 'w sampler \<Rightarrow> config \<Rightarrow> 'w pod \<Rightarrow> 'w pod" where
  "start_samplers n sm c p =
     sampler_rounds n sm (staging_config.sg_scratch_dir (cf_staging c)) (sm_clock sm p + scratch_sweep_interval) p"

section \<open>A rebuilt image\<close>

text \<open>The faults of the disk are not the program's: no operation changes them.\<close>

definition same_faults :: "fs \<Rightarrow> fs \<Rightarrow> bool" where
  "same_faults fs fs' \<longleftrightarrow> fs_open_fault fs' = fs_open_fault fs"

lemma same_faults_refl [simp]: "same_faults fs fs"
  by (simp add: same_faults_def)

lemma same_faults_trans: "same_faults a b \<Longrightarrow> same_faults b c \<Longrightarrow> same_faults a c"
  by (simp add: same_faults_def)

lemma os_same_faults:
  "os_mkdir_all p fs = (r, fs') \<Longrightarrow> same_faults fs fs'"
  "os_create p fs = (r, fs') \<Longrightarrow> same_faults fs fs'"
  "os_write p b fs = (r, fs') \<Longrightarrow> same_faults fs fs'"
  "os_remove_all p fs = (r, fs') \<Longrightarrow> same_faults fs fs'"
  by (auto simp: same_faults_def os_mkdir_all_def os_create_def os_write_def os_remove_all_def fs_set_def Let_def
      split: option.splits if_splits)

lemma write_file_faults: "os_write_file p b fs = (r, fs') \<Longrightarrow> same_faults fs fs'"
  by (auto simp: os_write_file_def split: prod.splits option.splits intro: same_faults_trans dest: os_same_faults)

lemma write_oci_faults:
  "write_oci_blob oci d raw fs = (r, fs') \<Longrightarrow> same_faults fs fs'"
  "write_oci_layout cd oci d n ref mt fs = (r, fs') \<Longrightarrow> same_faults fs fs'"
  by (auto simp: write_oci_blob_def write_oci_layout_def Let_def split: prod.splits option.splits sum.splits
      intro: same_faults_trans dest!: os_same_faults(1) write_file_faults)

lemma extract_file_faults: "extract_file target te fs = (r, fs') \<Longrightarrow> same_faults fs fs'"
  by (auto simp: extract_file_def split: prod.splits option.splits intro: same_faults_trans dest!: os_same_faults)

lemma extract_entry_faults: "extract_entry dest te fs = (r, fs') \<Longrightarrow> same_faults fs fs'"
  by (auto simp: extract_entry_def Let_def split: if_splits tar_kind.splits dest: extract_file_faults os_same_faults)

lemma extract_entries_faults: "extract_entries dest tes end_err fs = (r, fs') \<Longrightarrow> same_faults fs fs'"
  by (induction tes arbitrary: fs)
    (auto split: prod.splits option.splits intro: same_faults_trans dest!: extract_entry_faults)

lemma stage_config_faults: "stage_config s cd oci d (w, fs) = (r, (w', fs')) \<Longrightarrow> same_faults fs fs'"
  by (auto simp: stage_config_def split: if_splits prod.splits sum.splits option.splits dest: write_oci_faults)

lemma stage_layer_faults: "stage_layer s cd oci rootfs d (w, fs) = (r, (w', fs')) \<Longrightarrow> same_faults fs fs'"
  by (auto simp: stage_layer_def extract_tar_def split: prod.splits sum.splits option.splits
      intro: same_faults_trans dest!: write_oci_faults extract_entries_faults)

lemma stage_layers_faults: "stage_layers s cd oci rootfs ds (w, fs) = (r, (w', fs')) \<Longrightarrow> same_faults fs fs'"
  by (induction ds arbitrary: w fs)
    (auto split: prod.splits option.splits intro: same_faults_trans dest!: stage_layer_faults)

lemma mkdirs_faults: "mkdirs ds fs = (r, fs') \<Longrightarrow> same_faults fs fs'"
  by (induction ds arbitrary: fs) (auto split: prod.splits option.splits intro: same_faults_trans dest!: os_same_faults(1))

lemma assemble_faults: "assemble s cd mr scratch (w, fs) = (r, (w', fs')) \<Longrightarrow> same_faults fs fs'"
  by (auto simp: assemble_def Let_def split: prod.splits sum.splits option.splits simp del: mkdirs.simps
      dest!: mkdirs_faults stage_config_faults stage_layers_faults write_oci_faults)
    (simp_all add: same_faults_def)

text \<open>A directory \<open>MkdirTemp\<close> made can be removed: its name is no dot and the disk did not refuse it.\<close>

lemma mkdir_temp_made:
  assumes "os_mkdir_temp base pfx rnd fs = (Inr dir, fs')" and "pfx \<noteq> []"
    and "last (pfx @ rnd) \<noteq> CHR ''.''"
  shows "dir \<noteq> [] \<and> fs_lookup fs (loc_of dir) = None \<and> fs_open_fault fs' dir = None \<and> dir \<noteq> ''.''
    \<and> \<not> has_suffix dir ''/.'' \<and> confined (loc_of dir) fs fs'"
proof -
  let ?root = "if base = [] then ''/tmp'' else base"
  have d: "dir = (if has_suffix ?root ''/'' then ?root else ?root @ ''/'') @ pfx @ rnd"
    and rest: "fs_open_fault fs dir = None" "fs_lookup fs (loc_of dir) = None" "fs' = fs_set (loc_of dir) FDir fs"
    using assms(1) by (auto simp: os_mkdir_temp_def Let_def split: option.splits if_splits)
  have "last dir \<noteq> CHR ''.''" using assms(2,3) by (simp add: d)
  then have "dir \<noteq> ''.''" "\<not> has_suffix dir ''/.''"
    by (auto simp: has_suffix_iff)
  then show ?thesis using rest assms(2) confined_set [of "loc_of dir" "loc_of dir" fs FDir]
    by (simp add: fs_set_def d)
qed

lemma promote_localize_cases:
  assumes "promote_localize s cd rand_name base j (w, fs) = (r, (w', fs'))"
    and "\<And>v. last (CHR ''-'' # fst (rand_name v)) \<noteq> CHR ''.''" and "hex_hash (st_sha s)"
  obtains "fs' = fs" "\<exists>e. r = Inl e"
  | dir e fs1 where "r = Inl e" "fs_lookup fs (loc_of dir) = None" "confined (loc_of dir) fs fs1"
      "fs' = fs1\<lparr>fs_nodes := (\<lambda>l. if above (loc_of dir) l then None else fs_nodes fs1 l)\<rparr>"
  | dir img w1 w2 fs1 where "r = Inr (si_oci_path img, dir)" "confined (loc_of dir) fs fs1" "dir \<noteq> []"
      "fs_lookup fs (loc_of dir) = None"
      "assemble s cd (job_manifest_ref j (jb_manifest j)) dir (w1, fs1) = (Inr img, (w2, fs'))"
proof -
  obtain rnd w1 where n: "rand_name w = (rnd, w1)" by (rule prod.exhaust)
  have dot: "last (''merlin-promote-'' @ rnd) \<noteq> CHR ''.''"
    using assms(2) [of w] by (simp add: n split: if_splits)
  obtain t fs1 where t: "os_mkdir_temp base ''merlin-promote-'' rnd fs = (t, fs1)" by (rule prod.exhaust)
  show thesis
  proof (cases t)
    case (Inl e)
    then have "fs1 = fs" using t by (auto simp: os_mkdir_temp_def Let_def split: option.splits if_splits)
    with Inl show thesis using that(1) assms(1) by (auto simp: promote_localize_def n t)
  next
    case (Inr dir)
    note made = mkdir_temp_made [OF t [unfolded Inr] _ dot]
    obtain a w2 fs2 where a: "assemble s cd (job_manifest_ref j (jb_manifest j)) dir (w1, fs1) = (a, (w2, fs2))"
      by (metis prod.exhaust)
    show thesis
    proof (cases a)
      case la: (Inl e)
      have "fs_open_fault fs2 dir = None" using assemble_faults [OF a] made by (simp add: same_faults_def)
      then have "os_remove_all dir fs2
          = (None, fs2\<lparr>fs_nodes := (\<lambda>l. if above (loc_of dir) l then None else fs_nodes fs2 l)\<rparr>)"
        using made by (simp add: os_remove_all_def)
      moreover have "confined (loc_of dir) fs fs2"
        using made confined_trans assemble_effect(1) [OF assms(3) _ a HOL.refl HOL.refl] by blast
      ultimately show thesis
        using that(2) [of _ dir fs2] assms(1) made by (auto simp: promote_localize_def n t Inr a la)
    next
      case (Inr img)
      then show thesis
        using that(3) assms(1) made a by (auto simp: promote_localize_def n t \<open>t = Inr dir\<close>)
    qed
  qed
qed

text \<open>
  C15: What another replica publishes is what was scanned. From the job that a gated push handed to the
  queue, any replica either rebuilds an OCI layout in a directory that did not exist before, holding
  the very manifest that was pushed under its digest and, for its config and every layer, bytes that
  hash to the digest scanned - or it fails and leaves nothing at or below the directory and nothing
  else changed. The worker's clean-up of the job is the one the handler would have made.
\<close>

theorem rebuilt_image_is_scanned_image:
  assumes "promote_localize s cd rand_name base (promotion_job t req push sg push_id) (w, fs) = (r, (w', fs'))"
    and "\<And>v. last (CHR ''-'' # fst (rand_name v)) \<noteq> CHR ''.''" and "hex_hash (st_sha s)"
  shows "(case r of
       Inr (oci, dir) \<Rightarrow> fs_lookup fs (loc_of dir) = None \<and> confined (loc_of dir) fs fs'
         \<and> layout_has (st_sha s) oci (set (cleanup_digests (sg_mr sg))) fs'
         \<and> fs_nodes fs' (blob_at oci (st_sha s (mp_raw push))) = Some (FFile (mp_raw push))
     | Inl e \<Rightarrow> fs' = fs \<or> (\<exists>dir. fs_lookup fs (loc_of dir) = None
         \<and> (\<forall>l. above (loc_of dir) l \<longrightarrow> fs_nodes fs' l = None)
         \<and> (\<forall>l. \<not> above l (loc_of dir) \<longrightarrow> \<not> above (loc_of dir) l \<longrightarrow> fs_nodes fs' l = fs_nodes fs l)))
    \<and> promote_cleanup s (promotion_job t req push sg push_id) p = cleanup s (sg_mr sg) (sg_scratch_dir sg) p"
proof -
  let ?j = "promotion_job t req push sg push_id"
  have digests: "cleanup_digests (job_manifest_ref ?j m) = cleanup_digests (sg_mr sg)" for m
    by (simp add: cleanup_digests_def job_manifest_ref_def promotion_job_def)
  have clean: "promote_cleanup s ?j p = cleanup s (sg_mr sg) (sg_scratch_dir sg) p"
    unfolding promote_cleanup_def cleanup_def digests by (simp add: promotion_job_def)
  show ?thesis
  proof (cases rule: promote_localize_cases [OF assms])
    case 1
    then show ?thesis using clean by auto
  next
    case (2 dir e fs1)
    have "above (loc_of dir) l \<Longrightarrow> fs_nodes fs' l = None" for l using 2(4) by simp
    moreover have "\<not> above l (loc_of dir) \<Longrightarrow> \<not> above (loc_of dir) l \<Longrightarrow> fs_nodes fs1 l = fs_nodes fs l" for l
      using 2(3) unfolding confined_def by blast
    then have "\<not> above l (loc_of dir) \<Longrightarrow> \<not> above (loc_of dir) l \<Longrightarrow> fs_nodes fs' l = fs_nodes fs l" for l
      by (simp add: 2(4))
    ultimately show ?thesis using 2(1,2) clean by auto
  next
    case (3 dir img w1 w2 fs1)
    note eff = assemble_effect [OF assms(3) 3(3,5) HOL.refl HOL.refl]
    have "confined (loc_of dir) fs fs'" using confined_trans [OF 3(2) eff(1)] .
    then show ?thesis
      using eff(2) [of img] 3(1,4) clean by (simp add: digests) (simp add: job_manifest_ref_def promotion_job_def)
  qed
qed

text \<open>The job of a push that was assembled under another pod's scratch directory.\<close>

definition sample_job :: job where
  "sample_job = promotion_job (sample_tenant :: mem_staging pod tenant)
     \<lparr>gr_source = ''docker'', gr_identity = ''u'', gr_image = \<lparr>si_repo = ''r'', si_tag = ''t'', si_digest = [],
        si_fs_path = [], si_oci_path = ''gone/oci'', si_created = 0, si_prefix = []\<rparr>, gr_target = ''reg/r:t''\<rparr>
     sample_manifest_push \<lparr>sg_mr = sample_push, sg_img = \<lparr>si_repo = ''r'', si_tag = ''t'', si_digest = [],
        si_fs_path = [], si_oci_path = ''gone/oci'', si_created = 0, si_prefix = []\<rparr>, sg_scratch_dir = ''gone''\<rparr> ''id''"

lemma sample_rebuilt:
  "\<not> isl (fst (promote_localize (mem_store (\<lambda>_. ''aa'') (\<lambda>_. [])) sample_codecs (\<lambda>w. (''42'', w)) ''/'' sample_job
     (sample_staged, empty_fs)))"
  by code_simp

theorem rebuilt_image_is_scanned_image_witness:
  "\<exists>oci dir w' fs'. promote_localize (mem_store (\<lambda>_. ''aa'') (\<lambda>_. [])) sample_codecs (\<lambda>w. (''42'', w)) ''/'' sample_job
       (sample_staged, empty_fs) = (Inr (oci, dir), (w', fs'))
     \<and> fs_nodes fs' (blob_at oci ''aa'') = Some (FFile ''m'')"
proof -
  let ?S = "mem_store (\<lambda>_. ''aa'') (\<lambda>_. [])"
  obtain r w' fs' where l: "promote_localize ?S sample_codecs (\<lambda>w. (''42'', w)) ''/'' sample_job
      (sample_staged, empty_fs) = (r, (w', fs'))" by (metis prod.exhaust)
  then obtain oci dir where r: "r = Inr (oci, dir)"
    using sample_rebuilt by (cases r) auto
  show ?thesis
    using rebuilt_image_is_scanned_image [OF l [unfolded sample_job_def] _ sample_hash] l
    by (simp add: r) (simp add: sample_manifest_push_def mem_store_def)
qed

end
