(* ===== verification/Metrics.thy ===== *)
theory Metrics
  imports Dashboard_View Docker_Outcome
begin

text \<open>
  \<open>internal/observability/metrics.go\<close>: the collectors, the observers the other components call, and
  what a gatherer reads back, together with what the dashboard makes of it. The Prometheus client is
  modelled by its contract: a vector creates a series the first time its labels are used, counters
  count, gauges keep the last value, a histogram keeps its buckets and what it observed. \<open>rnd\<close> rounds
  to a float64.
\<close>

section \<open>Collectors\<close>

record counter_vec =
  cv_name :: string
  cv_labels :: "string list"
  cv_series :: "(string list \<times> nat) list"

record histogram =
  hg_name :: string
  hg_buckets :: "real list"
  hg_observed :: "real list"

record gauge =
  gg_name :: string
  gg_value :: real

fun add_series :: "nat \<Rightarrow> string list \<Rightarrow> (string list \<times> nat) list \<Rightarrow> (string list \<times> nat) list" where
  "add_series k vals [] = [(vals, k)]"
| "add_series k vals ((us, n) # r) = (if us = vals then (us, n + k) # r else (us, n) # add_series k vals r)"

text \<open>\<open>WithLabelValues\<close> alone, and followed by \<open>Inc\<close>.\<close>

definition with_label_values :: "string list \<Rightarrow> counter_vec \<Rightarrow> counter_vec" where
  "with_label_values vals c = c\<lparr>cv_series := add_series 0 vals (cv_series c)\<rparr>"

definition inc :: "string list \<Rightarrow> counter_vec \<Rightarrow> counter_vec" where
  "inc vals c = c\<lparr>cv_series := add_series 1 vals (cv_series c)\<rparr>"

definition observe :: "real \<Rightarrow> histogram \<Rightarrow> histogram" where
  "observe v h = h\<lparr>hg_observed := hg_observed h @ [v]\<rparr>"

record metrics =
  mt_push_total :: counter_vec
  mt_scan_cache :: counter_vec
  mt_scan_duration :: histogram
  mt_assemble_duration :: histogram
  mt_queue_wait :: histogram
  mt_promote_duration :: histogram
  mt_scanner_db_age :: gauge
  mt_pending_promotes :: gauge
  mt_scratch_bytes :: gauge
  mt_acr_push :: counter_vec
  mt_requests :: counter_vec

definition new_vec :: "string \<Rightarrow> string list \<Rightarrow> counter_vec" where
  "new_vec name labels = \<lparr>cv_name = name, cv_labels = labels, cv_series = []\<rparr>"

definition new_histogram :: "string \<Rightarrow> real list \<Rightarrow> histogram" where
  "new_histogram name buckets = \<lparr>hg_name = name, hg_buckets = buckets, hg_observed = []\<rparr>"

definition new_gauge :: "string \<Rightarrow> gauge" where
  "new_gauge name = \<lparr>gg_name = name, gg_value = 0\<rparr>"

definition scan_cache_vec :: counter_vec where
  "scan_cache_vec = with_label_values [''miss''] (with_label_values [''hit'']
     (new_vec ''merlin_scan_cache_total'' [''result'']))"

definition new_metrics :: metrics where
  "new_metrics =
     \<lparr>mt_push_total = new_vec ''merlin_push_decisions_total'' [''outcome''],
      mt_scan_cache = scan_cache_vec,
      mt_scan_duration = new_histogram ''merlin_scan_duration_seconds''
        [1, 5 / 2, 5, 10, 15, 20, 25, 30, 45, 60, 90, 120, 180, 300, 600],
      mt_assemble_duration = new_histogram ''merlin_assemble_duration_seconds''
        [1 / 2, 1, 5 / 2, 5, 10, 15, 20, 30, 60, 120, 300],
      mt_queue_wait = new_histogram ''merlin_gate_queue_wait_seconds''
        [1 / 10, 1 / 2, 1, 5 / 2, 5, 10, 15, 20, 30, 45, 60, 120, 300, 600],
      mt_promote_duration = new_histogram ''merlin_promote_duration_seconds''
        [1 / 2, 1, 5 / 2, 5, 10, 15, 20, 30, 60, 120, 300, 600],
      mt_scanner_db_age = new_gauge ''merlin_scanner_db_age_days'',
      mt_pending_promotes = new_gauge ''merlin_promote_pending'',
      mt_scratch_bytes = new_gauge ''merlin_scratch_bytes'',
      mt_acr_push = new_vec ''merlin_acr_push_total'' [''registry'', ''result''],
      mt_requests = new_vec ''merlin_requests_total'' [''method'', ''route'', ''status'']\<rparr>"

section \<open>Observers\<close>

definition observe_push_total :: "bool \<Rightarrow> metrics \<Rightarrow> metrics" where
  "observe_push_total passed m =
     m\<lparr>mt_push_total := inc [if passed then ''passed'' else ''rejected''] (mt_push_total m)\<rparr>"

definition observe_push_failed :: "metrics \<Rightarrow> metrics" where
  "observe_push_failed m = m\<lparr>mt_push_total := inc [''error''] (mt_push_total m)\<rparr>"

definition observe_scan_seconds :: "real \<Rightarrow> metrics \<Rightarrow> metrics" where
  "observe_scan_seconds v m = m\<lparr>mt_scan_duration := observe v (mt_scan_duration m)\<rparr>"

definition observe_scan_cache :: "bool \<Rightarrow> metrics \<Rightarrow> metrics" where
  "observe_scan_cache hit m =
     m\<lparr>mt_scan_cache := inc [if hit then ''hit'' else ''miss''] (mt_scan_cache m)\<rparr>"

definition set_scanner_db_age :: "real \<Rightarrow> metrics \<Rightarrow> metrics" where
  "set_scanner_db_age d m = m\<lparr>mt_scanner_db_age := (mt_scanner_db_age m)\<lparr>gg_value := d\<rparr>\<rparr>"

definition observe_assemble_seconds :: "real \<Rightarrow> metrics \<Rightarrow> metrics" where
  "observe_assemble_seconds v m = m\<lparr>mt_assemble_duration := observe v (mt_assemble_duration m)\<rparr>"

definition observe_queue_seconds :: "real \<Rightarrow> metrics \<Rightarrow> metrics" where
  "observe_queue_seconds v m = m\<lparr>mt_queue_wait := observe v (mt_queue_wait m)\<rparr>"

definition observe_promote_seconds :: "real \<Rightarrow> metrics \<Rightarrow> metrics" where
  "observe_promote_seconds v m = m\<lparr>mt_promote_duration := observe v (mt_promote_duration m)\<rparr>"

definition set_pending_promotions :: "(real \<Rightarrow> real) \<Rightarrow> int64 \<Rightarrow> metrics \<Rightarrow> metrics" where
  "set_pending_promotions rnd n m =
     m\<lparr>mt_pending_promotes := (mt_pending_promotes m)\<lparr>gg_value := rnd (real_of_int (sint n))\<rparr>\<rparr>"

definition set_scratch_bytes :: "(real \<Rightarrow> real) \<Rightarrow> int64 \<Rightarrow> metrics \<Rightarrow> metrics" where
  "set_scratch_bytes rnd n m =
     m\<lparr>mt_scratch_bytes := (mt_scratch_bytes m)\<lparr>gg_value := rnd (real_of_int (sint n))\<rparr>\<rparr>"

definition observe_acr :: "string \<Rightarrow> string \<Rightarrow> metrics \<Rightarrow> metrics" where
  "observe_acr registry result_label m = m\<lparr>mt_acr_push := inc [registry, result_label] (mt_acr_push m)\<rparr>"

definition observe_request :: "string \<Rightarrow> string \<Rightarrow> string \<Rightarrow> metrics \<Rightarrow> metrics" where
  "observe_request method route_name status m =
     m\<lparr>mt_requests := inc [method, route_name, status] (mt_requests m)\<rparr>"

section \<open>Gathering\<close>

definition gather_vec :: "(real \<Rightarrow> real) \<Rightarrow> counter_vec \<Rightarrow> string \<times> series list" where
  "gather_vec rnd c = (cv_name c, map (\<lambda>(vals, n).
     \<lparr>sr_labels = zip (cv_labels c) vals, sr_gauge = None, sr_counter = Some (rnd (real n))\<rparr>) (cv_series c))"

definition gather_gauge :: "gauge \<Rightarrow> string \<times> series list" where
  "gather_gauge g = (gg_name g, [\<lparr>sr_labels = [], sr_gauge = Some (gg_value g), sr_counter = None\<rparr>])"

definition gather_histogram :: "histogram \<Rightarrow> string \<times> series list" where
  "gather_histogram h = (hg_name h, [\<lparr>sr_labels = [], sr_gauge = None, sr_counter = None\<rparr>])"

text \<open>Families in the order of their names; one without a series is not there.\<close>

definition gather :: "(real \<Rightarrow> real) \<Rightarrow> metrics \<Rightarrow> (string \<times> series list) list" where
  "gather rnd m = filter (\<lambda>(name, ss). ss \<noteq> [])
     [gather_vec rnd (mt_acr_push m), gather_histogram (mt_assemble_duration m),
      gather_histogram (mt_queue_wait m), gather_histogram (mt_promote_duration m),
      gather_gauge (mt_pending_promotes m), gather_vec rnd (mt_push_total m), gather_vec rnd (mt_requests m),
      gather_vec rnd (mt_scan_cache m), gather_histogram (mt_scan_duration m),
      gather_gauge (mt_scanner_db_age m), gather_gauge (mt_scratch_bytes m)]"

text \<open>
  The sinks the other components are given, on a state that has the metrics under a lens.
\<close>

definition metrics_sink :: "((metrics \<Rightarrow> metrics) \<Rightarrow> 'w \<Rightarrow> 'w) \<Rightarrow> 'w metrics_observer" where
  "metrics_sink upd =
     \<lparr>mo_push = (\<lambda>ok. upd (observe_push_total ok)), mo_scan_duration = (\<lambda>v. upd (observe_scan_seconds v)),
      mo_push_error = Some (upd observe_push_failed),
      mo_promote_duration = Some (\<lambda>v. upd (observe_promote_seconds v)),
      mo_assemble_duration = Some (\<lambda>v. upd (observe_assemble_seconds v)),
      mo_queue_wait = Some (\<lambda>v. upd (observe_queue_seconds v)),
      mo_acr_push = Some (\<lambda>registry res. upd (observe_acr registry res))\<rparr>"

section \<open>What the dashboard reads\<close>

text \<open>
  The calls the program makes. A push to a registry is counted by whoever made it, under the registry
  of its target and the class of its error (\<open>worker_observe_acr_push\<close>, \<open>sync_publish\<close>).
\<close>

datatype metric_call =
    PushDecided bool | PushFailed | ScanTook real | CacheLookup bool | DbAge real | AssembleTook real
  | QueueTook real | PromoteTook real | PendingNow int64 | ScratchNow int64
  | AcrPushed string "goerr option" | RequestServed string string string

fun call_metric :: "(real \<Rightarrow> real) \<Rightarrow> metric_call \<Rightarrow> metrics \<Rightarrow> metrics" where
  "call_metric rnd (PushDecided ok) m = observe_push_total ok m"
| "call_metric rnd PushFailed m = observe_push_failed m"
| "call_metric rnd (ScanTook v) m = observe_scan_seconds v m"
| "call_metric rnd (CacheLookup hit) m = observe_scan_cache hit m"
| "call_metric rnd (DbAge d) m = set_scanner_db_age d m"
| "call_metric rnd (AssembleTook v) m = observe_assemble_seconds v m"
| "call_metric rnd (QueueTook v) m = observe_queue_seconds v m"
| "call_metric rnd (PromoteTook v) m = observe_promote_seconds v m"
| "call_metric rnd (PendingNow n) m = set_pending_promotions rnd n m"
| "call_metric rnd (ScratchNow n) m = set_scratch_bytes rnd n m"
| "call_metric rnd (AcrPushed target err) m =
     observe_acr (registry_from_target target) (push_error_label (classify_push_error err)) m"
| "call_metric rnd (RequestServed method route_name status) m = observe_request method route_name status m"

definition recorded :: "(real \<Rightarrow> real) \<Rightarrow> metric_call list \<Rightarrow> metrics" where
  "recorded rnd calls = fold (call_metric rnd) calls new_metrics"

definition acr_pushes :: "metric_call list \<Rightarrow> goerr option list" where
  "acr_pushes calls = List.map_filter (\<lambda>c. case c of AcrPushed t e \<Rightarrow> Some e | _ \<Rightarrow> None) calls"

definition db_ages :: "metric_call list \<Rightarrow> real list" where
  "db_ages calls = List.map_filter (\<lambda>c. case c of DbAge d \<Rightarrow> Some d | _ \<Rightarrow> None) calls"

definition series_total :: "(string list \<Rightarrow> bool) \<Rightarrow> (string list \<times> nat) list \<Rightarrow> nat" where
  "series_total P ss = sum_list (map snd (filter (\<lambda>(vals, n). P vals) ss))"

lemma add_series_total [simp]:
  "series_total P (add_series k vals ss) = series_total P ss + (if P vals then k else 0)"
  by (induction k vals ss rule: add_series.induct) (auto simp: series_total_def)

text \<open>The families keep their names and labels.\<close>

definition same_families :: "metrics \<Rightarrow> metrics \<Rightarrow> bool" where
  "same_families m m' \<longleftrightarrow>
     map cv_name [mt_push_total m', mt_scan_cache m', mt_acr_push m', mt_requests m']
       = map cv_name [mt_push_total m, mt_scan_cache m, mt_acr_push m, mt_requests m]
     \<and> map hg_name [mt_scan_duration m', mt_assemble_duration m', mt_queue_wait m', mt_promote_duration m']
       = map hg_name [mt_scan_duration m, mt_assemble_duration m, mt_queue_wait m, mt_promote_duration m]
     \<and> map gg_name [mt_scanner_db_age m', mt_pending_promotes m', mt_scratch_bytes m']
       = map gg_name [mt_scanner_db_age m, mt_pending_promotes m, mt_scratch_bytes m]
     \<and> cv_labels (mt_acr_push m') = cv_labels (mt_acr_push m)"

lemmas observer_defs = observe_push_total_def observe_push_failed_def observe_scan_seconds_def
  observe_scan_cache_def set_scanner_db_age_def observe_assemble_seconds_def observe_queue_seconds_def
  observe_promote_seconds_def set_pending_promotions_def set_scratch_bytes_def observe_acr_def
  observe_request_def inc_def observe_def

lemma call_families: "same_families m (call_metric rnd c m)"
  by (cases c) (simp_all add: same_families_def observer_defs)

lemma recorded_families: "same_families m (fold (call_metric rnd) calls m)"
proof (induction calls arbitrary: m)
  case (Cons c calls)
  show ?case using Cons [of "call_metric rnd c m"] call_families [of m rnd c] by (simp add: same_families_def)
qed (simp add: same_families_def)

lemma label_ok: "push_error_label (classify_push_error e) = ''ok'' \<longleftrightarrow> e = None"
proof (cases e)
  case (Some x)
  have "classify_push_error e \<noteq> PushErrNone"
    unfolding Some classify_push_error_def by (simp split: option.split prod.split)
  then show ?thesis using Some by (cases "classify_push_error e") auto
qed (simp add: classify_push_error_def)

lemma recorded_acr:
  "series_total (\<lambda>vals. ((''result'', ''ok'') \<in> set (zip [''registry'', ''result''] vals)) = want)
     (cv_series (mt_acr_push (fold (call_metric rnd) calls m)))
   = series_total (\<lambda>vals. ((''result'', ''ok'') \<in> set (zip [''registry'', ''result''] vals)) = want)
       (cv_series (mt_acr_push m))
     + length (filter (\<lambda>e. (e = None) = want) (acr_pushes calls))"
proof (induction calls arbitrary: m)
  case (Cons c calls)
  show ?case
    unfolding fold_Cons comp_apply Cons
    by (cases c) (auto simp: observer_defs acr_pushes_def map_filter_simps label_ok eq_commute [of "''ok''"])
qed (simp add: acr_pushes_def map_filter_simps)

lemma recorded_age:
  "gg_value (mt_scanner_db_age (fold (call_metric rnd) calls m))
   = (if db_ages calls = [] then gg_value (mt_scanner_db_age m) else last (db_ages calls))"
proof (induction calls arbitrary: m)
  case (Cons c calls)
  show ?case
    unfolding fold_Cons comp_apply Cons
    by (cases c) (auto simp: observer_defs db_ages_def map_filter_simps)
qed (simp add: db_ages_def map_filter_simps)

lemma rounded_sum:
  "(\<And>n. n \<le> k + sum_list ns \<Longrightarrow> rnd (real n) = real n) \<Longrightarrow>
   fold (\<lambda>v acc. rnd (acc + v)) (map (\<lambda>n. rnd (real n)) ns) (real k) = real (k + sum_list ns)"
proof (induction ns arbitrary: k)
  case (Cons n ns)
  have "rnd (real n) = real n" "rnd (real k + real n) = real (k + n)"
    using Cons.prems [of n] Cons.prems [of "k + n"] by simp_all
  then show ?case using Cons.IH [of "k + n"] Cons.prems by (simp add: add.assoc del: of_nat_add)
qed simp

text \<open>One family of a gatherer, whether it is there or empty.\<close>

lemma concat_filter_map: "(\<And>x. x \<in> set xs \<Longrightarrow> \<not> P x \<Longrightarrow> f x = []) \<Longrightarrow> concat (map f (filter P xs)) = concat (map f xs)"
  by (induction xs) auto

lemma counter_of_vec:
  "List.map_filter sr_counter (filter (\<lambda>m. (lv \<in> set (sr_labels m)) = want) (snd (gather_vec rnd c)))
   = map (\<lambda>n. rnd (real n)) (map snd (filter (\<lambda>(vals, n). (lv \<in> set (zip (cv_labels c) vals)) = want) (cv_series c)))"
proof -
  have "List.map_filter sr_counter (filter (\<lambda>m. (lv \<in> set (sr_labels m)) = want) (map (\<lambda>(vals, n).
      \<lparr>sr_labels = zip ls vals, sr_gauge = None, sr_counter = Some (rnd (real n))\<rparr>) ss))
    = map (\<lambda>n. rnd (real n)) (map snd (filter (\<lambda>(vals, n). (lv \<in> set (zip ls vals)) = want) ss))" for ls ss
    by (induction ss) (auto simp: map_filter_simps)
  then show ?thesis by (simp add: gather_vec_def)
qed

lemma family_names:
  assumes "same_families new_metrics m"
  shows "cv_name (mt_push_total m) = ''merlin_push_decisions_total''"
    "cv_name (mt_scan_cache m) = ''merlin_scan_cache_total''" "cv_name (mt_acr_push m) = ''merlin_acr_push_total''"
    "cv_name (mt_requests m) = ''merlin_requests_total''"
    "hg_name (mt_scan_duration m) = ''merlin_scan_duration_seconds''"
    "hg_name (mt_assemble_duration m) = ''merlin_assemble_duration_seconds''"
    "hg_name (mt_queue_wait m) = ''merlin_gate_queue_wait_seconds''"
    "hg_name (mt_promote_duration m) = ''merlin_promote_duration_seconds''"
    "gg_name (mt_scanner_db_age m) = ''merlin_scanner_db_age_days''"
    "gg_name (mt_pending_promotes m) = ''merlin_promote_pending''"
    "gg_name (mt_scratch_bytes m) = ''merlin_scratch_bytes''" "cv_labels (mt_acr_push m) = [''registry'', ''result'']"
  using assms by (simp_all add: same_families_def new_metrics_def new_vec_def new_histogram_def new_gauge_def
      scan_cache_vec_def with_label_values_def)

lemma acr_counter_sum:
  assumes "same_families new_metrics m" and "sc_gather s w = Inr (gather (sc_round s) m)"
    and "\<And>n. n \<le> series_total (\<lambda>vals. ((''result'', ''ok'') \<in> set (zip [''registry'', ''result''] vals)) = want)
           (cv_series (mt_acr_push m)) \<Longrightarrow> sc_round s (real n) = real n"
  shows "counter_sum_where s ''merlin_acr_push_total'' ''result'' ''ok'' want w
   = real (series_total (\<lambda>vals. ((''result'', ''ok'') \<in> set (zip [''registry'', ''result''] vals)) = want)
       (cv_series (mt_acr_push m)))"
proof -
  let ?sel = "\<lambda>(n, ms). if n = ''merlin_acr_push_total''
     then List.map_filter sr_counter (filter (\<lambda>m. ((''result'', ''ok'') \<in> set (sr_labels m)) = want) ms) else []"
  have empty_family: "?sel x = []" if "snd x = []" for x
    using that by (cases x) (simp add: map_filter_simps)
  have "concat (map ?sel (gather (sc_round s) m)) = concat (map ?sel
     [gather_vec (sc_round s) (mt_acr_push m), gather_histogram (mt_assemble_duration m),
      gather_histogram (mt_queue_wait m), gather_histogram (mt_promote_duration m),
      gather_gauge (mt_pending_promotes m), gather_vec (sc_round s) (mt_push_total m),
      gather_vec (sc_round s) (mt_requests m),
      gather_vec (sc_round s) (mt_scan_cache m), gather_histogram (mt_scan_duration m),
      gather_gauge (mt_scanner_db_age m), gather_gauge (mt_scratch_bytes m)])"
    unfolding gather_def by (rule concat_filter_map) (rule empty_family, simp add: case_prod_unfold)
  also have "\<dots> = ?sel (gather_vec (sc_round s) (mt_acr_push m))"
    by (simp add: gather_histogram_def gather_gauge_def gather_vec_def family_names [OF assms(1)])
  also have "\<dots> = map (\<lambda>n. sc_round s (real n)) (map snd (filter (\<lambda>(vals, n).
      ((''result'', ''ok'') \<in> set (zip [''registry'', ''result''] vals)) = want) (cv_series (mt_acr_push m))))"
    using counter_of_vec [of "(''result'', ''ok'')" want "sc_round s" "mt_acr_push m"]
    by (simp add: gather_vec_def family_names [OF assms(1)] split: prod.split)
  finally show ?thesis
    using rounded_sum [of 0 "map snd (filter (\<lambda>(vals, n).
      ((''result'', ''ok'') \<in> set (zip [''registry'', ''result''] vals)) = want) (cv_series (mt_acr_push m)))" "sc_round s"]
      assms(3)
    by (simp add: counter_sum_where_def assms(2) series_total_def)
qed

lemma db_age_read:
  assumes "same_families new_metrics m" and "sc_gather s w = Inr (gather rnd m)"
  shows "gauge_value s ''merlin_scanner_db_age_days'' w = gg_value (mt_scanner_db_age m)"
proof -
  let ?sel = "\<lambda>(n, ms). if n = ''merlin_scanner_db_age_days'' then List.map_filter sr_gauge ms else []"
  have empty_family: "?sel x = []" if "snd x = []" for x
    using that by (cases x) (simp add: map_filter_simps)
  have "concat (map ?sel (gather rnd m)) = concat (map ?sel
     [gather_vec rnd (mt_acr_push m), gather_histogram (mt_assemble_duration m),
      gather_histogram (mt_queue_wait m), gather_histogram (mt_promote_duration m),
      gather_gauge (mt_pending_promotes m), gather_vec rnd (mt_push_total m), gather_vec rnd (mt_requests m),
      gather_vec rnd (mt_scan_cache m), gather_histogram (mt_scan_duration m),
      gather_gauge (mt_scanner_db_age m), gather_gauge (mt_scratch_bytes m)])"
    unfolding gather_def by (rule concat_filter_map) (rule empty_family, simp add: case_prod_unfold)
  also have "\<dots> = [gg_value (mt_scanner_db_age m)]"
    by (simp add: gather_histogram_def gather_gauge_def gather_vec_def family_names [OF assms(1)] map_filter_simps)
  finally show ?thesis by (simp add: gauge_value_def assms(2))
qed

text \<open>
  C28: What was recorded is what the dashboard shows. After any calls of any observers, in any order,
  the success rate of the overview is the share of the pushes to a registry that ended without an
  error among all of them, whatever the registries and however the failures were classified, and the
  age of the scanner's database is the one set last, or 0. The number of calls is one a float64
  counts exactly.
\<close>

theorem dashboard_shows_the_record:
  assumes "\<And>w. sc_gather s w = Inr (gather (sc_round s) (recorded (sc_round s) calls))"
    and "\<And>n. n \<le> length calls \<Longrightarrow> sc_round s (real n) = real n"
  shows "ov_acr_push_success (fst (dash_overview s rng w))
      = pct (sc_round s) (real (length (filter (\<lambda>e. e = None) (acr_pushes calls)))) (real (length (acr_pushes calls)))
    \<and> ov_scanner_db_age_days (fst (dash_overview s rng w))
      = (if db_ages calls = [] then 0 else last (db_ages calls))"
proof -
  let ?m = "recorded (sc_round s) calls" and ?ok = "length (filter (\<lambda>e. e = None) (acr_pushes calls))"
    and ?bad = "length (filter (\<lambda>e. e \<noteq> None) (acr_pushes calls))"
  have fam: "same_families new_metrics ?m" unfolding recorded_def by (rule recorded_families)
  have bound: "length (acr_pushes calls) \<le> length calls"
    unfolding acr_pushes_def by (induction calls) (auto simp: map_filter_simps split: metric_call.splits)
  have split: "?ok + ?bad = length (acr_pushes calls)"
    using sum_length_filter_compl [of "\<lambda>e. e = None" "acr_pushes calls"] by simp
  have total: "series_total (\<lambda>vals. ((''result'', ''ok'') \<in> set (zip [''registry'', ''result''] vals)) = want)
      (cv_series (mt_acr_push ?m)) = length (filter (\<lambda>e. (e = None) = want) (acr_pushes calls))" for want
    unfolding recorded_def recorded_acr by (simp add: new_metrics_def new_vec_def series_total_def)
  have good: "counter_sum_where s ''merlin_acr_push_total'' ''result'' ''ok'' True v = real ?ok" for v
    using acr_counter_sum [OF fam assms(1), where want = True] assms(2) split bound unfolding total by simp
  have failed: "counter_sum_where s ''merlin_acr_push_total'' ''result'' ''ok'' False v = real ?bad" for v
    using acr_counter_sum [OF fam assms(1), where want = False] assms(2) split bound unfolding total by simp
  have sum: "sc_round s (real ?ok + real ?bad) = real (length (acr_pushes calls))"
    using assms(2) [OF bound] split by (metis of_nat_add)
  have age: "gauge_value s ''merlin_scanner_db_age_days'' v = (if db_ages calls = [] then 0 else last (db_ages calls))" for v
    unfolding db_age_read [OF fam assms(1)] recorded_def recorded_age by (simp add: new_metrics_def new_gauge_def)
  show ?thesis by (simp add: dash_overview_def good failed sum age Let_def del: not_None_eq split: prod.split)
qed

text \<open>Two pushes of two tenants, one of them cancelled, amid other calls, and an audit trail that is away.\<close>

definition sample_metric_calls :: "metric_call list" where
  "sample_metric_calls = [DbAge 7, AcrPushed ''a.azurecr.io/r:t'' None, RequestServed ''PUT'' ''manifest'' ''201'',
     AcrPushed ''b.azurecr.io/r:t'' (Some CtxCanceled), DbAge 2]"

definition sample_service :: "unit dash_service" where
  "sample_service =
     \<lparr>sc_reader = \<lparr>dr_stats_since = (\<lambda>_ w. (Inl RedisNil, w)), dr_header_by_ref = (\<lambda>_ _ w. (Inl RedisNil, w)),
        dr_header_by_push = (\<lambda>_ w. (Inl RedisNil, w)), dr_findings_by_push = (\<lambda>_ w. (Inl RedisNil, w)),
        dr_findings_by_ref = (\<lambda>_ _ w. (Inl RedisNil, w)), dr_images_page = (\<lambda>_ _ _ _ w. (Inl RedisNil, w))\<rparr>,
      sc_gather = (\<lambda>w. Inr (gather (\<lambda>x. x) (recorded (\<lambda>x. x) sample_metric_calls))), sc_now = (\<lambda>w. 0),
      sc_round = (\<lambda>x. x)\<rparr>"

theorem dashboard_shows_the_record_witness:
  "ov_acr_push_success (fst (dash_overview sample_service Range1d ())) = 50
   \<and> ov_scanner_db_age_days (fst (dash_overview sample_service Range1d ())) = 2"
proof -
  have calls: "acr_pushes sample_metric_calls = [None, Some CtxCanceled]" "db_ages sample_metric_calls = [7, 2]"
    by (simp_all add: acr_pushes_def db_ages_def sample_metric_calls_def map_filter_simps)
  have rnd: "sc_round sample_service = (\<lambda>x. x)" by (simp add: sample_service_def)
  have gathered: "sc_gather sample_service w = Inr (gather (sc_round sample_service)
      (recorded (sc_round sample_service) sample_metric_calls))" for w
    by (simp add: sample_service_def)
  show ?thesis
    using dashboard_shows_the_record [OF gathered, of Range1d "()"] by (simp add: calls rnd pct_def)
qed

end
