(* ===== verification/Audit_Queries.thy ===== *)
theory Audit_Queries
  imports Dashboard_View Dashboard_Feed Audit_Store Promote_Worker
begin

text \<open>
  \<open>internal/audit/dashboard_queries.go\<close>, the queries behind the dashboard: the statements as they are sent,
  with their arguments apart, and the loops over their rows. ClickHouse answers them; the connection
  is a parameter. What the statistics query counts is written out as a function of the rows.
\<close>

section \<open>The connection\<close>

datatype sql_arg = ArgText string | ArgTime gotime | ArgInt int64

text \<open>
  Rows as \<open>rows.Next\<close> and \<open>rows.Scan\<close> give them, and what \<open>rows.Err\<close> says after the last. Each kind of
  row has a field: what the driver scans into is part of the call.
\<close>

type_synonym 'r rows = "'r res list \<times> goerr option"

record 'w dash_conn =
  dq_recent :: "string \<Rightarrow> sql_arg list \<Rightarrow> 'w \<Rightarrow> decision_summary rows res \<times> 'w"
  dq_stats :: "string \<Rightarrow> sql_arg list \<Rightarrow> 'w \<Rightarrow> (64 word \<times> 64 word \<times> 64 word \<times> real \<times> real \<times> real) res \<times> 'w"
  dq_reasons :: "string \<Rightarrow> sql_arg list \<Rightarrow> 'w \<Rightarrow> (string \<times> 64 word) rows res \<times> 'w"
  dq_count :: "string \<Rightarrow> sql_arg list \<Rightarrow> 'w \<Rightarrow> (64 word) res \<times> 'w"
  dq_images :: "string \<Rightarrow> sql_arg list \<Rightarrow> 'w \<Rightarrow> image_row rows res \<times> 'w"

fun scan_rows :: "'r res list \<Rightarrow> goerr option \<Rightarrow> 'r list res" where
  "scan_rows [] err = (case err of None \<Rightarrow> Inr [] | Some e \<Rightarrow> Inl e)"
| "scan_rows (Inl e # rs) err = Inl e"
| "scan_rows (Inr r # rs) err = (case scan_rows rs err of Inl e \<Rightarrow> Inl e | Inr out \<Rightarrow> Inr (r # out))"

definition sql_lines :: "string list \<Rightarrow> string" where
  "sql_lines ls = str_join newline ls"

section \<open>Recent decisions and statistics\<close>

definition recent_sql :: string where
  "recent_sql = sql_lines [[],
     ''SELECT ts, toString(push_id), image_repo, image_tag, image_digest, identity, passed, reasons'',
     ''FROM gate_decisions ORDER BY ts DESC LIMIT ?'']"

definition recent_decisions :: "'w dash_conn \<Rightarrow> int64 \<Rightarrow> 'w \<Rightarrow> decision_summary list res \<times> 'w" where
  "recent_decisions c n w =
     (case dq_recent c recent_sql [ArgInt (if sint n \<le> 0 then 50 else n)] w of
        (Inl e, w1) \<Rightarrow> (Inl e, w1)
      | (Inr (rs, err), w1) \<Rightarrow> (scan_rows rs err, w1))"

definition stats_sql :: string where
  "stats_sql = sql_lines [[], ''SELECT'', ''  count() AS total,'', ''  countIf(passed) AS n_passed,'',
     ''  countIf(NOT passed) AS n_rejected,'', ''  quantile(0.5)(duration_ms) AS p50,'',
     ''  quantile(0.95)(duration_ms) AS p95,'', ''  quantile(0.99)(duration_ms) AS p99'',
     ''FROM gate_decisions WHERE ts >= ?'']"

definition reasons_sql :: string where
  "reasons_sql = sql_lines [[], ''SELECT reason, count() AS c FROM ('',
     ''  SELECT arrayJoin(reasons) AS reason FROM gate_decisions WHERE ts >= ? AND NOT passed'',
     '') GROUP BY reason ORDER BY c DESC LIMIT 10'']"

definition decision_stats_since :: "'w dash_conn \<Rightarrow> gotime \<Rightarrow> 'w \<Rightarrow> decision_stats res \<times> 'w" where
  "decision_stats_since c since w =
     (case dq_stats c stats_sql [ArgTime since] w of
        (Inl e, w1) \<Rightarrow> (Inl e, w1)
      | (Inr (total1, ok, rejected, p50, p95, p99), w1) \<Rightarrow>
          (case dq_reasons c reasons_sql [ArgTime since] w1 of
             (Inl e, w2) \<Rightarrow> (Inl e, w2)
           | (Inr (rs, err), w2) \<Rightarrow>
               (case scan_rows rs err of
                  Inl e \<Rightarrow> (Inl e, w2)
                | Inr reasons \<Rightarrow>
                    (Inr \<lparr>st_total = total1, st_passed = ok, st_rejected = rejected, st_p50 = p50, st_p95 = p95,
                          st_p99 = p99, st_reject_reasons = reasons\<rparr>, w2))))"

section \<open>One page of images\<close>

text \<open>The text of the filter decides only whether its clause is there.\<close>

definition images_where :: "bool \<Rightarrow> bool \<Rightarrow> string" where
  "images_where with_text rejected_only = ''ts >= ?''
     @ (if with_text then '' AND (positionCaseInsensitive(image_repo, ?) > 0 OR positionCaseInsensitive(image_tag, ?) > 0 OR positionCaseInsensitive(identity, ?) > 0)'' else [])
     @ (if rejected_only then '' AND passed = false'' else [])"

definition images_base :: "bool \<Rightarrow> bool \<Rightarrow> string" where
  "images_base with_text rejected_only = sql_lines [[], ''WITH per_push AS ('',
     ''  SELECT d.ts AS ts, d.push_id AS push_id, d.image_repo AS image_repo, d.image_tag AS image_tag,'',
     ''         d.image_digest AS image_digest, d.identity AS identity, d.passed AS passed,'',
     ''         countIf(f.severity = 'CRITICAL') AS crit, countIf(f.severity = 'HIGH') AS high,'',
     ''         countIf(f.severity = 'MEDIUM') AS med, countIf(f.severity = 'LOW') AS low'',
     ''  FROM gate_decisions d'',
     ''  LEFT JOIN vulnerability_findings f ON f.push_id = d.push_id'',
     ''  WHERE '' @ images_where with_text rejected_only,
     ''  GROUP BY ts, push_id, image_repo, image_tag, image_digest, identity, passed'', '')'']"

definition images_having :: "bool \<Rightarrow> string" where
  "images_having critical = (if critical then '' WHERE crit > 0'' else [])"

definition images_count_sql :: "bool \<Rightarrow> bool \<Rightarrow> bool \<Rightarrow> string" where
  "images_count_sql with_text rejected_only critical =
     images_base with_text rejected_only @ '' SELECT count() FROM per_push'' @ images_having critical"

definition images_rows_sql :: "bool \<Rightarrow> bool \<Rightarrow> bool \<Rightarrow> string" where
  "images_rows_sql with_text rejected_only critical =
     images_base with_text rejected_only
       @ '' SELECT ts, toString(push_id), image_repo, image_tag, image_digest, identity, passed, crit, high, med, low FROM per_push''
       @ images_having critical @ '' ORDER BY ts DESC LIMIT ? OFFSET ?''"

definition images_args :: "gotime \<Rightarrow> image_filter \<Rightarrow> sql_arg list" where
  "images_args since f =
     ArgTime since # (if if_text f \<noteq> [] then [ArgText (if_text f), ArgText (if_text f), ArgText (if_text f)] else [])"

definition query_images_page ::
  "'w dash_conn \<Rightarrow> gotime \<Rightarrow> image_filter \<Rightarrow> int64 \<Rightarrow> int64 \<Rightarrow> 'w \<Rightarrow> image_page res \<times> 'w" where
  "query_images_page c since f limit offset w =
     (let limit1 = (if sint limit \<le> 0 then 10 else limit);
          offset1 = (if sint offset < 0 then 0 else offset);
          args = images_args since f;
          sql = (\<lambda>q. q (if_text f \<noteq> []) (if_rejected_only f) (if_has_critical f))
      in case dq_count c (sql images_count_sql) args w of
           (Inl e, w1) \<Rightarrow> (Inl e, w1)
         | (Inr total1, w1) \<Rightarrow>
             (case dq_images c (sql images_rows_sql) (args @ [ArgInt limit1, ArgInt offset1]) w1 of
                (Inl e, w2) \<Rightarrow> (Inl e, w2)
              | (Inr (rs, err), w2) \<Rightarrow>
                  (case scan_rows rs err of
                     Inl e \<Rightarrow> (Inl e, w2)
                   | Inr rows \<Rightarrow> (Inr \<lparr>ip_rows = rows, ip_total = total1\<rparr>, w2))))"

text \<open>The reader the dashboard is given.\<close>

definition audit_reader :: "'w dash_conn \<Rightarrow> 'w clickhouse_conn \<Rightarrow> 'w dash_reader" where
  "audit_reader c ch =
     \<lparr>dr_stats_since = decision_stats_since c, dr_header_by_ref = header_by_ref ch,
      dr_header_by_push = header_by_push ch, dr_findings_by_push = findings_by_push ch,
      dr_findings_by_ref = findings_by_image_ref ch, dr_images_page = query_images_page c\<rparr>"

section \<open>Statements are fixed\<close>

definition placeholders :: "string \<Rightarrow> nat" where
  "placeholders sql = length (filter (\<lambda>ch. ch = CHR ''?'') sql)"

definition fixed_statements :: "string list" where
  "fixed_statements = [recent_sql, stats_sql, reasons_sql]
     @ map (\<lambda>(t, r, cr). images_count_sql t r cr) (List.product [True, False] (List.product [True, False] [True, False]))
     @ map (\<lambda>(t, r, cr). images_rows_sql t r cr) (List.product [True, False] (List.product [True, False] [True, False]))"

text \<open>A statement as it may be sent: a fixed text, an argument for every placeholder, and no text but the search.\<close>

definition bound_statement :: "string \<Rightarrow> string \<times> sql_arg list \<Rightarrow> bool" where
  "bound_statement search st \<longleftrightarrow>
     (case st of (sql, args) \<Rightarrow> sql \<in> set fixed_statements \<and> placeholders sql = length args
        \<and> list_all (\<lambda>a. case a of ArgText t \<Rightarrow> t = search | _ \<Rightarrow> True) args)"

lemma placeholders_append [simp]: "placeholders (a @ b) = placeholders a + placeholders b"
  by (simp add: placeholders_def)

lemma placeholders_lines: "placeholders (sql_lines ls) = sum_list (map placeholders ls)"
proof (induction ls)
  case (Cons l ls)
  then show ?case by (cases ls) (simp_all add: sql_lines_def newline_def placeholders_def)
qed (simp add: sql_lines_def placeholders_def)

lemma statement_placeholders:
  "placeholders recent_sql = 1" "placeholders stats_sql = 1" "placeholders reasons_sql = 1"
  "placeholders (images_base t r) = (if t then 4 else 1)"
  by (simp_all add: recent_sql_def stats_sql_def reasons_sql_def images_base_def images_where_def placeholders_lines)
    (simp_all add: placeholders_def)

lemma images_placeholders:
  "placeholders (images_count_sql t r cr) = (if t then 4 else 1)"
  "placeholders (images_rows_sql t r cr) = (if t then 6 else 3)"
  by (simp_all add: images_count_sql_def images_rows_sql_def images_having_def statement_placeholders)
    (simp_all add: placeholders_def)

text \<open>A connection that remembers what it was sent.\<close>

definition logging ::
  "('q \<Rightarrow> 'a \<Rightarrow> 'w \<Rightarrow> 'r \<times> 'w) \<Rightarrow> 'q \<Rightarrow> 'a \<Rightarrow> ('q \<times> 'a) list \<times> 'w \<Rightarrow> 'r \<times> ('q \<times> 'a) list \<times> 'w" where
  "logging f q a s = (case s of (lg, w) \<Rightarrow> (case f q a w of (r, w1) \<Rightarrow> (r, (lg @ [(q, a)], w1))))"

definition logged :: "'w dash_conn \<Rightarrow> ((string \<times> sql_arg list) list \<times> 'w) dash_conn" where
  "logged c = \<lparr>dq_recent = logging (dq_recent c), dq_stats = logging (dq_stats c), dq_reasons = logging (dq_reasons c),
     dq_count = logging (dq_count c), dq_images = logging (dq_images c)\<rparr>"

definition sends :: "('s \<Rightarrow> bool) \<Rightarrow> ('s list \<times> 'w \<Rightarrow> 'a \<times> 's list \<times> 'w) \<Rightarrow> bool" where
  "sends P f \<longleftrightarrow> (\<forall>lg w. \<exists>new w'. snd (f (lg, w)) = (lg @ new, w') \<and> list_all P new)"

lemma sendsD: "sends P f \<Longrightarrow> f (lg, w) = (r, s) \<Longrightarrow> \<exists>new w'. s = (lg @ new, w') \<and> list_all P new"
  unfolding sends_def by (metis snd_conv)

lemma sends_logging: "P (q, a) \<Longrightarrow> sends P (logging f q a)"
  by (auto simp: sends_def logging_def split: prod.split)

lemma sends_trans:
  assumes "sends P f" and "\<And>r. sends P (g r)"
  shows "sends P (\<lambda>s. case f s of (r, s1) \<Rightarrow> g r s1)"
  unfolding sends_def
proof (intro allI)
  fix lg w
  obtain r s1 where f: "f (lg, w) = (r, s1)" by (rule prod.exhaust)
  obtain new w1 where n: "s1 = (lg @ new, w1)" "list_all P new" using sendsD [OF assms(1) f] by blast
  obtain q s2 where g: "g r (lg @ new, w1) = (q, s2)" by (rule prod.exhaust)
  obtain new2 w2 where "s2 = ((lg @ new) @ new2, w2)" "list_all P new2" using sendsD [OF assms(2) g] by blast
  then show "\<exists>new w'. snd (case f (lg, w) of (r, s1) \<Rightarrow> g r s1) = (lg @ new, w') \<and> list_all P new"
    using n f g by (intro exI [of _ "new @ new2"] exI [of _ w2]) simp
qed

lemma sends_done: "sends P (\<lambda>s. (r, s))"
  by (auto simp: sends_def)

lemma statements_bound:
  "bound_statement search (stats_sql, [ArgTime since])" "bound_statement search (reasons_sql, [ArgTime since])"
  "if_text f = [] \<or> if_text f = search \<Longrightarrow>
     bound_statement search (images_count_sql (if_text f \<noteq> []) r cr, images_args since f)"
  "if_text f = [] \<or> if_text f = search \<Longrightarrow>
     bound_statement search (images_rows_sql (if_text f \<noteq> []) r cr, images_args since f @ [ArgInt m, ArgInt n])"
proof -
  have member: "images_count_sql t r cr \<in> set fixed_statements" "images_rows_sql t r cr \<in> set fixed_statements"
    for t r cr unfolding fixed_statements_def by (cases t; cases r; cases cr; simp)+
  show "bound_statement search (stats_sql, [ArgTime since])" "bound_statement search (reasons_sql, [ArgTime since])"
    by (simp_all add: bound_statement_def statement_placeholders) (simp_all add: fixed_statements_def)
  show "bound_statement search (images_count_sql (if_text f \<noteq> []) r cr, images_args since f)"
    "bound_statement search (images_rows_sql (if_text f \<noteq> []) r cr, images_args since f @ [ArgInt m, ArgInt n])"
    if "if_text f = [] \<or> if_text f = search"
    using that by (auto simp: bound_statement_def images_placeholders member images_args_def simp del: not_Cons_self2)
qed

lemma stats_sends: "sends (bound_statement search) (decision_stats_since (logged c) since)"
proof -
  let ?k = "\<lambda>total1 ok rejected p50 p95 p99 r. case r of Inl e \<Rightarrow> Inl e
     | Inr (rs, err) \<Rightarrow> (case scan_rows rs err of Inl e \<Rightarrow> Inl e
       | Inr reasons \<Rightarrow> Inr \<lparr>st_total = total1, st_passed = ok, st_rejected = rejected, st_p50 = p50, st_p95 = p95,
            st_p99 = p99, st_reject_reasons = reasons\<rparr>)"
  have "decision_stats_since (logged c) since = (\<lambda>s. case logging (dq_stats c) stats_sql [ArgTime since] s of (r, s1) \<Rightarrow>
     (case r of Inl e \<Rightarrow> (\<lambda>s1. (Inl e, s1))
      | Inr (total1, ok, rejected, p50, p95, p99) \<Rightarrow> (\<lambda>s1. case logging (dq_reasons c) reasons_sql [ArgTime since] s1 of
          (r2, s2) \<Rightarrow> (?k total1 ok rejected p50 p95 p99 r2, s2))) s1)"
    by (rule ext) (simp add: decision_stats_since_def logged_def split: prod.split sum.split)
  moreover have "sends (bound_statement search) (\<lambda>s. case logging (dq_stats c) stats_sql [ArgTime since] s of (r, s1) \<Rightarrow>
     (case r of Inl e \<Rightarrow> (\<lambda>s1. (Inl e, s1))
      | Inr (total1, ok, rejected, p50, p95, p99) \<Rightarrow> (\<lambda>s1. case logging (dq_reasons c) reasons_sql [ArgTime since] s1 of
          (r2, s2) \<Rightarrow> (?k total1 ok rejected p50 p95 p99 r2, s2))) s1)"
    by (intro sends_trans sends_logging statements_bound)
      (auto intro!: sends_trans sends_logging statements_bound sends_done split: sum.split prod.split)
  ultimately show ?thesis by simp
qed

lemma images_sends:
  assumes "if_text f = [] \<or> if_text f = search"
  shows "sends (bound_statement search) (query_images_page (logged c) since f limit offset)"
proof -
  let ?l = "if sint limit \<le> 0 then 10 else limit" and ?o = "if sint offset < 0 then 0 else offset"
    and ?sql = "\<lambda>q. q (if_text f \<noteq> []) (if_rejected_only f) (if_has_critical f)"
  let ?k = "\<lambda>total1 r. case r of Inl e \<Rightarrow> Inl e
     | Inr (rs, err) \<Rightarrow> (case scan_rows rs err of Inl e \<Rightarrow> Inl e | Inr rows \<Rightarrow> Inr \<lparr>ip_rows = rows, ip_total = total1\<rparr>)"
  let ?f = "\<lambda>s. case logging (dq_count c) (?sql images_count_sql) (images_args since f) s of (r, s1) \<Rightarrow>
     (case r of Inl e \<Rightarrow> (\<lambda>s1. (Inl e, s1))
      | Inr total1 \<Rightarrow> (\<lambda>s1. case logging (dq_images c) (?sql images_rows_sql)
           (images_args since f @ [ArgInt ?l, ArgInt ?o]) s1 of (r2, s2) \<Rightarrow> (?k total1 r2, s2))) s1"
  have "query_images_page (logged c) since f limit offset = ?f"
    by (rule ext) (simp add: query_images_page_def logged_def Let_def split: prod.split sum.split)
  moreover have "sends (bound_statement search) ?f"
    by (intro sends_trans sends_logging statements_bound assms)
      (auto intro!: sends_trans sends_logging statements_bound assms sends_done split: sum.split)
  ultimately show ?thesis by simp
qed

text \<open>A dashboard over the audit reader and a connection that remembers.\<close>

definition over_log :: "'w dash_conn \<Rightarrow> ((string \<times> sql_arg list) list \<times> 'w) dash_service \<Rightarrow> bool" where
  "over_log c s \<longleftrightarrow> (\<exists>ch. sc_reader s = audit_reader (logged c) ch)"

lemma dash_images_sends:
  assumes "over_log c s" and "if_text f = [] \<or> if_text f = search"
  shows "sends (bound_statement search) (dash_images s rng f page)"
  unfolding sends_def
proof (intro allI)
  fix lg w
  obtain ch where r: "sc_reader s = audit_reader (logged c) ch" using assms(1) by (auto simp: over_log_def)
  let ?q = "query_images_page (logged c) (since_for rng (sc_now s (lg, w))) f images_per_page
      (((if sint page < 1 then 1 else page) - 1) * images_per_page)"
  obtain a t where q: "?q (lg, w) = (a, t)" by (rule prod.exhaust)
  from sendsD [OF images_sends [OF assms(2)] q]
  show "\<exists>new w'. snd (dash_images s rng f page (lg, w)) = (lg @ new, w') \<and> list_all (bound_statement search) new"
    using q by (auto simp: dash_images_def audit_reader_def r Let_def split: sum.split)
qed

lemma dash_overview_sends:
  assumes "over_log c s"
  shows "sends (bound_statement search) (dash_overview s rng)"
  unfolding sends_def
proof (intro allI)
  fix lg w
  obtain ch where r: "sc_reader s = audit_reader (logged c) ch" using assms by (auto simp: over_log_def)
  let ?none = "\<lparr>if_text = [], if_has_critical = False, if_rejected_only = False\<rparr>"
  obtain st t where st: "decision_stats_since (logged c) (since_for rng (sc_now s (lg, w))) (lg, w) = (st, t)"
    by (rule prod.exhaust)
  obtain new w1 where n: "t = (lg @ new, w1)" "list_all (bound_statement search) new"
    using sendsD [OF stats_sends st] by blast
  have im: "sends (bound_statement search) (dash_images s rng ?none 1)"
    by (rule dash_images_sends [OF assms]) simp
  obtain img u where i: "dash_images s rng ?none 1 t = (img, u)" by (rule prod.exhaust)
  obtain new2 w2 where n2: "u = ((lg @ new) @ new2, w2)" "list_all (bound_statement search) new2"
    using sendsD [OF im i [unfolded n(1)]] by blast
  have "snd (dash_overview s rng (lg, w)) = (lg @ (new @ new2), w2)"
    using st i n2(1) by (simp add: dash_overview_def audit_reader_def r Let_def)
  then show "\<exists>new w'. snd (dash_overview s rng (lg, w)) = (lg @ new, w') \<and> list_all (bound_statement search) new"
    using n(2) n2(2) by (metis list_all_append)
qed


text \<open>An audit trail that is away, asked for the second page of a search.\<close>

definition away_conn :: "unit dash_conn" where
  "away_conn = \<lparr>dq_recent = (\<lambda>_ _ w. (Inl RedisNil, w)), dq_stats = (\<lambda>_ _ w. (Inl RedisNil, w)),
     dq_reasons = (\<lambda>_ _ w. (Inl RedisNil, w)), dq_count = (\<lambda>_ _ w. (Inl RedisNil, w)),
     dq_images = (\<lambda>_ _ w. (Inl RedisNil, w))\<rparr>"

definition away_service ::
  "((string \<times> sql_arg list) list \<times> unit) clickhouse_conn \<Rightarrow> ((string \<times> sql_arg list) list \<times> unit) dash_service" where
  "away_service ch = \<lparr>sc_reader = audit_reader (logged away_conn) ch, sc_gather = (\<lambda>_. Inl RedisNil),
     sc_now = (\<lambda>_. 0), sc_round = (\<lambda>x. x)\<rparr>"

definition evil_request :: "string \<Rightarrow> string" where
  "evil_request k = (if k = ''q'' then ''?) OR 1 = 1'' else if k = ''page'' then ''2'' else [])"

lemma away_log:
  "snd (overview_page (away_service ch) evil_request ([], ()))
   = ([(stats_sql, [ArgTime (- (24 * hour))]), (images_count_sql False False False, [ArgTime (- (24 * hour))]),
       (images_count_sql True False False, ArgTime (- (24 * hour)) # replicate 3 (ArgText ''?) OR 1 = 1''))], ())"
proof -
  have "sint (page_param ''2'') = 2" by code_simp
  then show ?thesis
    by (simp add: overview_page_def dash_overview_def dash_images_def away_service_def audit_reader_def
        decision_stats_since_def query_images_page_def logged_def logging_def away_conn_def evil_request_def
        image_filter_of_def images_args_def parse_range_def since_for_def range_length_def Let_def numeral_3_eq_3)
qed


section \<open>What the page does not do\<close>


text \<open>A list that depends on the search, seen through the JSON endpoint and through the page.\<close>

definition searching_service :: "unit dash_service" where
  "searching_service =
     \<lparr>sc_reader = \<lparr>dr_stats_since = (\<lambda>_ w. (Inl RedisNil, w)), dr_header_by_ref = (\<lambda>_ _ w. (Inl RedisNil, w)),
        dr_header_by_push = (\<lambda>_ w. (Inl RedisNil, w)), dr_findings_by_push = (\<lambda>_ w. (Inl RedisNil, w)),
        dr_findings_by_ref = (\<lambda>_ _ w. (Inl RedisNil, w)),
        dr_images_page = (\<lambda>_ f _ _ w. (Inr \<lparr>ip_rows = [], ip_total = (if if_text f = [] then 7 else 1)\<rparr>, w))\<rparr>,
      sc_gather = (\<lambda>w. Inl RedisNil), sc_now = (\<lambda>w. 0), sc_round = (\<lambda>x. x)\<rparr>"


section \<open>What the statistics count\<close>

text \<open>The first three columns of the statistics query.\<close>

definition counted :: "gotime \<Rightarrow> (gotime \<times> decision) list \<Rightarrow> nat \<times> nat \<times> nat" where
  "counted since rows =
     (let rs = map snd (filter (\<lambda>(t, d). since \<le> t) rows)
      in (length rs, length (filter ad_passed rs), length (filter (\<lambda>d. \<not> ad_passed d) rs)))"

text \<open>
  A promotion that is abandoned adds a row to the trail, and the statistics count that row as one more
  push and one more rejection, next to the push that passed.
\<close>

lemma abandoned_promotion_counts_as_rejection:
  assumes "since \<le> t"
  shows "counted since (finalize_promotion (Some (\<lambda>d fs rows. rows @ [(t, d)])) j False detail rows)
    = (case counted since rows of (n, ok, rejected) \<Rightarrow> (Suc n, ok, Suc rejected))"
  using assms by (simp add: finalize_promotion_def counted_def Let_def)

end
