(* ===== verification/Dashboard_Server.thy ===== *)
theory Dashboard_Server
  imports Dashboard_View Docker_Server
begin

text \<open>
  The routes of the dashboard (\<open>dashboard/server.go\<close>): which page or document a path is answered with. The
  renderer, the JSON encoder and the static files are the standard library's; an answer is what they are
  given.
\<close>

datatype dash_answer =
    OverviewPage overview_vm | ReportPage report_vm | ImagesJson images_vm | FindingsJson "finding_vm list"
  | EventStream | StaticFile string | Redirect string

definition report_json :: "'w dash_service \<Rightarrow> (string \<Rightarrow> string) \<Rightarrow> 'w \<Rightarrow> finding_vm list \<times> 'w" where
  "report_json s q w = (case report_page s q w of (vm, w1) \<Rightarrow> (rv_findings vm, w1))"

text \<open>\<open>/static/\<close> is a subtree, the others are paths; everything else is the overview.\<close>

definition dash_serve ::
  "'w dash_service \<Rightarrow> string \<Rightarrow> (string \<Rightarrow> string) \<Rightarrow> 'w \<Rightarrow> dash_answer \<times> 'w" where
  "dash_serve s path q w =
     (if path = ''/static'' then (Redirect ''/static/'', w)
      else if mux_clean path \<noteq> path then (Redirect (mux_clean path), w)
      else if path = ''/report'' then (case report_page s q w of (vm, w1) \<Rightarrow> (ReportPage vm, w1))
      else if path = ''/api/dashboard/images'' then (case images_json s q w of (vm, w1) \<Rightarrow> (ImagesJson vm, w1))
      else if path = ''/api/dashboard/report.json''
      then (case report_json s q w of (fs, w1) \<Rightarrow> (FindingsJson fs, w1))
      else if path = ''/api/dashboard/stream'' then (EventStream, w)
      else if has_prefix path ''/static/'' then (StaticFile (trim_prefix path ''/static/''), w)
      else (case overview_page s q w of (vm, w1) \<Rightarrow> (OverviewPage vm, w1)))"

text \<open>
  The page of a report tells an outage from a missing report; the document of its findings does not: an
  audit trail that cannot be reached, a report that does not exist and an image without findings are all
  answered with no findings.
\<close>

lemma report_json_hides_outage:
  assumes "q ''push_id'' = i" "i \<noteq> []" and "dr_header_by_push (sc_reader s) i w = (Inl e, w1)"
  shows "fst (dash_serve s ''/api/dashboard/report.json'' q w) = FindingsJson []"
proof -
  have "mux_clean ''/api/dashboard/report.json'' = ''/api/dashboard/report.json''" by code_simp
  moreover have "report_page s q w = (zero_report\<lparr>rv_errored := True\<rparr>, w1)"
    using assms by (simp add: report_page_def dash_report_def fetch_dash_report_def)
  ultimately show ?thesis by (simp add: dash_serve_def report_json_def zero_report_def)
qed

end
