(* ===== verification/Spec2Isabelle.thy ===== *)
theory Spec2Isabelle
  imports Acr_Classify Policy_Engine Base_Image Grype_Policy Gate_Router Tenants Promote_Crash Staging_Sweep Docker_Forward_Laws Docker_Ownership Docker_Chunked Scan_Cache Report_Lookup App_Wiring_Laws App_Lifecycle_Laws Dashboard_Feed_Laws Dashboard_View_Laws Alert_Laws Alert_Slack Acr_Push App_Modes Promote_Wiring Metrics Audit_Queries Dashboard_Server
begin

text \<open>
  Merlin is a gate in front of Docker registries. A client pushes an image to Merlin; Merlin buffers it,
  assembles it, scans it, and publishes it to the registry of the client's tenant only if every policy
  passed. This development models the Go program under \<open>src/\<close> and proves what makes it correct. File names
  below are relative to \<open>src/internal/\<close> where no other directory is named.

  \<^bold>\<open>A push, from end to end.\<close> The ingress (\<open>ingress/docker\<close>) resolves the host to a tenant, authenticates the
  request with a token Merlin minted itself, and takes blobs in chunks into the staging store
  (\<open>staging\<close>: sessions and reference counts in Valkey, bytes in a blob store). The manifest completes the
  push: the blobs are assembled into an OCI layout on the pod's disk, the gate (\<open>router\<close>, \<open>policy\<close>,
  \<open>policies\<close>) runs under a scan slot, and the outcome decides the response, the audit row and the
  publication, which is a job on a durable queue (\<open>promote\<close>). A worker on any replica takes the job,
  rebuilds the layout if another pod assembled it, pushes it (\<open>acr\<close>), and releases what was staged. Every
  decision goes through an asynchronous auditor to ClickHouse (\<open>audit\<close>), which the report endpoint, the
  dashboard (\<open>dashboard\<close>) and the alerter (\<open>alert\<close>) read. \<open>config\<close> is what the process starts from, \<open>app\<close>
  and \<open>cmd/merlin\<close> build the parts, run them and release them.

  \<^bold>\<open>Conventions.\<close> A struct is a record, a tagged value a datatype, an interface a record of functions
  on a state \<open>'w\<close> that a call threads; an optional interface or a nil collaborator is an option. An error is
  a value of \<open>goerr\<close>, whose constructors are the program's sentinels and the library errors it tells apart;
  a fallible call gives \<open>goerr + 'a\<close>, written \<open>'a res\<close>. A Go string is a list of bytes. Times and
  durations are nanoseconds in \<open>int\<close>; integers the program does arithmetic on are words of their width
  where a value can wrap around (sizes, counts, the dashboard's pages, memory limits); a float64 is a
  real with an arbitrary rounding function. Maps are functions to options. A goroutine is a step or a
  loop over a schedule; what a mutex protects is one step. Log lines are left out.

  \<^bold>\<open>The theories.\<close>
  \<^item> Language and libraries: \<open>Merlin_Prelude\<close> (\<open>strings\<close>, \<open>strconv\<close>, shared lemmas, the collection
    \<open>go_simps\<close>), \<open>Go_Errors\<close>, \<open>Go_Parse\<close>, \<open>Go_Path\<close>, \<open>Go_Sort\<close>, \<open>Go_Http\<close>, \<open>File_System\<close>
    (directories, files and faults), \<open>Valkey\<close> (a keyspace with lifetimes, its commands as a record, and the
    laws the program relies on as locales, interpreted on that keyspace).
  \<^item> Configuration and start: \<open>Config\<close>, \<open>Config_Laws\<close> (\<open>config\<close>); \<open>App_Wiring\<close>, \<open>App_Wiring_Laws\<close>
    (\<open>app/components.go\<close>, \<open>app.go\<close>: tenants, policies, ingress); \<open>App_Lifecycle\<close>, \<open>App_Lifecycle_Laws\<close>
    (closers, \<open>BuildWithBackends\<close>, \<open>app/run.go\<close>); \<open>App_Modes\<close> (\<open>Build\<close>, \<open>cmd/merlin/main.go\<close>);
    \<open>Promote_Wiring\<close> (\<open>startPromoteWorker\<close>, \<open>startSamplers\<close>).
  \<^item> The gate: \<open>Policy_Engine\<close> (\<open>policy\<close>), \<open>Grype_Policy\<close> and \<open>Scan_Process\<close> (\<open>policies/grype\<close>, \<open>limitexec\<close>),
    \<open>Scan_Cache\<close> (\<open>scancache\<close>), \<open>Base_Image\<close>, \<open>Image_Age\<close>, \<open>Gate_Router\<close> (\<open>router\<close>), \<open>Tenants\<close> (\<open>tenant\<close>).
  \<^item> Staging: \<open>Staging_Store\<close> (\<open>staging.go\<close>), \<open>Staging_Backends\<close> (\<open>memory.go\<close>, \<open>valkey.go\<close>,
    \<open>azureblob.go\<close>), \<open>Staging_Refs\<close> (reference counts of concurrent pushes), \<open>Staging_Assemble\<close> and
    \<open>Staging_Layout\<close> (\<open>assemble.go\<close>), \<open>Staging_Sweep\<close> (\<open>sweep.go\<close>).
  \<^item> The ingress: \<open>Auth_Tokens\<close> (\<open>auth\<close>, \<open>token.go\<close>), \<open>Docker_Manifest\<close> (\<open>classify.go\<close>, paths),
    \<open>Docker_Handler\<close> (\<open>handler.go\<close>), \<open>Docker_Upload\<close>, \<open>Docker_Slots\<close>, \<open>Docker_Outcome\<close>, \<open>Docker_Gate\<close> and
    \<open>Docker_Server\<close> (\<open>manifest.go\<close>, \<open>report.go\<close>, routing), with their laws in \<open>Docker_Gate_Laws\<close>,
    \<open>Docker_Push_Safety\<close>, \<open>Docker_Ownership\<close>, \<open>Docker_Access\<close>, \<open>Docker_Answers\<close>, \<open>Docker_Chunked\<close> and
    \<open>Docker_Forward_Laws\<close>.
  \<^item> Publication: \<open>Acr_Classify\<close>, \<open>Acr_Push\<close> (\<open>acr\<close>), \<open>Promote_Queue\<close> and \<open>Promote_Valkey\<close> (the two queues),
    \<open>Promote_Worker\<close> (\<open>worker.go\<close>), \<open>Promote_Safety\<close> and \<open>Promote_Crash\<close> (any collaborators, and a
    process that can die between any two effects).
  \<^item> Records: \<open>Audit_Decision\<close>, \<open>Audit_Buffer\<close> (\<open>buffer.go\<close>), \<open>Audit_Store\<close> (\<open>clickhouse.go\<close>), \<open>Audit_Queries\<close>
    (\<open>dashboard_queries.go\<close>), \<open>Report_Lookup\<close> (from a pushed index to the report of its tag), \<open>Metrics\<close>
    (\<open>observability\<close>), \<open>Dashboard_Feed\<close>, \<open>Dashboard_View\<close> and their laws, \<open>Dashboard_Server\<close> (routes), \<open>Alert_Signature\<close>,
    \<open>Alert_Detect\<close>, \<open>Alert_Runner\<close>, \<open>Alert_Slack\<close> and \<open>Alert_Laws\<close> (\<open>alert\<close>, \<open>app/alerts.go\<close>).

  \<^bold>\<open>State and operations.\<close> What replicas share (keyspace, tables, registries) and a pod's file system are the
  two halves of the ingress's state, \<open>'w pod\<close>. The staging store acts on a blob store and a session store
  (\<open>blob_store\<close>, \<open>session_store\<close>); Lua scripts are single functions on the keyspace, as Valkey runs them. The
  queues keep pending jobs, claims and their times (\<open>mem_queue\<close>, \<open>valkey_queue\<close>); the pool keeps its holders;
  the auditor keeps its queue and the flushes it has answered; the broadcaster a heap of channels;
  the alerter only its table of notifications; the credential one token and its expiry; the process a log of
  what it opened and closed. Each exported function or method that changes state is one definition, named
  after it, with a branch for every error it returns and every early return.

  \<^bold>\<open>Contracts.\<close> Where a component relies on another, the promise is a locale, the client's lemmas are
  proved in it, and it is interpreted on the model's own definitions: a promotion queue
  (\<open>promote_queue_spec\<close>, on the in-process and on the Valkey queue), the collaborators of the worker
  (\<open>promotion_env\<close>), a staging back end (\<open>staging_backend\<close>, on memory and on Valkey), the two session
  contracts, a semaphore (\<open>slot_spec\<close>, on the scan pool and the upload slots), a report store
  (\<open>scan_store\<close>), an audit sink and a ClickHouse connection (\<open>audit_sink\<close>, \<open>clickhouse\<close>), an alert
  channel (\<open>alert_channel\<close>), and the commands of the server (\<open>valkey_queues\<close>, \<open>valkey_strings\<close>,
  \<open>valkey_ttl\<close>).

  \<^bold>\<open>What is proved.\<close> A client is told 201 only for a gated image; a push that is not published does not
  depend on the publisher; the engine fails closed and the gate that runs is the configured one; the
  response and the audit row agree. A token authenticates on its tenant only, tenants reach only their own
  registry, and a misspelt mode admits nobody. Staged bytes have one owner, blobs another push holds
  survive, extraction is confined, the layout is what the manifest says, also when another replica rebuilds
  it. An accepted promotion survives faults and crashes, and clean-up happens only when no retry
  follows. Audit rows are not lost silently, references resolve to the right push, an outage is not taken
  for a clean image, and no request text becomes part of a statement. Every run releases what it
  opened, in order. The alerter announces what is due; the dashboard shows what was recorded. Some
  theorems state what the code does where it is not what was meant: a manifest with a \<open>manifests\<close> field
  skips the gate, a layer listed twice releases another push's blob, an image pushed with provenance has
  no report under its tag, the live feed's frames never end, the overview's filters have no effect, a loud
  signature can keep a quiet one from being announced.

  \<^bold>\<open>Bounds and fuel.\<close> The wait for an index's references is a \<open>partial_function\<close> on options; that it ends is
  a theorem, for a clock that moves on while it waits. The promotion worker and the samplers run until
  their context is done, so their loops take a number of rounds, and the theorems hold for every number.
  The crash model counts the effects until the process dies, any number of them. The alerter, the event
  stream and the auditor run over a schedule of ticks or operations, again any. Retries of an audit write
  are bounded by the code and recursive on what is left. Examples and witnesses run on small concrete states.

  \<^bold>\<open>Parameters.\<close> Code that is not under \<open>src/\<close> is an argument: JSON, gzip, tar and time codecs, the hash, the JWT
  library and the key sets, the Azure SDK, go-containerregistry, the HTTP client, ClickHouse, Prometheus' client,
  the scanner process, clocks, random bytes and the scheduler. Where a theorem needs a law of one (a JWT that
  verifies was signed with the key; SHA-256 prints as lower-case hexadecimal; a temporary name does not end in a
  dot) it is a named hypothesis, and its witness shows that it can hold.

  \<^bold>\<open>Not modelled.\<close> The HTML templates and the static files (\<open>dashboard/templates.go\<close>) and the
  JSON encoders, which only render what a handler gives them; the scrape handler of the metrics; \<open>auth/jwks.go\<close>, which wraps a library that refreshes keys in the background;
  the non-Linux stub of \<open>limitexec\<close>; the SQL schema beyond the statements that are sent, and what ClickHouse
  computes for the aggregating queries; timeouts of individual connections, which only make a call fail;
  the build tasks (\<open>magefile.go\<close>), Helm charts, scripts and tests.
\<close>

end
